(* ===== verification/Prelude.thy ===== *)
theory Prelude
  imports Main "HOL-Library.AList" "HOL-Library.Char_ord" "HOL-Library.List_Lexorder"
    "HOL-Library.Product_Lexorder" "HOL-Library.Word"
begin

text \<open>
  What the components share: the theorem collections of the development, the result
  type of fallible operations, Go's maps, Go's strings and the parts of the packages
  strings, strconv and encoding/hex the program calls, and 64-bit wrap-around.

  A Go string is a sequence of bytes, and so is HOL's \<^typ>\<open>string\<close> (a list of 8-bit
  characters); \<open><\<close> on it is the bytewise lexicographic order of Go's \<open><\<close>.
  The case and space functions are those of the ASCII range: the program applies them to
  header values, hex digits and protocol keywords.
\<close>

named_theorems gomap_simps \<open>lookup after update and delete, key sets, distinctness\<close>
named_theorems str_simps \<open>the models of Go's strings and strconv functions\<close>
named_theorems wf_intros \<open>every operation keeps the invariant of its component\<close>

section \<open>Results\<close>

text \<open>A call that returns \<open>(value, error)\<close>: \<open>Inl\<close> the error, \<open>Inr\<close> the value.\<close>

type_synonym ('e, 'a) result = "'e + 'a"

definition rbind :: "('e, 'a) result \<Rightarrow> ('a \<Rightarrow> ('e, 'b) result) \<Rightarrow> ('e, 'b) result" where
  "rbind r f = (case r of Inl e \<Rightarrow> Inl e | Inr a \<Rightarrow> f a)"

lemma rbind_simps [simp]: "rbind (Inl e) f = Inl e" "rbind (Inr a) f = f a"
  by (simp_all add: rbind_def)

lemma rbind_Inr_iff: "rbind r f = Inr b \<longleftrightarrow> (\<exists>a. r = Inr a \<and> f a = Inr b)"
  by (cases r) auto

section \<open>Go maps\<close>

text \<open>
  A Go map is an association list with distinct keys; the order of the list is the
  (unspecified) iteration order.
\<close>

type_synonym ('k, 'v) gomap = "('k \<times> 'v) list"

abbreviation gm_get :: "('k, 'v) gomap \<Rightarrow> 'k \<Rightarrow> 'v option" where
  "gm_get \<equiv> map_of"

abbreviation gm_put :: "'k \<Rightarrow> 'v \<Rightarrow> ('k, 'v) gomap \<Rightarrow> ('k, 'v) gomap" where
  "gm_put \<equiv> AList.update"

abbreviation gm_del :: "'k \<Rightarrow> ('k, 'v) gomap \<Rightarrow> ('k, 'v) gomap" where
  "gm_del \<equiv> AList.delete"

definition gm_wf :: "('k, 'v) gomap \<Rightarrow> bool" where
  "gm_wf m \<longleftrightarrow> distinct (map fst m)"

lemma gm_wf_Nil [simp, wf_intros]: "gm_wf []"
  by (simp add: gm_wf_def)

lemma gm_wf_put [wf_intros]: "gm_wf m \<Longrightarrow> gm_wf (gm_put k v m)"
  by (simp add: gm_wf_def distinct_update)

lemma gm_wf_del [wf_intros]: "gm_wf m \<Longrightarrow> gm_wf (gm_del k m)"
  by (simp add: gm_wf_def distinct_delete)

lemma gm_get_put [gomap_simps, simp]:
  "gm_get (gm_put k v m) k' = (if k' = k then Some v else gm_get m k')"
  by (simp add: update_conv')

lemma gm_get_del [gomap_simps, simp]:
  "gm_get (gm_del k m) k' = (if k' = k then None else gm_get m k')"
  by (simp add: delete_conv')

lemma gm_in_set_iff: "gm_wf m \<Longrightarrow> (k, v) \<in> set m \<longleftrightarrow> gm_get m k = Some v"
  by (simp add: gm_wf_def)

lemma gm_set_put [gomap_simps]:
  "gm_wf m \<Longrightarrow> (k', v') \<in> set (gm_put k v m) \<longleftrightarrow>
     (if k' = k then v' = v else (k', v') \<in> set m)"
  using gm_in_set_iff [of "gm_put k v m"] gm_in_set_iff [of m] gm_wf_put [of m k v]
  by (cases "k' = k") auto

lemma gm_set_del [gomap_simps]:
  "gm_wf m \<Longrightarrow> (k', v') \<in> set (gm_del k m) \<longleftrightarrow> k' \<noteq> k \<and> (k', v') \<in> set m"
  using gm_in_set_iff [of "gm_del k m"] gm_in_set_iff [of m] gm_wf_del [of m k]
  by (cases "k' = k") auto

lemma gm_get_None_iff: "gm_get m k = None \<longleftrightarrow> k \<notin> fst ` set m"
  by (simp add: map_of_eq_None_iff)

text \<open>An invariant of every entry of a map, and how updates keep it.\<close>

definition gm_all :: "('k \<Rightarrow> 'v \<Rightarrow> bool) \<Rightarrow> ('k, 'v) gomap \<Rightarrow> bool" where
  "gm_all P m \<longleftrightarrow> gm_wf m \<and> (\<forall>(k, v) \<in> set m. P k v)"

lemma gm_all_Nil [simp, wf_intros]: "gm_all P []"
  by (simp add: gm_all_def)

lemma gm_all_put [wf_intros]: "gm_all P m \<Longrightarrow> P k v \<Longrightarrow> gm_all P (gm_put k v m)"
  by (auto simp: gm_all_def gomap_simps wf_intros split: if_splits)

lemma gm_all_del [wf_intros]: "gm_all P m \<Longrightarrow> gm_all P (gm_del k m)"
  by (auto simp: gm_all_def gomap_simps wf_intros)

lemma gm_allD: "gm_all P m \<Longrightarrow> gm_get m k = Some v \<Longrightarrow> P k v"
  by (auto simp: gm_all_def dest: map_of_SomeD)

lemma gm_all_wf: "gm_all P m \<Longrightarrow> gm_wf m"
  by (simp add: gm_all_def)

section \<open>64-bit integers\<close>

text \<open>
  Go's \<open>int\<close> and \<open>int64\<close> are 64 bits wide and wrap around. They are \<^typ>\<open>int\<close>
  here, with \<open>wrap64\<close> written where an operation can leave the range.
\<close>

definition wrap64 :: "int \<Rightarrow> int" where
  "wrap64 x = (x + 2 ^ 63) mod 2 ^ 64 - 2 ^ 63"

definition in_int64 :: "int \<Rightarrow> bool" where
  "in_int64 x \<longleftrightarrow> - (2 ^ 63) \<le> x \<and> x < 2 ^ 63"

lemma wrap64_range: "in_int64 (wrap64 x)"
proof -
  have "0 \<le> (x + 2 ^ 63) mod 2 ^ 64" and "(x + 2 ^ 63) mod 2 ^ 64 < 2 ^ 64"
    by simp_all
  then show ?thesis by (simp add: wrap64_def in_int64_def)
qed

lemma wrap64_id: "in_int64 x \<Longrightarrow> wrap64 x = x"
  by (simp add: wrap64_def in_int64_def mod_pos_pos_trivial)

text \<open>It is the two's-complement reading of the 64-bit word.\<close>

lemma wrap64_word: "wrap64 x = sint (word_of_int x :: 64 word)"
  by (simp add: wrap64_def sint_sbintrunc' signed_take_bit_eq_take_bit_shift take_bit_eq_mod)

end
