(* ===== verification/Go_Strings.thy ===== *)
theory Go_Strings
  imports Prelude
begin

text \<open>
  The functions of Go's packages strings, strconv and encoding/hex that the program
  calls, on byte strings, with the lemmas the components use: prefixes and the order,
  splitting and joining, decimal and hexadecimal round trips.
\<close>

section \<open>Package strings\<close>

definition HasPrefix :: "string \<Rightarrow> string \<Rightarrow> bool" where
  "HasPrefix s p \<longleftrightarrow> take (length p) s = p"

definition HasSuffix :: "string \<Rightarrow> string \<Rightarrow> bool" where
  "HasSuffix s p \<longleftrightarrow> length p \<le> length s \<and> drop (length s - length p) s = p"

text \<open>\<open>strings.Index\<close>: \<open>None\<close> is the result \<open>-1\<close>.\<close>

fun strings_Index :: "string \<Rightarrow> string \<Rightarrow> nat option" where
  "strings_Index [] sub = (if sub = [] then Some 0 else None)"
| "strings_Index (c # s) sub =
     (if HasPrefix (c # s) sub then Some 0 else map_option Suc (strings_Index s sub))"

definition strings_Contains :: "string \<Rightarrow> string \<Rightarrow> bool" where
  "strings_Contains s sub \<longleftrightarrow> strings_Index s sub \<noteq> None"

definition strings_Cut :: "string \<Rightarrow> string \<Rightarrow> string \<times> string \<times> bool" where
  "strings_Cut s sep =
     (case strings_Index s sep of
        Some i \<Rightarrow> (take i s, drop (i + length sep) s, True)
      | None \<Rightarrow> (s, [], False))"

definition strings_CutPrefix :: "string \<Rightarrow> string \<Rightarrow> string \<times> bool" where
  "strings_CutPrefix s p = (if HasPrefix s p then (drop (length p) s, True) else (s, False))"

definition strings_TrimPrefix :: "string \<Rightarrow> string \<Rightarrow> string" where
  "strings_TrimPrefix s p = (if HasPrefix s p then drop (length p) s else s)"

definition strings_TrimSuffix :: "string \<Rightarrow> string \<Rightarrow> string" where
  "strings_TrimSuffix s p = (if HasSuffix s p then take (length s - length p) s else s)"

text \<open>\<open>strings.Split\<close> by a one-byte separator.\<close>

fun strings_Split :: "string \<Rightarrow> char \<Rightarrow> string list" where
  "strings_Split [] c = [[]]"
| "strings_Split (x # s) c =
     (if x = c then [] # strings_Split s c
      else (case strings_Split s c of [] \<Rightarrow> [[x]] | w # ws \<Rightarrow> (x # w) # ws))"

fun strings_Join :: "string list \<Rightarrow> string \<Rightarrow> string" where
  "strings_Join [] sep = []"
| "strings_Join [s] sep = s"
| "strings_Join (s # t # ss) sep = s @ sep @ strings_Join (t # ss) sep"

definition go_space :: "char \<Rightarrow> bool" where
  "go_space c \<longleftrightarrow> of_char c \<in> {9, 10, 11, 12, 13, 32 :: nat}"

definition strings_TrimFunc :: "string \<Rightarrow> (char \<Rightarrow> bool) \<Rightarrow> string" where
  "strings_TrimFunc s f = rev (dropWhile f (rev (dropWhile f s)))"

definition strings_TrimSpace :: "string \<Rightarrow> string" where
  "strings_TrimSpace s = strings_TrimFunc s go_space"

definition char_ToLower :: "char \<Rightarrow> char" where
  "char_ToLower c = (let n = of_char c :: nat in if 65 \<le> n \<and> n \<le> 90 then char_of (n + 32) else c)"

definition char_ToUpper :: "char \<Rightarrow> char" where
  "char_ToUpper c = (let n = of_char c :: nat in if 97 \<le> n \<and> n \<le> 122 then char_of (n - 32) else c)"

definition strings_ToLower :: "string \<Rightarrow> string" where
  "strings_ToLower s = map char_ToLower s"

definition strings_ToUpper :: "string \<Rightarrow> string" where
  "strings_ToUpper s = map char_ToUpper s"

definition strings_EqualFold :: "string \<Rightarrow> string \<Rightarrow> bool" where
  "strings_EqualFold s t \<longleftrightarrow> strings_ToLower s = strings_ToLower t"

lemma HasPrefix_iff: "HasPrefix s p \<longleftrightarrow> (\<exists>t. s = p @ t)"
  by (auto simp: HasPrefix_def) (metis append_take_drop_id)

lemma HasPrefix_append [simp]: "HasPrefix (p @ t) p"
  by (simp add: HasPrefix_def)

lemma HasPrefix_Nil [simp]: "HasPrefix s []"
  by (simp add: HasPrefix_def)

lemma HasPrefix_Cons [simp]: "HasPrefix (c # s) (d # p) \<longleftrightarrow> c = d \<and> HasPrefix s p"
  by (auto simp: HasPrefix_def)

lemma HasPrefix_Nil_left [simp]: "HasPrefix [] p \<longleftrightarrow> p = []"
  by (auto simp: HasPrefix_def)

lemma HasPrefix_drop: "HasPrefix s p \<Longrightarrow> s = p @ drop (length p) s"
  by (metis HasPrefix_def append_take_drop_id)

lemma HasSuffix_iff: "HasSuffix s p \<longleftrightarrow> (\<exists>t. s = t @ p)"
  by (auto simp: HasSuffix_def) (metis append_take_drop_id)

lemma strings_Index_Some:
  "strings_Index s sub = Some i \<Longrightarrow> s = take i s @ sub @ drop (i + length sub) s"
proof (induction s arbitrary: i)
  case Nil
  then show ?case by (simp split: if_splits)
next
  case (Cons c s)
  show ?case
  proof (cases "HasPrefix (c # s) sub")
    case True
    with Cons.prems HasPrefix_drop [OF True] show ?thesis by simp
  next
    case False
    with Cons.prems obtain j where "strings_Index s sub = Some j" and "i = Suc j" by auto
    with Cons.IH [of j] show ?thesis by simp
  qed
qed

lemma strings_Index_bound: "strings_Index s sub = Some i \<Longrightarrow> i + length sub \<le> length s"
proof (induction s arbitrary: i)
  case Nil
  then show ?case by (simp split: if_splits)
next
  case (Cons c s)
  show ?case
  proof (cases "HasPrefix (c # s) sub")
    case True
    then have "length sub \<le> length (c # s)" by (metis HasPrefix_def nat_le_linear take_all)
    with Cons.prems True show ?thesis by simp
  next
    case False
    with Cons.prems obtain j where "strings_Index s sub = Some j" and "i = Suc j" by auto
    with Cons.IH [of j] show ?thesis by simp
  qed
qed

lemma strings_Index_char: "strings_Index s [c] = None \<longleftrightarrow> c \<notin> set s"
  by (induction s) auto

lemma strings_Cut_char_append:
  "c \<notin> set a \<Longrightarrow> strings_Cut (a @ c # b) [c] = (a, b, True)"
proof -
  assume a: "c \<notin> set a"
  have "strings_Index (a @ c # b) [c] = Some (length a)"
    using a by (induction a) auto
  then show ?thesis by (simp add: strings_Cut_def)
qed

lemma strings_Split_not_Nil [simp]: "strings_Split s c \<noteq> []"
  by (cases s) (auto split: list.splits)

lemma strings_Split_notin: "w \<in> set (strings_Split s c) \<Longrightarrow> c \<notin> set w"
  by (induction s arbitrary: w) (auto split: if_splits list.splits)

lemma strings_Join_Split: "strings_Join (strings_Split s c) [c] = s"
proof (induction s)
  case Nil
  then show ?case by simp
next
  case (Cons x s)
  obtain w ws where w: "strings_Split s c = w # ws"
    by (cases "strings_Split s c") auto
  with Cons show ?case by (cases ws) auto
qed

section \<open>Package strconv\<close>

definition digit_val :: "char \<Rightarrow> nat option" where
  "digit_val c = (let n = of_char c :: nat in
     if 48 \<le> n \<and> n \<le> 57 then Some (n - 48)
     else if 97 \<le> n \<and> n \<le> 102 then Some (n - 87)
     else if 65 \<le> n \<and> n \<le> 70 then Some (n - 55)
     else None)"

fun parse_digits :: "nat \<Rightarrow> int \<Rightarrow> string \<Rightarrow> int option" where
  "parse_digits base acc [] = Some acc"
| "parse_digits base acc (c # s) =
     (case digit_val c of
        None \<Rightarrow> None
      | Some d \<Rightarrow> if d < base then parse_digits base (acc * int base + int d) s else None)"

text \<open>
  \<open>strconv.ParseInt(s, base, 64)\<close> for base 10 and 16: an optional sign, at least one
  digit, and the value in range; \<open>None\<close> is the error. \<open>strconv.Atoi\<close> is base 10 on a
  64-bit platform.
\<close>

definition strconv_ParseInt :: "nat \<Rightarrow> string \<Rightarrow> int option" where
  "strconv_ParseInt base s =
     (let neg = HasPrefix s ''-'';
          ds = (if neg \<or> HasPrefix s ''+'' then tl s else s)
      in if ds = [] then None
         else case parse_digits base 0 ds of
                None \<Rightarrow> None
              | Some n \<Rightarrow> (let v = (if neg then - n else n) in
                           if in_int64 v then Some v else None))"

abbreviation strconv_Atoi :: "string \<Rightarrow> int option" where
  "strconv_Atoi \<equiv> strconv_ParseInt 10"

fun show_nat :: "nat \<Rightarrow> string" where
  "show_nat n = (if n < 10 then [char_of (48 + n)] else show_nat (n div 10) @ [char_of (48 + n mod 10)])"

declare show_nat.simps [simp del]

text \<open>\<open>strconv.Itoa\<close>, \<open>strconv.FormatInt(_, 10)\<close> and the verb \<open>%d\<close>.\<close>

definition strconv_Itoa :: "int \<Rightarrow> string" where
  "strconv_Itoa i = (if i < 0 then CHR ''-'' # show_nat (nat (- i)) else show_nat (nat i))"

lemma digit_val_char_of [simp]: "d < 10 \<Longrightarrow> digit_val (char_of (48 + d)) = Some d"
  by (simp add: digit_val_def Let_def)

lemma parse_digits_append:
  "parse_digits b acc (s @ t) =
     (case parse_digits b acc s of None \<Rightarrow> None | Some n \<Rightarrow> parse_digits b n t)"
  by (induction s arbitrary: acc) (auto split: option.splits)

lemma show_nat_not_Nil [simp]: "show_nat n \<noteq> []"
  by (subst show_nat.simps) simp

lemma show_nat_digit: "c \<in> set (show_nat n) \<Longrightarrow> 48 \<le> (of_char c :: nat) \<and> (of_char c :: nat) \<le> 57"
proof (induction n rule: show_nat.induct)
  case (1 n)
  show ?case
  proof (cases "n < 10")
    case True
    with "1.prems" show ?thesis by (simp add: show_nat.simps [of n])
  next
    case False
    then have "c \<in> set (show_nat (n div 10)) \<or> c = char_of (48 + n mod 10)"
      using "1.prems" by (auto simp: show_nat.simps [of n])
    then show ?thesis
    proof
      assume "c \<in> set (show_nat (n div 10))"
      with "1.IH" False show ?thesis by simp
    next
      have "n mod 10 < 10" by simp
      then have "48 + n mod 10 < 256" by linarith
      moreover assume "c = char_of (48 + n mod 10)"
      ultimately show ?thesis using \<open>n mod 10 < 10\<close> by (simp add: of_char_of)
    qed
  qed
qed

lemma parse_digits_show_nat: "parse_digits 10 0 (show_nat n) = Some (int n)"
proof (induction n rule: show_nat.induct)
  case (1 n)
  show ?case
  proof (cases "n < 10")
    case True
    then show ?thesis by (simp add: show_nat.simps [of n])
  next
    case False
    have "digit_val (char_of (48 + n mod 10)) = Some (n mod 10)" by simp
    moreover have "int (n div 10) * 10 + int (n mod 10) = int n" by (simp add: zdiv_int zmod_int)
    ultimately show ?thesis using "1.IH" [OF False] False
      by (simp add: show_nat.simps [of n] parse_digits_append)
  qed
qed

lemma show_nat_no_sign:
  "\<not> HasPrefix (show_nat n) ''-''" "\<not> HasPrefix (show_nat n) ''+''"
  using show_nat_digit [of "hd (show_nat n)" n] show_nat_not_Nil [of n]
  by (cases "show_nat n"; auto)+

lemma Itoa_no_dash: "0 \<le> i \<Longrightarrow> CHR ''-'' \<notin> set (strconv_Itoa i)"
  using show_nat_digit [of "CHR ''-''" "nat i"] by (auto simp: strconv_Itoa_def)

lemma strconv_Itoa_not_Nil [simp]: "strconv_Itoa i \<noteq> []"
  by (simp add: strconv_Itoa_def)

text \<open>Printing and parsing a decimal are inverse on the 64-bit range.\<close>

lemma ParseInt_Itoa: "in_int64 i \<Longrightarrow> strconv_ParseInt 10 (strconv_Itoa i) = Some i"
  by (auto simp: strconv_ParseInt_def strconv_Itoa_def Let_def show_nat_no_sign parse_digits_show_nat)

lemma ParseInt_range: "strconv_ParseInt b s = Some i \<Longrightarrow> in_int64 i"
  by (auto simp: strconv_ParseInt_def Let_def split: option.splits if_splits)

section \<open>Package encoding/hex\<close>

definition hex_digit :: "nat \<Rightarrow> char" where
  "hex_digit n = (if n < 10 then char_of (48 + n) else char_of (87 + n))"

fun hex_EncodeToString :: "string \<Rightarrow> string" where
  "hex_EncodeToString [] = []"
| "hex_EncodeToString (c # s) =
     (let n = of_char c :: nat in hex_digit (n div 16) # hex_digit (n mod 16) # hex_EncodeToString s)"

text \<open>\<open>hex.DecodeString\<close>: \<open>None\<close> on an odd length or a character that is no hex digit.\<close>

fun hex_DecodeString :: "string \<Rightarrow> string option" where
  "hex_DecodeString [] = Some []"
| "hex_DecodeString [c] = None"
| "hex_DecodeString (c # d # s) =
     (case (digit_val c, digit_val d, hex_DecodeString s) of
        (Some x, Some y, Some t) \<Rightarrow> Some (char_of (16 * x + y) # t)
      | _ \<Rightarrow> None)"

lemma digit_val_hex_digit: "n < 16 \<Longrightarrow> digit_val (hex_digit n) = Some n"
  by (auto simp: hex_digit_def digit_val_def Let_def)

lemma digit_val_less: "digit_val c = Some d \<Longrightarrow> d < 16"
  by (auto simp: digit_val_def Let_def split: if_splits)

lemma hex_Decode_Encode: "hex_DecodeString (hex_EncodeToString s) = Some s"
proof (induction s)
  case Nil
  then show ?case by simp
next
  case (Cons c s)
  have "(of_char c :: nat) < 256" by simp
  then have "(of_char c :: nat) div 16 < 16" by (simp add: less_mult_imp_div_less)
  with Cons show ?case by (simp add: Let_def digit_val_hex_digit)
qed

lemma length_hex_Encode [simp]: "length (hex_EncodeToString s) = 2 * length s"
  by (induction s) (auto simp: Let_def)

lemma hex_Decode_length: "hex_DecodeString s = Some t \<Longrightarrow> length s = 2 * length t"
  by (induction s arbitrary: t rule: hex_DecodeString.induct) (auto split: option.splits)

end
