(* ===== verification/Store_Types.thy ===== *)
theory Store_Types
  imports Go_Strings
begin

text \<open>
  The data of the metadata index, package internal/store, file store.go: the errors, the
  condition of a conditional write and the rows for buckets, snapshots, objects, parts
  and multipart uploads. A field of the source keeps its name behind a prefix that names
  its struct, because record selectors are global.
\<close>

section \<open>Errors\<close>

datatype store_error =
    ErrBucketNotFound
  | ErrBucketExists
  | ErrBucketNotEmpty
  | ErrObjectNotFound
  | ErrUploadNotFound
  | ErrSnapshotNotFound
  | ErrPreconditionFailed

section \<open>Time\<close>

text \<open>
  A \<open>time.Time\<close> is its nanoseconds since the Unix epoch. The zero time of Go is
  midnight of 1 January of year 1.
\<close>

type_synonym gotime = int

abbreviation second :: int where "second \<equiv> 1000000000"

definition zeroTime :: gotime where
  "zeroTime = - 62135596800 * second"

definition time_Unix :: "gotime \<Rightarrow> int" where
  "time_Unix t = t div second"

definition time_TruncateSecond :: "gotime \<Rightarrow> gotime" where
  "time_TruncateSecond t = t - t mod second"

section \<open>Rows\<close>

record PutCondition =
  IfMatch :: string
  IfNoneMatch :: string

record Bucket =
  bkt_Name :: string
  bkt_CreatedAt :: gotime
  bkt_BatchID :: string
  bkt_Encryption :: string
  bkt_Versioning :: string
  bkt_HeadRoot :: string
  bkt_CommitSeq :: int
  bkt_CORS :: string
  bkt_Tags :: string
  bkt_Owner :: string
  bkt_RecoveryRecipient :: string
  bkt_ACT :: bool
  bkt_ActHistory :: string
  bkt_ActGrantees :: string

record Snapshot =
  snap_Bucket :: string
  snap_Label :: string
  snap_Root :: string
  snap_Seq :: int
  snap_CreatedAt :: gotime

record Part =
  part_PartNumber :: int
  part_SwarmRef :: string
  part_Size :: int
  part_ETag :: string
  part_LastModified :: gotime
  part_ActAt :: int
  part_ActHistory :: string

record Object =
  obj_Bucket :: string
  obj_Key :: string
  obj_SwarmRef :: string
  obj_BatchID :: string
  obj_Size :: int
  obj_ETag :: string
  obj_ContentType :: string
  obj_ContentEncoding :: string
  obj_StorageClass :: string
  obj_UserMetadata :: "(string, string) gomap"
  obj_LastModified :: gotime
  obj_ChecksumAlgorithm :: string
  obj_Checksum :: string
  obj_Encrypted :: bool
  obj_Tags :: string
  obj_ActAt :: int
  obj_ActHistory :: string
  obj_VersionID :: string
  obj_VSeq :: int
  obj_IsLatest :: bool
  obj_DeleteMarker :: bool
  obj_Parts :: "Part list"

record MultipartUpload =
  up_UploadID :: string
  up_Bucket :: string
  up_Key :: string
  up_Initiated :: gotime
  up_ContentType :: string
  up_StorageClass :: string
  up_UserMetadata :: "(string, string) gomap"
  up_BatchID :: string
  up_Encrypted :: bool
  up_Tags :: string

text \<open>The zero values a composite literal starts from.\<close>

definition zeroBucket :: Bucket where
  "zeroBucket = \<lparr>bkt_Name = [], bkt_CreatedAt = zeroTime, bkt_BatchID = [], bkt_Encryption = [],
     bkt_Versioning = [], bkt_HeadRoot = [], bkt_CommitSeq = 0, bkt_CORS = [], bkt_Tags = [],
     bkt_Owner = [], bkt_RecoveryRecipient = [], bkt_ACT = False, bkt_ActHistory = [],
     bkt_ActGrantees = []\<rparr>"

definition zeroPart :: Part where
  "zeroPart = \<lparr>part_PartNumber = 0, part_SwarmRef = [], part_Size = 0, part_ETag = [],
     part_LastModified = zeroTime, part_ActAt = 0, part_ActHistory = []\<rparr>"

definition zeroObject :: Object where
  "zeroObject = \<lparr>obj_Bucket = [], obj_Key = [], obj_SwarmRef = [], obj_BatchID = [], obj_Size = 0,
     obj_ETag = [], obj_ContentType = [], obj_ContentEncoding = [], obj_StorageClass = [],
     obj_UserMetadata = [], obj_LastModified = zeroTime, obj_ChecksumAlgorithm = [],
     obj_Checksum = [], obj_Encrypted = False, obj_Tags = [], obj_ActAt = 0, obj_ActHistory = [],
     obj_VersionID = [], obj_VSeq = 0, obj_IsLatest = False, obj_DeleteMarker = False,
     obj_Parts = []\<rparr>"

definition zeroUpload :: MultipartUpload where
  "zeroUpload = \<lparr>up_UploadID = [], up_Bucket = [], up_Key = [], up_Initiated = zeroTime,
     up_ContentType = [], up_StorageClass = [], up_UserMetadata = [], up_BatchID = [],
     up_Encrypted = False, up_Tags = []\<rparr>"

section \<open>Conditional writes\<close>

text \<open>\<open>(*PutCondition).Ok\<close>: a nil condition holds.\<close>

definition PutCondition_Ok :: "PutCondition option \<Rightarrow> bool \<Rightarrow> string \<Rightarrow> bool" where
  "PutCondition_Ok c exists etag =
     (case c of
        None \<Rightarrow> True
      | Some c \<Rightarrow>
          if IfMatch c \<noteq> [] \<and>
             (\<not> exists \<or> (IfMatch c \<noteq> ''*'' \<and> IfMatch c \<noteq> etag)) then False
          else if IfNoneMatch c \<noteq> [] \<and>
             (exists \<and> (IfNoneMatch c = ''*'' \<or> IfNoneMatch c = etag)) then False
          else True)"

lemma PutCondition_Ok_nil [simp]: "PutCondition_Ok None exists etag"
  by (simp add: PutCondition_Ok_def)

lemma PutCondition_Ok_iff:
  "PutCondition_Ok (Some c) exists etag \<longleftrightarrow>
     (IfMatch c \<noteq> [] \<longrightarrow> exists \<and> IfMatch c \<in> {''*'', etag}) \<and>
     (IfNoneMatch c \<noteq> [] \<longrightarrow> exists \<longrightarrow> IfNoneMatch c \<notin> {''*'', etag})"
  by (auto simp: PutCondition_Ok_def)

end
