(* ===== verification/Sql_Rows.thy ===== *)
theory Sql_Rows
  imports Store_Types
begin

text \<open>
  What the SQL indexes share (internal/store/sqlite.go and postgres.go): the rows of the five tables, the meaning of
  the statements the two files send, the values written to a row and the scan that reads it back, the range of keys with a
  prefix. A statement is a function of the rows of one table, a list in the order in which a scan visits them; a transaction is the
  composition of its statements, and one that fails leaves the database as it was.
\<close>

section \<open>Rows\<close>

text \<open>
  The columns of the five tables, in the order of the schema. Times, user metadata and the parts of a
  composite object are TEXT columns; the flags are INTEGER (SQLite) or BOOLEAN (PostgreSQL) columns, which the drivers read and
  write as Go's booleans.
\<close>

record bucketRow =
  bc_name :: string
  bc_created_at :: string
  bc_batch_id :: string
  bc_sse :: string
  bc_head_root :: string
  bc_commit_seq :: int
  bc_cors :: string
  bc_versioning :: string
  bc_tags :: string
  bc_owner :: string
  bc_act :: bool
  bc_act_history :: string
  bc_act_grantees :: string
  bc_recovery_recipient :: string

record snapshotRow =
  sc_bucket :: string
  sc_label :: string
  sc_root :: string
  sc_seq :: int
  sc_created_at :: string

record objectRow =
  oc_bucket :: string
  oc_key :: string
  oc_version_id :: string
  oc_vseq :: int
  oc_is_latest :: bool
  oc_delete_marker :: bool
  oc_swarm_ref :: string
  oc_batch_id :: string
  oc_size :: int
  oc_etag :: string
  oc_content_type :: string
  oc_storage_class :: string
  oc_user_meta :: string
  oc_last_modified :: string
  oc_parts :: string
  oc_checksum_alg :: string
  oc_checksum :: string
  oc_content_enc :: string
  oc_encrypted :: bool
  oc_tags :: string
  oc_act_at :: int
  oc_act_history :: string

record uploadRow =
  uc_upload_id :: string
  uc_bucket :: string
  uc_key :: string
  uc_initiated :: string
  uc_content_type :: string
  uc_storage_class :: string
  uc_user_meta :: string
  uc_batch_id :: string
  uc_encrypted :: bool
  uc_tags :: string

record partRow =
  pc_upload_id :: string
  pc_part_number :: int
  pc_swarm_ref :: string
  pc_size :: int
  pc_etag :: string
  pc_last_modified :: string
  pc_act_at :: int
  pc_act_history :: string

text \<open>The database: the rows of each table, in the order in which a scan visits them.\<close>

record Database =
  db_buckets :: "bucketRow list"
  db_snapshots :: "snapshotRow list"
  db_objects :: "objectRow list"
  db_uploads :: "uploadRow list"
  db_parts :: "partRow list"

definition emptyDatabase :: Database where
  "emptyDatabase = \<lparr>db_buckets = [], db_snapshots = [], db_objects = [], db_uploads = [], db_parts = []\<rparr>"

text \<open>
  The text of the columns is made by the packages time and encoding/json: the layout RFC3339Nano in UTC, and the JSON of a
  map of strings and of a list of parts. They are parameters; reading ignores their errors.
\<close>

record Codec =
  cd_Format :: "gotime \<Rightarrow> string"
  cd_Parse :: "string \<Rightarrow> gotime"
  cd_MarshalMeta :: "(string, string) gomap \<Rightarrow> string"
  cd_UnmarshalMeta :: "string \<Rightarrow> (string, string) gomap"
  cd_MarshalParts :: "Part list \<Rightarrow> string"
  cd_UnmarshalParts :: "string \<Rightarrow> Part list"

section \<open>Statements\<close>

text \<open>
  A statement either runs or breaks the uniqueness of a primary key; the other errors of a database (a lost
  connection, a full disk) are not modelled. A method returns the sentinel errors of the package and hands any other on.
\<close>

datatype sql_error = Sentinel store_error | ConstraintFailed

type_synonym 'a sql_result = "(sql_error, 'a) result"

text \<open>
  The statements of the two files, as functions of the rows of one table. \<open>key\<close> is the primary key of the table.
  INSERT OR REPLACE of SQLite deletes the row of the same key and adds the new one; ON CONFLICT DO UPDATE of PostgreSQL
  overwrites the row where it is.
\<close>

definition sql_insert :: "('r \<Rightarrow> 'k) \<Rightarrow> 'r \<Rightarrow> 'r list \<Rightarrow> 'r list sql_result" where
  "sql_insert key r rows = (if list_ex (\<lambda>x. key x = key r) rows then Inl ConstraintFailed else Inr (rows @ [r]))"

definition sql_insert_ignore :: "('r \<Rightarrow> 'k) \<Rightarrow> 'r \<Rightarrow> 'r list \<Rightarrow> nat \<times> 'r list" where
  "sql_insert_ignore key r rows = (if list_ex (\<lambda>x. key x = key r) rows then (0, rows) else (1, rows @ [r]))"

definition sql_replace :: "('r \<Rightarrow> 'k) \<Rightarrow> 'r \<Rightarrow> 'r list \<Rightarrow> 'r list" where
  "sql_replace key r rows = filter (\<lambda>x. key x \<noteq> key r) rows @ [r]"

definition sql_upsert :: "('r \<Rightarrow> 'k) \<Rightarrow> 'r \<Rightarrow> 'r list \<Rightarrow> 'r list" where
  "sql_upsert key r rows = (if list_ex (\<lambda>x. key x = key r) rows then map (\<lambda>x. if key x = key r then r else x) rows else rows @ [r])"

definition sql_update :: "('r \<Rightarrow> bool) \<Rightarrow> ('r \<Rightarrow> 'r) \<Rightarrow> 'r list \<Rightarrow> nat \<times> 'r list" where
  "sql_update p f rows = (length (filter p rows), map (\<lambda>x. if p x then f x else x) rows)"

definition sql_delete :: "('r \<Rightarrow> bool) \<Rightarrow> 'r list \<Rightarrow> nat \<times> 'r list" where
  "sql_delete p rows = (length (filter p rows), filter (\<lambda>x. \<not> p x) rows)"

text \<open>LIMIT, where a negative number means none.\<close>

definition sql_limit :: "int \<Rightarrow> 'r list \<Rightarrow> 'r list" where
  "sql_limit n rows = (if n < 0 then rows else take (nat n) rows)"

text \<open>SELECT MAX of a column: no value of an empty selection.\<close>

definition sql_max :: "int list \<Rightarrow> int option" where
  "sql_max xs = (case xs of [] \<Rightarrow> None | x # xs \<Rightarrow> Some (fold max xs x))"

text \<open>The primary keys.\<close>

definition objectKey :: "objectRow \<Rightarrow> string \<times> string \<times> string" where
  "objectKey r = (oc_bucket r, oc_key r, oc_version_id r)"

definition snapshotKey :: "snapshotRow \<Rightarrow> string \<times> string" where
  "snapshotKey r = (sc_bucket r, sc_label r)"

definition partKey :: "partRow \<Rightarrow> string \<times> int" where
  "partKey r = (pc_upload_id r, pc_part_number r)"

section \<open>Writing and reading rows\<close>

definition bucketValues :: "Codec \<Rightarrow> Bucket \<Rightarrow> bucketRow" where
  "bucketValues cd b =
     \<lparr>bc_name = bkt_Name b, bc_created_at = cd_Format cd (bkt_CreatedAt b), bc_batch_id = bkt_BatchID b, bc_sse = bkt_Encryption b,
      bc_head_root = bkt_HeadRoot b, bc_commit_seq = bkt_CommitSeq b, bc_cors = bkt_CORS b, bc_versioning = bkt_Versioning b,
      bc_tags = bkt_Tags b, bc_owner = bkt_Owner b, bc_act = bkt_ACT b, bc_act_history = bkt_ActHistory b,
      bc_act_grantees = bkt_ActGrantees b, bc_recovery_recipient = bkt_RecoveryRecipient b\<rparr>"

definition scanBucket :: "Codec \<Rightarrow> bucketRow \<Rightarrow> Bucket" where
  "scanBucket cd r =
     \<lparr>bkt_Name = bc_name r, bkt_CreatedAt = cd_Parse cd (bc_created_at r), bkt_BatchID = bc_batch_id r, bkt_Encryption = bc_sse r,
      bkt_Versioning = bc_versioning r, bkt_HeadRoot = bc_head_root r, bkt_CommitSeq = bc_commit_seq r, bkt_CORS = bc_cors r,
      bkt_Tags = bc_tags r, bkt_Owner = bc_owner r, bkt_RecoveryRecipient = bc_recovery_recipient r, bkt_ACT = bc_act r,
      bkt_ActHistory = bc_act_history r, bkt_ActGrantees = bc_act_grantees r\<rparr>"

definition snapshotValues :: "Codec \<Rightarrow> Snapshot \<Rightarrow> snapshotRow" where
  "snapshotValues cd s =
     \<lparr>sc_bucket = snap_Bucket s, sc_label = snap_Label s, sc_root = snap_Root s, sc_seq = snap_Seq s,
      sc_created_at = cd_Format cd (snap_CreatedAt s)\<rparr>"

definition scanSnapshot :: "Codec \<Rightarrow> snapshotRow \<Rightarrow> Snapshot" where
  "scanSnapshot cd r =
     \<lparr>snap_Bucket = sc_bucket r, snap_Label = sc_label r, snap_Root = sc_root r, snap_Seq = sc_seq r,
      snap_CreatedAt = cd_Parse cd (sc_created_at r)\<rparr>"

text \<open>The JSON of the parts: an object that has none keeps the empty text.\<close>

definition partsJSON :: "Codec \<Rightarrow> Part list \<Rightarrow> string" where
  "partsJSON cd parts = (if parts \<noteq> [] then cd_MarshalParts cd parts else [])"

definition objectValues :: "Codec \<Rightarrow> bool \<Rightarrow> Object \<Rightarrow> objectRow" where
  "objectValues cd marker ob =
     \<lparr>oc_bucket = obj_Bucket ob, oc_key = obj_Key ob, oc_version_id = obj_VersionID ob, oc_vseq = obj_VSeq ob,
      oc_is_latest = True, oc_delete_marker = marker, oc_swarm_ref = obj_SwarmRef ob, oc_batch_id = obj_BatchID ob,
      oc_size = obj_Size ob, oc_etag = obj_ETag ob, oc_content_type = obj_ContentType ob, oc_storage_class = obj_StorageClass ob,
      oc_user_meta = cd_MarshalMeta cd (obj_UserMetadata ob), oc_last_modified = cd_Format cd (obj_LastModified ob),
      oc_parts = partsJSON cd (obj_Parts ob), oc_checksum_alg = obj_ChecksumAlgorithm ob, oc_checksum = obj_Checksum ob,
      oc_content_enc = obj_ContentEncoding ob, oc_encrypted = obj_Encrypted ob, oc_tags = obj_Tags ob,
      oc_act_at = obj_ActAt ob, oc_act_history = obj_ActHistory ob\<rparr>"

definition scanObject :: "Codec \<Rightarrow> objectRow \<Rightarrow> Object" where
  "scanObject cd r =
     \<lparr>obj_Bucket = oc_bucket r, obj_Key = oc_key r, obj_SwarmRef = oc_swarm_ref r, obj_BatchID = oc_batch_id r, obj_Size = oc_size r,
      obj_ETag = oc_etag r, obj_ContentType = oc_content_type r, obj_ContentEncoding = oc_content_enc r,
      obj_StorageClass = oc_storage_class r, obj_UserMetadata = cd_UnmarshalMeta cd (oc_user_meta r),
      obj_LastModified = cd_Parse cd (oc_last_modified r), obj_ChecksumAlgorithm = oc_checksum_alg r, obj_Checksum = oc_checksum r,
      obj_Encrypted = oc_encrypted r, obj_Tags = oc_tags r, obj_ActAt = oc_act_at r, obj_ActHistory = oc_act_history r,
      obj_VersionID = oc_version_id r, obj_VSeq = oc_vseq r, obj_IsLatest = oc_is_latest r, obj_DeleteMarker = oc_delete_marker r,
      obj_Parts = (if oc_parts r \<noteq> [] then cd_UnmarshalParts cd (oc_parts r) else [])\<rparr>"

definition uploadValues :: "Codec \<Rightarrow> MultipartUpload \<Rightarrow> uploadRow" where
  "uploadValues cd u =
     \<lparr>uc_upload_id = up_UploadID u, uc_bucket = up_Bucket u, uc_key = up_Key u, uc_initiated = cd_Format cd (up_Initiated u),
      uc_content_type = up_ContentType u, uc_storage_class = up_StorageClass u, uc_user_meta = cd_MarshalMeta cd (up_UserMetadata u),
      uc_batch_id = up_BatchID u, uc_encrypted = up_Encrypted u, uc_tags = up_Tags u\<rparr>"

definition scanUpload :: "Codec \<Rightarrow> uploadRow \<Rightarrow> MultipartUpload" where
  "scanUpload cd r =
     \<lparr>up_UploadID = uc_upload_id r, up_Bucket = uc_bucket r, up_Key = uc_key r, up_Initiated = cd_Parse cd (uc_initiated r),
      up_ContentType = uc_content_type r, up_StorageClass = uc_storage_class r, up_UserMetadata = cd_UnmarshalMeta cd (uc_user_meta r),
      up_BatchID = uc_batch_id r, up_Encrypted = uc_encrypted r, up_Tags = uc_tags r\<rparr>"

definition partValues :: "Codec \<Rightarrow> string \<Rightarrow> Part \<Rightarrow> partRow" where
  "partValues cd uploadID p =
     \<lparr>pc_upload_id = uploadID, pc_part_number = part_PartNumber p, pc_swarm_ref = part_SwarmRef p, pc_size = part_Size p,
      pc_etag = part_ETag p, pc_last_modified = cd_Format cd (part_LastModified p), pc_act_at = part_ActAt p,
      pc_act_history = part_ActHistory p\<rparr>"

definition scanPart :: "Codec \<Rightarrow> partRow \<Rightarrow> Part" where
  "scanPart cd r =
     \<lparr>part_PartNumber = pc_part_number r, part_SwarmRef = pc_swarm_ref r, part_Size = pc_size r, part_ETag = pc_etag r,
      part_LastModified = cd_Parse cd (pc_last_modified r), part_ActAt = pc_act_at r, part_ActHistory = pc_act_history r\<rparr>"

text \<open>
  The end of the range of keys with a prefix: the last byte below 255 is increased and the rest cut off; no end
  when there is none. It is written on the reversed bytes.
\<close>

fun prefixEndRev :: "string \<Rightarrow> string" where
  "prefixEndRev [] = []"
| "prefixEndRev (c # cs) = (if of_char c < (255 :: nat) then char_of (of_char c + 1 :: nat) # cs else prefixEndRev cs)"

definition prefixEnd :: "string \<Rightarrow> string" where
  "prefixEnd p = rev (prefixEndRev (rev p))"

text \<open>The condition on the column of keys that both files build from it.\<close>

definition inPrefixRange :: "string \<Rightarrow> string \<Rightarrow> bool" where
  "inPrefixRange p k = (p \<le> k \<and> (prefixEnd p \<noteq> [] \<longrightarrow> k < prefixEnd p))"

text \<open>The last statement of a write and of a delete: the newest version of the key becomes the latest.\<close>

definition promoteNewest :: "string \<Rightarrow> string \<Rightarrow> objectRow list \<Rightarrow> objectRow list" where
  "promoteNewest bucket key rows =
     snd (sql_update (\<lambda>r. oc_bucket r = bucket \<and> oc_key r = key \<and>
            Some (oc_vseq r) = sql_max (map oc_vseq (filter (\<lambda>r. oc_bucket r = bucket \<and> oc_key r = key) rows)))
          (\<lambda>r. r\<lparr>oc_is_latest := True\<rparr>) rows)"

definition withVersion :: "Object \<Rightarrow> Object" where
  "withVersion ob = (if obj_VersionID ob = [] then ob\<lparr>obj_VersionID := ''null''\<rparr> else ob)"

end
