(* ===== verification/Postgres.thy ===== *)
theory Postgres
  imports Sql_Rows
begin

text \<open>
  The PostgreSQL index, file internal/store/postgres.go: one definition for each method of \<open>*Postgres\<close>, its statements in
  their order. The advisory lock of a key has no effect on a method that runs alone; concurrent gateways are not modelled.
\<close>

section \<open>Columns and limits\<close>

definition setBucketColumn :: "Database \<Rightarrow> string \<Rightarrow> (bucketRow \<Rightarrow> bucketRow) \<Rightarrow> Database sql_result" where
  "setBucketColumn s bucket f =
     (let (n, rows) = sql_update (\<lambda>r. bc_name r = bucket) f (db_buckets s)
      in if n = 0 then Inl (Sentinel ErrBucketNotFound) else Inr (s\<lparr>db_buckets := rows\<rparr>))"

text \<open>The LIMIT clause is added when the limit is not negative.\<close>

definition pg_limit :: "int \<Rightarrow> 'r list \<Rightarrow> 'r list" where
  "pg_limit limit rows = (if 0 \<le> limit then take (nat limit) rows else rows)"

section \<open>Buckets\<close>

definition Postgres_CreateBucket :: "Codec \<Rightarrow> Database \<Rightarrow> gotime \<Rightarrow> Bucket \<Rightarrow> Database sql_result" where
  "Postgres_CreateBucket cd s now b =
     (let b = (if bkt_CreatedAt b = zeroTime then b\<lparr>bkt_CreatedAt := now\<rparr> else b);
          (n, rows) = sql_insert_ignore bc_name (bucketValues cd b) (db_buckets s)
      in if n = 0 then Inl (Sentinel ErrBucketExists) else Inr (s\<lparr>db_buckets := rows\<rparr>))"

definition Postgres_GetBucket :: "Codec \<Rightarrow> Database \<Rightarrow> string \<Rightarrow> Bucket sql_result" where
  "Postgres_GetBucket cd s name =
     (case find (\<lambda>r. bc_name r = name) (db_buckets s) of
        None \<Rightarrow> Inl (Sentinel ErrBucketNotFound)
      | Some r \<Rightarrow> Inr (scanBucket cd r))"

definition Postgres_ListBuckets :: "Codec \<Rightarrow> Database \<Rightarrow> Bucket list" where
  "Postgres_ListBuckets cd s = map (scanBucket cd) (sort_key bc_name (db_buckets s))"

definition Postgres_DeleteBucket :: "Database \<Rightarrow> string \<Rightarrow> Database sql_result" where
  "Postgres_DeleteBucket s name =
     (if find (\<lambda>r. bc_name r = name) (db_buckets s) = None then Inl (Sentinel ErrBucketNotFound)
      else if find (\<lambda>r. oc_bucket r = name) (db_objects s) \<noteq> None then Inl (Sentinel ErrBucketNotEmpty)
      else Inr (s\<lparr>db_buckets := snd (sql_delete (\<lambda>r. bc_name r = name) (db_buckets s))\<rparr>))"

definition Postgres_SetBucketEncryption :: "Database \<Rightarrow> string \<Rightarrow> string \<Rightarrow> Database sql_result" where
  "Postgres_SetBucketEncryption s bucket alg = setBucketColumn s bucket (\<lambda>r. r\<lparr>bc_sse := alg\<rparr>)"

definition Postgres_SetBucketVersioning :: "Database \<Rightarrow> string \<Rightarrow> string \<Rightarrow> Database sql_result" where
  "Postgres_SetBucketVersioning s bucket status = setBucketColumn s bucket (\<lambda>r. r\<lparr>bc_versioning := status\<rparr>)"

definition Postgres_SetBucketRecoveryRecipient :: "Database \<Rightarrow> string \<Rightarrow> string \<Rightarrow> Database sql_result" where
  "Postgres_SetBucketRecoveryRecipient s bucket recipient = setBucketColumn s bucket (\<lambda>r. r\<lparr>bc_recovery_recipient := recipient\<rparr>)"

definition Postgres_SetBucketCORS :: "Database \<Rightarrow> string \<Rightarrow> string \<Rightarrow> Database sql_result" where
  "Postgres_SetBucketCORS s bucket corsJSON = setBucketColumn s bucket (\<lambda>r. r\<lparr>bc_cors := corsJSON\<rparr>)"

definition Postgres_SetBucketTagging :: "Database \<Rightarrow> string \<Rightarrow> string \<Rightarrow> Database sql_result" where
  "Postgres_SetBucketTagging s bucket tagsJSON = setBucketColumn s bucket (\<lambda>r. r\<lparr>bc_tags := tagsJSON\<rparr>)"

definition Postgres_SetBucketACT :: "Database \<Rightarrow> string \<Rightarrow> string \<Rightarrow> string \<Rightarrow> Database sql_result" where
  "Postgres_SetBucketACT s bucket history grantees =
     setBucketColumn s bucket (\<lambda>r. r\<lparr>bc_act := True, bc_act_history := history, bc_act_grantees := grantees\<rparr>)"

definition Postgres_SetBucketHead :: "Database \<Rightarrow> string \<Rightarrow> string \<Rightarrow> int \<Rightarrow> Database sql_result" where
  "Postgres_SetBucketHead s bucket headRoot seq = setBucketColumn s bucket (\<lambda>r. r\<lparr>bc_head_root := headRoot, bc_commit_seq := seq\<rparr>)"

section \<open>Objects and versions\<close>

definition Postgres_SetObjectTags :: "Codec \<Rightarrow> Database \<Rightarrow> string \<Rightarrow> string \<Rightarrow> string \<Rightarrow> string \<Rightarrow> Database sql_result" where
  "Postgres_SetObjectTags cd s bucket key versionID tagsJSON =
     (let q = (if versionID \<noteq> [] then (\<lambda>r. oc_bucket r = bucket \<and> oc_key r = key \<and> oc_version_id r = versionID)
               else (\<lambda>r. oc_bucket r = bucket \<and> oc_key r = key \<and> oc_is_latest r));
          (n, rows) = sql_update q (\<lambda>r. r\<lparr>oc_tags := tagsJSON\<rparr>) (db_objects s)
      in if n = 0 then rbind (Postgres_GetBucket cd s bucket) (\<lambda>_. Inl (Sentinel ErrObjectNotFound))
         else Inr (s\<lparr>db_objects := rows\<rparr>))"

definition Postgres_PutObject :: "Codec \<Rightarrow> Database \<Rightarrow> Object \<Rightarrow> PutCondition option \<Rightarrow> Database sql_result" where
  "Postgres_PutObject cd s ob cond =
     (let bucket = obj_Bucket ob; key = obj_Key ob in
      if find (\<lambda>r. bc_name r = bucket) (db_buckets s) = None then Inl (Sentinel ErrBucketNotFound)
      else if cond \<noteq> None \<and>
        (let row = find (\<lambda>r. oc_bucket r = bucket \<and> oc_key r = key \<and> oc_is_latest r) (db_objects s);
             exists = (case row of None \<Rightarrow> False | Some r \<Rightarrow> \<not> oc_delete_marker r);
             etag = (case row of None \<Rightarrow> [] | Some r \<Rightarrow> oc_etag r)
         in \<not> PutCondition_Ok cond exists etag) then Inl (Sentinel ErrPreconditionFailed)
      else let ob = withVersion ob;
             rows = snd (sql_update (\<lambda>r. oc_bucket r = bucket \<and> oc_key r = key \<and> oc_is_latest r) (\<lambda>r. r\<lparr>oc_is_latest := False\<rparr>) (db_objects s));
             rows = sql_upsert objectKey (objectValues cd (obj_DeleteMarker ob) ob) rows
         in Inr (s\<lparr>db_objects := promoteNewest bucket key rows\<rparr>))"

definition Postgres_GetObject :: "Codec \<Rightarrow> Database \<Rightarrow> string \<Rightarrow> string \<Rightarrow> Object sql_result" where
  "Postgres_GetObject cd s bucket key =
     (case find (\<lambda>r. oc_bucket r = bucket \<and> oc_key r = key \<and> oc_is_latest r) (db_objects s) of
        Some r \<Rightarrow> Inr (scanObject cd r)
      | None \<Rightarrow> rbind (Postgres_GetBucket cd s bucket) (\<lambda>_. Inl (Sentinel ErrObjectNotFound)))"

definition Postgres_GetObjectVersion :: "Codec \<Rightarrow> Database \<Rightarrow> string \<Rightarrow> string \<Rightarrow> string \<Rightarrow> Object sql_result" where
  "Postgres_GetObjectVersion cd s bucket key versionID =
     (case find (\<lambda>r. oc_bucket r = bucket \<and> oc_key r = key \<and> oc_version_id r = versionID) (db_objects s) of
        Some r \<Rightarrow> Inr (scanObject cd r)
      | None \<Rightarrow> rbind (Postgres_GetBucket cd s bucket) (\<lambda>_. Inl (Sentinel ErrObjectNotFound)))"

definition Postgres_DeleteVersion :: "Codec \<Rightarrow> Database \<Rightarrow> string \<Rightarrow> string \<Rightarrow> string \<Rightarrow> (Object \<times> Database) sql_result" where
  "Postgres_DeleteVersion cd s bucket key versionID =
     (let q = (\<lambda>r. oc_bucket r = bucket \<and> oc_key r = key \<and> oc_version_id r = versionID) in
      case find q (db_objects s) of
        None \<Rightarrow> rbind (Postgres_GetBucket cd s bucket) (\<lambda>_. Inl (Sentinel ErrObjectNotFound))
      | Some r \<Rightarrow>
          (let ob = scanObject cd r; rows = snd (sql_delete q (db_objects s))
           in Inr (ob, s\<lparr>db_objects := (if obj_IsLatest ob then promoteNewest bucket key rows else rows)\<rparr>)))"

definition Postgres_DeleteObject :: "Codec \<Rightarrow> Database \<Rightarrow> string \<Rightarrow> string \<Rightarrow> Database sql_result" where
  "Postgres_DeleteObject cd s bucket key =
     rbind (Postgres_GetBucket cd s bucket) (\<lambda>_.
       Inr (s\<lparr>db_objects := snd (sql_delete (\<lambda>r. oc_bucket r = bucket \<and> oc_key r = key) (db_objects s))\<rparr>))"

definition Postgres_ListObjects :: "Codec \<Rightarrow> Database \<Rightarrow> string \<Rightarrow> string \<Rightarrow> string \<Rightarrow> int \<Rightarrow> Object list sql_result" where
  "Postgres_ListObjects cd s bucket prefix after limit =
     rbind (Postgres_GetBucket cd s bucket) (\<lambda>_.
       let rows = filter (\<lambda>r. oc_bucket r = bucket \<and> oc_is_latest r \<and> \<not> oc_delete_marker r \<and> after < oc_key r \<and>
                    inPrefixRange prefix (oc_key r)) (db_objects s)
       in Inr (map (scanObject cd) (pg_limit limit (sort_key oc_key rows))))"

definition Postgres_ListVersions ::
  "Codec \<Rightarrow> Database \<Rightarrow> string \<Rightarrow> string \<Rightarrow> string \<Rightarrow> string \<Rightarrow> int \<Rightarrow> Object list sql_result" where
  "Postgres_ListVersions cd s bucket prefix keyMarker versionMarker limit =
     rbind (Postgres_GetBucket cd s bucket) (\<lambda>_.
       let markerVSeq =
             (if keyMarker \<noteq> [] \<and> versionMarker \<noteq> [] then
                (case find (\<lambda>r. oc_bucket r = bucket \<and> oc_key r = keyMarker \<and> oc_version_id r = versionMarker) (db_objects s) of
                   None \<Rightarrow> - 1 | Some r \<Rightarrow> oc_vseq r)
              else - 1);
           after = (\<lambda>r. if keyMarker = [] then True
                        else if versionMarker \<noteq> [] \<and> 0 \<le> markerVSeq
                        then keyMarker < oc_key r \<or> (oc_key r = keyMarker \<and> oc_vseq r < markerVSeq)
                        else keyMarker < oc_key r);
           rows = filter (\<lambda>r. oc_bucket r = bucket \<and> inPrefixRange prefix (oc_key r) \<and> after r) (db_objects s)
       in Inr (map (scanObject cd) (pg_limit limit (sort_key (\<lambda>r. (oc_key r, - oc_vseq r)) rows))))"

section \<open>Snapshots and restore\<close>

definition Postgres_PutSnapshot :: "Codec \<Rightarrow> Database \<Rightarrow> gotime \<Rightarrow> Snapshot \<Rightarrow> Database sql_result" where
  "Postgres_PutSnapshot cd s now snap =
     rbind (Postgres_GetBucket cd s (snap_Bucket snap)) (\<lambda>_.
       let snap = (if snap_CreatedAt snap = zeroTime then snap\<lparr>snap_CreatedAt := now\<rparr> else snap)
       in Inr (s\<lparr>db_snapshots := sql_upsert snapshotKey (snapshotValues cd snap) (db_snapshots s)\<rparr>))"

definition Postgres_GetSnapshot :: "Codec \<Rightarrow> Database \<Rightarrow> string \<Rightarrow> string \<Rightarrow> Snapshot sql_result" where
  "Postgres_GetSnapshot cd s bucket label =
     rbind (Postgres_GetBucket cd s bucket) (\<lambda>_.
       case find (\<lambda>r. sc_bucket r = bucket \<and> sc_label r = label) (db_snapshots s) of
         None \<Rightarrow> Inl (Sentinel ErrSnapshotNotFound) | Some r \<Rightarrow> Inr (scanSnapshot cd r))"

definition Postgres_ListSnapshots :: "Codec \<Rightarrow> Database \<Rightarrow> string \<Rightarrow> Snapshot list sql_result" where
  "Postgres_ListSnapshots cd s bucket =
     rbind (Postgres_GetBucket cd s bucket) (\<lambda>_.
       Inr (map (scanSnapshot cd) (sort_key sc_label (filter (\<lambda>r. sc_bucket r = bucket) (db_snapshots s)))))"

text \<open>The insertions of a restore: the first that fails rolls the transaction back.\<close>

fun insertRestoredRows :: "Codec \<Rightarrow> string \<Rightarrow> Object list \<Rightarrow> objectRow list \<Rightarrow> objectRow list sql_result" where
  "insertRestoredRows cd bucket [] rows = Inr rows"
| "insertRestoredRows cd bucket (ob # obs) rows =
     rbind (sql_insert objectKey (objectValues cd False (withVersion (ob\<lparr>obj_Bucket := bucket\<rparr>))) rows)
       (insertRestoredRows cd bucket obs)"

definition Postgres_RestoreBucket :: "Codec \<Rightarrow> Database \<Rightarrow> string \<Rightarrow> Object list \<Rightarrow> string \<Rightarrow> int \<Rightarrow> Database sql_result" where
  "Postgres_RestoreBucket cd s bucket objects headRoot seq =
     rbind (setBucketColumn s bucket (\<lambda>r. r\<lparr>bc_head_root := headRoot, bc_commit_seq := seq\<rparr>)) (\<lambda>s.
     rbind (insertRestoredRows cd bucket objects (snd (sql_delete (\<lambda>r. oc_bucket r = bucket) (db_objects s)))) (\<lambda>rows.
     Inr (s\<lparr>db_objects := rows\<rparr>)))"

section \<open>Multipart uploads\<close>

definition Postgres_CreateMultipartUpload :: "Codec \<Rightarrow> Database \<Rightarrow> gotime \<Rightarrow> MultipartUpload \<Rightarrow> Database sql_result" where
  "Postgres_CreateMultipartUpload cd s now u =
     rbind (Postgres_GetBucket cd s (up_Bucket u)) (\<lambda>_.
       let u = (if up_Initiated u = zeroTime then u\<lparr>up_Initiated := now\<rparr> else u)
       in rbind (sql_insert uc_upload_id (uploadValues cd u) (db_uploads s)) (\<lambda>rows. Inr (s\<lparr>db_uploads := rows\<rparr>)))"

definition Postgres_GetMultipartUpload :: "Codec \<Rightarrow> Database \<Rightarrow> string \<Rightarrow> string \<Rightarrow> string \<Rightarrow> MultipartUpload sql_result" where
  "Postgres_GetMultipartUpload cd s bucket key uploadID =
     (case find (\<lambda>r. uc_upload_id r = uploadID \<and> uc_bucket r = bucket \<and> uc_key r = key) (db_uploads s) of
        None \<Rightarrow> Inl (Sentinel ErrUploadNotFound) | Some r \<Rightarrow> Inr (scanUpload cd r))"

definition Postgres_PutPart :: "Codec \<Rightarrow> Database \<Rightarrow> string \<Rightarrow> Part \<Rightarrow> Database sql_result" where
  "Postgres_PutPart cd s uploadID p =
     (if list_ex (\<lambda>r. uc_upload_id r = uploadID) (db_uploads s)
      then Inr (s\<lparr>db_parts := sql_upsert partKey (partValues cd uploadID p) (db_parts s)\<rparr>)
      else Inl (Sentinel ErrUploadNotFound))"

definition Postgres_ListParts :: "Codec \<Rightarrow> Database \<Rightarrow> string \<Rightarrow> int \<Rightarrow> int \<Rightarrow> Part list sql_result" where
  "Postgres_ListParts cd s uploadID afterPart limit =
     (if find (\<lambda>r. uc_upload_id r = uploadID) (db_uploads s) = None then Inl (Sentinel ErrUploadNotFound)
      else Inr (map (scanPart cd) (pg_limit limit (sort_key pc_part_number
             (filter (\<lambda>r. pc_upload_id r = uploadID \<and> afterPart < pc_part_number r) (db_parts s))))))"

definition Postgres_ListMultipartUploads :: "Codec \<Rightarrow> Database \<Rightarrow> string \<Rightarrow> string \<Rightarrow> MultipartUpload list sql_result" where
  "Postgres_ListMultipartUploads cd s bucket prefix =
     rbind (Postgres_GetBucket cd s bucket) (\<lambda>_.
       Inr (map (scanUpload cd) (sort_key (\<lambda>r. (uc_key r, uc_upload_id r))
         (filter (\<lambda>r. uc_bucket r = bucket \<and> inPrefixRange prefix (uc_key r)) (db_uploads s)))))"

definition Postgres_DeleteMultipartUpload :: "Database \<Rightarrow> string \<Rightarrow> Database sql_result" where
  "Postgres_DeleteMultipartUpload s uploadID =
     (let (n, rows) = sql_delete (\<lambda>r. uc_upload_id r = uploadID) (db_uploads s)
      in if n = 0 then Inl (Sentinel ErrUploadNotFound)
         else Inr (s\<lparr>db_uploads := rows, db_parts := snd (sql_delete (\<lambda>r. pc_upload_id r = uploadID) (db_parts s))\<rparr>))"

end
