(* ===== verification/Sqlite.thy ===== *)
theory Sqlite
  imports Sql_Rows
begin

text \<open>
  The SQLite index, file internal/store/sqlite.go: one definition for each method of \<open>*SQLite\<close>, its statements in their
  order. \<open>time.Now\<close> is the argument \<open>now\<close>. The single writer of the database makes each method one atomic step.
\<close>

section \<open>Migration of the objects table\<close>

text \<open>
  The table of objects before versions: one row for each bucket and key, without the columns of versions. The other
  columns are there, because the statements that add them run first.
\<close>

record objectV1Row =
  v1_bucket :: string
  v1_key :: string
  v1_swarm_ref :: string
  v1_batch_id :: string
  v1_size :: int
  v1_etag :: string
  v1_content_type :: string
  v1_storage_class :: string
  v1_user_meta :: string
  v1_last_modified :: string
  v1_parts :: string
  v1_checksum_alg :: string
  v1_checksum :: string
  v1_content_enc :: string
  v1_encrypted :: bool
  v1_tags :: string
  v1_act_at :: int
  v1_act_history :: string

datatype objectsTable = ObjectsV1 "objectV1Row list" | Objects "objectRow list"

text \<open>A copied row gets the defaults of the new columns: the null version, sequence number 0, the latest, no delete marker.\<close>

definition copyV1Row :: "objectV1Row \<Rightarrow> objectRow" where
  "copyV1Row r =
     \<lparr>oc_bucket = v1_bucket r, oc_key = v1_key r, oc_version_id = ''null'', oc_vseq = 0, oc_is_latest = True, oc_delete_marker = False,
      oc_swarm_ref = v1_swarm_ref r, oc_batch_id = v1_batch_id r, oc_size = v1_size r, oc_etag = v1_etag r,
      oc_content_type = v1_content_type r, oc_storage_class = v1_storage_class r, oc_user_meta = v1_user_meta r,
      oc_last_modified = v1_last_modified r, oc_parts = v1_parts r, oc_checksum_alg = v1_checksum_alg r, oc_checksum = v1_checksum r,
      oc_content_enc = v1_content_enc r, oc_encrypted = v1_encrypted r, oc_tags = v1_tags r, oc_act_at = v1_act_at r,
      oc_act_history = v1_act_history r\<rparr>"

definition migrateObjectsToVersioned :: "objectsTable \<Rightarrow> objectRow list" where
  "migrateObjectsToVersioned t = (case t of Objects rows \<Rightarrow> rows | ObjectsV1 old \<Rightarrow> map copyV1Row old)"

section \<open>Buckets\<close>

definition SQLite_CreateBucket :: "Codec \<Rightarrow> Database \<Rightarrow> gotime \<Rightarrow> Bucket \<Rightarrow> Database sql_result" where
  "SQLite_CreateBucket cd s now b =
     (let b = (if bkt_CreatedAt b = zeroTime then b\<lparr>bkt_CreatedAt := now\<rparr> else b);
          (n, rows) = sql_insert_ignore bc_name (bucketValues cd b) (db_buckets s)
      in if n = 0 then Inl (Sentinel ErrBucketExists) else Inr (s\<lparr>db_buckets := rows\<rparr>))"

definition SQLite_GetBucket :: "Codec \<Rightarrow> Database \<Rightarrow> string \<Rightarrow> Bucket sql_result" where
  "SQLite_GetBucket cd s name =
     (case find (\<lambda>r. bc_name r = name) (db_buckets s) of
        None \<Rightarrow> Inl (Sentinel ErrBucketNotFound)
      | Some r \<Rightarrow> Inr (scanBucket cd r))"

definition SQLite_ListBuckets :: "Codec \<Rightarrow> Database \<Rightarrow> Bucket list" where
  "SQLite_ListBuckets cd s = map (scanBucket cd) (sort_key bc_name (db_buckets s))"

definition SQLite_DeleteBucket :: "Database \<Rightarrow> string \<Rightarrow> Database sql_result" where
  "SQLite_DeleteBucket s name =
     (if find (\<lambda>r. bc_name r = name) (db_buckets s) = None then Inl (Sentinel ErrBucketNotFound)
      else if find (\<lambda>r. oc_bucket r = name) (db_objects s) \<noteq> None then Inl (Sentinel ErrBucketNotEmpty)
      else Inr (s\<lparr>db_buckets := snd (sql_delete (\<lambda>r. bc_name r = name) (db_buckets s))\<rparr>))"

text \<open>The statement and the exit that the setters of bucket columns share.\<close>

definition updateBucket :: "Database \<Rightarrow> string \<Rightarrow> (bucketRow \<Rightarrow> bucketRow) \<Rightarrow> Database sql_result" where
  "updateBucket s bucket f =
     (let (n, rows) = sql_update (\<lambda>r. bc_name r = bucket) f (db_buckets s)
      in if n = 0 then Inl (Sentinel ErrBucketNotFound) else Inr (s\<lparr>db_buckets := rows\<rparr>))"

definition SQLite_SetBucketEncryption :: "Database \<Rightarrow> string \<Rightarrow> string \<Rightarrow> Database sql_result" where
  "SQLite_SetBucketEncryption s bucket alg = updateBucket s bucket (\<lambda>r. r\<lparr>bc_sse := alg\<rparr>)"

definition SQLite_SetBucketVersioning :: "Database \<Rightarrow> string \<Rightarrow> string \<Rightarrow> Database sql_result" where
  "SQLite_SetBucketVersioning s bucket status = updateBucket s bucket (\<lambda>r. r\<lparr>bc_versioning := status\<rparr>)"

definition SQLite_SetBucketRecoveryRecipient :: "Database \<Rightarrow> string \<Rightarrow> string \<Rightarrow> Database sql_result" where
  "SQLite_SetBucketRecoveryRecipient s bucket recipient = updateBucket s bucket (\<lambda>r. r\<lparr>bc_recovery_recipient := recipient\<rparr>)"

definition SQLite_SetBucketCORS :: "Database \<Rightarrow> string \<Rightarrow> string \<Rightarrow> Database sql_result" where
  "SQLite_SetBucketCORS s bucket corsJSON = updateBucket s bucket (\<lambda>r. r\<lparr>bc_cors := corsJSON\<rparr>)"

definition SQLite_SetBucketTagging :: "Database \<Rightarrow> string \<Rightarrow> string \<Rightarrow> Database sql_result" where
  "SQLite_SetBucketTagging s bucket tagsJSON = updateBucket s bucket (\<lambda>r. r\<lparr>bc_tags := tagsJSON\<rparr>)"

definition SQLite_SetBucketACT :: "Database \<Rightarrow> string \<Rightarrow> string \<Rightarrow> string \<Rightarrow> Database sql_result" where
  "SQLite_SetBucketACT s bucket history grantees =
     updateBucket s bucket (\<lambda>r. r\<lparr>bc_act := True, bc_act_history := history, bc_act_grantees := grantees\<rparr>)"

definition SQLite_SetBucketHead :: "Database \<Rightarrow> string \<Rightarrow> string \<Rightarrow> int \<Rightarrow> Database sql_result" where
  "SQLite_SetBucketHead s bucket headRoot seq = updateBucket s bucket (\<lambda>r. r\<lparr>bc_head_root := headRoot, bc_commit_seq := seq\<rparr>)"

section \<open>Objects and versions\<close>

definition SQLite_SetObjectTags :: "Codec \<Rightarrow> Database \<Rightarrow> string \<Rightarrow> string \<Rightarrow> string \<Rightarrow> string \<Rightarrow> Database sql_result" where
  "SQLite_SetObjectTags cd s bucket key versionID tagsJSON =
     (let q = (if versionID \<noteq> [] then (\<lambda>r. oc_bucket r = bucket \<and> oc_key r = key \<and> oc_version_id r = versionID)
               else (\<lambda>r. oc_bucket r = bucket \<and> oc_key r = key \<and> oc_is_latest r));
          (n, rows) = sql_update q (\<lambda>r. r\<lparr>oc_tags := tagsJSON\<rparr>) (db_objects s)
      in if n = 0 then rbind (SQLite_GetBucket cd s bucket) (\<lambda>_. Inl (Sentinel ErrObjectNotFound))
         else Inr (s\<lparr>db_objects := rows\<rparr>))"

definition SQLite_PutObject :: "Codec \<Rightarrow> Database \<Rightarrow> Object \<Rightarrow> PutCondition option \<Rightarrow> Database sql_result" where
  "SQLite_PutObject cd s ob cond =
     (let bucket = obj_Bucket ob; key = obj_Key ob in
      if find (\<lambda>r. bc_name r = bucket) (db_buckets s) = None then Inl (Sentinel ErrBucketNotFound)
      else if cond \<noteq> None \<and>
        (let row = find (\<lambda>r. oc_bucket r = bucket \<and> oc_key r = key \<and> oc_is_latest r) (db_objects s);
             exists = (case row of None \<Rightarrow> False | Some r \<Rightarrow> \<not> oc_delete_marker r);
             etag = (case row of None \<Rightarrow> [] | Some r \<Rightarrow> oc_etag r)
         in \<not> PutCondition_Ok cond exists etag) then Inl (Sentinel ErrPreconditionFailed)
      else let ob = withVersion ob;
             rows = snd (sql_update (\<lambda>r. oc_bucket r = bucket \<and> oc_key r = key \<and> oc_is_latest r) (\<lambda>r. r\<lparr>oc_is_latest := False\<rparr>) (db_objects s));
             rows = sql_replace objectKey (objectValues cd (obj_DeleteMarker ob) ob) rows
         in Inr (s\<lparr>db_objects := promoteNewest bucket key rows\<rparr>))"

definition SQLite_GetObject :: "Codec \<Rightarrow> Database \<Rightarrow> string \<Rightarrow> string \<Rightarrow> Object sql_result" where
  "SQLite_GetObject cd s bucket key =
     (case find (\<lambda>r. oc_bucket r = bucket \<and> oc_key r = key \<and> oc_is_latest r) (db_objects s) of
        Some r \<Rightarrow> Inr (scanObject cd r)
      | None \<Rightarrow> rbind (SQLite_GetBucket cd s bucket) (\<lambda>_. Inl (Sentinel ErrObjectNotFound)))"

definition SQLite_GetObjectVersion :: "Codec \<Rightarrow> Database \<Rightarrow> string \<Rightarrow> string \<Rightarrow> string \<Rightarrow> Object sql_result" where
  "SQLite_GetObjectVersion cd s bucket key versionID =
     (case find (\<lambda>r. oc_bucket r = bucket \<and> oc_key r = key \<and> oc_version_id r = versionID) (db_objects s) of
        Some r \<Rightarrow> Inr (scanObject cd r)
      | None \<Rightarrow> rbind (SQLite_GetBucket cd s bucket) (\<lambda>_. Inl (Sentinel ErrObjectNotFound)))"

definition SQLite_DeleteVersion :: "Codec \<Rightarrow> Database \<Rightarrow> string \<Rightarrow> string \<Rightarrow> string \<Rightarrow> (Object \<times> Database) sql_result" where
  "SQLite_DeleteVersion cd s bucket key versionID =
     (let q = (\<lambda>r. oc_bucket r = bucket \<and> oc_key r = key \<and> oc_version_id r = versionID) in
      case find q (db_objects s) of
        None \<Rightarrow> rbind (SQLite_GetBucket cd s bucket) (\<lambda>_. Inl (Sentinel ErrObjectNotFound))
      | Some r \<Rightarrow>
          (let ob = scanObject cd r; rows = snd (sql_delete q (db_objects s))
           in Inr (ob, s\<lparr>db_objects := (if obj_IsLatest ob then promoteNewest bucket key rows else rows)\<rparr>)))"

definition SQLite_DeleteObject :: "Codec \<Rightarrow> Database \<Rightarrow> string \<Rightarrow> string \<Rightarrow> Database sql_result" where
  "SQLite_DeleteObject cd s bucket key =
     rbind (SQLite_GetBucket cd s bucket) (\<lambda>_.
       Inr (s\<lparr>db_objects := snd (sql_delete (\<lambda>r. oc_bucket r = bucket \<and> oc_key r = key) (db_objects s))\<rparr>))"

definition SQLite_ListObjects :: "Codec \<Rightarrow> Database \<Rightarrow> string \<Rightarrow> string \<Rightarrow> string \<Rightarrow> int \<Rightarrow> Object list sql_result" where
  "SQLite_ListObjects cd s bucket prefix after limit =
     rbind (SQLite_GetBucket cd s bucket) (\<lambda>_.
       let rows = filter (\<lambda>r. oc_bucket r = bucket \<and> oc_is_latest r \<and> \<not> oc_delete_marker r \<and> after < oc_key r \<and>
                    inPrefixRange prefix (oc_key r)) (db_objects s)
       in Inr (map (scanObject cd) (sql_limit limit (sort_key oc_key rows))))"

definition SQLite_ListVersions ::
  "Codec \<Rightarrow> Database \<Rightarrow> string \<Rightarrow> string \<Rightarrow> string \<Rightarrow> string \<Rightarrow> int \<Rightarrow> Object list sql_result" where
  "SQLite_ListVersions cd s bucket prefix keyMarker versionMarker limit =
     rbind (SQLite_GetBucket cd s bucket) (\<lambda>_.
       let markerVSeq =
             (if keyMarker \<noteq> [] \<and> versionMarker \<noteq> [] then
                (case find (\<lambda>r. oc_bucket r = bucket \<and> oc_key r = keyMarker \<and> oc_version_id r = versionMarker) (db_objects s) of
                   None \<Rightarrow> - 1 | Some r \<Rightarrow> oc_vseq r)
              else - 1);
           after = (\<lambda>r. if keyMarker = [] then True
                        else if versionMarker \<noteq> [] \<and> 0 \<le> markerVSeq
                        then keyMarker < oc_key r \<or> (oc_key r = keyMarker \<and> oc_vseq r < markerVSeq)
                        else keyMarker < oc_key r);
           rows = filter (\<lambda>r. oc_bucket r = bucket \<and> inPrefixRange prefix (oc_key r) \<and> after r) (db_objects s)
       in Inr (map (scanObject cd) (sql_limit limit (sort_key (\<lambda>r. (oc_key r, - oc_vseq r)) rows))))"

section \<open>Snapshots and restore\<close>

definition SQLite_PutSnapshot :: "Codec \<Rightarrow> Database \<Rightarrow> gotime \<Rightarrow> Snapshot \<Rightarrow> Database sql_result" where
  "SQLite_PutSnapshot cd s now snap =
     rbind (SQLite_GetBucket cd s (snap_Bucket snap)) (\<lambda>_.
       let snap = (if snap_CreatedAt snap = zeroTime then snap\<lparr>snap_CreatedAt := now\<rparr> else snap)
       in Inr (s\<lparr>db_snapshots := sql_replace snapshotKey (snapshotValues cd snap) (db_snapshots s)\<rparr>))"

definition SQLite_GetSnapshot :: "Codec \<Rightarrow> Database \<Rightarrow> string \<Rightarrow> string \<Rightarrow> Snapshot sql_result" where
  "SQLite_GetSnapshot cd s bucket label =
     rbind (SQLite_GetBucket cd s bucket) (\<lambda>_.
       case find (\<lambda>r. sc_bucket r = bucket \<and> sc_label r = label) (db_snapshots s) of
         None \<Rightarrow> Inl (Sentinel ErrSnapshotNotFound) | Some r \<Rightarrow> Inr (scanSnapshot cd r))"

definition SQLite_ListSnapshots :: "Codec \<Rightarrow> Database \<Rightarrow> string \<Rightarrow> Snapshot list sql_result" where
  "SQLite_ListSnapshots cd s bucket =
     rbind (SQLite_GetBucket cd s bucket) (\<lambda>_.
       Inr (map (scanSnapshot cd) (sort_key sc_label (filter (\<lambda>r. sc_bucket r = bucket) (db_snapshots s)))))"

text \<open>The insertions of a restore: the first that fails rolls the transaction back.\<close>

fun insertRestored :: "Codec \<Rightarrow> string \<Rightarrow> Object list \<Rightarrow> objectRow list \<Rightarrow> objectRow list sql_result" where
  "insertRestored cd bucket [] rows = Inr rows"
| "insertRestored cd bucket (ob # obs) rows =
     rbind (sql_insert objectKey (objectValues cd False (withVersion (ob\<lparr>obj_Bucket := bucket\<rparr>))) rows)
       (insertRestored cd bucket obs)"

definition SQLite_RestoreBucket :: "Codec \<Rightarrow> Database \<Rightarrow> string \<Rightarrow> Object list \<Rightarrow> string \<Rightarrow> int \<Rightarrow> Database sql_result" where
  "SQLite_RestoreBucket cd s bucket objects headRoot seq =
     rbind (updateBucket s bucket (\<lambda>r. r\<lparr>bc_head_root := headRoot, bc_commit_seq := seq\<rparr>)) (\<lambda>s.
     rbind (insertRestored cd bucket objects (snd (sql_delete (\<lambda>r. oc_bucket r = bucket) (db_objects s)))) (\<lambda>rows.
     Inr (s\<lparr>db_objects := rows\<rparr>)))"

section \<open>Multipart uploads\<close>

definition SQLite_CreateMultipartUpload :: "Codec \<Rightarrow> Database \<Rightarrow> gotime \<Rightarrow> MultipartUpload \<Rightarrow> Database sql_result" where
  "SQLite_CreateMultipartUpload cd s now u =
     rbind (SQLite_GetBucket cd s (up_Bucket u)) (\<lambda>_.
       let u = (if up_Initiated u = zeroTime then u\<lparr>up_Initiated := now\<rparr> else u)
       in rbind (sql_insert uc_upload_id (uploadValues cd u) (db_uploads s)) (\<lambda>rows. Inr (s\<lparr>db_uploads := rows\<rparr>)))"

definition SQLite_GetMultipartUpload :: "Codec \<Rightarrow> Database \<Rightarrow> string \<Rightarrow> string \<Rightarrow> string \<Rightarrow> MultipartUpload sql_result" where
  "SQLite_GetMultipartUpload cd s bucket key uploadID =
     (case find (\<lambda>r. uc_upload_id r = uploadID \<and> uc_bucket r = bucket \<and> uc_key r = key) (db_uploads s) of
        None \<Rightarrow> Inl (Sentinel ErrUploadNotFound) | Some r \<Rightarrow> Inr (scanUpload cd r))"

definition SQLite_PutPart :: "Codec \<Rightarrow> Database \<Rightarrow> string \<Rightarrow> Part \<Rightarrow> Database sql_result" where
  "SQLite_PutPart cd s uploadID p =
     (if list_ex (\<lambda>r. uc_upload_id r = uploadID) (db_uploads s)
      then Inr (s\<lparr>db_parts := sql_replace partKey (partValues cd uploadID p) (db_parts s)\<rparr>)
      else Inl (Sentinel ErrUploadNotFound))"

definition SQLite_ListParts :: "Codec \<Rightarrow> Database \<Rightarrow> string \<Rightarrow> int \<Rightarrow> int \<Rightarrow> Part list sql_result" where
  "SQLite_ListParts cd s uploadID afterPart limit =
     (if find (\<lambda>r. uc_upload_id r = uploadID) (db_uploads s) = None then Inl (Sentinel ErrUploadNotFound)
      else Inr (map (scanPart cd) (sql_limit limit (sort_key pc_part_number
             (filter (\<lambda>r. pc_upload_id r = uploadID \<and> afterPart < pc_part_number r) (db_parts s))))))"

definition SQLite_ListMultipartUploads :: "Codec \<Rightarrow> Database \<Rightarrow> string \<Rightarrow> string \<Rightarrow> MultipartUpload list sql_result" where
  "SQLite_ListMultipartUploads cd s bucket prefix =
     rbind (SQLite_GetBucket cd s bucket) (\<lambda>_.
       Inr (map (scanUpload cd) (sort_key (\<lambda>r. (uc_key r, uc_upload_id r))
         (filter (\<lambda>r. uc_bucket r = bucket \<and> inPrefixRange prefix (uc_key r)) (db_uploads s)))))"

definition SQLite_DeleteMultipartUpload :: "Database \<Rightarrow> string \<Rightarrow> Database sql_result" where
  "SQLite_DeleteMultipartUpload s uploadID =
     (let (n, rows) = sql_delete (\<lambda>r. uc_upload_id r = uploadID) (db_uploads s)
      in if n = 0 then Inl (Sentinel ErrUploadNotFound)
         else Inr (s\<lparr>db_uploads := rows, db_parts := snd (sql_delete (\<lambda>r. pc_upload_id r = uploadID) (db_parts s))\<rparr>))"

end
