(* ===== verification/Memory.thy ===== *)
theory Memory
  imports Store_Types
begin

text \<open>
  The in-memory index, file internal/store/memory.go. The state is the record \<open>Memory\<close>
  (buckets and multipart uploads, each a Go map); every method of \<open>*Memory\<close> is one
  definition. A method that fails returns \<open>Inl\<close> its error and changes nothing; one that
  succeeds returns \<open>Inr\<close> the new state, its value, or both. The methods hold the mutex
  from entry to return, so each is one atomic step. \<open>time.Now\<close> is the argument \<open>now\<close>.

  After the operations come the well-formedness invariant of the state, that every
  operation keeps it (for the states reached by any sequence of calls), and the
  functional behaviour of each operation.
\<close>

section \<open>State\<close>

record memBucket =
  mb_meta :: Bucket
  mb_objects :: "(string, Object list) gomap"
  mb_snapshots :: "(string, Snapshot) gomap"

record memUpload =
  mu_meta :: MultipartUpload
  mu_parts :: "(int, Part) gomap"

record Memory =
  mem_buckets :: "(string, memBucket) gomap"
  mem_uploads :: "(string, memUpload) gomap"

type_synonym 'a mem_result = "(store_error, 'a) result"

definition NewMemory :: Memory where
  "NewMemory = \<lparr>mem_buckets = [], mem_uploads = []\<rparr>"

text \<open>The lookup and the not-found exit that open every bucket method.\<close>

definition getBucket :: "Memory \<Rightarrow> string \<Rightarrow> memBucket mem_result" where
  "getBucket m name =
     (case gm_get (mem_buckets m) name of None \<Rightarrow> Inl ErrBucketNotFound | Some b \<Rightarrow> Inr b)"

definition putBucket :: "Memory \<Rightarrow> string \<Rightarrow> memBucket \<Rightarrow> Memory" where
  "putBucket m name b = m\<lparr>mem_buckets := gm_put name b (mem_buckets m)\<rparr>"

text \<open>A map read with the zero value (no versions) for a missing key.\<close>

definition versionsOf :: "memBucket \<Rightarrow> string \<Rightarrow> Object list" where
  "versionsOf b k = (case gm_get (mb_objects b) k of None \<Rightarrow> [] | Some vs \<Rightarrow> vs)"

section \<open>Buckets\<close>

definition CreateBucket :: "Memory \<Rightarrow> gotime \<Rightarrow> Bucket \<Rightarrow> Memory mem_result" where
  "CreateBucket m now b =
     (case gm_get (mem_buckets m) (bkt_Name b) of
        Some _ \<Rightarrow> Inl ErrBucketExists
      | None \<Rightarrow>
          (let b = (if bkt_CreatedAt b = zeroTime then b\<lparr>bkt_CreatedAt := now\<rparr> else b)
           in Inr (putBucket m (bkt_Name b)
                     \<lparr>mb_meta = b, mb_objects = [], mb_snapshots = []\<rparr>)))"

definition GetBucket :: "Memory \<Rightarrow> string \<Rightarrow> Bucket mem_result" where
  "GetBucket m name = rbind (getBucket m name) (\<lambda>b. Inr (mb_meta b))"

definition ListBuckets :: "Memory \<Rightarrow> Bucket list" where
  "ListBuckets m = sort_key bkt_Name (map (mb_meta \<circ> snd) (mem_buckets m))"

definition DeleteBucket :: "Memory \<Rightarrow> string \<Rightarrow> Memory mem_result" where
  "DeleteBucket m name =
     rbind (getBucket m name) (\<lambda>b.
       if mb_objects b \<noteq> [] then Inl ErrBucketNotEmpty
       else Inr (m\<lparr>mem_buckets := gm_del name (mem_buckets m)\<rparr>))"

definition setMeta :: "Memory \<Rightarrow> string \<Rightarrow> (Bucket \<Rightarrow> Bucket) \<Rightarrow> Memory mem_result" where
  "setMeta m bucket f =
     rbind (getBucket m bucket) (\<lambda>b. Inr (putBucket m bucket (b\<lparr>mb_meta := f (mb_meta b)\<rparr>)))"

definition SetBucketVersioning :: "Memory \<Rightarrow> string \<Rightarrow> string \<Rightarrow> Memory mem_result" where
  "SetBucketVersioning m bucket status = setMeta m bucket (\<lambda>b. b\<lparr>bkt_Versioning := status\<rparr>)"

definition SetBucketEncryption :: "Memory \<Rightarrow> string \<Rightarrow> string \<Rightarrow> Memory mem_result" where
  "SetBucketEncryption m bucket algorithm = setMeta m bucket (\<lambda>b. b\<lparr>bkt_Encryption := algorithm\<rparr>)"

definition SetBucketRecoveryRecipient :: "Memory \<Rightarrow> string \<Rightarrow> string \<Rightarrow> Memory mem_result" where
  "SetBucketRecoveryRecipient m bucket recipient =
     setMeta m bucket (\<lambda>b. b\<lparr>bkt_RecoveryRecipient := recipient\<rparr>)"

definition SetBucketCORS :: "Memory \<Rightarrow> string \<Rightarrow> string \<Rightarrow> Memory mem_result" where
  "SetBucketCORS m bucket corsJSON = setMeta m bucket (\<lambda>b. b\<lparr>bkt_CORS := corsJSON\<rparr>)"

definition SetBucketTagging :: "Memory \<Rightarrow> string \<Rightarrow> string \<Rightarrow> Memory mem_result" where
  "SetBucketTagging m bucket tagsJSON = setMeta m bucket (\<lambda>b. b\<lparr>bkt_Tags := tagsJSON\<rparr>)"

definition SetBucketACT :: "Memory \<Rightarrow> string \<Rightarrow> string \<Rightarrow> string \<Rightarrow> Memory mem_result" where
  "SetBucketACT m bucket history grantees =
     setMeta m bucket (\<lambda>b. b\<lparr>bkt_ACT := True, bkt_ActHistory := history, bkt_ActGrantees := grantees\<rparr>)"

definition SetBucketHead :: "Memory \<Rightarrow> string \<Rightarrow> string \<Rightarrow> int \<Rightarrow> Memory mem_result" where
  "SetBucketHead m bucket root seq =
     setMeta m bucket (\<lambda>b. b\<lparr>bkt_HeadRoot := root, bkt_CommitSeq := seq\<rparr>)"

section \<open>Objects and versions\<close>

text \<open>\<open>sortVersions\<close>: a stable sort, newest first, then the latest flag by position.\<close>

fun markLatest :: "Object list \<Rightarrow> Object list" where
  "markLatest [] = []"
| "markLatest (v # vs) = v\<lparr>obj_IsLatest := True\<rparr> # map (\<lambda>w. w\<lparr>obj_IsLatest := False\<rparr>) vs"

definition sortVersions :: "Object list \<Rightarrow> Object list" where
  "sortVersions versions = markLatest (sort_key (\<lambda>v. - obj_VSeq v) versions)"

fun tagFirst :: "(Object \<Rightarrow> bool) \<Rightarrow> string \<Rightarrow> Object list \<Rightarrow> Object list option" where
  "tagFirst p tagsJSON [] = None"
| "tagFirst p tagsJSON (v # vs) =
     (if p v then Some (v\<lparr>obj_Tags := tagsJSON\<rparr> # vs)
      else map_option (Cons v) (tagFirst p tagsJSON vs))"

definition SetObjectTags ::
  "Memory \<Rightarrow> string \<Rightarrow> string \<Rightarrow> string \<Rightarrow> string \<Rightarrow> Memory mem_result" where
  "SetObjectTags m bucket key versionID tagsJSON =
     rbind (getBucket m bucket) (\<lambda>b.
       case tagFirst (\<lambda>v. (versionID = [] \<and> obj_IsLatest v) \<or> obj_VersionID v = versionID)
              tagsJSON (versionsOf b key) of
         None \<Rightarrow> Inl ErrObjectNotFound
       | Some vs \<Rightarrow> Inr (putBucket m bucket (b\<lparr>mb_objects := gm_put key vs (mb_objects b)\<rparr>)))"

definition PutObject ::
  "Memory \<Rightarrow> Object \<Rightarrow> PutCondition option \<Rightarrow> Memory mem_result" where
  "PutObject m ob cond =
     rbind (getBucket m (obj_Bucket ob)) (\<lambda>b.
       let versions = versionsOf b (obj_Key ob);
           exists = (versions \<noteq> [] \<and> \<not> obj_DeleteMarker (hd versions));
           etag = (if exists then obj_ETag (hd versions) else [])
       in if \<not> PutCondition_Ok cond exists etag then Inl ErrPreconditionFailed
          else let kept = map (\<lambda>v. v\<lparr>obj_IsLatest := False\<rparr>)
                            (filter (\<lambda>v. obj_VersionID v \<noteq> obj_VersionID ob) versions);
                   new = sortVersions (ob\<lparr>obj_IsLatest := True\<rparr> # kept)
               in Inr (putBucket m (obj_Bucket ob)
                         (b\<lparr>mb_objects := gm_put (obj_Key ob) new (mb_objects b)\<rparr>)))"

definition GetObject :: "Memory \<Rightarrow> string \<Rightarrow> string \<Rightarrow> Object mem_result" where
  "GetObject m bucket key =
     rbind (getBucket m bucket) (\<lambda>b.
       case versionsOf b key of [] \<Rightarrow> Inl ErrObjectNotFound | v # _ \<Rightarrow> Inr v)"

definition GetObjectVersion :: "Memory \<Rightarrow> string \<Rightarrow> string \<Rightarrow> string \<Rightarrow> Object mem_result" where
  "GetObjectVersion m bucket key versionID =
     rbind (getBucket m bucket) (\<lambda>b.
       case find (\<lambda>v. obj_VersionID v = versionID) (versionsOf b key) of
         None \<Rightarrow> Inl ErrObjectNotFound | Some v \<Rightarrow> Inr v)"

definition DeleteObject :: "Memory \<Rightarrow> string \<Rightarrow> string \<Rightarrow> Memory mem_result" where
  "DeleteObject m bucket key =
     rbind (getBucket m bucket) (\<lambda>b.
       Inr (putBucket m bucket (b\<lparr>mb_objects := gm_del key (mb_objects b)\<rparr>)))"

fun takeVersion :: "string \<Rightarrow> Object list \<Rightarrow> (Object \<times> Object list) option" where
  "takeVersion vid [] = None"
| "takeVersion vid (v # vs) =
     (if obj_VersionID v = vid then Some (v, vs)
      else map_option (\<lambda>(w, ws). (w, v # ws)) (takeVersion vid vs))"

definition DeleteVersion ::
  "Memory \<Rightarrow> string \<Rightarrow> string \<Rightarrow> string \<Rightarrow> (Object \<times> Memory) mem_result" where
  "DeleteVersion m bucket key versionID =
     rbind (getBucket m bucket) (\<lambda>b.
       case takeVersion versionID (versionsOf b key) of
         None \<Rightarrow> Inl ErrObjectNotFound
       | Some (v, versions) \<Rightarrow>
           (let objects = (if versions = [] then gm_del key (mb_objects b)
                           else gm_put key (sortVersions versions) (mb_objects b))
            in Inr (v, putBucket m bucket (b\<lparr>mb_objects := objects\<rparr>))))"

definition takeLimit :: "int \<Rightarrow> 'a list \<Rightarrow> 'a list" where
  "takeLimit limit xs = (if 0 \<le> limit \<and> limit < int (length xs) then take (nat limit) xs else xs)"

definition ListObjects ::
  "Memory \<Rightarrow> string \<Rightarrow> string \<Rightarrow> string \<Rightarrow> int \<Rightarrow> Object list mem_result" where
  "ListObjects m bucket prefix after limit =
     rbind (getBucket m bucket) (\<lambda>b.
       let keys = map fst (filter (\<lambda>(k, versions).
                    HasPrefix k prefix \<and> after < k \<and> \<not> obj_DeleteMarker (hd versions)) (mb_objects b));
           keys = takeLimit limit (sort keys)
       in Inr (map (\<lambda>k. hd (versionsOf b k)) keys))"

text \<open>
  The output loop of \<open>ListVersions\<close>: it appends first and compares with the limit
  afterwards.
\<close>

fun emitUpTo :: "int \<Rightarrow> Object list \<Rightarrow> Object list \<Rightarrow> Object list" where
  "emitUpTo limit out [] = out"
| "emitUpTo limit out (v # vs) =
     (let out = out @ [v] in
      if 0 \<le> limit \<and> int (length out) = limit then out else emitUpTo limit out vs)"

definition ListVersions ::
  "Memory \<Rightarrow> string \<Rightarrow> string \<Rightarrow> string \<Rightarrow> string \<Rightarrow> int \<Rightarrow> Object list mem_result" where
  "ListVersions m bucket prefix keyMarker versionMarker limit =
     rbind (getBucket m bucket) (\<lambda>b.
       let keys = sort (filter (\<lambda>k. HasPrefix k prefix \<and> keyMarker \<le> k) (map fst (mb_objects b)));
           markerVSeq =
             (if keyMarker \<noteq> [] \<and> versionMarker \<noteq> [] then
                foldl (\<lambda>s v. if obj_VersionID v = versionMarker then obj_VSeq v else s) (- 1)
                  (versionsOf b keyMarker)
              else - 1);
           skip = (\<lambda>k v. k = keyMarker \<and>
                     (versionMarker = [] \<or> markerVSeq < 0 \<or> markerVSeq \<le> obj_VSeq v));
           rows = concat (map (\<lambda>k. filter (\<lambda>v. \<not> skip k v) (versionsOf b k)) keys)
       in Inr (emitUpTo limit [] rows))"

section \<open>Snapshots and restore\<close>

definition PutSnapshot :: "Memory \<Rightarrow> gotime \<Rightarrow> Snapshot \<Rightarrow> Memory mem_result" where
  "PutSnapshot m now s =
     rbind (getBucket m (snap_Bucket s)) (\<lambda>b.
       let s = (if snap_CreatedAt s = zeroTime then s\<lparr>snap_CreatedAt := now\<rparr> else s)
       in Inr (putBucket m (snap_Bucket s)
                 (b\<lparr>mb_snapshots := gm_put (snap_Label s) s (mb_snapshots b)\<rparr>)))"

definition GetSnapshot :: "Memory \<Rightarrow> string \<Rightarrow> string \<Rightarrow> Snapshot mem_result" where
  "GetSnapshot m bucket label =
     rbind (getBucket m bucket) (\<lambda>b.
       case gm_get (mb_snapshots b) label of
         None \<Rightarrow> Inl ErrSnapshotNotFound | Some s \<Rightarrow> Inr s)"

definition ListSnapshots :: "Memory \<Rightarrow> string \<Rightarrow> Snapshot list mem_result" where
  "ListSnapshots m bucket =
     rbind (getBucket m bucket) (\<lambda>b. Inr (sort_key snap_Label (map snd (mb_snapshots b))))"

definition restoredRow :: "string \<Rightarrow> Object \<Rightarrow> Object" where
  "restoredRow bucket ob =
     ob\<lparr>obj_Bucket := bucket, obj_IsLatest := True,
        obj_VersionID := (if obj_VersionID ob = [] then ''null'' else obj_VersionID ob)\<rparr>"

definition appendRow :: "(string, Object list) gomap \<Rightarrow> Object \<Rightarrow> (string, Object list) gomap" where
  "appendRow m ob =
     gm_put (obj_Key ob) ((case gm_get m (obj_Key ob) of None \<Rightarrow> [] | Some vs \<Rightarrow> vs) @ [ob]) m"

definition RestoreBucket ::
  "Memory \<Rightarrow> string \<Rightarrow> Object list \<Rightarrow> string \<Rightarrow> int \<Rightarrow> Memory mem_result" where
  "RestoreBucket m bucket objects root seq =
     rbind (getBucket m bucket) (\<lambda>b.
       let rows = foldl appendRow [] (map (restoredRow bucket) objects);
           rows = map (\<lambda>(k, versions). (k, sortVersions versions)) rows
       in Inr (putBucket m bucket
            (b\<lparr>mb_objects := rows,
               mb_meta := (mb_meta b)\<lparr>bkt_HeadRoot := root, bkt_CommitSeq := seq\<rparr>\<rparr>)))"

section \<open>Multipart uploads\<close>

definition CreateMultipartUpload :: "Memory \<Rightarrow> gotime \<Rightarrow> MultipartUpload \<Rightarrow> Memory mem_result" where
  "CreateMultipartUpload m now u =
     rbind (getBucket m (up_Bucket u)) (\<lambda>_.
       let u = (if up_Initiated u = zeroTime then u\<lparr>up_Initiated := now\<rparr> else u)
       in Inr (m\<lparr>mem_uploads := gm_put (up_UploadID u) \<lparr>mu_meta = u, mu_parts = []\<rparr> (mem_uploads m)\<rparr>))"

definition GetMultipartUpload ::
  "Memory \<Rightarrow> string \<Rightarrow> string \<Rightarrow> string \<Rightarrow> MultipartUpload mem_result" where
  "GetMultipartUpload m bucket key uploadID =
     (case gm_get (mem_uploads m) uploadID of
        None \<Rightarrow> Inl ErrUploadNotFound
      | Some u \<Rightarrow>
          if up_Bucket (mu_meta u) \<noteq> bucket \<or> up_Key (mu_meta u) \<noteq> key then Inl ErrUploadNotFound
          else Inr (mu_meta u))"

definition PutPart :: "Memory \<Rightarrow> string \<Rightarrow> Part \<Rightarrow> Memory mem_result" where
  "PutPart m uploadID p =
     (case gm_get (mem_uploads m) uploadID of
        None \<Rightarrow> Inl ErrUploadNotFound
      | Some u \<Rightarrow>
          Inr (m\<lparr>mem_uploads :=
            gm_put uploadID (u\<lparr>mu_parts := gm_put (part_PartNumber p) p (mu_parts u)\<rparr>) (mem_uploads m)\<rparr>))"

definition ListParts :: "Memory \<Rightarrow> string \<Rightarrow> int \<Rightarrow> int \<Rightarrow> Part list mem_result" where
  "ListParts m uploadID afterPart limit =
     (case gm_get (mem_uploads m) uploadID of
        None \<Rightarrow> Inl ErrUploadNotFound
      | Some u \<Rightarrow>
          let nums = takeLimit limit (sort (filter (\<lambda>n. afterPart < n) (map fst (mu_parts u))))
          in Inr (map (\<lambda>n. the (gm_get (mu_parts u) n)) nums))"

definition ListMultipartUploads :: "Memory \<Rightarrow> string \<Rightarrow> string \<Rightarrow> MultipartUpload list mem_result" where
  "ListMultipartUploads m bucket prefix =
     rbind (getBucket m bucket) (\<lambda>_.
       Inr (sort_key (\<lambda>u. (up_Key u, up_UploadID u))
              (filter (\<lambda>u. up_Bucket u = bucket \<and> HasPrefix (up_Key u) prefix)
                 (map (mu_meta \<circ> snd) (mem_uploads m)))))"

definition DeleteMultipartUpload :: "Memory \<Rightarrow> string \<Rightarrow> Memory mem_result" where
  "DeleteMultipartUpload m uploadID =
     (case gm_get (mem_uploads m) uploadID of
        None \<Rightarrow> Inl ErrUploadNotFound
      | Some _ \<Rightarrow> Inr (m\<lparr>mem_uploads := gm_del uploadID (mem_uploads m)\<rparr>))"

section \<open>The invariant\<close>

text \<open>
  A key's versions: at least one, newest first, the latest flag on the first and on no
  other, one row per version id, all of them rows of this bucket and key.
\<close>

definition versions_wf :: "string \<Rightarrow> string \<Rightarrow> Object list \<Rightarrow> bool" where
  "versions_wf bucket key vs \<longleftrightarrow>
     vs \<noteq> [] \<and> sorted (map (\<lambda>v. - obj_VSeq v) vs) \<and> markLatest vs = vs \<and>
     distinct (map obj_VersionID vs) \<and> (\<forall>v \<in> set vs. obj_Bucket v = bucket \<and> obj_Key v = key)"

definition bucket_wf :: "string \<Rightarrow> memBucket \<Rightarrow> bool" where
  "bucket_wf name b \<longleftrightarrow>
     bkt_Name (mb_meta b) = name \<and> gm_all (versions_wf name) (mb_objects b) \<and>
     gm_all (\<lambda>l s. snap_Label s = l \<and> snap_Bucket s = name) (mb_snapshots b)"

definition upload_wf :: "string \<Rightarrow> memUpload \<Rightarrow> bool" where
  "upload_wf uid u \<longleftrightarrow>
     up_UploadID (mu_meta u) = uid \<and> gm_all (\<lambda>n p. part_PartNumber p = n) (mu_parts u)"

definition memory_wf :: "Memory \<Rightarrow> bool" where
  "memory_wf m \<longleftrightarrow> gm_all bucket_wf (mem_buckets m) \<and> gm_all upload_wf (mem_uploads m)"

lemma getBucket_Inr_iff: "getBucket m n = Inr b \<longleftrightarrow> gm_get (mem_buckets m) n = Some b"
  by (auto simp: getBucket_def split: option.splits)

lemma getBucket_Inl_iff: "getBucket m n = Inl e \<longleftrightarrow> gm_get (mem_buckets m) n = None \<and> e = ErrBucketNotFound"
  by (auto simp: getBucket_def split: option.splits)

lemma getBucket_putBucket [simp]:
  "getBucket (putBucket m n b) n' = (if n' = n then Inr b else getBucket m n')"
  by (simp add: getBucket_def putBucket_def)

lemma memory_wf_getBucket: "memory_wf m \<Longrightarrow> getBucket m n = Inr b \<Longrightarrow> bucket_wf n b"
  by (auto simp: memory_wf_def getBucket_Inr_iff dest: gm_allD)

lemma memory_wf_putBucket: "memory_wf m \<Longrightarrow> bucket_wf n b \<Longrightarrow> memory_wf (putBucket m n b)"
  by (auto simp: memory_wf_def putBucket_def intro: gm_all_put)

text \<open>A function that does not look at the latest flag does not see \<open>markLatest\<close>.\<close>

lemma map_markLatest [simp]:
  "(\<And>v l. f (v\<lparr>obj_IsLatest := l\<rparr>) = f v) \<Longrightarrow> map f (markLatest vs) = map f vs"
  by (cases vs) simp_all

lemma markLatest_Nil_iff [simp]: "markLatest vs = [] \<longleftrightarrow> vs = []"
  by (cases vs) simp_all

lemma markLatest_idem [simp]: "markLatest (markLatest vs) = markLatest vs"
  by (cases vs) (simp_all add: comp_def)

lemma length_markLatest [simp]: "length (markLatest vs) = length vs"
  by (cases vs) simp_all

lemma sortVersions_Nil_iff [simp]: "sortVersions vs = [] \<longleftrightarrow> vs = []"
  by (simp add: sortVersions_def) (metis length_0_conv length_sort)

lemma map_sortVersions:
  "(\<And>v l. f (v\<lparr>obj_IsLatest := l\<rparr>) = f v) \<Longrightarrow>
   map f (sortVersions vs) = map f (sort_key (\<lambda>v. - obj_VSeq v) vs)"
  by (simp add: sortVersions_def)

lemma image_sortVersions:
  "(\<And>v l. f (v\<lparr>obj_IsLatest := l\<rparr>) = f v) \<Longrightarrow> f ` set (sortVersions vs) = f ` set vs"
  using arg_cong [where f = set, OF map_sortVersions [of f vs]] by simp

lemma sorted_sortVersions: "sorted (map (\<lambda>v. - obj_VSeq v) (sortVersions vs))"
  by (simp add: map_sortVersions)

lemma distinct_map_sort_key: "distinct (map f (sort_key g xs)) \<longleftrightarrow> distinct (map f xs)"
  by (simp add: distinct_map)

lemma distinct_sortVersions:
  "distinct (map obj_VersionID (sortVersions vs)) \<longleftrightarrow> distinct (map obj_VersionID vs)"
  by (simp add: map_sortVersions distinct_map_sort_key)

lemma sortVersions_wf:
  assumes "vs \<noteq> []" and "distinct (map obj_VersionID vs)"
    and "\<And>v. v \<in> set vs \<Longrightarrow> obj_Bucket v = bucket \<and> obj_Key v = key"
  shows "versions_wf bucket key (sortVersions vs)"
proof -
  have "obj_Bucket ` set (sortVersions vs) = obj_Bucket ` set vs"
    and "obj_Key ` set (sortVersions vs) = obj_Key ` set vs"
    by (simp_all add: image_sortVersions)
  with assms have "\<forall>v \<in> set (sortVersions vs). obj_Bucket v = bucket \<and> obj_Key v = key"
    by (metis (no_types, lifting) image_iff)
  with assms show ?thesis
    by (simp add: versions_wf_def sorted_sortVersions distinct_sortVersions)
       (simp add: sortVersions_def)
qed

lemma versionsOf_wf: "bucket_wf n b \<Longrightarrow> versionsOf b k \<noteq> [] \<Longrightarrow> versions_wf n k (versionsOf b k)"
  by (auto simp: versionsOf_def bucket_wf_def split: option.splits dest: gm_allD)


lemma memory_wf_NewMemory [wf_intros]: "memory_wf NewMemory"
  by (simp add: memory_wf_def NewMemory_def)

lemma CreateBucket_wf [wf_intros]:
  "memory_wf m \<Longrightarrow> CreateBucket m now b = Inr m' \<Longrightarrow> memory_wf m'"
  by (auto simp: CreateBucket_def bucket_wf_def Let_def intro!: memory_wf_putBucket split: option.splits)

lemma DeleteBucket_wf [wf_intros]:
  "memory_wf m \<Longrightarrow> DeleteBucket m n = Inr m' \<Longrightarrow> memory_wf m'"
  by (auto simp: DeleteBucket_def rbind_Inr_iff memory_wf_def split: if_splits intro: gm_all_del)

lemma setMeta_wf:
  assumes "memory_wf m" and "setMeta m n f = Inr m'" and "\<And>b. bkt_Name (f b) = bkt_Name b"
  shows "memory_wf m'"
  using assms memory_wf_getBucket [OF assms(1)]
  by (auto simp: setMeta_def rbind_Inr_iff bucket_wf_def intro!: memory_wf_putBucket)

lemmas set_meta_defs = SetBucketVersioning_def SetBucketEncryption_def
  SetBucketRecoveryRecipient_def SetBucketCORS_def SetBucketTagging_def SetBucketACT_def
  SetBucketHead_def

lemma set_meta_wf [wf_intros]:
  "memory_wf m \<Longrightarrow> SetBucketVersioning m n s = Inr m' \<Longrightarrow> memory_wf m'"
  "memory_wf m \<Longrightarrow> SetBucketEncryption m n s = Inr m' \<Longrightarrow> memory_wf m'"
  "memory_wf m \<Longrightarrow> SetBucketRecoveryRecipient m n s = Inr m' \<Longrightarrow> memory_wf m'"
  "memory_wf m \<Longrightarrow> SetBucketCORS m n s = Inr m' \<Longrightarrow> memory_wf m'"
  "memory_wf m \<Longrightarrow> SetBucketTagging m n s = Inr m' \<Longrightarrow> memory_wf m'"
  "memory_wf m \<Longrightarrow> SetBucketACT m n s t = Inr m' \<Longrightarrow> memory_wf m'"
  "memory_wf m \<Longrightarrow> SetBucketHead m n s q = Inr m' \<Longrightarrow> memory_wf m'"
  unfolding set_meta_defs by (erule (1) setMeta_wf, simp)+

lemma bucket_wf_putVersions:
  "bucket_wf n b \<Longrightarrow> versions_wf n k vs \<Longrightarrow> bucket_wf n (b\<lparr>mb_objects := gm_put k vs (mb_objects b)\<rparr>)"
  by (simp add: bucket_wf_def gm_all_put)

lemma bucket_wf_delKey:
  "bucket_wf n b \<Longrightarrow> bucket_wf n (b\<lparr>mb_objects := gm_del k (mb_objects b)\<rparr>)"
  by (simp add: bucket_wf_def gm_all_del)

lemma tagFirst_map:
  "tagFirst p t vs = Some ws \<Longrightarrow> (\<And>v. f (v\<lparr>obj_Tags := t\<rparr>) = f v) \<Longrightarrow> map f ws = map f vs"
  by (induction vs arbitrary: ws) (auto split: if_splits)

lemma map_fixed_iff: "map f xs = xs \<longleftrightarrow> (\<forall>x \<in> set xs. f x = x)"
  by (induction xs) auto

lemma IsLatest_fixed [simp]: "v\<lparr>obj_IsLatest := l\<rparr> = v \<longleftrightarrow> obj_IsLatest v = l" for v :: Object
  by (cases v) auto

lemma markLatest_fixed_iff:
  "markLatest vs = vs \<longleftrightarrow>
     (case map obj_IsLatest vs of [] \<Rightarrow> True | l # ls \<Rightarrow> l \<and> (\<forall>l' \<in> set ls. \<not> l'))"
  by (cases vs) (auto simp: map_fixed_iff)

lemma tagFirst_wf:
  assumes "tagFirst p t vs = Some ws" and "versions_wf n k vs"
  shows "versions_wf n k ws"
proof -
  note fields = tagFirst_map [OF assms(1)]
  have "map obj_IsLatest ws = map obj_IsLatest vs" and "map (\<lambda>v. - obj_VSeq v) ws = map (\<lambda>v. - obj_VSeq v) vs"
    and "map obj_VersionID ws = map obj_VersionID vs" and *: "map (\<lambda>v. (obj_Bucket v, obj_Key v)) ws = map (\<lambda>v. (obj_Bucket v, obj_Key v)) vs"
    and "length ws = length vs"
    by (simp_all add: fields map_eq_imp_length_eq [OF fields [of obj_Key]])
  moreover have "\<forall>v \<in> set ws. obj_Bucket v = n \<and> obj_Key v = k"
  proof
    fix v
    assume "v \<in> set ws"
    then have "(obj_Bucket v, obj_Key v) \<in> set (map (\<lambda>v. (obj_Bucket v, obj_Key v)) vs)"
      unfolding * [symmetric] by auto
    with assms(2) show "obj_Bucket v = n \<and> obj_Key v = k" by (auto simp: versions_wf_def)
  qed
  ultimately show ?thesis using assms(2) by (auto simp: versions_wf_def markLatest_fixed_iff)
qed

lemma SetObjectTags_wf [wf_intros]:
  "memory_wf m \<Longrightarrow> SetObjectTags m n k vid t = Inr m' \<Longrightarrow> memory_wf m'"
proof -
  assume wf: "memory_wf m" and "SetObjectTags m n k vid t = Inr m'"
  then obtain b vs where b: "getBucket m n = Inr b"
    and vs: "tagFirst (\<lambda>v. (vid = [] \<and> obj_IsLatest v) \<or> obj_VersionID v = vid) t (versionsOf b k) = Some vs"
    and m': "m' = putBucket m n (b\<lparr>mb_objects := gm_put k vs (mb_objects b)\<rparr>)"
    by (auto simp: SetObjectTags_def rbind_Inr_iff split: option.splits)
  have "bucket_wf n b" using wf b by (rule memory_wf_getBucket)
  moreover have "versionsOf b k \<noteq> []" using vs by auto
  ultimately have "versions_wf n k vs" by (blast intro: tagFirst_wf [OF vs] versionsOf_wf)
  with wf \<open>bucket_wf n b\<close> show ?thesis
    unfolding m' by (intro memory_wf_putBucket bucket_wf_putVersions)
qed

text \<open>The rows \<open>PutObject\<close> leaves at the key of its argument.\<close>

definition putVersions :: "Object \<Rightarrow> Object list \<Rightarrow> Object list" where
  "putVersions ob versions =
     sortVersions (ob\<lparr>obj_IsLatest := True\<rparr> #
       map (\<lambda>v. v\<lparr>obj_IsLatest := False\<rparr>) (filter (\<lambda>v. obj_VersionID v \<noteq> obj_VersionID ob) versions))"

definition currentETag :: "Object list \<Rightarrow> string option" where
  "currentETag versions =
     (case versions of [] \<Rightarrow> None | v # _ \<Rightarrow> if obj_DeleteMarker v then None else Some (obj_ETag v))"

definition cond_holds :: "PutCondition option \<Rightarrow> Object list \<Rightarrow> bool" where
  "cond_holds cond versions =
     PutCondition_Ok cond (currentETag versions \<noteq> None) (case currentETag versions of None \<Rightarrow> [] | Some e \<Rightarrow> e)"

lemma PutObject_eq:
  "PutObject m ob cond = rbind (getBucket m (obj_Bucket ob)) (\<lambda>b.
     if cond_holds cond (versionsOf b (obj_Key ob))
     then Inr (putBucket m (obj_Bucket ob)
            (b\<lparr>mb_objects := gm_put (obj_Key ob) (putVersions ob (versionsOf b (obj_Key ob))) (mb_objects b)\<rparr>))
     else Inl ErrPreconditionFailed)"
  by (auto simp: PutObject_def putVersions_def cond_holds_def currentETag_def Let_def
      intro!: arg_cong [where f = "rbind _"] split: list.splits)

lemma putVersions_wf:
  assumes "versions = [] \<or> versions_wf (obj_Bucket ob) (obj_Key ob) versions"
  shows "versions_wf (obj_Bucket ob) (obj_Key ob) (putVersions ob versions)"
  unfolding putVersions_def using assms
  by (intro sortVersions_wf) (auto simp: versions_wf_def comp_def distinct_map_filter)

lemma PutObject_wf [wf_intros]: "memory_wf m \<Longrightarrow> PutObject m ob cond = Inr m' \<Longrightarrow> memory_wf m'"
  by (auto simp: PutObject_eq rbind_Inr_iff split: if_splits dest!: memory_wf_getBucket
      intro!: memory_wf_putBucket bucket_wf_putVersions putVersions_wf intro: versionsOf_wf)

lemma DeleteObject_wf [wf_intros]: "memory_wf m \<Longrightarrow> DeleteObject m n k = Inr m' \<Longrightarrow> memory_wf m'"
  by (auto simp: DeleteObject_def rbind_Inr_iff dest: memory_wf_getBucket
      intro!: memory_wf_putBucket bucket_wf_delKey)

lemma takeVersion_Some:
  "takeVersion vid vs = Some (v, ws) \<Longrightarrow>
     \<exists>as bs. vs = as @ v # bs \<and> ws = as @ bs \<and> obj_VersionID v = vid \<and> vid \<notin> obj_VersionID ` set as"
proof (induction vs arbitrary: v ws)
  case Nil
  then show ?case by simp
next
  case (Cons x vs)
  show ?case
  proof (cases "obj_VersionID x = vid")
    case True
    with Cons.prems show ?thesis by (intro exI [of _ "[]"] exI [of _ vs]) auto
  next
    case False
    with Cons.prems obtain us where "takeVersion vid vs = Some (v, us)" and "ws = x # us" by auto
    with Cons.IH [of v us] obtain as bs where "vs = as @ v # bs" "ws = x # as @ bs" "obj_VersionID v = vid"
      "vid \<notin> obj_VersionID ` set as" by auto
    with False show ?thesis by (intro exI [of _ "x # as"] exI [of _ bs]) auto
  qed
qed

lemma takeVersion_None_iff: "takeVersion vid vs = None \<longleftrightarrow> vid \<notin> obj_VersionID ` set vs"
  by (induction vs) auto

lemma takeVersion_wf:
  assumes "takeVersion vid vs = Some (v, ws)" and "versions_wf n k vs" and "ws \<noteq> []"
  shows "versions_wf n k (sortVersions ws)"
  using takeVersion_Some [OF assms(1)] assms(2,3)
  by (intro sortVersions_wf) (auto simp: versions_wf_def)

lemma DeleteVersion_wf [wf_intros]:
  "memory_wf m \<Longrightarrow> DeleteVersion m n k vid = Inr (v, m') \<Longrightarrow> memory_wf m'"
proof -
  assume wf: "memory_wf m" and "DeleteVersion m n k vid = Inr (v, m')"
  then obtain b ws where b: "getBucket m n = Inr b" and ws: "takeVersion vid (versionsOf b k) = Some (v, ws)"
    and m': "m' = putBucket m n (b\<lparr>mb_objects := if ws = [] then gm_del k (mb_objects b)
                                                 else gm_put k (sortVersions ws) (mb_objects b)\<rparr>)"
    by (auto simp: DeleteVersion_def rbind_Inr_iff Let_def split: option.splits)
  have bwf: "bucket_wf n b" using wf b by (rule memory_wf_getBucket)
  moreover have "versionsOf b k \<noteq> []" using ws by auto
  ultimately have vwf: "versions_wf n k (versionsOf b k)" by (rule versionsOf_wf)
  show ?thesis
  proof (cases "ws = []")
    case True
    with wf bwf show ?thesis by (simp add: m' memory_wf_putBucket bucket_wf_delKey)
  next
    case False
    with wf bwf takeVersion_wf [OF ws vwf] show ?thesis
      by (simp add: m' memory_wf_putBucket bucket_wf_putVersions)
  qed
qed

lemma PutSnapshot_wf [wf_intros]: "memory_wf m \<Longrightarrow> PutSnapshot m now s = Inr m' \<Longrightarrow> memory_wf m'"
  by (auto simp: PutSnapshot_def rbind_Inr_iff Let_def bucket_wf_def dest!: memory_wf_getBucket
      intro!: memory_wf_putBucket gm_all_put)

lemma foldl_appendRow_wf: "gm_wf m \<Longrightarrow> gm_wf (foldl appendRow m rows)"
  by (induction rows arbitrary: m) (simp_all add: appendRow_def gm_wf_put)

lemma foldl_appendRow_get:
  "gm_get (foldl appendRow m rows) k =
     (if filter (\<lambda>ob. obj_Key ob = k) rows = [] then gm_get m k
      else Some ((case gm_get m k of None \<Rightarrow> [] | Some vs \<Rightarrow> vs) @ filter (\<lambda>ob. obj_Key ob = k) rows))"
  by (induction rows arbitrary: m) (auto simp: appendRow_def)

text \<open>The rows a restore installs, as a map from keys.\<close>

definition restoredObjects :: "string \<Rightarrow> Object list \<Rightarrow> (string, Object list) gomap" where
  "restoredObjects bucket objects =
     map (\<lambda>(k, versions). (k, sortVersions versions)) (foldl appendRow [] (map (restoredRow bucket) objects))"

lemma restoredObjects_get:
  "gm_get (restoredObjects bucket objects) k =
     (let vs = filter (\<lambda>ob. obj_Key ob = k) (map (restoredRow bucket) objects)
      in if vs = [] then None else Some (sortVersions vs))"
proof -
  have "gm_get (restoredObjects bucket objects) k =
      map_option sortVersions (gm_get (foldl appendRow [] (map (restoredRow bucket) objects)) k)"
    unfolding restoredObjects_def by (simp add: map_of_map)
  then show ?thesis by (simp add: foldl_appendRow_get Let_def)
qed

lemma restoredObjects_gm_wf: "gm_wf (restoredObjects bucket objects)"
  using foldl_appendRow_wf [OF gm_wf_Nil, of "map (restoredRow bucket) objects"]
  by (simp add: restoredObjects_def gm_wf_def comp_def case_prod_unfold)

lemma RestoreBucket_eq:
  "RestoreBucket m bucket objects root seq =
     rbind (getBucket m bucket) (\<lambda>b. Inr (putBucket m bucket
       (b\<lparr>mb_objects := restoredObjects bucket objects,
          mb_meta := (mb_meta b)\<lparr>bkt_HeadRoot := root, bkt_CommitSeq := seq\<rparr>\<rparr>)))"
  by (simp add: RestoreBucket_def restoredObjects_def Let_def)

text \<open>One row per key and version id, as the primary key of the SQL tables requires.\<close>

definition restorable :: "string \<Rightarrow> Object list \<Rightarrow> bool" where
  "restorable bucket objects \<longleftrightarrow>
     distinct (map (\<lambda>ob. (obj_Key ob, obj_VersionID (restoredRow bucket ob))) objects)"

lemma distinct_map_pair_filter:
  "distinct (map (\<lambda>x. (f x, g x)) xs) \<Longrightarrow> distinct (map g (filter (\<lambda>x. f x = k) xs))"
  by (induction xs) (auto simp: image_iff)

lemma restoredObjects_all:
  assumes "restorable bucket objects"
  shows "gm_all (versions_wf bucket) (restoredObjects bucket objects)"
proof -
  have "versions_wf bucket k vs" if "gm_get (restoredObjects bucket objects) k = Some vs" for k vs
  proof -
    from that have "vs = sortVersions (filter (\<lambda>ob. obj_Key ob = k) (map (restoredRow bucket) objects))"
      and ne: "filter (\<lambda>ob. obj_Key ob = k) (map (restoredRow bucket) objects) \<noteq> []"
      by (auto simp: restoredObjects_get Let_def split: if_splits)
    moreover have "distinct (map (\<lambda>ob. (obj_Key ob, obj_VersionID ob)) (map (restoredRow bucket) objects))"
      using assms by (simp add: restorable_def comp_def restoredRow_def)
    ultimately show ?thesis
      by (auto intro!: sortVersions_wf distinct_map_pair_filter simp: restoredRow_def)
  qed
  then show ?thesis
    using restoredObjects_gm_wf [of bucket objects] by (auto simp: gm_all_def gm_in_set_iff)
qed

lemma RestoreBucket_wf [wf_intros]:
  "memory_wf m \<Longrightarrow> restorable n objects \<Longrightarrow> RestoreBucket m n objects root seq = Inr m' \<Longrightarrow> memory_wf m'"
  by (auto simp: RestoreBucket_eq rbind_Inr_iff bucket_wf_def restoredObjects_all
      dest!: memory_wf_getBucket intro!: memory_wf_putBucket)

lemma memory_wf_upload: "memory_wf m \<Longrightarrow> gm_get (mem_uploads m) uid = Some u \<Longrightarrow> upload_wf uid u"
  by (auto simp: memory_wf_def dest: gm_allD)

lemma memory_wf_putUpload:
  "memory_wf m \<Longrightarrow> upload_wf uid u \<Longrightarrow> memory_wf (m\<lparr>mem_uploads := gm_put uid u (mem_uploads m)\<rparr>)"
  by (auto simp: memory_wf_def intro: gm_all_put)

lemma CreateMultipartUpload_wf [wf_intros]:
  "memory_wf m \<Longrightarrow> CreateMultipartUpload m now u = Inr m' \<Longrightarrow> memory_wf m'"
  by (auto simp: CreateMultipartUpload_def rbind_Inr_iff Let_def upload_wf_def intro!: memory_wf_putUpload)

lemma PutPart_wf [wf_intros]: "memory_wf m \<Longrightarrow> PutPart m uid p = Inr m' \<Longrightarrow> memory_wf m'"
  by (auto simp: PutPart_def upload_wf_def split: option.splits dest: memory_wf_upload
      intro!: memory_wf_putUpload gm_all_put)

lemma DeleteMultipartUpload_wf [wf_intros]:
  "memory_wf m \<Longrightarrow> DeleteMultipartUpload m uid = Inr m' \<Longrightarrow> memory_wf m'"
  by (auto simp: DeleteMultipartUpload_def memory_wf_def split: option.splits intro: gm_all_del)

section \<open>Reachable states\<close>

text \<open>A call of a method that changes the index, and the state it leads to.\<close>

datatype mem_op =
    CallCreateBucket gotime Bucket
  | CallDeleteBucket string
  | CallSetBucketVersioning string string
  | CallSetBucketEncryption string string
  | CallSetBucketRecoveryRecipient string string
  | CallSetBucketCORS string string
  | CallSetBucketTagging string string
  | CallSetBucketACT string string string
  | CallSetBucketHead string string int
  | CallSetObjectTags string string string string
  | CallPutSnapshot gotime Snapshot
  | CallRestoreBucket string "Object list" string int
  | CallPutObject Object "PutCondition option"
  | CallDeleteObject string string
  | CallDeleteVersion string string string
  | CallCreateMultipartUpload gotime MultipartUpload
  | CallPutPart string Part
  | CallDeleteMultipartUpload string

fun mem_exec :: "mem_op \<Rightarrow> Memory \<Rightarrow> Memory mem_result" where
  "mem_exec (CallCreateBucket now b) m = CreateBucket m now b"
| "mem_exec (CallDeleteBucket n) m = DeleteBucket m n"
| "mem_exec (CallSetBucketVersioning n s) m = SetBucketVersioning m n s"
| "mem_exec (CallSetBucketEncryption n s) m = SetBucketEncryption m n s"
| "mem_exec (CallSetBucketRecoveryRecipient n s) m = SetBucketRecoveryRecipient m n s"
| "mem_exec (CallSetBucketCORS n s) m = SetBucketCORS m n s"
| "mem_exec (CallSetBucketTagging n s) m = SetBucketTagging m n s"
| "mem_exec (CallSetBucketACT n h g) m = SetBucketACT m n h g"
| "mem_exec (CallSetBucketHead n r q) m = SetBucketHead m n r q"
| "mem_exec (CallSetObjectTags n k v t) m = SetObjectTags m n k v t"
| "mem_exec (CallPutSnapshot now s) m = PutSnapshot m now s"
| "mem_exec (CallRestoreBucket n obs r q) m = RestoreBucket m n obs r q"
| "mem_exec (CallPutObject ob c) m = PutObject m ob c"
| "mem_exec (CallDeleteObject n k) m = DeleteObject m n k"
| "mem_exec (CallDeleteVersion n k v) m = rbind (DeleteVersion m n k v) (\<lambda>(_, m'). Inr m')"
| "mem_exec (CallCreateMultipartUpload now u) m = CreateMultipartUpload m now u"
| "mem_exec (CallPutPart u p) m = PutPart m u p"
| "mem_exec (CallDeleteMultipartUpload u) m = DeleteMultipartUpload m u"

definition op_ok :: "mem_op \<Rightarrow> bool" where
  "op_ok opn = (case opn of CallRestoreBucket n obs _ _ \<Rightarrow> restorable n obs | _ \<Rightarrow> True)"

inductive mem_reachable :: "Memory \<Rightarrow> bool" where
  start: "mem_reachable NewMemory"
| step: "mem_reachable m \<Longrightarrow> op_ok opn \<Longrightarrow> mem_exec opn m = Inr m' \<Longrightarrow> mem_reachable m'"

lemma mem_exec_wf: "memory_wf m \<Longrightarrow> op_ok opn \<Longrightarrow> mem_exec opn m = Inr m' \<Longrightarrow> memory_wf m'"
  by (cases opn) (auto simp: op_ok_def rbind_Inr_iff intro: wf_intros)

lemma mem_reachable_wf: "mem_reachable m \<Longrightarrow> memory_wf m"
  by (induction rule: mem_reachable.induct) (auto intro: wf_intros mem_exec_wf)

section \<open>Behaviour of the operations\<close>

text \<open>Reading a key after its rows changed.\<close>

lemma versionsOf_put [simp]:
  "versionsOf (b\<lparr>mb_objects := gm_put k vs (mb_objects b)\<rparr>) k' = (if k' = k then vs else versionsOf b k')"
  by (simp add: versionsOf_def)

lemma versionsOf_del [simp]:
  "versionsOf (b\<lparr>mb_objects := gm_del k (mb_objects b)\<rparr>) k' = (if k' = k then [] else versionsOf b k')"
  by (simp add: versionsOf_def)

text \<open>The versions of a key of a bucket, none when either is missing: what the readers see.\<close>

definition mem_versions :: "Memory \<Rightarrow> string \<Rightarrow> string \<Rightarrow> Object list" where
  "mem_versions m bucket key = (case getBucket m bucket of Inl _ \<Rightarrow> [] | Inr b \<Rightarrow> versionsOf b key)"

lemma mem_versions_putBucket [simp]:
  "mem_versions (putBucket m n b) n' k = (if n' = n then versionsOf b k else mem_versions m n' k)"
  by (simp add: mem_versions_def)

lemma GetObject_eq:
  "GetObject m bucket key =
     (case getBucket m bucket of Inl e \<Rightarrow> Inl e
      | Inr _ \<Rightarrow> (case mem_versions m bucket key of [] \<Rightarrow> Inl ErrObjectNotFound | v # _ \<Rightarrow> Inr v))"
  by (auto simp: GetObject_def mem_versions_def split: sum.splits)

lemma GetObjectVersion_eq:
  "GetObjectVersion m bucket key vid =
     (case getBucket m bucket of Inl e \<Rightarrow> Inl e
      | Inr _ \<Rightarrow> (case find (\<lambda>v. obj_VersionID v = vid) (mem_versions m bucket key) of
                   None \<Rightarrow> Inl ErrObjectNotFound | Some v \<Rightarrow> Inr v))"
  by (auto simp: GetObjectVersion_def mem_versions_def split: sum.splits)

lemma mem_versions_wf:
  "memory_wf m \<Longrightarrow> mem_versions m n k \<noteq> [] \<Longrightarrow> versions_wf n k (mem_versions m n k)"
  by (auto simp: mem_versions_def split: sum.splits dest: memory_wf_getBucket intro: versionsOf_wf)

subsection \<open>Writes\<close>

lemma PutObject_Inr_iff:
  "PutObject m ob cond = Inr m' \<longleftrightarrow>
     (\<exists>b. getBucket m (obj_Bucket ob) = Inr b \<and> cond_holds cond (versionsOf b (obj_Key ob)) \<and>
        m' = putBucket m (obj_Bucket ob) (b\<lparr>mb_objects :=
               gm_put (obj_Key ob) (putVersions ob (versionsOf b (obj_Key ob))) (mb_objects b)\<rparr>))"
  by (auto simp: PutObject_eq rbind_Inr_iff)

lemma PutObject_versions:
  assumes "PutObject m ob cond = Inr m'"
  shows "mem_versions m' n k =
    (if n = obj_Bucket ob \<and> k = obj_Key ob then putVersions ob (mem_versions m n k) else mem_versions m n k)"
  using assms by (auto simp: PutObject_Inr_iff mem_versions_def)

lemma PutObject_buckets:
  assumes "PutObject m ob cond = Inr m'"
  shows "GetBucket m' n = GetBucket m n" and "mem_uploads m' = mem_uploads m"
  using assms by (auto simp: PutObject_Inr_iff GetBucket_def putBucket_def getBucket_def split: option.splits)

text \<open>A row that is at least as new as every other one becomes the first.\<close>

lemma insort_key_least: "(\<And>y. y \<in> set xs \<Longrightarrow> f x \<le> f y) \<Longrightarrow> insort_key f x xs = x # xs"
  by (cases xs) auto

lemma sortVersions_newest:
  assumes "\<And>w. w \<in> set vs \<Longrightarrow> obj_VSeq w \<le> obj_VSeq v" and "sorted (map (\<lambda>v. - obj_VSeq v) vs)"
  shows "sortVersions (v # vs) = v\<lparr>obj_IsLatest := True\<rparr> # map (\<lambda>w. w\<lparr>obj_IsLatest := False\<rparr>) vs"
proof -
  have "sort_key (\<lambda>v. - obj_VSeq v) vs = vs" using assms(2) by (rule sort_key_id_if_sorted)
  with assms(1) show ?thesis by (simp add: sortVersions_def insort_key_least)
qed

definition newest :: "Object \<Rightarrow> Object list \<Rightarrow> bool" where
  "newest ob vs \<longleftrightarrow> (\<forall>v \<in> set vs. obj_VersionID v \<noteq> obj_VersionID ob \<longrightarrow> obj_VSeq v \<le> obj_VSeq ob)"

lemma sorted_map_filter': "sorted (map f xs) \<Longrightarrow> sorted (map f (filter p xs))"
  by (induction xs) auto

lemma putVersions_newest:
  assumes "vs = [] \<or> versions_wf n k vs" and "newest ob vs"
  shows "putVersions ob vs = ob\<lparr>obj_IsLatest := True\<rparr> #
     map (\<lambda>v. v\<lparr>obj_IsLatest := False\<rparr>) (filter (\<lambda>v. obj_VersionID v \<noteq> obj_VersionID ob) vs)"
proof -
  have "sorted (map (\<lambda>v. - obj_VSeq v) vs)" using assms(1) by (auto simp: versions_wf_def)
  then have "sorted (map (\<lambda>v. - obj_VSeq v) (map (\<lambda>v. v\<lparr>obj_IsLatest := False\<rparr>)
      (filter (\<lambda>v. obj_VersionID v \<noteq> obj_VersionID ob) vs)))"
    by (simp add: comp_def sorted_map_filter')
  then show ?thesis
    using assms(2) unfolding putVersions_def
    by (subst sortVersions_newest) (auto simp: newest_def)
qed

lemma PutObject_ok:
  "PutObject m ob cond =
     (case getBucket m (obj_Bucket ob) of
        Inl e \<Rightarrow> Inl e
      | Inr b \<Rightarrow> if cond_holds cond (mem_versions m (obj_Bucket ob) (obj_Key ob)) then
            Inr (putBucket m (obj_Bucket ob) (b\<lparr>mb_objects := gm_put (obj_Key ob)
               (putVersions ob (mem_versions m (obj_Bucket ob) (obj_Key ob))) (mb_objects b)\<rparr>))
          else Inl ErrPreconditionFailed)"
  by (auto simp: PutObject_eq mem_versions_def split: sum.splits)

subsection \<open>Deletes\<close>

lemma DeleteVersion_versions:
  assumes "DeleteVersion m n k vid = Inr (v, m')"
  obtains as bs where "mem_versions m n k = as @ v # bs" and "obj_VersionID v = vid"
    and "mem_versions m' n k = sortVersions (as @ bs)"
    and "vid \<notin> obj_VersionID ` set as"
    and "\<And>n' k'. n' \<noteq> n \<or> k' \<noteq> k \<Longrightarrow> mem_versions m' n' k' = mem_versions m n' k'"
proof -
  from assms obtain b ws where b: "getBucket m n = Inr b" and ws: "takeVersion vid (versionsOf b k) = Some (v, ws)"
    and m': "m' = putBucket m n (b\<lparr>mb_objects := if ws = [] then gm_del k (mb_objects b)
                                                 else gm_put k (sortVersions ws) (mb_objects b)\<rparr>)"
    by (auto simp: DeleteVersion_def rbind_Inr_iff Let_def split: option.splits)
  from takeVersion_Some [OF ws] obtain as bs where "versionsOf b k = as @ v # bs" "ws = as @ bs"
    "obj_VersionID v = vid" "vid \<notin> obj_VersionID ` set as" by blast
  moreover have "mem_versions m n k = versionsOf b k" by (simp add: mem_versions_def b)
  moreover have "mem_versions m' n k = sortVersions ws"
    by (cases "ws = []") (simp_all add: m' sortVersions_def)
  moreover have "mem_versions m' n' k' = mem_versions m n' k'" if "n' \<noteq> n \<or> k' \<noteq> k" for n' k'
    using that b by (cases "ws = []") (auto simp: m' mem_versions_def)
  ultimately show ?thesis by (intro that [of as bs]) simp_all
qed

lemma sortVersions_sorted:
  "sorted (map (\<lambda>v. - obj_VSeq v) vs) \<Longrightarrow> sortVersions vs = markLatest vs"
  by (simp add: sortVersions_def sort_key_id_if_sorted)

lemma DeleteObject_versions:
  "DeleteObject m n k = Inr m' \<Longrightarrow>
     mem_versions m' n' k' = (if n' = n \<and> k' = k then [] else mem_versions m n' k')"
  by (auto simp: DeleteObject_def rbind_Inr_iff mem_versions_def)


subsection \<open>Listings\<close>

text \<open>
  The objects of a bucket a listing shows: the latest version of every key whose latest
  version is no delete marker, in key order.
\<close>

definition liveKeys :: "memBucket \<Rightarrow> string list" where
  "liveKeys b = sort (map fst (filter (\<lambda>(k, vs). \<not> obj_DeleteMarker (hd vs)) (mb_objects b)))"

definition liveObjects :: "memBucket \<Rightarrow> Object list" where
  "liveObjects b = map (\<lambda>k. hd (versionsOf b k)) (liveKeys b)"

lemma takeLimit_map: "takeLimit l (map f xs) = map f (takeLimit l xs)"
  by (simp add: takeLimit_def take_map)

lemma takeLimit_neg [simp]: "l < 0 \<Longrightarrow> takeLimit l xs = xs"
  by (simp add: takeLimit_def)

lemma takeLimit_nat: "takeLimit (int n) xs = take n xs"
  by (simp add: takeLimit_def)

lemma liveKeys_iff:
  assumes "bucket_wf n b"
  shows "k \<in> set (liveKeys b) \<longleftrightarrow> versionsOf b k \<noteq> [] \<and> \<not> obj_DeleteMarker (hd (versionsOf b k))"
proof -
  have wf: "gm_wf (mb_objects b)" and all: "gm_all (versions_wf n) (mb_objects b)"
    using assms by (auto simp: bucket_wf_def dest: gm_all_wf)
  have "k \<in> set (liveKeys b) \<longleftrightarrow> (\<exists>vs. gm_get (mb_objects b) k = Some vs \<and> \<not> obj_DeleteMarker (hd vs))"
    using gm_in_set_iff [OF wf] by (force simp: liveKeys_def)
  then show ?thesis
    using gm_allD [OF all] by (auto simp: versionsOf_def versions_wf_def split: option.splits)
qed

lemma liveKeys_sorted: "bucket_wf n b \<Longrightarrow> sorted_wrt (<) (liveKeys b)"
  by (auto simp: liveKeys_def strict_sorted_iff bucket_wf_def gm_all_def gm_wf_def intro: distinct_map_filter)

lemma versionsOf_hd:
  "bucket_wf n b \<Longrightarrow> versionsOf b k \<noteq> [] \<Longrightarrow>
     obj_Key (hd (versionsOf b k)) = k \<and> obj_Bucket (hd (versionsOf b k)) = n \<and> obj_IsLatest (hd (versionsOf b k))"
  using versionsOf_wf [of n b k] by (cases "versionsOf b k") (auto simp: versions_wf_def)

lemma liveObjects_Key: "bucket_wf n b \<Longrightarrow> map obj_Key (liveObjects b) = liveKeys b"
  by (auto simp: liveObjects_def map_idI liveKeys_iff versionsOf_hd comp_def intro!: map_idI)

lemma ListObjects_eq:
  assumes "bucket_wf n b" and "getBucket m n = Inr b"
  shows "ListObjects m n p a l =
     Inr (takeLimit l (filter (\<lambda>ob. HasPrefix (obj_Key ob) p \<and> a < obj_Key ob) (liveObjects b)))"
proof -
  have "filter (\<lambda>(k, vs). HasPrefix k p \<and> a < k \<and> \<not> obj_DeleteMarker (hd vs)) (mb_objects b) =
      filter (\<lambda>kv. HasPrefix (fst kv) p \<and> a < fst kv)
        (filter (\<lambda>(k, vs). \<not> obj_DeleteMarker (hd vs)) (mb_objects b))"
    by (simp add: case_prod_unfold conj_ac)
  then have keys: "sort (map fst (filter (\<lambda>(k, vs). HasPrefix k p \<and> a < k \<and> \<not> obj_DeleteMarker (hd vs)) (mb_objects b)))
      = filter (\<lambda>k. HasPrefix k p \<and> a < k) (liveKeys b)"
    by (simp add: liveKeys_def filter_sort filter_map comp_def)
  have "filter (\<lambda>ob. HasPrefix (obj_Key ob) p \<and> a < obj_Key ob) (liveObjects b) =
      map (\<lambda>k. hd (versionsOf b k)) (filter (\<lambda>k. HasPrefix k p \<and> a < k) (liveKeys b))"
    using assms(1) unfolding liveObjects_def filter_map comp_def
    by (intro arg_cong [where f = "map _"] filter_cong) (auto simp: liveKeys_iff versionsOf_hd)
  then show ?thesis by (simp add: ListObjects_def assms(2) Let_def keys takeLimit_map)
qed

lemma in_liveObjects_iff:
  assumes "bucket_wf n b"
  shows "ob \<in> set (liveObjects b) \<longleftrightarrow>
     (\<exists>vs. versionsOf b (obj_Key ob) = ob # vs) \<and> \<not> obj_DeleteMarker ob"
proof
  assume "ob \<in> set (liveObjects b)"
  then obtain k where k: "k \<in> set (liveKeys b)" and ob: "ob = hd (versionsOf b k)"
    by (auto simp: liveObjects_def)
  with liveKeys_iff [OF assms] versionsOf_hd [OF assms, of k] show
    "(\<exists>vs. versionsOf b (obj_Key ob) = ob # vs) \<and> \<not> obj_DeleteMarker ob"
    by (cases "versionsOf b k") (auto simp: ob)
next
  assume r: "(\<exists>vs. versionsOf b (obj_Key ob) = ob # vs) \<and> \<not> obj_DeleteMarker ob"
  then have "obj_Key ob \<in> set (liveKeys b)" and "hd (versionsOf b (obj_Key ob)) = ob"
    by (auto simp: liveKeys_iff [OF assms])
  then show "ob \<in> set (liveObjects b)" by (force simp: liveObjects_def)
qed

lemma emitUpTo_eq:
  "int (length out) < l \<or> l \<le> 0 \<Longrightarrow>
   emitUpTo l out rows = out @ (if 0 < l then take (nat l - length out) rows else rows)"
proof (induction rows arbitrary: out)
  case Nil
  then show ?case by simp
next
  case (Cons v vs)
  show ?case
  proof (cases "0 < l")
    case True
    with Cons.prems have "length out < nat l" by auto
    then obtain d where d: "nat l - length out = Suc d" by (metis Suc_diff_Suc)
    show ?thesis
    proof (cases "int (Suc (length out)) = l")
      case True
      with d have "d = 0" by auto
      with True d show ?thesis by simp
    next
      case False
      with \<open>length out < nat l\<close> have "int (length (out @ [v])) < l" by auto
      moreover have "d = nat l - Suc (length out)" using d by simp
      ultimately show ?thesis using Cons.IH [of "out @ [v]"] True False d by (auto simp: Let_def)
    qed
  next
    case False
    with Cons.IH [of "out @ [v]"] show ?thesis by (auto simp: Let_def)
  qed
qed

lemma emitUpTo_Nil: "emitUpTo l [] rows = (if 0 < l then take (nat l) rows else rows)"
  by (subst emitUpTo_eq) auto

text \<open>Every row of a bucket: keys ascending, newest first within a key.\<close>

definition versionRows :: "memBucket \<Rightarrow> Object list" where
  "versionRows b = concat (map (versionsOf b) (sort (map fst (mb_objects b))))"

lemma versionsOf_member: "bucket_wf n b \<Longrightarrow> v \<in> set (versionsOf b k) \<Longrightarrow> obj_Key v = k \<and> obj_Bucket v = n"
  using versionsOf_wf [of n b k] by (cases "versionsOf b k") (auto simp: versions_wf_def)

lemma versionRows_iff:
  assumes "bucket_wf n b"
  shows "v \<in> set (versionRows b) \<longleftrightarrow> v \<in> set (versionsOf b (obj_Key v))"
proof -
  have "v \<in> set (versionsOf b k) \<Longrightarrow> k \<in> fst ` set (mb_objects b)" for k
    by (rule ccontr) (simp add: versionsOf_def flip: gm_get_None_iff)
  moreover have "v \<in> set (versionRows b) \<longleftrightarrow> (\<exists>k \<in> fst ` set (mb_objects b). v \<in> set (versionsOf b k))"
    by (simp add: versionRows_def)
  ultimately show ?thesis using versionsOf_member [OF assms] by metis
qed

lemma filter_concat_map_key:
  assumes "\<And>k v. v \<in> set (f k) \<Longrightarrow> key v = k"
  shows "filter (\<lambda>v. P (key v) \<and> Q (key v) v) (concat (map f ks)) = concat (map (\<lambda>k. filter (Q k) (f k)) (filter P ks))"
proof (induction ks)
  case (Cons k ks)
  have "filter (\<lambda>v. P (key v) \<and> Q (key v) v) (f k) = (if P k then filter (Q k) (f k) else [])"
    using assms [of _ k] by (auto intro: filter_cong filter_False)
  with Cons show ?case by simp
qed simp

definition markerVSeq :: "memBucket \<Rightarrow> string \<Rightarrow> string \<Rightarrow> int" where
  "markerVSeq b keyMarker versionMarker =
     (if keyMarker \<noteq> [] \<and> versionMarker \<noteq> [] then
        foldl (\<lambda>s v. if obj_VersionID v = versionMarker then obj_VSeq v else s) (- 1) (versionsOf b keyMarker)
      else - 1)"

lemma ListVersions_eq:
  assumes "bucket_wf n b" and "getBucket m n = Inr b"
  shows "ListVersions m n p km vm l = Inr (emitUpTo l []
     (filter (\<lambda>v. (HasPrefix (obj_Key v) p \<and> km \<le> obj_Key v) \<and>
        \<not> (obj_Key v = km \<and> (vm = [] \<or> markerVSeq b km vm < 0 \<or> markerVSeq b km vm \<le> obj_VSeq v)))
      (versionRows b)))"
proof -
  have "\<And>k v. v \<in> set (versionsOf b k) \<Longrightarrow> obj_Key v = k"
    using versionsOf_member [OF assms(1)] by blast
  note flt = filter_concat_map_key [where f = "versionsOf b" and key = obj_Key, OF this]
  show ?thesis
    unfolding ListVersions_def assms(2) rbind_simps markerVSeq_def [symmetric] Let_def versionRows_def
    by (subst flt) (simp_all add: filter_sort)
qed

text \<open>The position of a row in the order of the version listing.\<close>

definition rowPos :: "Object \<Rightarrow> string \<times> int" where
  "rowPos v = (obj_Key v, - obj_VSeq v)"

text \<open>Distinct write times per key, as \<open>time.Now().UnixNano()\<close> gives them.\<close>

definition distinctVSeqs :: "memBucket \<Rightarrow> bool" where
  "distinctVSeqs b \<longleftrightarrow> (\<forall>k. distinct (map obj_VSeq (versionsOf b k)) \<and> (\<forall>v \<in> set (versionsOf b k). 0 \<le> obj_VSeq v))"

lemma strict_sorted_concat_map:
  fixes f :: "'k::linorder \<Rightarrow> 'v list" and g :: "'v \<Rightarrow> 'k \<times> int"
  assumes "sorted_wrt (<) ks" and "\<And>k. k \<in> set ks \<Longrightarrow> sorted_wrt (<) (map g (f k))"
    and "\<And>k v. v \<in> set (f k) \<Longrightarrow> fst (g v) = k"
  shows "sorted_wrt (<) (map g (concat (map f ks)))"
  using assms
proof (induction ks)
  case (Cons k ks)
  have "g v < g w" if "v \<in> set (f k)" and "w \<in> set (f k')" and "k' \<in> set ks" for v w k'
    using that Cons.prems(1) Cons.prems(3) [of v k] Cons.prems(3) [of w k'] by (simp add: less_prod_def')
  with Cons show ?case by (auto simp: sorted_wrt_append)
qed simp

lemma versionRows_sorted:
  assumes "bucket_wf n b" and "distinctVSeqs b"
  shows "sorted_wrt (<) (map rowPos (versionRows b))"
  unfolding versionRows_def
proof (rule strict_sorted_concat_map)
  show "sorted_wrt (<) (sort (map fst (mb_objects b)))"
    using assms(1) by (simp add: strict_sorted_iff bucket_wf_def gm_all_def gm_wf_def)
  show "fst (rowPos v) = k" if "v \<in> set (versionsOf b k)" for k v
    using that versionsOf_member [OF assms(1)] by (simp add: rowPos_def)
  show "sorted_wrt (<) (map rowPos (versionsOf b k))" for k
  proof (cases "versionsOf b k = []")
    case False
    have "map rowPos (versionsOf b k) = map (Pair k) (map (\<lambda>v. - obj_VSeq v) (versionsOf b k))"
      using versionsOf_member [OF assms(1), of _ k] by (auto simp: rowPos_def)
    moreover have "sorted_wrt (<) (map (\<lambda>v. - obj_VSeq v) (versionsOf b k))"
      using versionsOf_wf [OF assms(1) False] assms(2)
      by (auto simp: strict_sorted_iff versions_wf_def distinctVSeqs_def distinct_map inj_on_def)
    then have "sorted_wrt (<) (map (Pair k) (map (\<lambda>v. - obj_VSeq v) (versionsOf b k)))"
      by (simp add: sorted_wrt_map less_prod_def')
    ultimately show ?thesis by (simp only:)
  qed simp
qed

lemma strict_sorted_filter_drop:
  "sorted_wrt (<) (map f xs) \<Longrightarrow> i < length xs \<Longrightarrow> filter (\<lambda>x. f (xs ! i) < f x) xs = drop (Suc i) xs"
  for f :: "'a \<Rightarrow> 'b::linorder"
proof (induction xs arbitrary: i)
  case (Cons x xs)
  show ?case
  proof (cases i)
    case 0
    with Cons.prems show ?thesis by (auto intro: filter_True)
  next
    case (Suc j)
    with Cons.prems have "f x < f (xs ! j)" by auto
    then have "\<not> f (xs ! j) < f x" by simp
    with Cons Suc show ?thesis by auto
  qed
qed simp


lemma foldl_last_match:
  "distinct (map g xs) \<Longrightarrow> v \<in> set xs \<Longrightarrow> foldl (\<lambda>s x. if g x = g v then h x else s) s xs = h v"
proof (induction xs arbitrary: s)
  case (Cons x xs)
  show ?case
  proof (cases "g x = g v")
    case True
    with Cons.prems have "x = v" and "g v \<notin> g ` set xs" by auto
    then have "foldl (\<lambda>s x. if g x = g v then h x else s) t xs = t" for t
      by (induction xs arbitrary: t) auto
    with \<open>x = v\<close> show ?thesis by simp
  next
    case False
    with Cons show ?thesis by auto
  qed
qed simp

lemma markerVSeq_row:
  assumes "bucket_wf n b" and "v \<in> set (versionRows b)" and "obj_Key v \<noteq> []" and "obj_VersionID v \<noteq> []"
  shows "markerVSeq b (obj_Key v) (obj_VersionID v) = obj_VSeq v"
proof -
  have v: "v \<in> set (versionsOf b (obj_Key v))" using assms(1,2) by (simp add: versionRows_iff)
  then have "versions_wf n (obj_Key v) (versionsOf b (obj_Key v))"
    using versionsOf_wf [OF assms(1), of "obj_Key v"] by fastforce
  then have "distinct (map obj_VersionID (versionsOf b (obj_Key v)))" by (simp add: versions_wf_def)
  from foldl_last_match [OF this v, of obj_VSeq] assms(3,4) show ?thesis by (simp add: markerVSeq_def)
qed

text \<open>The filter of a continued version listing keeps the rows behind the marker row.\<close>

lemma ListVersions_after:
  assumes "bucket_wf n b" and "getBucket m n = Inr b" and "distinctVSeqs b"
    and "v \<in> set (versionRows b)" and "obj_Key v \<noteq> []" and "obj_VersionID v \<noteq> []"
  shows "ListVersions m n p (obj_Key v) (obj_VersionID v) l =
     Inr (emitUpTo l [] (filter (\<lambda>w. HasPrefix (obj_Key w) p \<and> rowPos v < rowPos w) (versionRows b)))"
proof -
  have "0 \<le> obj_VSeq v" using assms(1,3,4) by (auto simp: distinctVSeqs_def versionRows_iff)
  with assms(6) have "((HasPrefix (obj_Key w) p \<and> obj_Key v \<le> obj_Key w) \<and>
        \<not> (obj_Key w = obj_Key v \<and> (obj_VersionID v = [] \<or> markerVSeq b (obj_Key v) (obj_VersionID v) < 0 \<or>
           markerVSeq b (obj_Key v) (obj_VersionID v) \<le> obj_VSeq w)))
    \<longleftrightarrow> HasPrefix (obj_Key w) p \<and> rowPos v < rowPos w" for w
    unfolding markerVSeq_row [OF assms(1,4-6)] rowPos_def less_prod_def' fst_conv snd_conv order.order_iff_strict
    by (cases "obj_Key w = obj_Key v") auto
  then show ?thesis by (simp only: ListVersions_eq [OF assms(1,2)])
qed

lemma ListVersions_first:
  assumes "bucket_wf n b" and "getBucket m n = Inr b" and "versionsOf b [] = []"
  shows "ListVersions m n p [] [] l = Inr (emitUpTo l [] (filter (\<lambda>w. HasPrefix (obj_Key w) p) (versionRows b)))"
proof -
  have "obj_Key w \<noteq> []" if "w \<in> set (versionRows b)" for w
    using that assms(1,3) by (auto simp: versionRows_iff)
  then show ?thesis
    unfolding ListVersions_eq [OF assms(1,2)]
    by (intro arg_cong [where f = "\<lambda>rs. Inr (emitUpTo l [] rs)"] filter_cong) auto
qed

end
