(* ===== verification/Memory_Props.thy ===== *)
theory Memory_Props
  imports Memory
begin

text \<open>
  The properties of the in-memory index: its invariant over every sequence of calls, reads
  after writes and deletes, conditional writes, listings and their continuation, restores.
  Each is stated on the operations of theory \<open>Memory\<close> and rests on the lemmas proved there.
\<close>

section \<open>Properties of the in-memory index\<close>

text \<open>A small state for the witnesses: a bucket and two versions of one key.\<close>

definition demoBucket :: Bucket where
  "demoBucket = zeroBucket\<lparr>bkt_Name := ''bkt'', bkt_Versioning := ''Enabled''\<rparr>"

definition demoObject :: "string \<Rightarrow> string \<Rightarrow> int \<Rightarrow> Object" where
  "demoObject key vid vseq = zeroObject\<lparr>obj_Bucket := ''bkt'', obj_Key := key, obj_VersionID := vid,
     obj_VSeq := vseq, obj_ETag := ''e'' @ vid\<rparr>"

definition okOr :: "'a \<Rightarrow> ('e, 'a) result \<Rightarrow> 'a" where
  "okOr d r = (case r of Inl _ \<Rightarrow> d | Inr a \<Rightarrow> a)"

definition demo1 :: Memory where
  "demo1 = okOr NewMemory (CreateBucket NewMemory 5 demoBucket)"

definition demo2 :: Memory where
  "demo2 = okOr NewMemory (PutObject demo1 (demoObject ''a'' ''v1'' 10) None)"

definition demo3 :: Memory where
  "demo3 = okOr NewMemory (PutObject demo2 (demoObject ''a'' ''v2'' 20) None)"

lemma demo1_step: "CreateBucket NewMemory 5 demoBucket = Inr demo1"
  by code_simp

lemma demo2_step: "PutObject demo1 (demoObject ''a'' ''v1'' 10) None = Inr demo2"
  by code_simp

lemma demo3_step: "PutObject demo2 (demoObject ''a'' ''v2'' 20) None = Inr demo3"
  by code_simp

lemma demo_reachable: "mem_reachable demo1" "mem_reachable demo2" "mem_reachable demo3"
proof -
  show 1: "mem_reachable demo1"
    by (rule mem_reachable.step [where opn = "CallCreateBucket 5 demoBucket"])
       (auto intro: mem_reachable.start simp: op_ok_def demo1_step)
  show 2: "mem_reachable demo2"
    by (rule mem_reachable.step [OF 1, where opn = "CallPutObject (demoObject ''a'' ''v1'' 10) None"])
       (auto simp: op_ok_def demo2_step)
  show "mem_reachable demo3"
    by (rule mem_reachable.step [OF 2, where opn = "CallPutObject (demoObject ''a'' ''v2'' 20) None"])
       (auto simp: op_ok_def demo3_step)
qed


text \<open>After any sequence of calls of the methods of \<open>Memory\<close> (restores being of
  object lists with one row per key and version id) the index is well formed: one entry
  per bucket, key, label, upload and part number; each key's versions are non-empty,
  newest first, with distinct version ids and the latest flag on the first row only.\<close>

theorem memory_invariant: "mem_reachable m \<Longrightarrow> memory_wf m"
  by (rule mem_reachable_wf)

theorem memory_invariant_witness:
  "memory_wf demo3 \<and> map obj_VersionID (mem_versions demo3 ''bkt'' ''a'') = [''v2'', ''v1'']"
proof
  show "memory_wf demo3" by (rule memory_invariant) (rule demo_reachable)
  show "map obj_VersionID (mem_versions demo3 ''bkt'' ''a'') = [''v2'', ''v1'']" by code_simp
qed

lemma putVersions_find_self:
  assumes "vs = [] \<or> versions_wf n k vs" and "newest ob vs"
  shows "find (\<lambda>v. obj_VersionID v = obj_VersionID ob) (putVersions ob vs) = Some (ob\<lparr>obj_IsLatest := True\<rparr>)"
  by (simp add: putVersions_newest [OF assms])

lemma find_map_keep:
  "(\<And>v. P (f v) = P v) \<Longrightarrow> find P (map f vs) = map_option f (find P vs)"
  by (induction vs) auto

lemma find_filter_sub: "(\<And>v. P v \<Longrightarrow> Q v) \<Longrightarrow> find P (filter Q vs) = find P vs"
  by (induction vs) auto

lemma putVersions_find_other:
  assumes "vs = [] \<or> versions_wf n k vs" and "newest ob vs" and "vid \<noteq> obj_VersionID ob"
  shows "find (\<lambda>v. obj_VersionID v = vid) (putVersions ob vs) =
     map_option (\<lambda>v. v\<lparr>obj_IsLatest := False\<rparr>) (find (\<lambda>v. obj_VersionID v = vid) vs)"
  using assms(3) by (auto simp: putVersions_newest [OF assms(1,2)] find_map_keep find_filter_sub)

lemma PutObject_getBucket:
  "PutObject m ob c = Inr m' \<Longrightarrow> n \<noteq> obj_Bucket ob \<Longrightarrow> getBucket m' n = getBucket m n"
  by (auto simp: PutObject_Inr_iff)

lemma GetObject_frame:
  assumes "PutObject m ob cond = Inr m'" and "n \<noteq> obj_Bucket ob \<or> k \<noteq> obj_Key ob"
  shows "GetObject m' n k = GetObject m n k"
proof -
  have same: "mem_versions m' n k = mem_versions m n k"
    using assms PutObject_versions [OF assms(1), of n k] by auto
  show ?thesis
  proof (cases "n = obj_Bucket ob")
    case True
    with assms obtain b b' where "getBucket m n = Inr b" and "getBucket m' n = Inr b'"
      by (auto simp: PutObject_Inr_iff)
    with same show ?thesis by (simp add: GetObject_eq)
  next
    case False
    with PutObject_getBucket [OF assms(1)] same show ?thesis
      by (cases "getBucket m n") (simp_all add: GetObject_eq)
  qed
qed

text \<open>Read after write. Storing a row that is at least as new as the other versions of
  its key makes it what \<open>GetObject\<close> and \<open>GetObjectVersion\<close> return, marked latest; every
  other version of the key stays readable under its id, no longer marked latest; no other
  key of any bucket changes.\<close>

theorem read_after_write:
  assumes "mem_reachable m" and put: "PutObject m ob cond = Inr m'"
    and newest: "newest ob (mem_versions m (obj_Bucket ob) (obj_Key ob))"
  shows "GetObject m' (obj_Bucket ob) (obj_Key ob) = Inr (ob\<lparr>obj_IsLatest := True\<rparr>) \<and>
    GetObjectVersion m' (obj_Bucket ob) (obj_Key ob) (obj_VersionID ob) = Inr (ob\<lparr>obj_IsLatest := True\<rparr>) \<and>
    (\<forall>vid. vid \<noteq> obj_VersionID ob \<longrightarrow>
       GetObjectVersion m' (obj_Bucket ob) (obj_Key ob) vid =
       (case GetObjectVersion m (obj_Bucket ob) (obj_Key ob) vid of
          Inl e \<Rightarrow> Inl e | Inr v \<Rightarrow> Inr (v\<lparr>obj_IsLatest := False\<rparr>))) \<and>
    (\<forall>n k. n \<noteq> obj_Bucket ob \<or> k \<noteq> obj_Key ob \<longrightarrow> GetObject m' n k = GetObject m n k)"
proof -
  let ?vs = "mem_versions m (obj_Bucket ob) (obj_Key ob)"
  have wf: "?vs = [] \<or> versions_wf (obj_Bucket ob) (obj_Key ob) ?vs"
    using mem_versions_wf mem_reachable_wf [OF assms(1)] by blast
  have vs': "mem_versions m' (obj_Bucket ob) (obj_Key ob) = putVersions ob ?vs"
    using PutObject_versions [OF put] by simp
  obtain b b' where b: "getBucket m (obj_Bucket ob) = Inr b" "getBucket m' (obj_Bucket ob) = Inr b'"
    using put by (auto simp: PutObject_Inr_iff)
  have "GetObject m' (obj_Bucket ob) (obj_Key ob) = Inr (ob\<lparr>obj_IsLatest := True\<rparr>)"
    by (simp add: GetObject_eq b vs' putVersions_newest [OF wf newest])
  moreover have "GetObjectVersion m' (obj_Bucket ob) (obj_Key ob) (obj_VersionID ob) = Inr (ob\<lparr>obj_IsLatest := True\<rparr>)"
    by (simp add: GetObjectVersion_eq b vs' putVersions_find_self [OF wf newest])
  moreover have "vid \<noteq> obj_VersionID ob \<Longrightarrow> GetObjectVersion m' (obj_Bucket ob) (obj_Key ob) vid =
       (case GetObjectVersion m (obj_Bucket ob) (obj_Key ob) vid of
          Inl e \<Rightarrow> Inl e | Inr v \<Rightarrow> Inr (v\<lparr>obj_IsLatest := False\<rparr>))" for vid
    by (simp add: GetObjectVersion_eq b vs' putVersions_find_other [OF wf newest] split: option.splits)
  moreover have "n \<noteq> obj_Bucket ob \<or> k \<noteq> obj_Key ob \<Longrightarrow> GetObject m' n k = GetObject m n k" for n k
    by (rule GetObject_frame [OF put])
  ultimately show ?thesis by blast
qed

theorem read_after_write_witness:
  "GetObject demo3 ''bkt'' ''a'' = Inr ((demoObject ''a'' ''v2'' 20)\<lparr>obj_IsLatest := True\<rparr>) \<and>
   GetObjectVersion demo3 ''bkt'' ''a'' ''v1'' = Inr (demoObject ''a'' ''v1'' 10)"
proof -
  let ?ob = "demoObject ''a'' ''v2'' 20"
  have ob: "obj_Bucket ?ob = ''bkt''" "obj_Key ?ob = ''a''" "obj_VersionID ?ob = ''v2''"
    by (simp_all add: demoObject_def)
  have new: "newest ?ob (mem_versions demo2 (obj_Bucket ?ob) (obj_Key ?ob))"
    by code_simp
  have old: "GetObjectVersion demo2 ''bkt'' ''a'' ''v1'' = Inr ((demoObject ''a'' ''v1'' 10)\<lparr>obj_IsLatest := True\<rparr>)"
    by code_simp
  note w = read_after_write [OF demo_reachable(2) demo3_step new, unfolded ob]
  have "GetObjectVersion demo3 ''bkt'' ''a'' ''v1'' =
       (case GetObjectVersion demo2 ''bkt'' ''a'' ''v1'' of
          Inl e \<Rightarrow> Inl e | Inr v \<Rightarrow> Inr (v\<lparr>obj_IsLatest := False\<rparr>))"
    using w by simp
  moreover have "(demoObject ''a'' ''v1'' 10)\<lparr>obj_IsLatest := False\<rparr> = demoObject ''a'' ''v1'' 10"
    by (simp add: demoObject_def zeroObject_def)
  ultimately show ?thesis using w by (simp add: old)
qed

text \<open>What a conditional write is compared with: the ETag \<open>GetObject\<close> shows, none for a
  missing key or a delete marker.\<close>

definition visibleETag :: "Memory \<Rightarrow> string \<Rightarrow> string \<Rightarrow> string option" where
  "visibleETag m bucket key =
     (case GetObject m bucket key of
        Inl _ \<Rightarrow> None | Inr v \<Rightarrow> if obj_DeleteMarker v then None else Some (obj_ETag v))"

lemma visibleETag_eq: "visibleETag m n k = currentETag (mem_versions m n k)"
  by (auto simp: visibleETag_def currentETag_def GetObject_eq mem_versions_def split: sum.splits list.splits)

lemma cond_holds_iff:
  "cond_holds (Some c) vs \<longleftrightarrow>
     (IfMatch c \<noteq> [] \<longrightarrow> (\<exists>e. currentETag vs = Some e \<and> IfMatch c \<in> {''*'', e})) \<and>
     (IfNoneMatch c \<noteq> [] \<longrightarrow> (\<forall>e. currentETag vs = Some e \<longrightarrow> IfNoneMatch c \<notin> {''*'', e}))"
  by (cases "currentETag vs") (auto simp: cond_holds_def PutCondition_Ok_iff)

text \<open>C16. A conditional write succeeds exactly when the bucket exists and the condition
  holds of the key as \<open>GetObject\<close> shows it at that moment (a delete marker counts as
  absent); otherwise it fails with \<open>ErrPreconditionFailed\<close> and the index is unchanged.\<close>

theorem conditional_put:
  "PutObject m ob (Some c) =
     (case GetBucket m (obj_Bucket ob) of
        Inl e \<Rightarrow> Inl e
      | Inr _ \<Rightarrow>
          if (IfMatch c \<noteq> [] \<longrightarrow>
                (\<exists>e. visibleETag m (obj_Bucket ob) (obj_Key ob) = Some e \<and> IfMatch c \<in> {''*'', e})) \<and>
             (IfNoneMatch c \<noteq> [] \<longrightarrow>
                (\<forall>e. visibleETag m (obj_Bucket ob) (obj_Key ob) = Some e \<longrightarrow> IfNoneMatch c \<notin> {''*'', e}))
          then PutObject m ob None
          else Inl ErrPreconditionFailed)"
proof (cases "getBucket m (obj_Bucket ob)")
  case (Inr b)
  have "cond_holds None vs" for vs by (simp add: cond_holds_def)
  then show ?thesis
    by (simp only: PutObject_ok Inr GetBucket_def rbind_simps sum.case cond_holds_iff visibleETag_eq if_True)
qed (simp add: PutObject_ok GetBucket_def)

theorem conditional_put_witness:
  "PutObject demo3 (demoObject ''a'' ''v3'' 30) (Some \<lparr>IfMatch = [], IfNoneMatch = ''*''\<rparr>) =
     Inl ErrPreconditionFailed"
proof -
  have "visibleETag demo3 (obj_Bucket (demoObject ''a'' ''v3'' 30)) (obj_Key (demoObject ''a'' ''v3'' 30)) = Some ''ev2''"
    by code_simp
  moreover have "GetBucket demo3 (obj_Bucket (demoObject ''a'' ''v3'' 30)) = Inr (demoBucket\<lparr>bkt_CreatedAt := 5\<rparr>)"
    by code_simp
  ultimately show ?thesis
    using conditional_put [of demo3 "demoObject ''a'' ''v3'' 30" "\<lparr>IfMatch = [], IfNoneMatch = ''*''\<rparr>"] by simp
qed

text \<open>\<open>If-None-Match: *\<close> creates once: when such a write of a (non-marker) object
  has succeeded, every later write to the key under the same condition fails, until the
  key is deleted.\<close>

theorem create_if_absent_once:
  assumes "mem_reachable m" and "PutObject m ob cond = Inr m'"
    and "newest ob (mem_versions m (obj_Bucket ob) (obj_Key ob))" and "\<not> obj_DeleteMarker ob"
    and "obj_Bucket ob2 = obj_Bucket ob" and "obj_Key ob2 = obj_Key ob" and "IfNoneMatch c = ''*''"
  shows "PutObject m' ob2 (Some c) = Inl ErrPreconditionFailed"
proof -
  let ?vs = "mem_versions m (obj_Bucket ob) (obj_Key ob)"
  have "?vs = [] \<or> versions_wf (obj_Bucket ob) (obj_Key ob) ?vs"
    using mem_versions_wf mem_reachable_wf [OF assms(1)] by blast
  then have "currentETag (mem_versions m' (obj_Bucket ob) (obj_Key ob)) = Some (obj_ETag ob)"
    using assms(3,4) by (simp add: PutObject_versions [OF assms(2)] putVersions_newest currentETag_def)
  moreover obtain b where "getBucket m' (obj_Bucket ob) = Inr b"
    using assms(2) by (auto simp: PutObject_Inr_iff)
  ultimately show ?thesis by (simp add: PutObject_ok assms(5-7) cond_holds_iff)
qed

theorem create_if_absent_once_witness:
  "PutObject demo2 (demoObject ''a'' ''v9'' 90) (Some \<lparr>IfMatch = [], IfNoneMatch = ''*''\<rparr>) =
     Inl ErrPreconditionFailed"
proof (rule create_if_absent_once [OF demo_reachable(1) demo2_step])
  show "newest (demoObject ''a'' ''v1'' 10)
      (mem_versions demo1 (obj_Bucket (demoObject ''a'' ''v1'' 10)) (obj_Key (demoObject ''a'' ''v1'' 10)))"
    by code_simp
qed (simp_all add: demoObject_def zeroObject_def)


lemma filter_other_version:
  "distinct (map obj_VersionID (as @ v # bs)) \<Longrightarrow>
   filter (\<lambda>w. obj_VersionID w \<noteq> obj_VersionID v) (as @ v # bs) = as @ bs"
  by (auto simp: image_iff intro!: arg_cong2 [where f = append] filter_True)

text \<open>Deleting one version returns that version and removes it and nothing else: the
  rest of the key's versions stay in order and the newest of them becomes the latest,
  whether or not the deleted one was (so deleting a delete marker brings the object
  back); the other keys and buckets do not change.\<close>

theorem delete_version_promotes:
  assumes "mem_reachable m" and "DeleteVersion m n k vid = Inr (v, m')"
  shows "GetObjectVersion m n k vid = Inr v \<and>
    GetObjectVersion m' n k vid = Inl ErrObjectNotFound \<and>
    mem_versions m' n k = markLatest (filter (\<lambda>w. obj_VersionID w \<noteq> vid) (mem_versions m n k)) \<and>
    (\<forall>n' k'. n' \<noteq> n \<or> k' \<noteq> k \<longrightarrow> mem_versions m' n' k' = mem_versions m n' k')"
proof -
  from DeleteVersion_versions [OF assms(2)] obtain as bs where vs: "mem_versions m n k = as @ v # bs"
    and vid: "obj_VersionID v = vid" and vs': "mem_versions m' n k = sortVersions (as @ bs)"
    and as: "vid \<notin> obj_VersionID ` set as"
    and frame: "\<And>n' k'. n' \<noteq> n \<or> k' \<noteq> k \<Longrightarrow> mem_versions m' n' k' = mem_versions m n' k'" by metis
  have "versions_wf n k (as @ v # bs)"
    using mem_versions_wf [OF mem_reachable_wf [OF assms(1)], of n k] vs by simp
  then have dist: "distinct (map obj_VersionID (as @ v # bs))" and "sorted (map (\<lambda>v. - obj_VSeq v) (as @ bs))"
    by (auto simp: versions_wf_def sorted_append)
  then have vs2: "mem_versions m' n k = markLatest (as @ bs)" by (simp only: vs' sortVersions_sorted)
  obtain b b' where b: "getBucket m n = Inr b" "getBucket m' n = Inr b'"
    using assms(2) by (auto simp: DeleteVersion_def rbind_Inr_iff Let_def split: option.splits)
  have "find (\<lambda>w. obj_VersionID w = vid) (as @ v # bs) = Some v"
    using as vid by (induction as) auto
  moreover have "vid \<notin> obj_VersionID ` set (as @ bs)" using dist vid by auto
  then have "vid \<notin> set (map obj_VersionID (markLatest (as @ bs)))" by (simp add: image_Un)
  then have "find (\<lambda>w. obj_VersionID w = vid) (markLatest (as @ bs)) = None"
    unfolding find_None_iff by (metis image_eqI set_map)
  ultimately show ?thesis
    using frame filter_other_version [OF dist] by (auto simp: GetObjectVersion_eq b vs vs2 vid)
qed

definition demo4 :: Memory where
  "demo4 = snd (okOr (zeroObject, NewMemory) (DeleteVersion demo3 ''bkt'' ''a'' ''v2''))"

theorem delete_version_promotes_witness:
  "GetObject demo4 ''bkt'' ''a'' = Inr ((demoObject ''a'' ''v1'' 10)\<lparr>obj_IsLatest := True\<rparr>)"
proof -
  have "DeleteVersion demo3 ''bkt'' ''a'' ''v2'' = Inr ((demoObject ''a'' ''v2'' 20)\<lparr>obj_IsLatest := True\<rparr>, demo4)"
    by code_simp
  note w = delete_version_promotes [OF demo_reachable(3) this]
  have "markLatest (filter (\<lambda>w. obj_VersionID w \<noteq> ''v2'') (mem_versions demo3 ''bkt'' ''a'')) =
      [(demoObject ''a'' ''v1'' 10)\<lparr>obj_IsLatest := True\<rparr>]"
    by code_simp
  with w have "mem_versions demo4 ''bkt'' ''a'' = [(demoObject ''a'' ''v1'' 10)\<lparr>obj_IsLatest := True\<rparr>]"
    by (simp only: conj_assoc)
  moreover have "\<not> isl (getBucket demo4 ''bkt'')" by code_simp
  ultimately show ?thesis by (cases "getBucket demo4 ''bkt''") (simp_all only: GetObject_eq sum.case list.case sum.disc simp_thms)
qed

text \<open>A listing of a bucket is, for every prefix, marker and limit, the first \<open>limit\<close>
  (all for a negative limit) of the objects \<open>GetObject\<close> finds at the keys with that
  prefix behind the marker, delete markers left out, in strictly ascending key order.\<close>

theorem list_objects_complete:
  assumes "mem_reachable m" and "GetBucket m n = Inr meta"
  shows "\<exists>obs. sorted_wrt (<) (map obj_Key obs) \<and>
     set obs = {ob. GetObject m n (obj_Key ob) = Inr ob \<and> \<not> obj_DeleteMarker ob \<and>
                    HasPrefix (obj_Key ob) p \<and> a < obj_Key ob} \<and>
     (\<forall>limit. ListObjects m n p a limit = Inr (if limit < 0 then obs else take (nat limit) obs))"
proof -
  obtain b where b: "getBucket m n = Inr b"
    using assms(2) by (auto simp: GetBucket_def rbind_Inr_iff)
  have wf: "bucket_wf n b" using mem_reachable_wf [OF assms(1)] b by (rule memory_wf_getBucket)
  let ?obs = "filter (\<lambda>ob. HasPrefix (obj_Key ob) p \<and> a < obj_Key ob) (liveObjects b)"
  have "sorted_wrt (<) (map obj_Key (liveObjects b))"
    using liveKeys_sorted [OF wf] liveObjects_Key [OF wf] by simp
  then have "sorted_wrt (<) (map obj_Key ?obs)"
    by (auto simp: sorted_wrt_map intro: sorted_wrt_filter)
  moreover have "GetObject m n (obj_Key ob) = Inr ob \<longleftrightarrow> (\<exists>vs. versionsOf b (obj_Key ob) = ob # vs)" for ob
    by (simp add: GetObject_def b split: list.splits)
  then have "set ?obs = {ob. GetObject m n (obj_Key ob) = Inr ob \<and> \<not> obj_DeleteMarker ob \<and>
                    HasPrefix (obj_Key ob) p \<and> a < obj_Key ob}"
    by (auto simp: in_liveObjects_iff [OF wf])
  moreover have "ListObjects m n p a l = Inr (if l < 0 then ?obs else take (nat l) ?obs)" for l
    by (simp add: ListObjects_eq [OF wf b] takeLimit_def)
  ultimately show ?thesis by blast
qed

theorem list_objects_complete_witness:
  "\<exists>obs. sorted_wrt (<) (map obj_Key obs) \<and>
     set obs = {ob. GetObject demo3 ''bkt'' (obj_Key ob) = Inr ob \<and> \<not> obj_DeleteMarker ob \<and>
                    HasPrefix (obj_Key ob) ''a'' \<and> [] < obj_Key ob} \<and>
     (\<forall>limit. ListObjects demo3 ''bkt'' ''a'' [] limit = Inr (if limit < 0 then obs else take (nat limit) obs))"
proof (rule list_objects_complete [OF demo_reachable(3)])
  show "GetBucket demo3 ''bkt'' = Inr (demoBucket\<lparr>bkt_CreatedAt := 5\<rparr>)" by code_simp
qed


lemma ListVersions_resumes:
  assumes "memory_wf m" and "getBucket m n = Inr b" and "distinctVSeqs b" and "versionsOf b [] = []"
    and "\<forall>v \<in> set (versionRows b). obj_VersionID v \<noteq> []"
    and "ListVersions m n p [] [] (- 1) = Inr rows" and "i < length rows" and "0 < limit"
  shows "ListVersions m n p (obj_Key (rows ! i)) (obj_VersionID (rows ! i)) limit =
     Inr (take (nat limit) (drop (Suc i) rows))"
proof -
  have wf: "bucket_wf n b" using assms(1,2) by (rule memory_wf_getBucket)
  have rows: "rows = filter (\<lambda>w. HasPrefix (obj_Key w) p) (versionRows b)"
    using assms(6) by (simp add: ListVersions_first [OF wf assms(2,4)] emitUpTo_Nil)
  let ?v = "rows ! i"
  have v: "?v \<in> set (versionRows b)" using nth_mem [OF assms(7)] unfolding rows by simp
  then have "obj_Key ?v \<noteq> []" using assms(4) versionRows_iff [OF wf, of ?v] by auto
  moreover have "obj_VersionID ?v \<noteq> []" using v assms(5) by blast
  ultimately have "ListVersions m n p (obj_Key ?v) (obj_VersionID ?v) limit =
      Inr (emitUpTo limit [] (filter (\<lambda>w. HasPrefix (obj_Key w) p \<and> rowPos ?v < rowPos w) (versionRows b)))"
    by (rule ListVersions_after [OF wf assms(2,3) v])
  moreover have "filter (\<lambda>w. HasPrefix (obj_Key w) p \<and> x < rowPos w) (versionRows b) = filter (\<lambda>w. x < rowPos w) rows" for x
    by (simp add: rows conj_commute)
  ultimately have "ListVersions m n p (obj_Key ?v) (obj_VersionID ?v) limit =
      Inr (take (nat limit) (filter (\<lambda>w. rowPos ?v < rowPos w) rows))"
    using assms(8) by (simp only: emitUpTo_Nil if_True)
  moreover have "sorted_wrt (<) (map rowPos rows)"
    unfolding rows using versionRows_sorted [OF wf assms(3)] by (simp add: sorted_wrt_map sorted_wrt_filter)
  ultimately show ?thesis by (simp only: strict_sorted_filter_drop [OF _ assms(7)])
qed

text \<open>A version listing can be continued from any row. Let \<open>rows\<close> be the listing from
  the start without a limit. Called with the key and version id of the row at position
  \<open>i\<close> as markers, \<open>ListVersions\<close> returns the rows behind it, at most \<open>limit\<close> of them for
  a positive limit: pages neither repeat nor skip a row. (Keys and version ids are
  non-empty and the write times of a key's versions differ, as the gateway makes them.)\<close>

theorem list_versions_resumes:
  assumes "mem_reachable m" and "getBucket m n = Inr b" and "distinctVSeqs b" and "versionsOf b [] = []"
    and "\<forall>v \<in> set (versionRows b). obj_VersionID v \<noteq> []"
    and "ListVersions m n p [] [] (- 1) = Inr rows" and "i < length rows" and "0 < limit"
  shows "ListVersions m n p (obj_Key (rows ! i)) (obj_VersionID (rows ! i)) limit =
     Inr (take (nat limit) (drop (Suc i) rows))"
  using mem_reachable_wf [OF assms(1)] assms(2-) by (rule ListVersions_resumes)

lemma distinctVSeqs_code:
  "distinctVSeqs b \<longleftrightarrow> (\<forall>k \<in> set (map fst (mb_objects b)).
     distinct (map obj_VSeq (versionsOf b k)) \<and> (\<forall>v \<in> set (versionsOf b k). 0 \<le> obj_VSeq v))"
proof -
  have "versionsOf b k = []" if "k \<notin> set (map fst (mb_objects b))" for k
  proof -
    have "gm_get (mb_objects b) k = None" using that by (simp add: gm_get_None_iff)
    then show ?thesis by (simp add: versionsOf_def)
  qed
  then show ?thesis unfolding distinctVSeqs_def by (metis distinct.simps(1) empty_iff list.map(1) list.set(1))
qed

definition demoRows :: "Object list" where
  "demoRows = [(demoObject ''a'' ''v2'' 20)\<lparr>obj_IsLatest := True\<rparr>, demoObject ''a'' ''v1'' 10]"

theorem list_versions_resumes_witness:
  "ListVersions demo3 ''bkt'' [] (obj_Key (demoRows ! 0)) (obj_VersionID (demoRows ! 0)) 5 =
     Inr (take (nat 5) (drop (Suc 0) demoRows))"
proof -
  obtain b where b: "getBucket demo3 ''bkt'' = Inr b" and b': "b = okOr undefined (getBucket demo3 ''bkt'')"
    by (cases "getBucket demo3 ''bkt''") (simp_all add: okOr_def, code_simp)
  show ?thesis
  proof (rule list_versions_resumes [OF demo_reachable(3) b])
    show "distinctVSeqs b" unfolding b' distinctVSeqs_code by code_simp
    show "versionsOf b [] = []" unfolding b' by code_simp
    show "\<forall>v \<in> set (versionRows b). obj_VersionID v \<noteq> []" unfolding b' by code_simp
    show "ListVersions demo3 ''bkt'' [] [] [] (- 1) = Inr demoRows" by code_simp
  qed (simp_all add: demoRows_def)
qed

lemma ex_restored_filter:
  "distinct (map obj_Key objects) \<Longrightarrow> ob \<in> set objects \<Longrightarrow>
   filter (\<lambda>r. obj_Key r = obj_Key ob) (map (restoredRow n) objects) = [restoredRow n ob]"
proof (induction objects)
  case (Cons x xs)
  show ?case
  proof (cases "x = ob")
    case True
    with Cons.prems have "\<forall>y \<in> set xs. obj_Key y \<noteq> obj_Key ob" by (auto simp: image_iff)
    with True show ?thesis by (auto simp: restoredRow_def filter_empty_conv)
  next
    case False
    with Cons.prems have "obj_Key x \<noteq> obj_Key ob" by (auto simp: image_iff)
    with False Cons show ?thesis by (auto simp: restoredRow_def)
  qed
qed simp

lemma restored_distinct: "distinct (map obj_Key objects) \<Longrightarrow> restorable n objects"
  unfolding restorable_def by (induction objects) (auto simp: image_iff)

lemma RestoreBucket_rows:
  assumes "RestoreBucket m n objects root seq = Inr m'" and "distinct (map obj_Key objects)"
  shows "(\<forall>ob \<in> set objects. mem_versions m' n (obj_Key ob) = [restoredRow n ob]) \<and>
    (\<forall>k. k \<notin> obj_Key ` set objects \<longrightarrow> GetObject m' n k = Inl ErrObjectNotFound) \<and>
    (\<forall>meta. GetBucket m n = Inr meta \<longrightarrow>
       GetBucket m' n = Inr (meta\<lparr>bkt_HeadRoot := root, bkt_CommitSeq := seq\<rparr>)) \<and>
    (\<forall>n'. n' \<noteq> n \<longrightarrow> getBucket m' n' = getBucket m n')"
proof -
  from assms(1) obtain b where b: "getBucket m n = Inr b"
    and m': "m' = putBucket m n (b\<lparr>mb_objects := restoredObjects n objects,
          mb_meta := (mb_meta b)\<lparr>bkt_HeadRoot := root, bkt_CommitSeq := seq\<rparr>\<rparr>)"
    by (auto simp: RestoreBucket_eq rbind_Inr_iff)
  have vs: "mem_versions m' n k = sortVersions (filter (\<lambda>r. obj_Key r = k) (map (restoredRow n) objects))" for k
    by (auto simp: m' versionsOf_def restoredObjects_get Let_def sortVersions_def)
  have "mem_versions m' n (obj_Key ob) = [restoredRow n ob]" if "ob \<in> set objects" for ob
    unfolding vs ex_restored_filter [OF assms(2) that] by (simp add: sortVersions_def restoredRow_def)
  moreover have "filter (\<lambda>r. obj_Key r = k) (map (restoredRow n) objects) = []" if "k \<notin> obj_Key ` set objects" for k
    using that by (auto simp: filter_empty_conv restoredRow_def)
  then have "GetObject m' n k = Inl ErrObjectNotFound" if "k \<notin> obj_Key ` set objects" for k
    using that by (simp only: GetObject_eq vs) (simp add: m' sortVersions_def)
  moreover have "GetBucket m n = Inr meta \<longrightarrow>
       GetBucket m' n = Inr (meta\<lparr>bkt_HeadRoot := root, bkt_CommitSeq := seq\<rparr>)" for meta
    by (simp add: GetBucket_def b m')
  moreover have "n' \<noteq> n \<longrightarrow> getBucket m' n' = getBucket m n'" for n'
    by (simp add: m')
  ultimately show ?thesis by blast
qed

text \<open>Restoring a bucket from a list of objects with distinct keys, as a commit's
  manifest gives them, replaces the bucket's contents: each listed object is the one
  version of its key, a key that is not listed has no version, the head is set to the
  restored root and sequence number, and every other bucket stays as it was.\<close>

theorem restore_bucket_exact:
  assumes "RestoreBucket m n objects root seq = Inr m'" and "distinct (map obj_Key objects)"
  shows "(\<forall>ob \<in> set objects. mem_versions m' n (obj_Key ob) = [restoredRow n ob]) \<and>
    (\<forall>k. k \<notin> obj_Key ` set objects \<longrightarrow> GetObject m' n k = Inl ErrObjectNotFound) \<and>
    (\<forall>meta. GetBucket m n = Inr meta \<longrightarrow>
       GetBucket m' n = Inr (meta\<lparr>bkt_HeadRoot := root, bkt_CommitSeq := seq\<rparr>)) \<and>
    (\<forall>n'. n' \<noteq> n \<longrightarrow> getBucket m' n' = getBucket m n')"
  using RestoreBucket_rows [OF assms] .

theorem restore_bucket_exact_witness:
  "\<exists>m'. RestoreBucket demo3 ''bkt'' [demoObject ''c'' ''v7'' 70] ''root'' 4 = Inr m' \<and>
     mem_versions m' ''bkt'' (obj_Key (demoObject ''c'' ''v7'' 70)) = [restoredRow ''bkt'' (demoObject ''c'' ''v7'' 70)] \<and>
     GetObject m' ''bkt'' ''a'' = Inl ErrObjectNotFound"
proof -
  have "\<not> isl (RestoreBucket demo3 ''bkt'' [demoObject ''c'' ''v7'' 70] ''root'' 4)" by code_simp
  then obtain m' where m': "RestoreBucket demo3 ''bkt'' [demoObject ''c'' ''v7'' 70] ''root'' 4 = Inr m'"
    by (cases "RestoreBucket demo3 ''bkt'' [demoObject ''c'' ''v7'' 70] ''root'' 4") auto
  have "''a'' \<notin> obj_Key ` set [demoObject ''c'' ''v7'' 70]" by (simp add: demoObject_def)
  with m' restore_bucket_exact [OF m'] show ?thesis by auto
qed

text \<open>With limit 0 the version listing does not return an empty page: the loop
  compares the page's length with the limit after appending, so it never stops and every
  row behind the marker is returned, as for a negative limit. (The handlers never ask for
  0 rows: they pass the page size plus one.)\<close>

theorem list_versions_limit_zero: "ListVersions m n p km vm 0 = ListVersions m n p km vm (- 1)"
  by (simp add: ListVersions_def emitUpTo_Nil Let_def)

end
