(* ===== verification/Api_Errors.thy ===== *)
theory Api_Errors
  imports Store_Types
begin

text \<open>
  HTTP requests as the handlers read them, and file internal/api/errors.go: the S3 errors
  and the mapping of authentication, index and Bee failures onto them. A handler's reply is
  \<open>Inl\<close> an error (\<open>writeError\<close>) or \<open>Inr\<close> its success response.
\<close>

section \<open>Requests\<close>

text \<open>
  A parsed query string (\<open>url.Values\<close>) is a map from names to value lists; a header is a
  map from names to value lists whose names are kept in lower case, since Go
  canonicalises a name on every access. \<open>Get\<close> is the first value or the empty string.
\<close>

type_synonym url_values = "(string, string list) gomap"
type_synonym http_header = "(string, string list) gomap"

definition Values_Has :: "url_values \<Rightarrow> string \<Rightarrow> bool" where
  "Values_Has q k \<longleftrightarrow> gm_get q k \<noteq> None"

definition Values_Get :: "url_values \<Rightarrow> string \<Rightarrow> string" where
  "Values_Get q k = (case gm_get q k of Some (v # _) \<Rightarrow> v | _ \<Rightarrow> [])"

definition Header_Values :: "http_header \<Rightarrow> string \<Rightarrow> string list" where
  "Header_Values h k = (case gm_get h (strings_ToLower k) of Some vs \<Rightarrow> vs | None \<Rightarrow> [])"

definition Header_Get :: "http_header \<Rightarrow> string \<Rightarrow> string" where
  "Header_Get h k = (case Header_Values h k of v # _ \<Rightarrow> v | [] \<Rightarrow> [])"

definition Header_Set :: "string \<Rightarrow> string \<Rightarrow> http_header \<Rightarrow> http_header" where
  "Header_Set k v h = gm_put (strings_ToLower k) [v] h"

record Request =
  req_Method :: string
  req_Host :: string
  req_Path :: string
  req_Query :: url_values
  req_Header :: http_header
  req_ContentLength :: int

section \<open>S3 errors\<close>

record apiError =
  err_Code :: string
  err_Status :: int
  err_Message :: string

definition withMessage :: "apiError \<Rightarrow> string \<Rightarrow> apiError" where
  "withMessage e msg = e\<lparr>err_Message := msg\<rparr>"

definition errAccessDenied :: apiError where
  "errAccessDenied = \<lparr>err_Code = ''AccessDenied'', err_Status = 403, err_Message = ''Access Denied''\<rparr>"

definition errInvalidRequest :: apiError where
  "errInvalidRequest = \<lparr>err_Code = ''InvalidRequest'', err_Status = 400, err_Message = ''Invalid Request''\<rparr>"

definition errInvalidArgument :: apiError where
  "errInvalidArgument = \<lparr>err_Code = ''InvalidArgument'', err_Status = 400, err_Message = ''Invalid Argument''\<rparr>"

definition errMalformedXML :: apiError where
  "errMalformedXML = \<lparr>err_Code = ''MalformedXML'', err_Status = 400,
     err_Message = ''The XML you provided was not well-formed or did not validate against our published schema''\<rparr>"

definition errInvalidBucketName :: apiError where
  "errInvalidBucketName = \<lparr>err_Code = ''InvalidBucketName'', err_Status = 400,
     err_Message = ''The specified bucket is not valid''\<rparr>"

definition errNoSuchBucket :: apiError where
  "errNoSuchBucket = \<lparr>err_Code = ''NoSuchBucket'', err_Status = 404,
     err_Message = ''The specified bucket does not exist''\<rparr>"

definition errNoSuchKey :: apiError where
  "errNoSuchKey = \<lparr>err_Code = ''NoSuchKey'', err_Status = 404,
     err_Message = ''The specified key does not exist''\<rparr>"

definition errBucketAlreadyOwned :: apiError where
  "errBucketAlreadyOwned = \<lparr>err_Code = ''BucketAlreadyOwnedByYou'', err_Status = 409,
     err_Message = ''Your previous request to create the named bucket succeeded and you already own it''\<rparr>"

definition errBucketNotEmpty :: apiError where
  "errBucketNotEmpty = \<lparr>err_Code = ''BucketNotEmpty'', err_Status = 409,
     err_Message = ''The bucket you tried to delete is not empty''\<rparr>"

definition errMethodNotAllowed :: apiError where
  "errMethodNotAllowed = \<lparr>err_Code = ''MethodNotAllowed'', err_Status = 405,
     err_Message = ''The specified method is not allowed against this resource''\<rparr>"

definition errNotImplemented :: apiError where
  "errNotImplemented = \<lparr>err_Code = ''NotImplemented'', err_Status = 501,
     err_Message = ''A header or query you provided implies functionality that is not implemented''\<rparr>"

definition errInternal :: apiError where
  "errInternal = \<lparr>err_Code = ''InternalError'', err_Status = 500,
     err_Message = ''We encountered an internal error. Please try again''\<rparr>"

definition errServiceUnavailable :: apiError where
  "errServiceUnavailable = \<lparr>err_Code = ''ServiceUnavailable'', err_Status = 503,
     err_Message = ''Service is unable to handle request''\<rparr>"

definition errBadDigest :: apiError where
  "errBadDigest = \<lparr>err_Code = ''BadDigest'', err_Status = 400,
     err_Message = ''The Content-MD5 you specified did not match what we received''\<rparr>"

definition errSHA256Mismatch :: apiError where
  "errSHA256Mismatch = \<lparr>err_Code = ''XAmzContentSHA256Mismatch'', err_Status = 400,
     err_Message = ''The provided x-amz-content-sha256 header does not match what was computed''\<rparr>"

definition errPreconditionFailed :: apiError where
  "errPreconditionFailed = \<lparr>err_Code = ''PreconditionFailed'', err_Status = 412,
     err_Message = ''At least one of the preconditions you specified did not hold''\<rparr>"

definition errNoSuchUpload :: apiError where
  "errNoSuchUpload = \<lparr>err_Code = ''NoSuchUpload'', err_Status = 404,
     err_Message = ''The specified multipart upload does not exist. The upload ID may be invalid, or the upload may have been aborted or completed''\<rparr>"

definition errInvalidPart :: apiError where
  "errInvalidPart = \<lparr>err_Code = ''InvalidPart'', err_Status = 400,
     err_Message = ''One or more of the specified parts could not be found. The part may not have been uploaded, or the specified entity tag may not match the part's entity tag''\<rparr>"

definition errInvalidPartOrder :: apiError where
  "errInvalidPartOrder = \<lparr>err_Code = ''InvalidPartOrder'', err_Status = 400,
     err_Message = ''The list of parts was not in ascending order. Parts must be ordered by part number''\<rparr>"

definition errEntityTooSmall :: apiError where
  "errEntityTooSmall = \<lparr>err_Code = ''EntityTooSmall'', err_Status = 400,
     err_Message = ''Your proposed upload is smaller than the minimum allowed object size. Each part must be at least 5 MB in size, except the last part''\<rparr>"

definition errNoSSEConfig :: apiError where
  "errNoSSEConfig = \<lparr>err_Code = ''ServerSideEncryptionConfigurationNotFoundError'', err_Status = 404,
     err_Message = ''The server side encryption configuration was not found''\<rparr>"

definition errNoSuchVersion :: apiError where
  "errNoSuchVersion = \<lparr>err_Code = ''NoSuchVersion'', err_Status = 404,
     err_Message = ''The specified version does not exist''\<rparr>"

definition errInvalidRange :: apiError where
  "errInvalidRange = \<lparr>err_Code = ''InvalidRange'', err_Status = 416,
     err_Message = ''The requested range is not satisfiable''\<rparr>"

definition errSwarmPostage :: apiError where
  "errSwarmPostage = \<lparr>err_Code = ''SwarmPostageError'', err_Status = 402,
     err_Message = ''The postage batch is missing, expired or out of capacity''\<rparr>"

section \<open>Mapping of failures\<close>

text \<open>\<open>auth.Error\<close>: an authentication failure with its S3 code.\<close>

record auth_Error =
  ae_Code :: string
  ae_Message :: string

text \<open>The verifier's errors all are \<open>*auth.Error\<close>; \<open>None\<close> is any other error.\<close>

definition authError :: "auth_Error option \<Rightarrow> apiError" where
  "authError err =
     (case err of
        None \<Rightarrow> errAccessDenied
      | Some ae \<Rightarrow>
          (let status = (if ae_Code ae \<in> {''AccessDenied'', ''InvalidAccessKeyId'', ''SignatureDoesNotMatch'',
                            ''RequestTimeTooSkewed''} then 403
                         else if ae_Code ae = ''NotImplemented'' then 501 else 400)
           in \<lparr>err_Code = ae_Code ae, err_Status = status, err_Message = ae_Message ae\<rparr>))"

text \<open>The texts of the sentinel errors, \<open>store.go\<close>.\<close>

fun store_error_Error :: "store_error \<Rightarrow> string" where
  "store_error_Error ErrBucketNotFound = ''bucket not found''"
| "store_error_Error ErrBucketExists = ''bucket already exists''"
| "store_error_Error ErrBucketNotEmpty = ''bucket not empty''"
| "store_error_Error ErrObjectNotFound = ''object not found''"
| "store_error_Error ErrUploadNotFound = ''multipart upload not found''"
| "store_error_Error ErrSnapshotNotFound = ''snapshot not found''"
| "store_error_Error ErrPreconditionFailed = ''precondition failed''"

fun storeError :: "store_error \<Rightarrow> apiError" where
  "storeError ErrBucketNotFound = errNoSuchBucket"
| "storeError ErrObjectNotFound = errNoSuchKey"
| "storeError ErrBucketExists = errBucketAlreadyOwned"
| "storeError ErrBucketNotEmpty = errBucketNotEmpty"
| "storeError ErrPreconditionFailed = errPreconditionFailed"
| "storeError ErrUploadNotFound = errNoSuchUpload"
| "storeError err = withMessage errInternal (store_error_Error err)"

text \<open>A failed call of the Bee node: a non-2xx status with its message, or any other error.\<close>

datatype bee_error = StatusError int string | OtherError string

fun beeError :: "bee_error \<Rightarrow> apiError" where
  "beeError (OtherError msg) = withMessage errServiceUnavailable (''bee node unreachable: '' @ msg)"
| "beeError (StatusError code msg) =
     (if code = 402 then withMessage errSwarmPostage msg
      else if code = 404 then
        withMessage errNoSuchKey (''object data not retrievable from swarm (postage batch may have expired): '' @ msg)
      else if code = 416 then errInvalidRange
      else if 400 \<le> code \<and> code < 500 then withMessage errInvalidRequest (''bee: '' @ msg)
      else withMessage errServiceUnavailable (''bee: '' @ msg))"

lemmas apiError_defs = errAccessDenied_def errInvalidRequest_def errInvalidArgument_def errMalformedXML_def
  errInvalidBucketName_def errNoSuchBucket_def errNoSuchKey_def errBucketAlreadyOwned_def errBucketNotEmpty_def
  errMethodNotAllowed_def errNotImplemented_def errInternal_def errServiceUnavailable_def errBadDigest_def
  errSHA256Mismatch_def errPreconditionFailed_def errNoSuchUpload_def errInvalidPart_def errInvalidPartOrder_def
  errEntityTooSmall_def errNoSSEConfig_def errNoSuchVersion_def errInvalidRange_def errSwarmPostage_def
  withMessage_def

lemma withMessage_sel [simp]:
  "err_Code (withMessage e msg) = err_Code e" "err_Status (withMessage e msg) = err_Status e"
  "err_Message (withMessage e msg) = msg"
  by (simp_all add: withMessage_def)

end
