(* ===== verification/Go_Encoding.thy ===== *)
theory Go_Encoding
  imports Go_Strings
begin

text \<open>
  Base64 as encoding/base64 of Go reads and writes it, with the round trip.
\<close>

section \<open>Package encoding/base64\<close>

text \<open>
  \<open>StdEncoding\<close> (padded) and \<open>RawURLEncoding\<close> (no padding), each given by its last two
  characters and whether it pads. The decoder skips line breaks and, as Go's default,
  ignores the unused bits of the last group.
\<close>

record b64_encoding =
  b64_62 :: char
  b64_63 :: char
  b64_pad :: bool

definition StdEncoding :: b64_encoding where
  "StdEncoding = \<lparr>b64_62 = CHR ''+'', b64_63 = CHR ''/'', b64_pad = True\<rparr>"

definition RawURLEncoding :: b64_encoding where
  "RawURLEncoding = \<lparr>b64_62 = CHR ''-'', b64_63 = CHR ''_'', b64_pad = False\<rparr>"

definition b64_char :: "b64_encoding \<Rightarrow> nat \<Rightarrow> char" where
  "b64_char e n = (if n < 26 then char_of (65 + n) else if n < 52 then char_of (71 + n)
     else if n < 62 then char_of (n - 4) else if n = 62 then b64_62 e else b64_63 e)"

definition b64_val :: "b64_encoding \<Rightarrow> char \<Rightarrow> nat option" where
  "b64_val e c = (let n = of_char c :: nat in
     if 65 \<le> n \<and> n \<le> 90 then Some (n - 65) else if 97 \<le> n \<and> n \<le> 122 then Some (n - 71)
     else if 48 \<le> n \<and> n \<le> 57 then Some (n + 4) else if c = b64_62 e then Some 62
     else if c = b64_63 e then Some 63 else None)"

fun base64_EncodeToString :: "b64_encoding \<Rightarrow> string \<Rightarrow> string" where
  "base64_EncodeToString e [] = []"
| "base64_EncodeToString e [a] =
     (let x = of_char a :: nat in
      b64_char e (x div 4) # b64_char e (x mod 4 * 16) # (if b64_pad e then ''=='' else []))"
| "base64_EncodeToString e [a, b] =
     (let x = of_char a :: nat; y = of_char b in
      b64_char e (x div 4) # b64_char e (x mod 4 * 16 + y div 16) # b64_char e (y mod 16 * 4) #
      (if b64_pad e then ''='' else []))"
| "base64_EncodeToString e (a # b # c # s) =
     (let x = of_char a :: nat; y = of_char b; z = of_char c in
      b64_char e (x div 4) # b64_char e (x mod 4 * 16 + y div 16) #
      b64_char e (y mod 16 * 4 + z div 64) # b64_char e (z mod 64) # base64_EncodeToString e s)"

definition b64_bytes2 :: "nat \<Rightarrow> nat \<Rightarrow> string" where
  "b64_bytes2 w x = [char_of (w * 4 + x div 16)]"

definition b64_bytes3 :: "nat \<Rightarrow> nat \<Rightarrow> nat \<Rightarrow> string" where
  "b64_bytes3 w x y = [char_of (w * 4 + x div 16), char_of (x mod 16 * 16 + y div 4)]"

definition b64_bytes4 :: "nat \<Rightarrow> nat \<Rightarrow> nat \<Rightarrow> nat \<Rightarrow> string" where
  "b64_bytes4 w x y z = b64_bytes3 w x y @ [char_of (y mod 4 * 64 + z)]"

fun b64_quanta :: "b64_encoding \<Rightarrow> string \<Rightarrow> string option" where
  "b64_quanta e [] = Some []"
| "b64_quanta e [c] = None"
| "b64_quanta e [c, d] =
     (case (b64_val e c, b64_val e d) of
        (Some w, Some x) \<Rightarrow> if b64_pad e then None else Some (b64_bytes2 w x)
      | _ \<Rightarrow> None)"
| "b64_quanta e [c, d, f] =
     (case (b64_val e c, b64_val e d, b64_val e f) of
        (Some w, Some x, Some y) \<Rightarrow> if b64_pad e then None else Some (b64_bytes3 w x y)
      | _ \<Rightarrow> None)"
| "b64_quanta e (c # d # f # g # s) =
     (case (b64_val e c, b64_val e d) of
        (Some w, Some x) \<Rightarrow>
          if b64_pad e \<and> f = CHR ''='' \<and> g = CHR ''='' \<and> s = [] then Some (b64_bytes2 w x)
          else (case b64_val e f of
             None \<Rightarrow> None
           | Some y \<Rightarrow>
               if b64_pad e \<and> g = CHR ''='' \<and> s = [] then Some (b64_bytes3 w x y)
               else (case (b64_val e g, b64_quanta e s) of
                  (Some z, Some t) \<Rightarrow> Some (b64_bytes4 w x y z @ t)
                | _ \<Rightarrow> None))
      | _ \<Rightarrow> None)"

definition base64_DecodeString :: "b64_encoding \<Rightarrow> string \<Rightarrow> string option" where
  "base64_DecodeString e s = b64_quanta e (filter (\<lambda>c. of_char c \<notin> {10, 13 :: nat}) s)"

text \<open>An alphabet whose last two characters are no letter, digit, pad or line break.\<close>

definition b64_ok :: "b64_encoding \<Rightarrow> bool" where
  "b64_ok e \<longleftrightarrow> b64_62 e \<noteq> b64_63 e \<and>
     (\<forall>c \<in> {b64_62 e, b64_63 e}. (let n = of_char c :: nat in
        \<not> (65 \<le> n \<and> n \<le> 90) \<and> \<not> (97 \<le> n \<and> n \<le> 122) \<and> \<not> (48 \<le> n \<and> n \<le> 57) \<and> n \<notin> {10, 13, 61}))"

lemma b64_ok [simp]: "b64_ok StdEncoding" "b64_ok RawURLEncoding"
  by (simp_all add: b64_ok_def StdEncoding_def RawURLEncoding_def)

lemma b64_char_cases:
  assumes "n < 64"
  obtains "n < 26" and "b64_char e n = char_of (65 + n)"
  | "26 \<le> n" and "n < 52" and "b64_char e n = char_of (71 + n)"
  | "52 \<le> n" and "n < 62" and "b64_char e n = char_of (n - 4)"
  | "n = 62" and "b64_char e n = b64_62 e"
  | "n = 63" and "b64_char e n = b64_63 e"
proof -
  consider "n < 26" | "26 \<le> n \<and> n < 52" | "52 \<le> n \<and> n < 62" | "n = 62" | "n = 63"
    using assms by linarith
  then show ?thesis by cases (simp_all add: b64_char_def that)
qed

lemma of_char_small: "k < 256 \<Longrightarrow> of_char (char_of k :: char) = (k :: nat)"
  by simp

lemma b64_ok_D:
  assumes "b64_ok e" and "c = b64_62 e \<or> c = b64_63 e"
  shows "\<not> (65 \<le> (of_char c :: nat) \<and> (of_char c :: nat) \<le> 90)"
    and "\<not> (97 \<le> (of_char c :: nat) \<and> (of_char c :: nat) \<le> 122)"
    and "\<not> (48 \<le> (of_char c :: nat) \<and> (of_char c :: nat) \<le> 57)"
    and "(of_char c :: nat) \<notin> {10, 13, 61}"
  using assms unfolding b64_ok_def Let_def by blast+

lemma b64_val_char:
  assumes "b64_ok e" and "n < 64"
  shows "b64_val e (b64_char e n) = Some n"
  using assms(2)
proof (cases rule: b64_char_cases [of n e])
  case 3
  then have "48 \<le> n - 4 \<and> n - 4 \<le> 57" by linarith
  with 3 show ?thesis by (simp add: b64_val_def Let_def of_char_small del: of_char_of)
next
  case 4
  with b64_ok_D [OF assms(1), of "b64_62 e"] show ?thesis
    unfolding b64_val_def Let_def by (simp only: if_False if_True simp_thms)
next
  case 5
  moreover have "b64_63 e \<noteq> b64_62 e" using assms(1) unfolding b64_ok_def by metis
  ultimately show ?thesis
    using b64_ok_D [OF assms(1), of "b64_63 e"] unfolding b64_val_def Let_def by (simp only: if_False if_True simp_thms)
qed (simp_all add: b64_val_def Let_def of_char_small del: of_char_of)

lemma b64_char_plain:
  assumes "b64_ok e" and "n < 64"
  shows "of_char (b64_char e n) \<notin> {10, 13, 61 :: nat}"
  using assms(2)
proof (cases rule: b64_char_cases [of n e])
  case 3
  then have "48 \<le> n - 4 \<and> n - 4 \<le> 57" by linarith
  with 3 show ?thesis by (simp add: of_char_small del: of_char_of)
next
  case 4
  then show ?thesis using b64_ok_D(4) [OF assms(1), of "b64_62 e"] by (simp only: simp_thms)
next
  case 5
  then show ?thesis using b64_ok_D(4) [OF assms(1), of "b64_63 e"] by (simp only: simp_thms)
qed (simp_all add: of_char_small del: of_char_of)

lemma byte_bounds: "(of_char c :: nat) < 256" "(of_char c :: nat) div 4 < 64" "(of_char c :: nat) div 16 < 16"
  "(of_char c :: nat) div 64 < 4"
proof -
  show b: "(of_char c :: nat) < 256" by simp
  then show "(of_char c :: nat) div 4 < 64" "(of_char c :: nat) div 16 < 16" "(of_char c :: nat) div 64 < 4"
    by (simp_all add: less_mult_imp_div_less)
qed

lemma b64_digit_bounds:
  "(of_char a :: nat) mod 4 * 16 < 64" "(of_char a :: nat) mod 4 * 16 + of_char b div 16 < 64"
  "(of_char a :: nat) mod 16 * 4 < 64" "(of_char a :: nat) mod 16 * 4 + of_char b div 64 < 64"
proof -
  have m: "(x :: nat) mod 4 < 4" "(x :: nat) mod 16 < 16" for x by simp_all
  show "(of_char a :: nat) mod 4 * 16 < 64" "(of_char a :: nat) mod 4 * 16 + of_char b div 16 < 64"
  "(of_char a :: nat) mod 16 * 4 < 64" "(of_char a :: nat) mod 16 * 4 + of_char b div 64 < 64"
    using byte_bounds(3,4) [of b] m [of "of_char a"] by linarith+
qed

lemma b64_bytes_enc:
  "b64_bytes2 (of_char a div 4) (of_char a mod 4 * 16) = [a]"
  "b64_bytes3 (of_char a div 4) (of_char a mod 4 * 16 + of_char b div 16) (of_char b mod 16 * 4) = [a, b]"
  "b64_bytes4 (of_char a div 4) (of_char a mod 4 * 16 + of_char b div 16)
     (of_char b mod 16 * 4 + of_char c div 64) (of_char c mod 64) = [a, b, c]"
proof -
  have q: "(x * 16 + y) div 16 = x" "(x * 16 + y) mod 16 = y" if "y < 16" for x y :: nat
    using that by simp_all
  have r: "(x * 4 + y) div 4 = x" "(x * 4 + y) mod 4 = y" if "y < 4" for x y :: nat
    using that by simp_all
  have j: "(x :: nat) div 4 * 4 + x mod 4 = x" "x div 16 * 16 + x mod 16 = x" "x div 64 * 64 + x mod 64 = x"
    "x mod 16 * 16 + x div 16 = x mod 16 * 16 + x div 16" for x by simp_all
  have "(of_char b :: nat) mod 16 * 4 div 4 = of_char b mod 16" by simp
  show "b64_bytes2 (of_char a div 4) (of_char a mod 4 * 16) = [a]"
    using q(1) [of 0 "of_char a mod 4"] j(1) [of "of_char a"] by (simp add: b64_bytes2_def)
  show 3: "b64_bytes3 (of_char a div 4) (of_char a mod 4 * 16 + of_char b div 16) (of_char b mod 16 * 4) = [a, b]"
    by (simp add: b64_bytes3_def q byte_bounds j)
  show "b64_bytes4 (of_char a div 4) (of_char a mod 4 * 16 + of_char b div 16)
     (of_char b mod 16 * 4 + of_char c div 64) (of_char c mod 64) = [a, b, c]"
    by (simp add: b64_bytes4_def b64_bytes3_def q r byte_bounds j)
qed

lemma b64_pad_char: "b64_ok e \<Longrightarrow> n < 64 \<Longrightarrow> b64_char e n \<noteq> CHR ''=''"
  using b64_char_plain [of e n] by auto

lemmas b64_enc_simps = b64_val_char b64_pad_char byte_bounds b64_digit_bounds b64_bytes_enc

lemma b64_quanta_Encode: "b64_ok e \<Longrightarrow> b64_quanta e (base64_EncodeToString e s) = Some s"
  by (induction e s rule: base64_EncodeToString.induct) (simp_all add: Let_def b64_enc_simps)

lemma base64_Encode_chars: "set (base64_EncodeToString e s) \<subseteq> b64_char e ` {..<64} \<union> {CHR ''=''}"
  by (induction e s rule: base64_EncodeToString.induct) (simp_all add: Let_def byte_bounds b64_digit_bounds, auto)

lemma base64_Encode_plain:
  "b64_ok e \<Longrightarrow> c \<in> set (base64_EncodeToString e s) \<Longrightarrow> of_char c \<notin> {10, 13 :: nat}"
  using base64_Encode_chars [of e s] b64_char_plain [of e] by auto

lemma base64_Decode_Encode: "b64_ok e \<Longrightarrow> base64_DecodeString e (base64_EncodeToString e s) = Some s"
  using base64_Encode_plain [of e _ s]
  by (subst base64_DecodeString_def, subst filter_True) (auto simp: b64_quanta_Encode)

lemma base64_Encode_Nil_iff [simp]: "base64_EncodeToString e s = [] \<longleftrightarrow> s = []"
  by (cases "(e, s)" rule: base64_EncodeToString.cases) (auto simp: Let_def)

end
