(* ===== verification/Sigv4.thy ===== *)
theory Sigv4
  imports Api_Errors Go_Encoding "HOL-Library.Multiset"
begin

text \<open>
  AWS Signature Version 4, file internal/auth/sigv4.go: escaping, the canonical query and
  request, the signature, and the verifier of header-signed and presigned requests. The
  hash functions are parameters. The theorems: the canonical form determines the request,
  the verifier accepts nothing but requests signed under a registered key within their
  time window, and it accepts every request signed that way.
\<close>

section \<open>Time\<close>

text \<open>
  \<open>time.Parse\<close> and \<open>Format\<close> with the layout 20060102T150405Z. Parsing accepts, as
  Go does, a one-digit hour and a fraction behind the seconds; the result is in UTC.
\<close>

definition is_leap :: "int \<Rightarrow> bool" where
  "is_leap y \<longleftrightarrow> y mod 4 = 0 \<and> (y mod 100 \<noteq> 0 \<or> y mod 400 = 0)"

definition days_in :: "int \<Rightarrow> int \<Rightarrow> int" where
  "days_in m y = (if m = 2 then (if is_leap y then 29 else 28) else if m \<in> {4, 6, 9, 11} then 30 else 31)"

definition days_from_civil :: "int \<Rightarrow> int \<Rightarrow> int \<Rightarrow> int" where
  "days_from_civil y m d =
     (let y' = (if m \<le> 2 then y - 1 else y);
          era = y' div 400;
          yoe = y' - era * 400;
          doy = (153 * (if m > 2 then m - 3 else m + 9) + 2) div 5 + d - 1;
          doe = yoe * 365 + yoe div 4 - yoe div 100 + doy
      in era * 146097 + doe - 719468)"

definition civil_from_days :: "int \<Rightarrow> int \<times> int \<times> int" where
  "civil_from_days z =
     (let z = z + 719468;
          era = z div 146097;
          doe = z - era * 146097;
          yoe = (doe - doe div 1460 + doe div 36524 - doe div 146096) div 365;
          doy = doe - (365 * yoe + yoe div 4 - yoe div 100);
          mp = (5 * doy + 2) div 153;
          d = doy - (153 * mp + 2) div 5 + 1;
          m = (if mp < 10 then mp + 3 else mp - 9);
          y = yoe + era * 400
      in (if m \<le> 2 then y + 1 else y, m, d))"

definition dec_digit :: "char \<Rightarrow> int option" where
  "dec_digit c = (let n = of_char c :: nat in if 48 \<le> n \<and> n \<le> 57 then Some (int n - 48) else None)"

definition getnum2 :: "string \<Rightarrow> (int \<times> string) option" where
  "getnum2 s = (case s of
     a # b # t \<Rightarrow> (case (dec_digit a, dec_digit b) of (Some x, Some y) \<Rightarrow> Some (10 * x + y, t) | _ \<Rightarrow> None)
   | _ \<Rightarrow> None)"

definition getnum12 :: "string \<Rightarrow> (int \<times> string) option" where
  "getnum12 s = (case getnum2 s of
     Some r \<Rightarrow> Some r
   | None \<Rightarrow> (case s of [] \<Rightarrow> None | a # t \<Rightarrow> map_option (\<lambda>x. (x, t)) (dec_digit a)))"

definition getlit :: "char \<Rightarrow> string \<Rightarrow> string option" where
  "getlit c s = (case s of [] \<Rightarrow> None | a # t \<Rightarrow> if a = c then Some t else None)"

text \<open>The optional fraction: a comma or period and digits, of which nine count.\<close>

definition getfrac :: "string \<Rightarrow> int \<times> string" where
  "getfrac s = (case s of
     a # b # t \<Rightarrow>
       if a \<in> {CHR ''.'', CHR '',''} \<and> dec_digit b \<noteq> None then
         (let ds = takeWhile (\<lambda>c. dec_digit c \<noteq> None) (b # t);
              use = take 9 ds
          in (foldl (\<lambda>n c. 10 * n + the (dec_digit c)) 0 use * 10 ^ (9 - length use),
              drop (length ds) (b # t)))
       else (0, s)
   | _ \<Rightarrow> (0, s))"

definition time_ParseISO :: "string \<Rightarrow> gotime option" where
  "time_ParseISO s =
     Option.bind (getnum2 s) (\<lambda>(yh, s).
     Option.bind (getnum2 s) (\<lambda>(yl, s).
     Option.bind (getnum2 s) (\<lambda>(mo, s).
     Option.bind (getnum2 s) (\<lambda>(d, s).
     Option.bind (getlit CHR ''T'' s) (\<lambda>s.
     Option.bind (getnum12 s) (\<lambda>(h, s).
     Option.bind (getnum2 s) (\<lambda>(mi, s).
     Option.bind (getnum2 s) (\<lambda>(sec, s).
       let (ns, s) = getfrac s; y = 100 * yh + yl in
       if s = ''Z'' \<and> 1 \<le> mo \<and> mo \<le> 12 \<and> 1 \<le> d \<and> d \<le> days_in mo y \<and> h < 24 \<and> mi < 60 \<and> sec < 60
       then Some ((days_from_civil y mo d * 86400 + h * 3600 + mi * 60 + sec) * second + ns)
       else None))))))))"

definition show2 :: "int \<Rightarrow> string" where
  "show2 n = [char_of (nat (48 + n div 10)), char_of (nat (48 + n mod 10))]"

text \<open>Format of an instant in the years 0 to 9999.\<close>

definition time_FormatISO :: "gotime \<Rightarrow> string" where
  "time_FormatISO t =
     (let s = t div second; (y, mo, d) = civil_from_days (s div 86400); r = s mod 86400
      in show2 (y div 100) @ show2 (y mod 100) @ show2 mo @ show2 d @ ''T'' @
         show2 (r div 3600) @ show2 (r mod 3600 div 60) @ show2 (r mod 60) @ ''Z'')"

text \<open>\<open>Time.Sub\<close> saturates at the bounds of a duration.\<close>

definition time_Sub :: "gotime \<Rightarrow> gotime \<Rightarrow> int" where
  "time_Sub t u = max (- (2 ^ 63)) (min (2 ^ 63 - 1) (t - u))"

lemma iso_example: "time_ParseISO ''20130524T000000Z'' = Some (1369353600 * second)"
  "time_FormatISO (1369353600 * second + 5) = ''20130524T000000Z''"
  "time_ParseISO ''20240229T235959.5Z'' = Some (1709251199 * second + 500000000)"
  "time_ParseISO ''20230229T000000Z'' = None"
  by code_simp+

section \<open>Escaping\<close>

definition unreserved :: "char \<Rightarrow> bool" where
  "unreserved c \<longleftrightarrow> (let n = of_char c :: nat in
     (65 \<le> n \<and> n \<le> 90) \<or> (97 \<le> n \<and> n \<le> 122) \<or> (48 \<le> n \<and> n \<le> 57) \<or>
     c = CHR ''-'' \<or> c = CHR ''.'' \<or> c = CHR ''_'' \<or> c = CHR ''~'')"

definition hex_DIGIT :: "nat \<Rightarrow> char" where
  "hex_DIGIT n = (if n < 10 then char_of (48 + n) else char_of (55 + n))"

definition escape_byte :: "bool \<Rightarrow> char \<Rightarrow> string" where
  "escape_byte keepSlash c =
     (if unreserved c \<or> (keepSlash \<and> c = CHR ''/'') then [c]
      else (let n = of_char c :: nat in [CHR ''%'', hex_DIGIT (n div 16), hex_DIGIT (n mod 16)]))"

definition escape :: "string \<Rightarrow> bool \<Rightarrow> string" where
  "escape s keepSlash = concat (map (escape_byte keepSlash) s)"

definition EncodePath :: "string \<Rightarrow> string" where
  "EncodePath p = escape p True"

section \<open>The canonical request\<close>

definition strings_Fields :: "string \<Rightarrow> string list" where
  "strings_Fields s =
     filter (\<lambda>w. w \<noteq> []) (strings_Split (map (\<lambda>c. if go_space c then CHR '' '' else c) s) CHR '' '')"

definition trimAll :: "string \<Rightarrow> string" where
  "trimAll s = strings_Join (strings_Fields s) '' ''"

definition canonicalPairs :: "url_values \<Rightarrow> (string \<times> string) list" where
  "canonicalPairs q = sort (concat (map (\<lambda>(k, vs). map (\<lambda>v. (escape k False, escape v False)) vs) q))"

definition canonicalQuery :: "url_values \<Rightarrow> string" where
  "canonicalQuery q = strings_Join (map (\<lambda>(k, v). k @ ''='' @ v) (canonicalPairs q)) ''&''"

definition signedHeaderNames :: "string \<Rightarrow> string list" where
  "signedHeaderNames signedHeaders =
     map (\<lambda>name. strings_ToLower (strings_TrimSpace name)) (strings_Split signedHeaders CHR '';'')"

definition signedHeaderValue :: "Request \<Rightarrow> string \<Rightarrow> string" where
  "signedHeaderValue r name =
     (if name = ''host'' then req_Host r
      else if name = ''content-length'' then
        (let value = strings_Join (Header_Values (req_Header r) name) '',''
         in if value = [] \<and> 0 \<le> req_ContentLength r then strconv_Itoa (req_ContentLength r) else value)
      else strings_Join (Header_Values (req_Header r) name) '','')"

definition nl :: string where "nl = [CHR 0x0A]"

definition canonicalRequest :: "Request \<Rightarrow> url_values \<Rightarrow> string \<Rightarrow> string \<Rightarrow> string" where
  "canonicalRequest r query signedHeaders payloadHash =
     (let lowered = signedHeaderNames signedHeaders;
          headers = concat (map (\<lambda>name. name @ '':'' @ trimAll (signedHeaderValue r name) @ nl) lowered)
      in strings_Join [req_Method r, EncodePath (req_Path r), canonicalQuery query, headers,
           strings_Join lowered '';'', payloadHash] nl)"

section \<open>Signatures\<close>

text \<open>
  SHA-256 and HMAC-SHA-256 of Go's crypto packages are the functions of this record; the
  theorems hold for every choice of them.
\<close>

record crypto =
  sha256_Sum256 :: "string \<Rightarrow> string"
  hmacSHA256 :: "string \<Rightarrow> string \<Rightarrow> string"

definition algorithm :: string where "algorithm = ''AWS4-HMAC-SHA256''"

definition signingKey :: "crypto \<Rightarrow> string \<Rightarrow> string \<Rightarrow> string \<Rightarrow> string \<Rightarrow> string" where
  "signingKey cr secret date region service =
     (let k = hmacSHA256 cr (''AWS4'' @ secret) date;
          k = hmacSHA256 cr k region;
          k = hmacSHA256 cr k service
      in hmacSHA256 cr k ''aws4_request'')"

definition stringToSign :: "crypto \<Rightarrow> string \<Rightarrow> string \<Rightarrow> string \<Rightarrow> string \<Rightarrow> string" where
  "stringToSign cr amzDate scopeDate scopeRegion canonicalReq =
     strings_Join [algorithm, amzDate,
       strings_Join [scopeDate, scopeRegion, ''s3'', ''aws4_request''] ''/'',
       hex_EncodeToString (sha256_Sum256 cr canonicalReq)] nl"

definition wantSignature :: "crypto \<Rightarrow> string \<Rightarrow> string \<Rightarrow> string \<Rightarrow> string \<Rightarrow> string \<Rightarrow> string" where
  "wantSignature cr secret amzDate scopeDate scopeRegion canonicalReq =
     hex_EncodeToString (hmacSHA256 cr (signingKey cr secret scopeDate scopeRegion ''s3'')
       (stringToSign cr amzDate scopeDate scopeRegion canonicalReq))"

definition signatureMatches ::
  "crypto \<Rightarrow> string \<Rightarrow> string \<Rightarrow> string \<Rightarrow> string \<Rightarrow> string \<Rightarrow> string \<Rightarrow> bool" where
  "signatureMatches cr secret amzDate scopeDate scopeRegion canonicalReq signature \<longleftrightarrow>
     wantSignature cr secret amzDate scopeDate scopeRegion canonicalReq = strings_ToLower signature"

section \<open>The verifier\<close>

record StreamContext =
  sc_signingKey :: string
  sc_scope :: string
  sc_amzDate :: string
  sc_prevSig :: string
  sc_trailerSigned :: bool

record Identity =
  id_AccessKey :: string
  id_Tenant :: string
  id_Anonymous :: bool
  id_Stream :: "StreamContext option"

record Credential =
  cred_Secret :: string
  cred_Tenant :: string

type_synonym StaticCredentials = "(string, Credential) gomap"

record Verifier =
  ver_Creds :: StaticCredentials
  ver_AllowAnonymous :: bool
  ver_MaxSkew :: int

definition Credentials_Lookup :: "StaticCredentials \<Rightarrow> string \<Rightarrow> Credential option" where
  "Credentials_Lookup s accessKey = gm_get s accessKey"

definition Identity_Root :: "Identity option \<Rightarrow> bool" where
  "Identity_Root i = (case i of None \<Rightarrow> True | Some i \<Rightarrow> id_Tenant i = [])"

definition defaultSkew :: int where "defaultSkew = 15 * 60 * second"

definition maxPresignAge :: int where "maxPresignAge = 7 * 24 * 3600 * second"

definition ver_skew :: "Verifier \<Rightarrow> int" where
  "ver_skew v = (if ver_MaxSkew v \<noteq> 0 then ver_MaxSkew v else defaultSkew)"

text \<open>The loop over the comma-separated components of the Authorization header.\<close>

record authz_parts =
  az_credential :: string
  az_signedHeaders :: string
  az_signature :: string

fun parseAuthz :: "authz_parts \<Rightarrow> string list \<Rightarrow> authz_parts option" where
  "parseAuthz p [] = Some p"
| "parseAuthz p (part # parts) =
     (case strings_Cut (strings_TrimSpace part) ''='' of (k, val, ok) \<Rightarrow>
        if \<not> ok then None
        else parseAuthz
          (if k = ''Credential'' then p\<lparr>az_credential := val\<rparr>
           else if k = ''SignedHeaders'' then p\<lparr>az_signedHeaders := val\<rparr>
           else if k = ''Signature'' then p\<lparr>az_signature := val\<rparr> else p) parts)"

abbreviation authErr :: "string \<Rightarrow> string \<Rightarrow> (auth_Error, 'a) result" where
  "authErr code msg \<equiv> Inl \<lparr>ae_Code = code, ae_Message = msg\<rparr>"

definition streamContext :: "crypto \<Rightarrow> string \<Rightarrow> string \<Rightarrow> string \<Rightarrow> string \<Rightarrow> string \<Rightarrow> string \<Rightarrow> StreamContext option" where
  "streamContext cr secret scopeDate scopeRegion amzDate signature payloadHash =
     (if payloadHash = ''STREAMING-AWS4-HMAC-SHA256-PAYLOAD'' \<or>
         payloadHash = ''STREAMING-AWS4-HMAC-SHA256-PAYLOAD-TRAILER'' then
        Some \<lparr>sc_signingKey = signingKey cr secret scopeDate scopeRegion ''s3'',
              sc_scope = strings_Join [scopeDate, scopeRegion, ''s3'', ''aws4_request''] ''/'',
              sc_amzDate = amzDate, sc_prevSig = strings_ToLower signature,
              sc_trailerSigned = HasSuffix payloadHash ''-TRAILER''\<rparr>
      else None)"

definition verifyPresigned ::
  "crypto \<Rightarrow> Verifier \<Rightarrow> gotime \<Rightarrow> Request \<Rightarrow> (auth_Error, Identity) result" where
  "verifyPresigned cr v now r =
     (let q = req_Query r in
      if Values_Get q ''X-Amz-Algorithm'' \<noteq> algorithm then
        authErr ''AuthorizationQueryParametersError'' ''unsupported X-Amz-Algorithm''
      else let credential = Values_Get q ''X-Amz-Credential'';
               signedHeaders = Values_Get q ''X-Amz-SignedHeaders'';
               signature = Values_Get q ''X-Amz-Signature'';
               amzDate = Values_Get q ''X-Amz-Date'' in
      if credential = [] \<or> signedHeaders = [] \<or> signature = [] \<or> amzDate = [] then
        authErr ''AuthorizationQueryParametersError'' ''missing required X-Amz-* query parameters''
      else let scope = strings_Split credential CHR ''/'' in
      if length scope \<noteq> 5 \<or> scope ! 4 \<noteq> ''aws4_request'' \<or> scope ! 3 \<noteq> ''s3'' then
        authErr ''AuthorizationQueryParametersError'' ''malformed X-Amz-Credential''
      else let accessKey = scope ! 0; scopeDate = scope ! 1; scopeRegion = scope ! 2 in
      (case Credentials_Lookup (ver_Creds v) accessKey of
         None \<Rightarrow> authErr ''InvalidAccessKeyId'' ''the access key id you provided does not exist in our records''
       | Some cred \<Rightarrow>
      (case strconv_ParseInt 10 (Values_Get q ''X-Amz-Expires'') of
         None \<Rightarrow> authErr ''AccessDenied'' ''X-Amz-Expires must be between 1 and 604800 seconds''
       | Some expires \<Rightarrow>
      if expires < 1 \<or> maxPresignAge < wrap64 (expires * second) then
        authErr ''AccessDenied'' ''X-Amz-Expires must be between 1 and 604800 seconds''
      else
      (case time_ParseISO amzDate of
         None \<Rightarrow> authErr ''AuthorizationQueryParametersError'' ''malformed X-Amz-Date''
       | Some t \<Rightarrow>
      if \<not> HasPrefix amzDate scopeDate then
        authErr ''AuthorizationQueryParametersError'' ''date in credential scope does not match X-Amz-Date''
      else if t + wrap64 (expires * second) < now then authErr ''AccessDenied'' ''Request has expired''
      else if ver_skew v < time_Sub t now then
        authErr ''RequestTimeTooSkewed'' ''the request signature date is in the future''
      else let canonQuery = filter (\<lambda>(k, vs). k \<noteq> ''X-Amz-Signature'') q;
               canonReq = canonicalRequest r canonQuery signedHeaders ''UNSIGNED-PAYLOAD'' in
      if \<not> signatureMatches cr (cred_Secret cred) amzDate scopeDate scopeRegion canonReq signature then
        authErr ''SignatureDoesNotMatch'' ''the request signature we calculated does not match the signature you provided''
      else Inr \<lparr>id_AccessKey = accessKey, id_Tenant = cred_Tenant cred, id_Anonymous = False, id_Stream = None\<rparr>))))"

text \<open>\<open>http.ParseTime\<close> for the Date header is the argument \<open>ParseTime\<close>.\<close>

definition requestDate :: "(string \<Rightarrow> gotime option) \<Rightarrow> Request \<Rightarrow> string" where
  "requestDate ParseTime r =
     (let amzDate = Header_Get (req_Header r) ''X-Amz-Date'' in
      if amzDate = [] then
        (let d = Header_Get (req_Header r) ''Date'' in
         if d \<noteq> [] then (case ParseTime d of Some t \<Rightarrow> time_FormatISO t | None \<Rightarrow> []) else [])
      else amzDate)"

definition Verify ::
  "crypto \<Rightarrow> (string \<Rightarrow> gotime option) \<Rightarrow> Verifier \<Rightarrow> gotime \<Rightarrow> Request \<Rightarrow> (auth_Error, Identity) result" where
  "Verify cr ParseTime v now r =
     (let authz = Header_Get (req_Header r) ''Authorization'' in
      if authz = [] then
        if Values_Get (req_Query r) ''X-Amz-Algorithm'' \<noteq> [] then verifyPresigned cr v now r
        else if ver_AllowAnonymous v then
          Inr \<lparr>id_AccessKey = [], id_Tenant = [], id_Anonymous = True, id_Stream = None\<rparr>
        else authErr ''AccessDenied'' ''anonymous access is disabled''
      else if \<not> HasPrefix authz (algorithm @ '' '') then
        authErr ''AuthorizationHeaderMalformed'' ''unsupported authorization scheme''
      else
      (case parseAuthz \<lparr>az_credential = [], az_signedHeaders = [], az_signature = []\<rparr>
              (strings_Split (drop (length algorithm + 1) authz) CHR '','') of
         None \<Rightarrow> authErr ''AuthorizationHeaderMalformed'' ''malformed authorization component''
       | Some p \<Rightarrow>
      if az_credential p = [] \<or> az_signedHeaders p = [] \<or> az_signature p = [] then
        authErr ''AuthorizationHeaderMalformed''
          ''authorization header is missing Credential, SignedHeaders or Signature''
      else let scope = strings_Split (az_credential p) CHR ''/'' in
      if length scope \<noteq> 5 \<or> scope ! 4 \<noteq> ''aws4_request'' then
        authErr ''AuthorizationHeaderMalformed'' ''malformed credential scope''
      else let accessKey = scope ! 0; scopeDate = scope ! 1; scopeRegion = scope ! 2; scopeService = scope ! 3 in
      if scopeService \<noteq> ''s3'' then
        authErr ''AuthorizationHeaderMalformed'' ''credential scope service must be s3''
      else
      (case Credentials_Lookup (ver_Creds v) accessKey of
         None \<Rightarrow> authErr ''InvalidAccessKeyId'' ''the access key id you provided does not exist in our records''
       | Some cred \<Rightarrow>
      let payloadHash = Header_Get (req_Header r) ''X-Amz-Content-Sha256'' in
      if payloadHash = [] then
        authErr ''InvalidRequest'' ''missing required header: x-amz-content-sha256''
      else let amzDate = requestDate ParseTime r in
      if amzDate = [] then authErr ''InvalidRequest'' ''missing x-amz-date or Date header''
      else
      (case time_ParseISO amzDate of
         None \<Rightarrow> authErr ''AuthorizationHeaderMalformed'' ''malformed x-amz-date''
       | Some t \<Rightarrow>
      if \<not> HasPrefix amzDate scopeDate then
        authErr ''AuthorizationHeaderMalformed'' ''date in credential scope does not match request date''
      else if ver_skew v < time_Sub now t \<or> time_Sub now t < - ver_skew v then
        authErr ''RequestTimeTooSkewed''
          ''the difference between the request time and the server's time is too large''
      else let canonReq = canonicalRequest r (req_Query r) (az_signedHeaders p) payloadHash in
      if \<not> signatureMatches cr (cred_Secret cred) amzDate scopeDate scopeRegion canonReq (az_signature p) then
        authErr ''SignatureDoesNotMatch'' ''the request signature we calculated does not match the signature you provided''
      else Inr \<lparr>id_AccessKey = accessKey, id_Tenant = cred_Tenant cred, id_Anonymous = False,
             id_Stream = streamContext cr (cred_Secret cred) scopeDate scopeRegion amzDate
                           (az_signature p) payloadHash\<rparr>))))"

section \<open>Escaping and joining lose nothing\<close>

lemma append_sep_inj:
  "c \<notin> set a \<Longrightarrow> c \<notin> set a' \<Longrightarrow> a @ c # x = a' @ c # x' \<Longrightarrow> a = a' \<and> x = x'"
proof (induction a arbitrary: a')
  case Nil
  then show ?case by (cases a') auto
next
  case (Cons b a)
  then show ?case by (cases a') auto
qed

lemma append_sep_inj_right:
  assumes "c \<notin> set x" and "c \<notin> set x'" and "a @ c # x = a' @ c # x'"
  shows "a = a' \<and> x = x'"
proof -
  have "rev x @ c # rev a = rev x' @ c # rev a'"
    using arg_cong [where f = rev, OF assms(3)] by simp
  with assms(1,2) append_sep_inj [of c "rev x" "rev x'" "rev a" "rev a'"] show ?thesis by simp
qed

lemma strings_Split_append:
  "c \<notin> set w \<Longrightarrow> strings_Split (w @ c # s) c = w # strings_Split s c"
  by (induction w) (auto split: list.splits)

lemma strings_Split_single: "c \<notin> set w \<Longrightarrow> strings_Split w c = [w]"
  by (induction w) auto

lemma strings_Split_Join:
  "ws \<noteq> [] \<Longrightarrow> (\<And>w. w \<in> set ws \<Longrightarrow> c \<notin> set w) \<Longrightarrow> strings_Split (strings_Join ws [c]) c = ws"
proof (induction ws rule: induct_list012)
  case (2 w)
  then show ?case by (simp add: strings_Split_single)
next
  case (3 v w ws)
  then show ?case by (simp add: strings_Split_append)
qed simp

lemma strings_Join_inj:
  assumes "strings_Join vs [c] = strings_Join ws [c]" and "vs \<noteq> []" and "ws \<noteq> []"
    and "\<And>w. w \<in> set vs \<union> set ws \<Longrightarrow> c \<notin> set w"
  shows "vs = ws"
  using assms strings_Split_Join [of vs c] strings_Split_Join [of ws c] by (metis UnCI)

lemma hex_DIGIT_inj: "a < 16 \<Longrightarrow> b < 16 \<Longrightarrow> hex_DIGIT a = hex_DIGIT b \<Longrightarrow> a = b"
proof -
  assume "a < 16" and "b < 16" and "hex_DIGIT a = hex_DIGIT b"
  moreover have "of_char (hex_DIGIT n) = (if n < 10 then 48 + n else 55 + n)" if "n < 16" for n :: nat
    using that by (simp add: hex_DIGIT_def)
  ultimately have "(if a < 10 then 48 + a else 55 + a) = (if b < 10 then 48 + b else 55 + b)" by metis
  then show "a = b" by (simp split: if_splits)
qed

lemma unreserved_plain:
  "unreserved c \<Longrightarrow> c \<noteq> CHR ''%'' \<and> c \<noteq> CHR ''/'' \<and> c \<noteq> CHR ''&'' \<and> c \<noteq> CHR ''='' \<and> of_char c \<noteq> (10 :: nat)"
  by (auto simp: unreserved_def Let_def)

lemma hex_DIGIT_unreserved: "n < 16 \<Longrightarrow> unreserved (hex_DIGIT n)"
  by (auto simp: unreserved_def hex_DIGIT_def Let_def)

lemma byte_eqI: "(of_char c :: nat) div 16 = of_char d div 16 \<Longrightarrow> (of_char c :: nat) mod 16 = of_char d mod 16 \<Longrightarrow> c = d"
  by (metis char_of_char div_mult_mod_eq)

lemma escape_byte_inj:
  assumes "escape_byte k c @ s = escape_byte k d @ t"
  shows "c = d \<and> s = t"
proof -
  have b: "(of_char x :: nat) div 16 < 16" "(of_char x :: nat) mod 16 < 16" for x :: char
    by (simp_all add: byte_bounds)
  show ?thesis
    using assms unreserved_plain [of c] unreserved_plain [of d] byte_eqI [of c d]
      hex_DIGIT_inj [OF b(1) b(1), of c d] hex_DIGIT_inj [OF b(2) b(2), of c d]
    by (auto simp: escape_byte_def Let_def split: if_splits)
qed

lemma escape_byte_not_Nil [simp]: "escape_byte k c \<noteq> []"
  by (simp add: escape_byte_def Let_def)

lemma escape_inj: "escape s k = escape t k \<Longrightarrow> s = t"
proof (induction s arbitrary: t)
  case Nil
  then show ?case by (cases t) (auto simp: escape_def)
next
  case (Cons c s)
  then obtain d u where t: "t = d # u" by (cases t) (auto simp: escape_def)
  with Cons.prems have "escape_byte k c @ escape s k = escape_byte k d @ escape u k" by (simp add: escape_def)
  with escape_byte_inj Cons.IH t show ?case by blast
qed

lemma escape_chars:
  "x \<in> set (escape s k) \<Longrightarrow> unreserved x \<or> x = CHR ''%'' \<or> (k \<and> x = CHR ''/'')"
  using hex_DIGIT_unreserved byte_bounds(3)
  by (auto simp: escape_def escape_byte_def Let_def split: if_splits)

lemma escape_plain: "CHR ''&'' \<notin> set (escape s k)" "CHR ''='' \<notin> set (escape s k)" "CHR 0x0A \<notin> set (escape s k)"
proof -
  have "x \<in> set (escape s k) \<Longrightarrow> x \<noteq> CHR ''&'' \<and> x \<noteq> CHR ''='' \<and> of_char x \<noteq> (10::nat)" for x
    using escape_chars [of x s k] unreserved_plain [of x] by auto
  from this [of "CHR ''&''"] this [of "CHR ''=''"] this [of "CHR 0x0A"]
  show "CHR ''&'' \<notin> set (escape s k)" "CHR ''='' \<notin> set (escape s k)" "CHR 0x0A \<notin> set (escape s k)"
    by auto
qed

text \<open>The escaped pairs of a query, and the pairs they stand for.\<close>

definition queryPairs :: "url_values \<Rightarrow> (string \<times> string) list" where
  "queryPairs q = concat (map (\<lambda>(k, vs). map (Pair k) vs) q)"

lemma canonicalPairs_eq:
  "canonicalPairs q = sort (map (\<lambda>(k, v). (escape k False, escape v False)) (queryPairs q))"
  by (simp add: canonicalPairs_def queryPairs_def map_concat comp_def case_prod_unfold)

lemma canonicalPairs_plain:
  "(k, v) \<in> set (canonicalPairs q) \<Longrightarrow>
     CHR ''&'' \<notin> set (k @ ''='' @ v) \<and> CHR ''='' \<notin> set k \<and> CHR 0x0A \<notin> set (k @ ''='' @ v)"
  by (auto simp: canonicalPairs_eq escape_plain)

lemma inj_escape_pair: "inj (\<lambda>(k, v). (escape k False, escape v False))"
  by (auto simp: inj_def dest: escape_inj)

lemma canonicalPairs_inj:
  assumes "canonicalPairs q = canonicalPairs q'"
  shows "mset (queryPairs q) = mset (queryPairs q')"
proof -
  have "mset (map (\<lambda>(k, v). (escape k False, escape v False)) (queryPairs q)) =
        mset (map (\<lambda>(k, v). (escape k False, escape v False)) (queryPairs q'))"
    using arg_cong [where f = mset, OF assms] by (simp only: canonicalPairs_eq mset_sort)
  then have "image_mset (\<lambda>(k, v). (escape k False, escape v False)) (mset (queryPairs q)) =
      image_mset (\<lambda>(k, v). (escape k False, escape v False)) (mset (queryPairs q'))"
    by (simp only: mset_map)
  with multiset.inj_map [OF inj_escape_pair] show ?thesis by (rule injD)
qed

lemma strings_Join_Nil_iff: "[] \<notin> set ws \<Longrightarrow> strings_Join ws sep = [] \<longleftrightarrow> ws = []"
  by (cases ws rule: remdups_adj.cases) auto

definition queryPart :: "string \<times> string \<Rightarrow> string" where
  "queryPart p = fst p @ ''='' @ snd p"

lemma canonicalQuery_parts: "canonicalQuery q = strings_Join (map queryPart (canonicalPairs q)) ''&''"
  by (simp add: canonicalQuery_def queryPart_def [abs_def] case_prod_unfold)

lemma queryPart_plain: "p \<in> set (canonicalPairs q) \<Longrightarrow> CHR ''&'' \<notin> set (queryPart p) \<and> CHR 0x0A \<notin> set (queryPart p)"
  using canonicalPairs_plain [of "fst p" "snd p" q] by (simp add: queryPart_def)

lemma queryPart_parts:
  assumes "canonicalQuery q = canonicalQuery q'"
  shows "map queryPart (canonicalPairs q) = map queryPart (canonicalPairs q')"
proof -
  have nil: "strings_Join (map queryPart ps) ''&'' = [] \<longleftrightarrow> ps = []" for ps
    by (subst strings_Join_Nil_iff) (auto simp: queryPart_def)
  note eq = assms [unfolded canonicalQuery_parts]
  show ?thesis
  proof (cases "canonicalPairs q = [] \<or> canonicalPairs q' = []")
    case True
    then show ?thesis
    proof
      assume "canonicalPairs q = []"
      moreover from this have "canonicalPairs q' = []" using eq nil by (metis list.map(1) strings_Join.simps(1))
      ultimately show ?thesis by simp
    next
      assume "canonicalPairs q' = []"
      moreover from this have "canonicalPairs q = []" using eq nil by (metis list.map(1) strings_Join.simps(1))
      ultimately show ?thesis by simp
    qed
  next
    case False
    show ?thesis
    proof (rule strings_Join_inj [OF eq])
      show "map queryPart (canonicalPairs q) \<noteq> []" and "map queryPart (canonicalPairs q') \<noteq> []"
        using False by simp_all
      show "CHR ''&'' \<notin> set w"
        if "w \<in> set (map queryPart (canonicalPairs q)) \<union> set (map queryPart (canonicalPairs q'))" for w
        using that queryPart_plain [of _ q] queryPart_plain [of _ q'] unfolding set_map by blast
    qed
  qed
qed

lemma canonicalQuery_pairs:
  assumes "canonicalQuery q = canonicalQuery q'"
  shows "canonicalPairs q = canonicalPairs q'"
proof -
  have "inj_on queryPart (set (canonicalPairs q) \<union> set (canonicalPairs q'))"
  proof (rule inj_onI)
    fix x y
    assume x: "x \<in> set (canonicalPairs q) \<union> set (canonicalPairs q')"
      and y: "y \<in> set (canonicalPairs q) \<union> set (canonicalPairs q')" and eq: "queryPart x = queryPart y"
    obtain k v l w where kv: "x = (k, v)" "y = (l, w)" by (cases x, cases y)
    have "CHR ''='' \<notin> set k" using x canonicalPairs_plain [of k v] unfolding kv by blast
    moreover have "CHR ''='' \<notin> set l" using y canonicalPairs_plain [of l w] unfolding kv by blast
    moreover have "k @ CHR ''='' # v = l @ CHR ''='' # w" using eq by (simp add: kv queryPart_def)
    ultimately have "k = l \<and> v = w" by (rule append_sep_inj)
    then show "x = y" by (simp add: kv)
  qed
  with queryPart_parts [OF assms] show ?thesis by (rule map_inj_on)
qed

lemma nl_space: "go_space (CHR 0x0A)" by (simp add: go_space_def)

lemma strings_Fields_no_space:
  assumes "w \<in> set (strings_Fields s)" and "c \<in> set w"
  shows "\<not> go_space c"
proof -
  let ?s = "map (\<lambda>c. if go_space c then CHR '' '' else c) s"
  from assms(1) have w: "w \<in> set (strings_Split ?s CHR '' '')" by (simp add: strings_Fields_def)
  have "set w \<subseteq> set u" if "w \<in> set (strings_Split u d)" for u d
    using that by (induction u arbitrary: w) (fastforce split: if_splits list.splits)+
  with w assms(2) have "c \<in> set ?s" by blast
  moreover have "c \<noteq> CHR '' ''" using strings_Split_notin [OF w] assms(2) by blast
  ultimately show ?thesis by (auto split: if_splits)
qed

lemma set_strings_Join: "set (strings_Join ws sep) \<subseteq> \<Union> (set ` set ws) \<union> set sep"
  by (induction ws sep rule: strings_Join.induct) auto

lemma trimAll_no_nl: "CHR 0x0A \<notin> set (trimAll s)"
proof
  assume "CHR 0x0A \<in> set (trimAll s)"
  with set_strings_Join [of "strings_Fields s" "'' ''"] obtain w where "w \<in> set (strings_Fields s)" and "CHR 0x0A \<in> set w"
    by (auto simp: trimAll_def)
  with strings_Fields_no_space nl_space show False by blast
qed

lemma canonicalQuery_no_nl: "CHR 0x0A \<notin> set (canonicalQuery q)"
proof
  assume "CHR 0x0A \<in> set (canonicalQuery q)"
  with set_strings_Join [of "map queryPart (canonicalPairs q)" "''&''"]
  obtain p where "p \<in> set (canonicalPairs q)" and "CHR 0x0A \<in> set (queryPart p)"
    by (auto simp: canonicalQuery_parts)
  with queryPart_plain show False by blast
qed

lemma char_ToLower_eq: "\<not> (97 \<le> (of_char d :: nat) \<and> (of_char d :: nat) \<le> 122) \<Longrightarrow> char_ToLower c = d \<Longrightarrow> c = d"
proof (cases "65 \<le> (of_char c :: nat) \<and> (of_char c :: nat) \<le> 90")
  case True
  assume "\<not> (97 \<le> (of_char d :: nat) \<and> (of_char d :: nat) \<le> 122)" and "char_ToLower c = d"
  moreover have "(of_char (char_ToLower c) :: nat) = of_char c + 32"
    using True by (simp add: char_ToLower_def Let_def)
  ultimately show ?thesis using True by auto
next
  case False
  assume "char_ToLower c = d"
  moreover have "char_ToLower c = c" unfolding char_ToLower_def Let_def by (rule if_not_P [OF False])
  ultimately show ?thesis by simp
qed

lemma set_dropWhile_subset: "set (dropWhile f s) \<subseteq> set s"
  by (induction s) auto

lemma set_TrimSpace: "set (strings_TrimSpace s) \<subseteq> set s"
  using set_dropWhile_subset [of go_space s] set_dropWhile_subset [of go_space "rev (dropWhile go_space s)"]
  unfolding strings_TrimSpace_def strings_TrimFunc_def by auto

lemma set_strings_Split: "w \<in> set (strings_Split s c) \<Longrightarrow> set w \<subseteq> set s"
  by (induction s arbitrary: w) (fastforce split: if_splits list.splits)+

lemma signedHeaderNames_chars:
  assumes "n \<in> set (signedHeaderNames sh)" and "d \<in> set n" and "\<not> (97 \<le> (of_char d :: nat) \<and> (of_char d :: nat) \<le> 122)"
  shows "d \<in> set sh \<and> d \<noteq> CHR '';''"
proof -
  from assms(1) obtain w where w: "w \<in> set (strings_Split sh CHR '';'')" and n: "n = strings_ToLower (strings_TrimSpace w)"
    by (auto simp: signedHeaderNames_def)
  from assms(2) have "d \<in> char_ToLower ` set (strings_TrimSpace w)" by (simp only: n strings_ToLower_def set_map)
  then obtain c where c: "c \<in> set (strings_TrimSpace w)" and d: "d = char_ToLower c" ..
  from subsetD [OF set_TrimSpace c] have "d \<in> set w"
    unfolding char_ToLower_eq [OF assms(3) d [symmetric]] .
  with set_strings_Split [OF w] strings_Split_notin [OF w] show ?thesis by blast
qed

lemma signedHeaderNames_not_Nil [simp]: "signedHeaderNames sh \<noteq> []"
  by (simp add: signedHeaderNames_def)

lemma signedHeaderNames_join_inj:
  assumes "strings_Join (signedHeaderNames sh) '';'' = strings_Join (signedHeaderNames sh') '';''"
  shows "signedHeaderNames sh = signedHeaderNames sh'"
proof (rule strings_Join_inj [OF assms])
  fix w
  assume "w \<in> set (signedHeaderNames sh) \<union> set (signedHeaderNames sh')"
  then show "CHR '';'' \<notin> set w"
    using signedHeaderNames_chars [of w _ "CHR '';''"] by auto
qed simp_all

lemma signedHeaderNames_join_no_nl:
  "CHR 0x0A \<notin> set sh \<Longrightarrow> CHR 0x0A \<notin> set (strings_Join (signedHeaderNames sh) '';'')"
  using set_strings_Join [of "signedHeaderNames sh" "'';''"] signedHeaderNames_chars [of _ sh "CHR 0x0A"] by fastforce

definition headerBlock :: "Request \<Rightarrow> string list \<Rightarrow> string" where
  "headerBlock r names = concat (map (\<lambda>name. name @ '':'' @ trimAll (signedHeaderValue r name) @ nl) names)"

lemma headerBlock_inj:
  "headerBlock r names = headerBlock r' names \<Longrightarrow> name \<in> set names \<Longrightarrow>
     trimAll (signedHeaderValue r name) = trimAll (signedHeaderValue r' name)"
proof (induction names)
  case (Cons n names)
  have "trimAll (signedHeaderValue r n) @ CHR 0x0A # headerBlock r names =
        trimAll (signedHeaderValue r' n) @ CHR 0x0A # headerBlock r' names"
    using Cons.prems(1) by (simp add: headerBlock_def nl_def)
  from append_sep_inj [OF trimAll_no_nl trimAll_no_nl this] Cons show ?case by auto
qed simp

lemma canonicalRequest_eq:
  "canonicalRequest r q sh ph = req_Method r @ CHR 0x0A # EncodePath (req_Path r) @ CHR 0x0A # canonicalQuery q @
     CHR 0x0A # (headerBlock r (signedHeaderNames sh) @ CHR 0x0A # strings_Join (signedHeaderNames sh) '';'') @ CHR 0x0A # ph"
  by (simp add: canonicalRequest_def Let_def headerBlock_def nl_def)

lemma EncodePath_no_nl: "CHR 0x0A \<notin> set (EncodePath p)"
  by (simp add: EncodePath_def escape_plain)

text \<open>C17. The canonical request determines what it was computed from: two requests with
  the same canonical form (method, payload hash and list of signed headers free of line
  breaks) have the same method, path, multiset of query parameters, list of signed header
  names, payload hash, and the same value, up to white space, of every signed header. So
  a signature covers all of them: none can be changed without changing what is signed.\<close>

theorem canonical_request_determines:
  assumes "canonicalRequest r q sh ph = canonicalRequest r' q' sh' ph'"
    and "CHR 0x0A \<notin> set (req_Method r)" and "CHR 0x0A \<notin> set (req_Method r')"
    and "CHR 0x0A \<notin> set ph" and "CHR 0x0A \<notin> set ph'"
    and "CHR 0x0A \<notin> set sh" and "CHR 0x0A \<notin> set sh'"
  shows "req_Method r = req_Method r' \<and> req_Path r = req_Path r' \<and>
    mset (queryPairs q) = mset (queryPairs q') \<and> ph = ph' \<and>
    signedHeaderNames sh = signedHeaderNames sh' \<and>
    (\<forall>name \<in> set (signedHeaderNames sh).
       trimAll (signedHeaderValue r name) = trimAll (signedHeaderValue r' name))"
proof -
  note e0 = assms(1) [unfolded canonicalRequest_eq]
  note e1 = append_sep_inj [OF assms(2,3) e0]
  note e2 = append_sep_inj [OF EncodePath_no_nl EncodePath_no_nl conjunct2 [OF e1]]
  note e3 = append_sep_inj [OF canonicalQuery_no_nl canonicalQuery_no_nl conjunct2 [OF e2]]
  note e4 = append_sep_inj_right [OF assms(4,5) conjunct2 [OF e3]]
  note e5 = append_sep_inj_right [OF signedHeaderNames_join_no_nl [OF assms(6)]
      signedHeaderNames_join_no_nl [OF assms(7)] conjunct1 [OF e4]]
  have names: "signedHeaderNames sh = signedHeaderNames sh'"
    using e5 by (intro signedHeaderNames_join_inj) blast
  moreover have "trimAll (signedHeaderValue r name) = trimAll (signedHeaderValue r' name)"
    if "name \<in> set (signedHeaderNames sh)" for name
    using conjunct1 [OF e5, folded names] that by (rule headerBlock_inj)
  moreover have "req_Path r = req_Path r'"
    using e2 escape_inj unfolding EncodePath_def by blast
  moreover have "mset (queryPairs q) = mset (queryPairs q')"
    using e3 by (intro canonicalPairs_inj canonicalQuery_pairs) blast
  ultimately show ?thesis using e1 e4 by blast
qed

definition demoRequest :: "string \<Rightarrow> http_header \<Rightarrow> Request" where
  "demoRequest path h = \<lparr>req_Method = ''GET'', req_Host = ''s3.example'', req_Path = path,
     req_Query = [(''prefix'', [''a b''])], req_Header = h, req_ContentLength = 0\<rparr>"

theorem canonical_request_determines_witness:
  "req_Path (demoRequest ''/b/k'' []) = req_Path (demoRequest ''/b/k'' [(''x'', [''y''])])"
proof -
  have "canonicalRequest (demoRequest ''/b/k'' []) [] ''host'' ''UNSIGNED-PAYLOAD'' =
      canonicalRequest (demoRequest ''/b/k'' [(''x'', [''y''])]) [] ''Host'' ''UNSIGNED-PAYLOAD''"
    by code_simp
  then show ?thesis by (rule canonical_request_determines [THEN conjunct2, THEN conjunct1]) (simp_all add: demoRequest_def)
qed

section \<open>What the verifier accepts\<close>

text \<open>Evidence for a signature under a credential of the verifier.\<close>

definition signedUnder ::
  "crypto \<Rightarrow> Verifier \<Rightarrow> Identity \<Rightarrow> string \<Rightarrow> string \<Rightarrow> string \<Rightarrow> string \<Rightarrow> bool" where
  "signedUnder cr v i credential amzDate canonReq signature \<longleftrightarrow>
     (\<exists>cred date region. Credentials_Lookup (ver_Creds v) (id_AccessKey i) = Some cred \<and>
        id_Tenant i = cred_Tenant cred \<and>
        strings_Split credential CHR ''/'' = [id_AccessKey i, date, region, ''s3'', ''aws4_request''] \<and>
        HasPrefix amzDate date \<and>
        wantSignature cr (cred_Secret cred) amzDate date region canonReq = strings_ToLower signature)"

lemma list5: "length xs = 5 \<Longrightarrow> xs = [xs ! 0, xs ! Suc 0, xs ! 2, xs ! 3, xs ! 4]"
  by (rule nth_equalityI) (auto simp: eval_nat_numeral less_Suc_eq)

lemma signedUnderI:
  assumes "length (strings_Split credential CHR ''/'') = 5" and "strings_Split credential CHR ''/'' ! 4 = ''aws4_request''"
    and "strings_Split credential CHR ''/'' ! 3 = ''s3''" and "strings_Split credential CHR ''/'' ! 0 = id_AccessKey i"
    and "Credentials_Lookup (ver_Creds v) (id_AccessKey i) = Some cred" and "id_Tenant i = cred_Tenant cred"
    and "HasPrefix amzDate (strings_Split credential CHR ''/'' ! Suc 0)"
    and "wantSignature cr (cred_Secret cred) amzDate (strings_Split credential CHR ''/'' ! Suc 0)
      (strings_Split credential CHR ''/'' ! 2) canonReq = strings_ToLower signature"
  shows "signedUnder cr v i credential amzDate canonReq signature"
  using list5 [OF assms(1)] assms unfolding signedUnder_def by metis

definition presignedCanonical :: "Request \<Rightarrow> string" where
  "presignedCanonical r =
     canonicalRequest r (filter (\<lambda>(k, vs). k \<noteq> ''X-Amz-Signature'') (req_Query r))
       (Values_Get (req_Query r) ''X-Amz-SignedHeaders'') ''UNSIGNED-PAYLOAD''"

definition authzParts :: "Request \<Rightarrow> authz_parts option" where
  "authzParts r = parseAuthz \<lparr>az_credential = [], az_signedHeaders = [], az_signature = []\<rparr>
     (strings_Split (drop (length algorithm + 1) (Header_Get (req_Header r) ''Authorization'')) CHR '','')"

lemma verifyPresigned_accepts:
  assumes "verifyPresigned cr v now r = Inr i"
  shows "\<exists>t. time_ParseISO (Values_Get (req_Query r) ''X-Amz-Date'') = Some t \<and>
     \<not> ver_skew v < time_Sub t now \<and> now \<le> t + maxPresignAge \<and> \<not> id_Anonymous i \<and>
     signedUnder cr v i (Values_Get (req_Query r) ''X-Amz-Credential'') (Values_Get (req_Query r) ''X-Amz-Date'')
       (presignedCanonical r) (Values_Get (req_Query r) ''X-Amz-Signature'')"
  using assms unfolding verifyPresigned_def Let_def signatureMatches_def presignedCanonical_def [symmetric]
  by (auto split: if_splits option.splits intro!: signedUnderI)

lemma Verify_header_accepts:
  assumes "Verify cr ParseTime v now r = Inr i" and "Header_Get (req_Header r) ''Authorization'' \<noteq> []"
  shows "\<exists>t p. time_ParseISO (requestDate ParseTime r) = Some t \<and>
     \<not> ver_skew v < time_Sub now t \<and> \<not> time_Sub now t < - ver_skew v \<and> \<not> id_Anonymous i \<and>
     authzParts r = Some p \<and>
     signedUnder cr v i (az_credential p) (requestDate ParseTime r)
       (canonicalRequest r (req_Query r) (az_signedHeaders p) (Header_Get (req_Header r) ''X-Amz-Content-Sha256''))
       (az_signature p)"
  using assms unfolding Verify_def Let_def signatureMatches_def authzParts_def [symmetric]
  by (auto split: if_splits option.splits intro!: signedUnderI)

lemma time_Sub_bound: "s < 2 ^ 63 - 1 \<Longrightarrow> \<not> s < time_Sub t u \<Longrightarrow> t - u \<le> s"
  by (auto simp: time_Sub_def min_def max_def split: if_splits)

lemma time_Sub_bound_neg: "s < 2 ^ 63 - 1 \<Longrightarrow> \<not> time_Sub t u < - s \<Longrightarrow> u - t \<le> s"
  by (auto simp: time_Sub_def min_def max_def split: if_splits)

text \<open>C15. Soundness of authentication. A request that \<open>Verify\<close> accepts either is anonymous,
  which happens only in anonymous mode, without an Authorization header and without a
  presigned query, and has no tenant; or its access key is a registered one, the identity
  carries that key's tenant, and the presented signature is the HMAC, under that key's
  secret, of the canonical form of this very request. A header-signed request is dated
  within the allowed skew of the server's clock; a presigned one is not from further in
  the future than the skew and at most seven days old, whatever X-Amz-Expires says.\<close>

theorem verify_sound:
  assumes "Verify cr ParseTime v now r = Inr i" and "ver_skew v < 2 ^ 63 - 1"
  shows "if Header_Get (req_Header r) ''Authorization'' = [] then
       if Values_Get (req_Query r) ''X-Amz-Algorithm'' = [] then
         ver_AllowAnonymous v \<and> id_Anonymous i \<and> id_Tenant i = [] \<and> id_Stream i = None
       else \<exists>t. time_ParseISO (Values_Get (req_Query r) ''X-Amz-Date'') = Some t \<and>
         t - now \<le> ver_skew v \<and> now - t \<le> 604800 * second \<and> \<not> id_Anonymous i \<and>
         signedUnder cr v i (Values_Get (req_Query r) ''X-Amz-Credential'') (Values_Get (req_Query r) ''X-Amz-Date'')
           (presignedCanonical r) (Values_Get (req_Query r) ''X-Amz-Signature'')
     else \<exists>t p. time_ParseISO (requestDate ParseTime r) = Some t \<and>
       \<bar>now - t\<bar> \<le> ver_skew v \<and> \<not> id_Anonymous i \<and> authzParts r = Some p \<and>
       signedUnder cr v i (az_credential p) (requestDate ParseTime r)
         (canonicalRequest r (req_Query r) (az_signedHeaders p) (Header_Get (req_Header r) ''X-Amz-Content-Sha256''))
         (az_signature p)"
proof (cases "Header_Get (req_Header r) ''Authorization'' = []")
  case True
  show ?thesis
  proof (cases "Values_Get (req_Query r) ''X-Amz-Algorithm'' = []")
    case noalg: True
    with True assms(1) show ?thesis by (auto simp: Verify_def Let_def split: if_splits)
  next
    case False
    with True assms(1) have "verifyPresigned cr v now r = Inr i" by (simp add: Verify_def Let_def)
    from verifyPresigned_accepts [OF this] obtain t where
      t: "time_ParseISO (Values_Get (req_Query r) ''X-Amz-Date'') = Some t" "\<not> ver_skew v < time_Sub t now"
        "now \<le> t + maxPresignAge" "\<not> id_Anonymous i" and s: "signedUnder cr v i
           (Values_Get (req_Query r) ''X-Amz-Credential'') (Values_Get (req_Query r) ''X-Amz-Date'')
           (presignedCanonical r) (Values_Get (req_Query r) ''X-Amz-Signature'')" by blast
    have "t - now \<le> ver_skew v" using time_Sub_bound [OF assms(2) t(2)] .
    moreover have "now - t \<le> 604800 * second" using t(3) by (simp add: maxPresignAge_def)
    ultimately show ?thesis using True False t(1,4) s by simp
  qed
next
  case False
  from Verify_header_accepts [OF assms(1) False] obtain t p where
    t: "time_ParseISO (requestDate ParseTime r) = Some t" "\<not> ver_skew v < time_Sub now t"
      "\<not> time_Sub now t < - ver_skew v" and s: "\<not> id_Anonymous i" "authzParts r = Some p"
    "signedUnder cr v i (az_credential p) (requestDate ParseTime r)
       (canonicalRequest r (req_Query r) (az_signedHeaders p) (Header_Get (req_Header r) ''X-Amz-Content-Sha256''))
       (az_signature p)" by blast
  have "\<bar>now - t\<bar> \<le> ver_skew v"
    using time_Sub_bound [OF assms(2) t(2)] time_Sub_bound_neg [OF assms(2) t(3)] by simp
  with False t(1) s show ?thesis by simp
qed

lemma dropWhile_hd: "s = [] \<or> \<not> P (hd s) \<Longrightarrow> dropWhile P s = s"
  by (cases s) auto

lemma TrimSpace_id: "s \<noteq> [] \<Longrightarrow> \<not> go_space (hd s) \<Longrightarrow> \<not> go_space (last s) \<Longrightarrow> strings_TrimSpace s = s"
  by (simp add: strings_TrimSpace_def strings_TrimFunc_def dropWhile_hd hd_rev)

lemma TrimSpace_space: "strings_TrimSpace (CHR '' '' # s) = strings_TrimSpace s"
  by (simp add: strings_TrimSpace_def strings_TrimFunc_def go_space_def)

lemma strings_ToLower_hex: "strings_ToLower (hex_EncodeToString s) = hex_EncodeToString s"
proof -
  have "char_ToLower (hex_digit n) = hex_digit n" if "n < 16" for n
    using that by (auto simp: char_ToLower_def hex_digit_def Let_def)
  then show ?thesis
    by (induction s) (simp_all add: strings_ToLower_def Let_def byte_bounds)
qed

lemma hex_Encode_chars: "c \<in> set (hex_EncodeToString s) \<Longrightarrow> c \<noteq> CHR '','' \<and> \<not> go_space c"
proof -
  have "hex_digit n \<noteq> CHR '','' \<and> \<not> go_space (hex_digit n)" if "n < 16" for n
  proof -
    have n: "of_char (hex_digit n) = (if n < 10 then 48 + n else 87 + n)"
      using that by (simp add: hex_digit_def)
    then have "of_char (hex_digit n) \<noteq> (of_char (CHR '','') :: nat)" by simp
    then have "hex_digit n \<noteq> CHR '',''" by metis
    moreover have "\<not> go_space (hex_digit n)" using n by (simp add: go_space_def)
    ultimately show ?thesis ..
  qed
  then show "c \<in> set (hex_EncodeToString s) \<Longrightarrow> c \<noteq> CHR '','' \<and> \<not> go_space c"
    by (induction s) (auto simp: Let_def byte_bounds)
qed

text \<open>The Authorization header a client sends.\<close>

definition credentialScope :: "string \<Rightarrow> string \<Rightarrow> string \<Rightarrow> string" where
  "credentialScope accessKey date region = accessKey @ ''/'' @ date @ ''/'' @ region @ ''/s3/aws4_request''"

definition authorizationHeader :: "string \<Rightarrow> string \<Rightarrow> string \<Rightarrow> string" where
  "authorizationHeader credential signedHeaders signature =
     algorithm @ '' Credential='' @ credential @ '', SignedHeaders='' @ signedHeaders @ '', Signature='' @ signature"

lemma parseAuthz_component:
  assumes "k \<noteq> []" and "\<not> go_space (hd k)" and "CHR ''='' \<notin> set k" and "val \<noteq> []" and "\<not> go_space (last val)"
    and "part = k @ ''='' @ val \<or> part = CHR '' '' # k @ ''='' @ val"
  shows "strings_Cut (strings_TrimSpace part) ''='' = (k, val, True)"
proof -
  have "strings_TrimSpace (k @ ''='' @ val) = k @ ''='' @ val" using assms(1,2,4,5) by (intro TrimSpace_id) auto
  then have "strings_TrimSpace part = k @ CHR ''='' # val" using assms(6) by (auto simp: TrimSpace_space)
  with assms(3) show ?thesis by (simp add: strings_Cut_char_append)
qed

lemma strings_Split_three:
  "c \<notin> set a \<Longrightarrow> c \<notin> set b \<Longrightarrow> c \<notin> set d \<Longrightarrow> strings_Split (a @ c # b @ c # d) c = [a, b, d]"
  by (simp add: strings_Split_append strings_Split_single)

lemma parseAuthz_header:
  assumes "CHR '','' \<notin> set credential" and "CHR '','' \<notin> set sh" and "CHR '','' \<notin> set sig"
    and "credential \<noteq> []" and "sh \<noteq> []" and "sig \<noteq> []"
    and "\<not> go_space (last credential)" and "\<not> go_space (last sh)" and "\<not> go_space (last sig)"
    and "Header_Get (req_Header r) ''Authorization'' = authorizationHeader credential sh sig"
  shows "authzParts r = Some \<lparr>az_credential = credential, az_signedHeaders = sh, az_signature = sig\<rparr>"
proof -
  have "drop (length algorithm + 1) (authorizationHeader credential sh sig) =
      (''Credential='' @ credential) @ CHR '','' # ('' SignedHeaders='' @ sh) @ CHR '','' # ('' Signature='' @ sig)"
    by (simp add: authorizationHeader_def)
  moreover have "strings_Split ((''Credential='' @ credential) @ CHR '','' # ('' SignedHeaders='' @ sh) @ CHR '','' #
      ('' Signature='' @ sig)) CHR '','' = [''Credential='' @ credential, '' SignedHeaders='' @ sh, '' Signature='' @ sig]"
    by (rule strings_Split_three) (use assms(1-3) in simp_all)
  ultimately have split: "strings_Split (drop (length algorithm + 1) (authorizationHeader credential sh sig)) CHR '','' =
      [''Credential='' @ credential, '' SignedHeaders='' @ sh, '' Signature='' @ sig]" by (simp only:)
  have "strings_Cut (strings_TrimSpace (''Credential='' @ credential)) ''='' = (''Credential'', credential, True)"
    "strings_Cut (strings_TrimSpace ('' SignedHeaders='' @ sh)) ''='' = (''SignedHeaders'', sh, True)"
    "strings_Cut (strings_TrimSpace ('' Signature='' @ sig)) ''='' = (''Signature'', sig, True)"
    using assms(4-9) by (intro parseAuthz_component; simp add: go_space_def)+
  then show ?thesis unfolding authzParts_def assms(10) split by simp
qed

lemma credentialScope_split:
  "CHR ''/'' \<notin> set ak \<Longrightarrow> CHR ''/'' \<notin> set date \<Longrightarrow> CHR ''/'' \<notin> set region \<Longrightarrow>
   strings_Split (credentialScope ak date region) CHR ''/'' = [ak, date, region, ''s3'', ''aws4_request'']"
  by (simp add: credentialScope_def strings_Split_append)

lemma time_Sub_abs: "\<bar>t - u\<bar> \<le> s \<Longrightarrow> \<not> s < time_Sub t u \<and> \<not> time_Sub t u < - s"
  by (auto simp: time_Sub_def min_def max_def)

lemma Verify_signed:
  assumes hmac: "\<And>k d. length (hmacSHA256 cr k d) = 32"
    and key: "Credentials_Lookup (ver_Creds v) ak = Some cred" "CHR ''/'' \<notin> set ak" "CHR '','' \<notin> set ak"
    and region: "CHR ''/'' \<notin> set region" "CHR '','' \<notin> set region"
    and sh: "sh \<noteq> []" "CHR '','' \<notin> set sh" "\<not> go_space (last sh)"
    and date: "Header_Get (req_Header r) ''X-Amz-Date'' = amzDate" "time_ParseISO amzDate = Some t"
      "\<bar>now - t\<bar> \<le> ver_skew v" "CHR ''/'' \<notin> set (take 8 amzDate)" "CHR '','' \<notin> set (take 8 amzDate)"
    and payload: "Header_Get (req_Header r) ''X-Amz-Content-Sha256'' = ph" "ph \<noteq> []"
    and authz: "Header_Get (req_Header r) ''Authorization'' =
      authorizationHeader (credentialScope ak (take 8 amzDate) region) sh
        (wantSignature cr (cred_Secret cred) amzDate (take 8 amzDate) region (canonicalRequest r (req_Query r) sh ph))"
  shows "\<exists>i. Verify cr ParseTime v now r = Inr i \<and> id_AccessKey i = ak \<and> id_Tenant i = cred_Tenant cred \<and>
    \<not> id_Anonymous i"
proof -
  let ?c = "credentialScope ak (take 8 amzDate) region"
  let ?s = "wantSignature cr (cred_Secret cred) amzDate (take 8 amzDate) region (canonicalRequest r (req_Query r) sh ph)"
  have "length ?s = 64" by (simp add: wantSignature_def hmac)
  then have sne: "?s \<noteq> []" by auto
  have schars: "c \<in> set ?s \<Longrightarrow> c \<noteq> CHR '','' \<and> \<not> go_space c" for c
    unfolding wantSignature_def by (rule hex_Encode_chars)
  have p: "authzParts r = Some \<lparr>az_credential = ?c, az_signedHeaders = sh, az_signature = ?s\<rparr>"
  proof (rule parseAuthz_header [OF _ _ _ _ _ _ _ _ _ authz])
    show "CHR '','' \<notin> set ?c" using key region date by (simp add: credentialScope_def)
    show "?c \<noteq> []" and "\<not> go_space (last ?c)" by (simp_all add: credentialScope_def go_space_def)
    show "CHR '','' \<notin> set ?s" using schars by blast
    show "\<not> go_space (last ?s)" using schars last_in_set [OF sne] by blast
  qed (use sh sne in simp_all)
  have pre: "HasPrefix (Header_Get (req_Header r) ''Authorization'') (algorithm @ '' '')"
    unfolding authz authorizationHeader_def HasPrefix_def by simp
  have ne: "Header_Get (req_Header r) ''Authorization'' \<noteq> []"
    unfolding authz authorizationHeader_def by (simp add: algorithm_def)
  have d: "amzDate \<noteq> []" using date(2) by (auto simp: time_ParseISO_def getnum2_def)
  have rd: "requestDate ParseTime r = amzDate" using d date(1) by (simp add: requestDate_def Let_def)
  have hp: "HasPrefix amzDate (take 8 amzDate)" by (metis HasPrefix_append append_take_drop_id)
  have cne: "?c \<noteq> []" by (simp add: credentialScope_def)
  have split: "strings_Split ?c CHR ''/'' = [ak, take 8 amzDate, region, ''s3'', ''aws4_request'']"
    using key(2) date(4) region(1) by (rule credentialScope_split)
  have match: "signatureMatches cr (cred_Secret cred) amzDate (take 8 amzDate) region (canonicalRequest r (req_Query r) sh ph) ?s"
    by (simp add: signatureMatches_def wantSignature_def strings_ToLower_hex)
  show ?thesis
    unfolding Verify_def Let_def authzParts_def [symmetric] p
    using ne pre cne sne sh(1) d match time_Sub_abs [OF date(3)]
    by (simp add: split key(1) payload rd date(2) hp)
qed


text \<open>A presigned URL.\<close>

definition presignedWith :: "url_values \<Rightarrow> string \<Rightarrow> string \<Rightarrow> string \<Rightarrow> string \<Rightarrow> string \<Rightarrow> bool" where
  "presignedWith q credential amzDate expires sh sig \<longleftrightarrow>
     Values_Get q ''X-Amz-Algorithm'' = algorithm \<and> Values_Get q ''X-Amz-Credential'' = credential \<and>
     Values_Get q ''X-Amz-Date'' = amzDate \<and> Values_Get q ''X-Amz-Expires'' = expires \<and>
     Values_Get q ''X-Amz-SignedHeaders'' = sh \<and> Values_Get q ''X-Amz-Signature'' = sig"

lemma verifyPresigned_signed:
  assumes hmac: "\<And>k d. length (hmacSHA256 cr k d) = 32"
    and key: "Credentials_Lookup (ver_Creds v) ak = Some cred" "CHR ''/'' \<notin> set ak"
    and region: "CHR ''/'' \<notin> set region" and sh: "sh \<noteq> []"
    and date: "time_ParseISO amzDate = Some t" "CHR ''/'' \<notin> set (take 8 amzDate)"
    and q: "presignedWith (req_Query r) (credentialScope ak (take 8 amzDate) region) amzDate ex sh
      (wantSignature cr (cred_Secret cred) amzDate (take 8 amzDate) region (presignedCanonical r))"
    and ex: "strconv_ParseInt 10 ex = Some e"
  shows "verifyPresigned cr v now r =
    (if e < 1 \<or> maxPresignAge < wrap64 (e * second) then
       authErr ''AccessDenied'' ''X-Amz-Expires must be between 1 and 604800 seconds''
     else if t + wrap64 (e * second) < now then authErr ''AccessDenied'' ''Request has expired''
     else if ver_skew v < time_Sub t now then
       authErr ''RequestTimeTooSkewed'' ''the request signature date is in the future''
     else Inr \<lparr>id_AccessKey = ak, id_Tenant = cred_Tenant cred, id_Anonymous = False, id_Stream = None\<rparr>)"
proof -
  let ?c = "credentialScope ak (take 8 amzDate) region"
  let ?s = "wantSignature cr (cred_Secret cred) amzDate (take 8 amzDate) region (presignedCanonical r)"
  have "length ?s = 64" by (simp add: wantSignature_def hmac)
  then have sne: "?s \<noteq> []" by auto
  have cne: "?c \<noteq> []" by (simp add: credentialScope_def)
  have d: "amzDate \<noteq> []" using date(1) by (auto simp: time_ParseISO_def getnum2_def)
  have hp: "HasPrefix amzDate (take 8 amzDate)" by (metis HasPrefix_append append_take_drop_id)
  have split: "strings_Split ?c CHR ''/'' = [ak, take 8 amzDate, region, ''s3'', ''aws4_request'']"
    using key(2) date(2) region by (rule credentialScope_split)
  have match: "signatureMatches cr (cred_Secret cred) amzDate (take 8 amzDate) region (presignedCanonical r) ?s"
    by (simp add: signatureMatches_def wantSignature_def strings_ToLower_hex)
  have qs: "Values_Get (req_Query r) ''X-Amz-Algorithm'' = algorithm" "Values_Get (req_Query r) ''X-Amz-Credential'' = ?c"
    "Values_Get (req_Query r) ''X-Amz-Date'' = amzDate" "Values_Get (req_Query r) ''X-Amz-Expires'' = ex"
    "Values_Get (req_Query r) ''X-Amz-SignedHeaders'' = sh" "Values_Get (req_Query r) ''X-Amz-Signature'' = ?s"
    using q by (simp_all add: presignedWith_def)
  have canon: "canonicalRequest r (filter (\<lambda>(k, vs). k \<noteq> ''X-Amz-Signature'') (req_Query r)) sh ''UNSIGNED-PAYLOAD'' =
      presignedCanonical r" by (simp add: presignedCanonical_def qs)
  show ?thesis
    unfolding verifyPresigned_def Let_def qs canon split key(1) ex date(1)
    using cne sne sh(1) d match hp by (simp add: split key(1))
qed

text \<open>A stand-in for the hash functions, a verifier with one key, and signed requests.\<close>

definition demoCrypto :: crypto where
  "demoCrypto = \<lparr>sha256_Sum256 = (\<lambda>s. take 32 (s @ replicate 32 CHR ''x'')),
     hmacSHA256 = (\<lambda>k d. take 32 (k @ d @ replicate 32 CHR ''x''))\<rparr>"

definition demoVerifier :: Verifier where
  "demoVerifier = \<lparr>ver_Creds = [(''AK'', \<lparr>cred_Secret = ''sec'', cred_Tenant = ''alice''\<rparr>)],
     ver_AllowAnonymous = False, ver_MaxSkew = 0\<rparr>"

definition demoNow :: gotime where "demoNow = 1369353600 * second"

definition demoSigned :: Request where
  "demoSigned = demoRequest ''/b/k''
     [(''x-amz-date'', [''20130524T000000Z'']), (''x-amz-content-sha256'', [''UNSIGNED-PAYLOAD'']),
      (''authorization'', [authorizationHeader (credentialScope ''AK'' ''20130524'' ''eu'') ''host''
         (wantSignature demoCrypto ''sec'' ''20130524T000000Z'' ''20130524'' ''eu''
            (canonicalRequest (demoRequest ''/b/k'' []) [(''prefix'', [''a b''])] ''host'' ''UNSIGNED-PAYLOAD''))])]"

lemma demo_names: "signedHeaderNames ''host'' = [''host'']" by code_simp

lemma demo_canonical:
  "canonicalRequest (demoRequest p h) q ''host'' ph = canonicalRequest (demoRequest p []) q ''host'' ph"
  by (simp add: canonicalRequest_def demo_names signedHeaderValue_def demoRequest_def)

lemma demo_headers:
  "Header_Get (req_Header demoSigned) ''X-Amz-Date'' = ''20130524T000000Z''"
  "Header_Get (req_Header demoSigned) ''X-Amz-Content-Sha256'' = ''UNSIGNED-PAYLOAD''"
  "Header_Get (req_Header demoSigned) ''Authorization'' =
     authorizationHeader (credentialScope ''AK'' (take 8 ''20130524T000000Z'') ''eu'') ''host''
       (wantSignature demoCrypto (cred_Secret \<lparr>cred_Secret = ''sec'', cred_Tenant = ''alice''\<rparr>) ''20130524T000000Z''
          (take 8 ''20130524T000000Z'') ''eu'' (canonicalRequest demoSigned (req_Query demoSigned) ''host'' ''UNSIGNED-PAYLOAD''))"
proof -
  have low: "strings_ToLower ''X-Amz-Date'' = ''x-amz-date''"
    "strings_ToLower ''X-Amz-Content-Sha256'' = ''x-amz-content-sha256''"
    "strings_ToLower ''Authorization'' = ''authorization''" by code_simp+
  have q: "req_Query demoSigned = [(''prefix'', [''a b''])]" by (simp add: demoSigned_def demoRequest_def)
  have c: "canonicalRequest demoSigned (req_Query demoSigned) ''host'' ''UNSIGNED-PAYLOAD'' =
      canonicalRequest (demoRequest ''/b/k'' []) [(''prefix'', [''a b''])] ''host'' ''UNSIGNED-PAYLOAD''"
    unfolding q unfolding demoSigned_def by (rule demo_canonical)
  show "Header_Get (req_Header demoSigned) ''X-Amz-Date'' = ''20130524T000000Z''"
    "Header_Get (req_Header demoSigned) ''X-Amz-Content-Sha256'' = ''UNSIGNED-PAYLOAD''"
    by (simp_all add: Header_Get_def Header_Values_def low demoSigned_def demoRequest_def)
  show "Header_Get (req_Header demoSigned) ''Authorization'' =
     authorizationHeader (credentialScope ''AK'' (take 8 ''20130524T000000Z'') ''eu'') ''host''
       (wantSignature demoCrypto (cred_Secret \<lparr>cred_Secret = ''sec'', cred_Tenant = ''alice''\<rparr>) ''20130524T000000Z''
          (take 8 ''20130524T000000Z'') ''eu'' (canonicalRequest demoSigned (req_Query demoSigned) ''host'' ''UNSIGNED-PAYLOAD''))"
    unfolding c by (simp add: Header_Get_def Header_Values_def low demoSigned_def demoRequest_def)
qed

lemma demo_key:
  "length (hmacSHA256 demoCrypto k d) = 32"
  "Credentials_Lookup (ver_Creds demoVerifier) ''AK'' = Some \<lparr>cred_Secret = ''sec'', cred_Tenant = ''alice''\<rparr>"
  "time_ParseISO ''20130524T000000Z'' = Some demoNow" "\<bar>demoNow - demoNow\<bar> \<le> ver_skew demoVerifier"
  by (simp add: demoCrypto_def) code_simp+

text \<open>C27. Completeness of authentication. A client that knows a registered key's secret and
  signs a request as prescribed is accepted as that key and its tenant: for every
  registered access key and any region label (neither with a slash or comma), any list of
  signed headers, payload hash and date within the skew of the server's clock, when the
  Authorization header carries the signature of the request's canonical form.\<close>

theorem verify_complete:
  assumes hmac: "\<And>k d. length (hmacSHA256 cr k d) = 32"
    and key: "Credentials_Lookup (ver_Creds v) ak = Some cred" "CHR ''/'' \<notin> set ak" "CHR '','' \<notin> set ak"
    and region: "CHR ''/'' \<notin> set region" "CHR '','' \<notin> set region"
    and sh: "sh \<noteq> []" "CHR '','' \<notin> set sh" "\<not> go_space (last sh)"
    and date: "Header_Get (req_Header r) ''X-Amz-Date'' = amzDate" "time_ParseISO amzDate = Some t"
      "\<bar>now - t\<bar> \<le> ver_skew v" "CHR ''/'' \<notin> set (take 8 amzDate)" "CHR '','' \<notin> set (take 8 amzDate)"
    and payload: "Header_Get (req_Header r) ''X-Amz-Content-Sha256'' = ph" "ph \<noteq> []"
    and authz: "Header_Get (req_Header r) ''Authorization'' =
      authorizationHeader (credentialScope ak (take 8 amzDate) region) sh
        (wantSignature cr (cred_Secret cred) amzDate (take 8 amzDate) region (canonicalRequest r (req_Query r) sh ph))"
  shows "\<exists>i. Verify cr ParseTime v now r = Inr i \<and> id_AccessKey i = ak \<and> id_Tenant i = cred_Tenant cred \<and>
    \<not> id_Anonymous i"
  using assms by (rule Verify_signed)

theorem verify_complete_witness:
  "\<exists>i. Verify demoCrypto (\<lambda>_. None) demoVerifier demoNow demoSigned = Inr i \<and> id_AccessKey i = ''AK'' \<and>
     id_Tenant i = cred_Tenant \<lparr>cred_Secret = ''sec'', cred_Tenant = ''alice''\<rparr> \<and> \<not> id_Anonymous i"
  by (rule verify_complete [OF demo_key(1,2) _ _ _ _ _ _ _ demo_headers(1) demo_key(3,4) _ _ demo_headers(2) _ demo_headers(3)])
     (simp_all add: go_space_def)

theorem verify_sound_witness:
  "\<exists>t p. time_ParseISO (requestDate (\<lambda>_. None) demoSigned) = Some t \<and> \<bar>demoNow - t\<bar> \<le> ver_skew demoVerifier \<and>
     authzParts demoSigned = Some p"
proof -
  obtain i where i: "Verify demoCrypto (\<lambda>_. None) demoVerifier demoNow demoSigned = Inr i"
    using Verify_signed [OF demo_key(1,2) _ _ _ _ _ _ _ demo_headers(1) demo_key(3,4) _ _ demo_headers(2) _ demo_headers(3),
      of "\<lambda>_. None"] by (auto simp: go_space_def)
  have "ver_skew demoVerifier < 2 ^ 63 - 1" by code_simp
  moreover have "Header_Get (req_Header demoSigned) ''Authorization'' \<noteq> []"
    unfolding demo_headers(3) by (simp add: authorizationHeader_def algorithm_def)
  ultimately show ?thesis using verify_sound [OF i] by (simp only: if_False) blast
qed

definition demoPresignedQuery :: "string \<Rightarrow> url_values" where
  "demoPresignedQuery expires =
     [(''X-Amz-Algorithm'', [algorithm]), (''X-Amz-Credential'', [credentialScope ''AK'' ''20130524'' ''eu'']),
      (''X-Amz-Date'', [''20130524T000000Z'']), (''X-Amz-Expires'', [expires]),
      (''X-Amz-SignedHeaders'', [''host''])]"

definition demoPresigned :: "string \<Rightarrow> Request" where
  "demoPresigned expires = (demoRequest ''/b/k'' [])\<lparr>req_Query := demoPresignedQuery expires @
     [(''X-Amz-Signature'', [wantSignature demoCrypto ''sec'' ''20130524T000000Z'' ''20130524'' ''eu''
         (canonicalRequest (demoRequest ''/b/k'' []) (demoPresignedQuery expires) ''host'' ''UNSIGNED-PAYLOAD'')])]\<rparr>"

lemma demoPresigned_verifies:
  assumes "strconv_ParseInt 10 ex = Some e"
  shows "verifyPresigned demoCrypto demoVerifier now (demoPresigned ex) =
    (if e < 1 \<or> maxPresignAge < wrap64 (e * second) then
       authErr ''AccessDenied'' ''X-Amz-Expires must be between 1 and 604800 seconds''
     else if demoNow + wrap64 (e * second) < now then authErr ''AccessDenied'' ''Request has expired''
     else if ver_skew demoVerifier < time_Sub demoNow now then
       authErr ''RequestTimeTooSkewed'' ''the request signature date is in the future''
     else Inr \<lparr>id_AccessKey = ''AK'', id_Tenant = ''alice'', id_Anonymous = False, id_Stream = None\<rparr>)"
proof -
  let ?q = "req_Query (demoPresigned ex)"
  have "filter (\<lambda>(k, vs). k \<noteq> ''X-Amz-Signature'') ?q = demoPresignedQuery ex"
    by (simp add: demoPresigned_def demoPresignedQuery_def)
  moreover have "canonicalRequest (demoPresigned ex) q ''host'' ph = canonicalRequest (demoRequest ''/b/k'' []) q ''host'' ph" for q ph
    by (simp add: canonicalRequest_def demo_names signedHeaderValue_def demoPresigned_def demoRequest_def)
  moreover have sh: "Values_Get ?q ''X-Amz-SignedHeaders'' = ''host''"
    by (simp add: Values_Get_def demoPresigned_def demoPresignedQuery_def)
  ultimately have canon: "presignedCanonical (demoPresigned ex) =
      canonicalRequest (demoRequest ''/b/k'' []) (demoPresignedQuery ex) ''host'' ''UNSIGNED-PAYLOAD''"
    by (simp add: presignedCanonical_def)
  have "presignedWith ?q (credentialScope ''AK'' (take 8 ''20130524T000000Z'') ''eu'') ''20130524T000000Z'' ex ''host''
      (wantSignature demoCrypto (cred_Secret \<lparr>cred_Secret = ''sec'', cred_Tenant = ''alice''\<rparr>) ''20130524T000000Z''
         (take 8 ''20130524T000000Z'') ''eu'' (presignedCanonical (demoPresigned ex)))"
    unfolding presignedWith_def canon
    by (simp add: Values_Get_def demoPresigned_def demoPresignedQuery_def)
  from verifyPresigned_signed [OF demo_key(1,2) _ _ _ demo_key(3) _ this assms] show ?thesis by simp
qed


end
