(* ===== verification/Listing.thy ===== *)
theory Listing
  imports Memory_Props Sigv4
begin

text \<open>
  The listings, file internal/api/list.go: the delimiter-aware scan over index pages and the
  handlers of ListObjects (both versions) and ListObjectVersions. The scan is proved once,
  for every index that satisfies the listing interface (locale \<open>object_listing\<close>, and
  \<open>version_listing\<close> for versions), and both interfaces are shown to hold of the in-memory index.
\<close>

section \<open>Scanning\<close>

definition scanPage :: int where "scanPage = 1000"

record scanResult =
  sr_contents :: "Object list"
  sr_prefixes :: "string list"
  sr_truncated :: bool
  sr_resumeAfter :: string

definition emptyScan :: scanResult where
  "emptyScan = \<lparr>sr_contents = [], sr_prefixes = [], sr_truncated = False, sr_resumeAfter = []\<rparr>"

text \<open>The common prefix a key rolls up to, if the delimiter occurs behind the prefix.\<close>

definition commonPrefix :: "string \<Rightarrow> string \<Rightarrow> string \<Rightarrow> string option" where
  "commonPrefix prefix delimiter key =
     (if delimiter \<noteq> [] then
        (case strings_Index (drop (length prefix) key) delimiter of
           Some i \<Rightarrow> Some (take (length prefix + i + length delimiter) key)
         | None \<Rightarrow> None)
      else None)"

text \<open>
  The loop over one page of the index. The state is the result so far, the number of items
  and the cursor; the first component tells that the function returned inside the loop.
\<close>

fun scanBatch ::
  "string \<Rightarrow> string \<Rightarrow> string \<Rightarrow> int \<Rightarrow> scanResult \<times> int \<times> string \<Rightarrow> Object list \<Rightarrow> bool \<times> scanResult \<times> int \<times> string" where
  "scanBatch prefix delimiter after maxKeys (res, cnt, cursor) [] = (False, res, cnt, cursor)"
| "scanBatch prefix delimiter after maxKeys (res, cnt, cursor) (ob # batch) =
     (let cursor = obj_Key ob in
      case commonPrefix prefix delimiter (obj_Key ob) of
        Some cp \<Rightarrow>
          if cp \<le> after then scanBatch prefix delimiter after maxKeys (res, cnt, cursor) batch
          else if sr_prefixes res \<noteq> [] \<and> last (sr_prefixes res) = cp then
            scanBatch prefix delimiter after maxKeys (res, cnt, cursor) batch
          else if cnt = maxKeys then (True, res\<lparr>sr_truncated := True\<rparr>, cnt, cursor)
          else scanBatch prefix delimiter after maxKeys
                 (res\<lparr>sr_prefixes := sr_prefixes res @ [cp], sr_resumeAfter := cp\<rparr>, cnt + 1, cursor) batch
      | None \<Rightarrow>
          if cnt = maxKeys then (True, res\<lparr>sr_truncated := True\<rparr>, cnt, cursor)
          else scanBatch prefix delimiter after maxKeys
                 (res\<lparr>sr_contents := sr_contents res @ [ob], sr_resumeAfter := obj_Key ob\<rparr>, cnt + 1, cursor) batch)"

text \<open>
  The outer loop fetches pages until a short one; \<open>lo\<close> is the index's \<open>ListObjects\<close> for the
  bucket. \<open>None\<close> would be a run that never returns.
\<close>

partial_function (option) scanLoop ::
  "(string \<Rightarrow> string \<Rightarrow> int \<Rightarrow> (store_error, Object list) result) \<Rightarrow> string \<Rightarrow> string \<Rightarrow> string \<Rightarrow> int \<Rightarrow>
   scanResult \<times> int \<times> string \<Rightarrow> (store_error, scanResult) result option" where
  "scanLoop lo prefix delimiter after maxKeys st =
     (case lo prefix (snd (snd st)) scanPage of
        Inl e \<Rightarrow> Some (Inl e)
      | Inr batch \<Rightarrow>
          (case scanBatch prefix delimiter after maxKeys st batch of
             (returned, res, cnt, cursor) \<Rightarrow>
               if returned then Some (Inr res)
               else if int (length batch) < scanPage then Some (Inr res)
               else scanLoop lo prefix delimiter after maxKeys (res, cnt, cursor)))"

definition scanObjects ::
  "(string \<Rightarrow> string \<Rightarrow> string \<Rightarrow> int \<Rightarrow> (store_error, Object list) result) \<Rightarrow> string \<Rightarrow> string \<Rightarrow> string \<Rightarrow> string \<Rightarrow> int \<Rightarrow>
   (store_error, scanResult) result option" where
  "scanObjects lo bucket prefix delimiter after maxKeys =
     (if maxKeys = 0 then Some (Inr emptyScan)
      else scanLoop (lo bucket) prefix delimiter after maxKeys (emptyScan, 0, after))"

section \<open>Specification\<close>

text \<open>
  What a delimited listing lists: for each live object with the prefix its entry, the
  object itself or the common prefix it rolls up to.
\<close>

datatype entry = EObj Object | EPrefix string

fun entryKey :: "entry \<Rightarrow> string" where
  "entryKey (EObj ob) = obj_Key ob"
| "entryKey (EPrefix cp) = cp"

definition toEntry :: "string \<Rightarrow> string \<Rightarrow> Object \<Rightarrow> entry" where
  "toEntry prefix delimiter ob =
     (case commonPrefix prefix delimiter (obj_Key ob) of Some cp \<Rightarrow> EPrefix cp | None \<Rightarrow> EObj ob)"

definition entryObjects :: "entry list \<Rightarrow> Object list" where
  "entryObjects es = concat (map (\<lambda>e. case e of EObj ob \<Rightarrow> [ob] | EPrefix _ \<Rightarrow> []) es)"

definition entryPrefixes :: "entry list \<Rightarrow> string list" where
  "entryPrefixes es = concat (map (\<lambda>e. case e of EObj _ \<Rightarrow> [] | EPrefix cp \<Rightarrow> [cp]) es)"

text \<open>The entries behind a position, each once, in key order.\<close>

fun emitEntries :: "string \<Rightarrow> string option \<Rightarrow> entry list \<Rightarrow> entry list" where
  "emitEntries a lp [] = []"
| "emitEntries a lp (EObj ob # es) = EObj ob # emitEntries a lp es"
| "emitEntries a lp (EPrefix cp # es) =
     (if cp \<le> a \<or> lp = Some cp then emitEntries a lp es else EPrefix cp # emitEntries a (Some cp) es)"

definition listEntries :: "string \<Rightarrow> string \<Rightarrow> string \<Rightarrow> Object list \<Rightarrow> entry list" where
  "listEntries prefix delimiter after live =
     emitEntries after None (map (toEntry prefix delimiter)
       (filter (\<lambda>ob. HasPrefix (obj_Key ob) prefix \<and> after < obj_Key ob) live))"

section \<open>Strings in order\<close>

lemma append_less_iff [simp]: "p @ a < p @ b \<longleftrightarrow> a < b" for a b p :: "'a::linorder list"
  by (induction p) auto

lemma append_le_self: "p \<le> p @ t" for p :: "'a::linorder list"
  by (induction p) auto

lemma between_HasPrefix: "x \<le> y \<Longrightarrow> y \<le> x @ t \<Longrightarrow> HasPrefix y x"
proof (induction x arbitrary: y)
  case (Cons c x)
  then obtain d z where "y = d # z" by (cases y) auto
  with Cons show ?case by auto
qed simp

lemma HasPrefix_le: "HasPrefix y x \<Longrightarrow> x \<le> y"
  by (auto simp: HasPrefix_iff append_le_self)

lemma HasPrefix_refl [simp]: "HasPrefix s s"
  by (simp add: HasPrefix_def)

lemma HasPrefix_take [simp]: "HasPrefix s (take n s)"
  by (metis HasPrefix_append append_take_drop_id)

lemma HasPrefix_le_take: "length d \<le> n \<Longrightarrow> HasPrefix (take n s) d \<longleftrightarrow> HasPrefix s d"
  by (simp add: HasPrefix_def min_def)

lemma Index_prefix:
  "d \<noteq> [] \<Longrightarrow> strings_Index r d = Some i \<Longrightarrow> HasPrefix r' (take (i + length d) r) \<Longrightarrow> strings_Index r' d = Some i"
proof (induction r arbitrary: r' i)
  case (Cons c s)
  show ?case
  proof (cases "HasPrefix (c # s) d")
    case True
    with Cons.prems have i: "i = 0" by simp
    moreover have "take (0 + length d) (c # s) = d" using True by (simp add: HasPrefix_def)
    with Cons.prems(3) i have "HasPrefix r' d" by (simp only:)
    ultimately have "i = 0" and "HasPrefix r' d" by simp_all
    with Cons.prems(1) show ?thesis by (cases r') auto
  next
    case False
    with Cons.prems obtain j where j: "strings_Index s d = Some j" "i = Suc j" by auto
    with Cons.prems(3) obtain s' where r': "r' = c # s'" and s': "HasPrefix s' (take (j + length d) s)"
      by (cases r') auto
    have "take (length d) (c # s') = take (length d) (c # s)"
    proof -
      obtain t where t: "s' = take (j + length d) s @ t" using s' by (auto simp: HasPrefix_iff)
      have "c # s' = take (Suc (j + length d)) (c # s) @ t" by (simp add: t)
      moreover have "length (take (Suc (j + length d)) (c # s)) = Suc (j + length d)"
        using strings_Index_bound [OF j(1)] by simp
      ultimately show ?thesis by (simp add: take_Cons' min_def le_diff_conv)
    qed
    then have "\<not> HasPrefix (c # s') d" using False by (simp add: HasPrefix_def)
    with Cons.IH [OF Cons.prems(1) j(1) s'] r' j(2) show ?thesis by simp
  qed
qed simp

section \<open>The loop computes the specification\<close>

lemma takeLimit_scanPage: "takeLimit scanPage xs = take 1000 xs"
  using takeLimit_nat [of 1000 xs] by (simp add: scanPage_def)

text \<open>What a run over a list of objects adds to the result.\<close>

definition scanned :: "int \<Rightarrow> scanResult \<Rightarrow> int \<Rightarrow> entry list \<Rightarrow> scanResult" where
  "scanned maxKeys res cnt es =
     (let page = take (nat (maxKeys - cnt)) es in
      \<lparr>sr_contents = sr_contents res @ entryObjects page, sr_prefixes = sr_prefixes res @ entryPrefixes page,
       sr_truncated = (sr_truncated res \<or> nat (maxKeys - cnt) < length es),
       sr_resumeAfter = (if page = [] then sr_resumeAfter res else entryKey (last page))\<rparr>)"

definition lastPrefix :: "scanResult \<Rightarrow> string option" where
  "lastPrefix res = (if sr_prefixes res = [] then None else Some (last (sr_prefixes res)))"

lemma scanned_Nil [simp]: "scanned mk res cnt [] = res"
  by (simp add: scanned_def entryObjects_def entryPrefixes_def)

lemma scanned_full: "es \<noteq> [] \<Longrightarrow> scanned mk res mk es = res\<lparr>sr_truncated := True\<rparr>"
  by (simp add: scanned_def entryObjects_def entryPrefixes_def)

lemma nat_diff_Suc: "cnt < mk \<Longrightarrow> nat (mk - cnt) = Suc (nat (mk - (cnt + 1)))" for mk cnt :: int
  by simp

lemma scanned_EObj:
  "cnt < mk \<Longrightarrow> scanned mk res cnt (EObj ob # es) =
     scanned mk (res\<lparr>sr_contents := sr_contents res @ [ob], sr_resumeAfter := obj_Key ob\<rparr>) (cnt + 1) es"
  unfolding scanned_def nat_diff_Suc by (simp add: Let_def entryObjects_def entryPrefixes_def)

lemma scanned_EPrefix:
  "cnt < mk \<Longrightarrow> scanned mk res cnt (EPrefix cp # es) =
     scanned mk (res\<lparr>sr_prefixes := sr_prefixes res @ [cp], sr_resumeAfter := cp\<rparr>) (cnt + 1) es"
  unfolding scanned_def nat_diff_Suc by (simp add: Let_def entryObjects_def entryPrefixes_def)

lemma scanBatch_eq:
  assumes "cnt \<le> mk"
  shows "fst (scanBatch p d a mk (res, cnt, cur) obs) \<longleftrightarrow>
       nat (mk - cnt) < length (emitEntries a (lastPrefix res) (map (toEntry p d) obs))" (is ?r)
    and "fst (snd (scanBatch p d a mk (res, cnt, cur) obs)) =
       scanned mk res cnt (emitEntries a (lastPrefix res) (map (toEntry p d) obs))" (is ?s)
proof -
  have "?r \<and> ?s" using assms
  proof (induction obs arbitrary: res cnt cur)
    case (Cons ob obs)
    show ?case
    proof (cases "commonPrefix p d (obj_Key ob)")
      case None
      with Cons.prems Cons.IH [of "cnt + 1" "res\<lparr>sr_contents := sr_contents res @ [ob], sr_resumeAfter := obj_Key ob\<rparr>" "obj_Key ob"]
      show ?thesis
        by (cases "cnt = mk") (simp_all add: toEntry_def scanned_full scanned_EObj lastPrefix_def nat_diff_Suc)
    next
      case (Some cp)
      show ?thesis
      proof (cases "cp \<le> a \<or> lastPrefix res = Some cp")
        case True
        with Some have "scanBatch p d a mk (res, cnt, cur) (ob # obs) = scanBatch p d a mk (res, cnt, obj_Key ob) obs"
          by (auto simp: lastPrefix_def Let_def split: if_splits)
        moreover from True Some have "emitEntries a (lastPrefix res) (map (toEntry p d) (ob # obs)) =
            emitEntries a (lastPrefix res) (map (toEntry p d) obs)" by (auto simp: toEntry_def)
        ultimately show ?thesis using Cons.prems Cons.IH [of cnt res "obj_Key ob"] by (simp only:)
      next
        case False
        then have *: "\<not> cp \<le> a" "\<not> (sr_prefixes res \<noteq> [] \<and> last (sr_prefixes res) = cp)"
          by (auto simp: lastPrefix_def)
        from False Some Cons.prems
          Cons.IH [of "cnt + 1" "res\<lparr>sr_prefixes := sr_prefixes res @ [cp], sr_resumeAfter := cp\<rparr>" "obj_Key ob"]
        show ?thesis
          by (cases "cnt = mk") (simp_all add: toEntry_def scanned_full scanned_EPrefix lastPrefix_def nat_diff_Suc *)
      qed
    qed
  qed simp
  then show ?r and ?s by blast+
qed

lemma scanBatch_append:
  "scanBatch p d a mk st (xs @ ys) =
     (let (r, st') = scanBatch p d a mk st xs in if r then (r, st') else scanBatch p d a mk st' ys)"
proof (induction xs arbitrary: st)
  case Nil
  then show ?case by (cases st) simp
next
  case (Cons x xs)
  obtain res c cur where st: "st = (res, c, cur)" by (cases st)
  show ?case by (simp add: st Cons.IH Let_def split: option.split)
qed

lemma scanBatch_cursor:
  "xs \<noteq> [] \<Longrightarrow> scanBatch p d a mk (res, c, cur) xs = (False, res', c', cur') \<Longrightarrow> cur' = obj_Key (last xs)"
proof (induction xs arbitrary: res c cur)
  case (Cons x xs)
  then show ?case
    by (cases "xs = []") (auto simp: Let_def split: option.splits if_splits)
qed simp

section \<open>The listing interface\<close>

text \<open>
  What the scan relies on of an index: in a consistent state, \<open>ListObjects\<close> of an existing
  bucket is the first \<open>limit\<close> live objects with the prefix behind the marker, and the live
  objects are in strict key order; it fails on a missing bucket.
\<close>

locale object_listing =
  fixes inv :: "'s \<Rightarrow> bool"
    and lo :: "'s \<Rightarrow> string \<Rightarrow> string \<Rightarrow> string \<Rightarrow> int \<Rightarrow> (store_error, Object list) result"
    and live :: "'s \<Rightarrow> string \<Rightarrow> Object list option"
  assumes live_sorted: "inv s \<Longrightarrow> live s n = Some obs \<Longrightarrow> sorted_wrt (<) (map obj_Key obs)"
    and lo_some: "inv s \<Longrightarrow> live s n = Some obs \<Longrightarrow>
      lo s n p a l = Inr (takeLimit l (filter (\<lambda>ob. HasPrefix (obj_Key ob) p \<and> a < obj_Key ob) obs))"
    and lo_none: "inv s \<Longrightarrow> live s n = None \<Longrightarrow> lo s n p a l = Inl ErrBucketNotFound"
begin

text \<open>The page behind the last object of a page.\<close>

lemma rest_behind:
  assumes "inv s" and "live s n = Some obs" and "R = filter (\<lambda>ob. HasPrefix (obj_Key ob) p \<and> a < obj_Key ob) obs"
    and "i < length R"
  shows "filter (\<lambda>ob. HasPrefix (obj_Key ob) p \<and> obj_Key (R ! i) < obj_Key ob) obs = drop (Suc i) R"
proof -
  have sorted: "sorted_wrt (<) (map obj_Key R)"
    using live_sorted [OF assms(1,2)] unfolding assms(3) by (simp add: sorted_wrt_map sorted_wrt_filter)
  have "a < obj_Key (R ! i)" using nth_mem [OF assms(4)] unfolding assms(3) by simp
  then have "filter (\<lambda>ob. HasPrefix (obj_Key ob) p \<and> obj_Key (R ! i) < obj_Key ob) obs =
      filter (\<lambda>ob. obj_Key (R ! i) < obj_Key ob) R"
    unfolding assms(3) filter_filter by (intro filter_cong) auto
  with strict_sorted_filter_drop [OF sorted assms(4)] show ?thesis by simp
qed

text \<open>Whatever the page size, the loop returns, with the result of one pass over all objects.\<close>

lemma scanLoop_eq:
  assumes "inv s" and "live s n = Some obs"
  shows "R = filter (\<lambda>ob. HasPrefix (obj_Key ob) p \<and> cur < obj_Key ob) obs \<Longrightarrow>
    scanLoop (lo s n) p d a mk (res, c, cur) = Some (Inr (fst (snd (scanBatch p d a mk (res, c, cur) R))))"
proof (induction "length R" arbitrary: R res c cur rule: less_induct)
  case less
  have page: "lo s n p cur 1000 = Inr (take 1000 R)"
    using lo_some [OF assms] less.prems takeLimit_scanPage by (simp add: scanPage_def)
  obtain r res' c' cur' where b: "scanBatch p d a mk (res, c, cur) (take 1000 R) = (r, res', c', cur')"
    by (metis prod_cases4)
  have whole: "scanBatch p d a mk (res, c, cur) R =
      (if r then (r, res', c', cur') else scanBatch p d a mk (res', c', cur') (drop 1000 R))"
    using scanBatch_append [of p d a mk "(res, c, cur)" "take 1000 R" "drop 1000 R"] by (simp add: b)
  consider "r" | "\<not> r" "length R < 1000" | "\<not> r" "1000 \<le> length R" by linarith
  then show ?case
  proof cases
    case 1
    then show ?thesis by (subst scanLoop.simps) (simp add: page b whole scanPage_def)
  next
    case 2
    with whole show ?thesis by (subst scanLoop.simps) (simp add: page b scanPage_def)
  next
    case 3
    note len = 3(2) and \<open>\<not> r\<close>
    have cur': "cur' = obj_Key (last (take 1000 R))"
      using len b \<open>\<not> r\<close> by (intro scanBatch_cursor) auto
    moreover have "take 1000 R \<noteq> []" using len by auto
    ultimately have "cur' = obj_Key (R ! 999)" using len by (simp add: last_conv_nth)
    then have nxt: "drop 1000 R = filter (\<lambda>ob. HasPrefix (obj_Key ob) p \<and> cur' < obj_Key ob) obs"
      using rest_behind [OF assms less.prems, of 999] len by simp
    have "length (drop 1000 R) < length R" using len by simp
    from less.hyps [OF this nxt] \<open>\<not> r\<close> len whole show ?thesis
      by (subst scanLoop.simps) (simp add: page b scanPage_def)
  qed
qed

lemma scanObjects_eq:
  assumes "inv s" and "live s n = Some obs" and "0 < mk"
  shows "scanObjects (lo s) n p d a mk = Some (Inr (scanned mk emptyScan 0 (listEntries p d a obs)))"
proof -
  have "lastPrefix emptyScan = None" by (simp add: lastPrefix_def emptyScan_def)
  with scanLoop_eq [OF assms(1,2) refl, where p = p and cur = a and d = d and a = a and mk = mk and res = emptyScan and c = 0]
    scanBatch_eq(2) [where cnt = 0 and mk = mk and res = emptyScan and p = p and d = d and a = a and cur = a] assms(3)
  show ?thesis by (simp add: scanObjects_def listEntries_def)
qed

lemma scanObjects_none:
  assumes "inv s" and "live s n = None" and "mk \<noteq> 0"
  shows "scanObjects (lo s) n p d a mk = Some (Inl ErrBucketNotFound)"
  using assms by (simp add: scanObjects_def, subst scanLoop.simps) (simp add: lo_none)

end

section \<open>Entries are in order, each once\<close>

lemma commonPrefix_Some:
  assumes "commonPrefix p d k = Some cp" and "HasPrefix k p"
  obtains i where "d \<noteq> []" and "strings_Index (drop (length p) k) d = Some i"
    and "cp = p @ take (i + length d) (drop (length p) k)"
proof -
  from assms obtain i where i: "d \<noteq> []" "strings_Index (drop (length p) k) d = Some i" "cp = take (length p + i + length d) k"
    by (auto simp: commonPrefix_def split: if_splits option.splits)
  moreover have "take (length p) k = p" using assms(2) by (simp add: HasPrefix_def)
  then have "take (length p + i + length d) k = p @ take (i + length d) (drop (length p) k)"
    by (simp add: add.assoc take_add)
  ultimately show ?thesis using that by simp
qed

lemma entryKey_prefix: "HasPrefix (obj_Key ob) (entryKey (toEntry p d ob))"
  by (auto simp: toEntry_def commonPrefix_def split: option.splits if_splits)

lemma entryKey_le: "entryKey (toEntry p d ob) \<le> obj_Key ob"
  by (rule HasPrefix_le) (rule entryKey_prefix)

text \<open>A key that starts with a rolled-up prefix rolls up to it.\<close>

lemma commonPrefix_extend:
  assumes "commonPrefix p d k = Some cp" and "HasPrefix k p" and "HasPrefix k' cp"
  shows "commonPrefix p d k' = Some cp"
proof -
  from commonPrefix_Some [OF assms(1,2)] obtain i where i: "d \<noteq> []" "strings_Index (drop (length p) k) d = Some i"
    "cp = p @ take (i + length d) (drop (length p) k)" by metis
  let ?r = "drop (length p) k"
  from assms(3) i(3) obtain t where k': "k' = p @ take (i + length d) ?r @ t" by (auto simp: HasPrefix_iff)
  have "strings_Index (drop (length p) k') d = Some i" by (rule Index_prefix [OF i(1,2)]) (simp add: k')
  moreover have "i + length d \<le> length ?r" by (rule strings_Index_bound [OF i(2)])
  ultimately show ?thesis using i(1,3) by (simp add: commonPrefix_def k' min_def)
qed

definition entryLess :: "entry \<Rightarrow> entry \<Rightarrow> bool" where
  "entryLess e f \<longleftrightarrow> entryKey e < entryKey f \<or> (e = f \<and> (\<exists>cp. e = EPrefix cp))"

lemma toEntry_mono:
  assumes "HasPrefix (obj_Key x) p" and "HasPrefix (obj_Key y) p" and "obj_Key x < obj_Key y"
  shows "entryLess (toEntry p d x) (toEntry p d y)"
proof -
  let ?e = "toEntry p d x" and ?f = "toEntry p d y"
  have x: "commonPrefix p d (obj_Key x) = Some cp" if "commonPrefix p d (obj_Key y) = Some cp" "HasPrefix (obj_Key x) cp" for cp
    by (rule commonPrefix_extend [OF that(1) assms(2) that(2)])
  consider "entryKey ?e < entryKey ?f" | "entryKey ?f \<le> entryKey ?e" by (rule le_less_linear [THEN disjE])
  then show ?thesis
  proof cases
    case 2
    have "entryKey ?f \<le> obj_Key x" using 2 entryKey_le by (rule order_trans)
    moreover obtain t where t: "obj_Key y = entryKey ?f @ t" using entryKey_prefix [of y p d] by (auto simp: HasPrefix_iff)
    have "obj_Key x \<le> entryKey ?f @ t" using assms(3) unfolding t [symmetric] by simp
    ultimately have pre: "HasPrefix (obj_Key x) (entryKey ?f)" by (rule between_HasPrefix)
    show ?thesis
    proof (cases "commonPrefix p d (obj_Key y)")
      case None
      then have "entryKey ?f = obj_Key y" by (simp add: toEntry_def)
      with HasPrefix_le [OF pre] have "obj_Key y \<le> obj_Key x" by (simp only:)
      from leD [OF this] assms(3) have False by blast
      then show ?thesis ..
    next
      case (Some cp)
      then have "?f = EPrefix cp" by (simp add: toEntry_def)
      moreover from this pre x [OF Some] have "?e = EPrefix cp" by (simp add: toEntry_def)
      ultimately show ?thesis by (simp add: entryLess_def)
    qed
  qed (simp add: entryLess_def)
qed

lemma emitEntries_props:
  assumes "sorted_wrt entryLess es" and "\<And>l e. lp = Some l \<Longrightarrow> e \<in> set es \<Longrightarrow> entryLess (EPrefix l) e"
  shows "sorted_wrt (<) (map entryKey (emitEntries a lp es)) \<and>
    set (emitEntries a lp es) = {e \<in> set es. \<forall>cp. e = EPrefix cp \<longrightarrow> a < cp \<and> lp \<noteq> Some cp}"
  using assms
proof (induction a lp es rule: emitEntries.induct)
  case (2 a lp ob es)
  then have "sorted_wrt (<) (map entryKey (emitEntries a lp es)) \<and>
    set (emitEntries a lp es) = {e \<in> set es. \<forall>cp. e = EPrefix cp \<longrightarrow> a < cp \<and> lp \<noteq> Some cp}" by auto
  moreover have "obj_Key ob < entryKey e" if "e \<in> set es" for e
    using 2(2) that by (auto simp: entryLess_def)
  ultimately show ?case by auto
next
  case (3 a lp cp es)
  show ?case
  proof (cases "cp \<le> a \<or> lp = Some cp")
    case True
    with 3 have "sorted_wrt (<) (map entryKey (emitEntries a lp es)) \<and>
      set (emitEntries a lp es) = {e \<in> set es. \<forall>cp. e = EPrefix cp \<longrightarrow> a < cp \<and> lp \<noteq> Some cp}" by auto
    with True show ?thesis by auto
  next
    case False
    have less: "entryLess (EPrefix cp) e" if "e \<in> set es" for e using 3(3) that by simp
    have lp: "lp \<noteq> Some l" if "EPrefix l \<in> set es" and "l \<noteq> cp" for l
    proof
      assume l: "lp = Some l"
      then have "entryLess (EPrefix l) (EPrefix cp)" using 3(4) by simp
      moreover have "entryLess (EPrefix cp) (EPrefix l)" using less that(1) by blast
      ultimately show False using that(2) by (auto simp: entryLess_def)
    qed
    have ih: "sorted_wrt (<) (map entryKey (emitEntries a (Some cp) es)) \<and>
      set (emitEntries a (Some cp) es) = {e \<in> set es. \<forall>l. e = EPrefix l \<longrightarrow> a < l \<and> Some cp \<noteq> Some l}"
      using 3(2) [OF False] 3(3) less by auto
    have "cp < entryKey e" if "e \<in> set (emitEntries a (Some cp) es)" for e
      using that ih less [of e] by (auto simp: entryLess_def)
    moreover have "set (EPrefix cp # emitEntries a (Some cp) es) =
        {e \<in> set (EPrefix cp # es). \<forall>l. e = EPrefix l \<longrightarrow> a < l \<and> lp \<noteq> Some l}"
      using ih lp False by fastforce
    ultimately show ?thesis using ih False by auto
  qed
qed simp

text \<open>
  The entries of a listing are in strictly ascending key order and are exactly the entries
  of the live objects with the prefix that lie behind the marker.
\<close>

lemma listEntries_props:
  assumes "sorted_wrt (<) (map obj_Key obs)"
  shows "sorted_wrt (<) (map entryKey (listEntries p d a obs))"
    and "set (listEntries p d a obs) =
      {toEntry p d ob | ob. ob \<in> set obs \<and> HasPrefix (obj_Key ob) p \<and> a < entryKey (toEntry p d ob)}"
proof -
  let ?R = "filter (\<lambda>ob. HasPrefix (obj_Key ob) p \<and> a < obj_Key ob) obs"
  have "sorted_wrt (\<lambda>x y. obj_Key x < obj_Key y) ?R"
    using assms by (simp add: sorted_wrt_map sorted_wrt_filter)
  then have "sorted_wrt (\<lambda>x y. entryLess (toEntry p d x) (toEntry p d y)) ?R"
    by (rule sorted_wrt_mono_rel [rotated]) (auto intro: toEntry_mono)
  then have "sorted_wrt entryLess (map (toEntry p d) ?R)" by (simp add: sorted_wrt_map)
  from emitEntries_props [OF this, of None a] have
    s: "sorted_wrt (<) (map entryKey (listEntries p d a obs))" and
    e: "set (listEntries p d a obs) = {e \<in> set (map (toEntry p d) ?R). \<forall>cp. e = EPrefix cp \<longrightarrow> a < cp}"
    by (simp_all add: listEntries_def)
  show "sorted_wrt (<) (map entryKey (listEntries p d a obs))" by (rule s)
  have "(\<forall>cp. toEntry p d ob = EPrefix cp \<longrightarrow> a < cp) \<longleftrightarrow> a < entryKey (toEntry p d ob)" if "a < obj_Key ob" for ob
    using that by (auto simp: toEntry_def split: option.splits)
  moreover have "a < obj_Key ob" if "a < entryKey (toEntry p d ob)" for ob
    using that entryKey_le [of p d ob] by order
  ultimately show "set (listEntries p d a obs) =
      {toEntry p d ob | ob. ob \<in> set obs \<and> HasPrefix (obj_Key ob) p \<and> a < entryKey (toEntry p d ob)}"
    unfolding e by (auto 4 4)
qed

lemma sorted_key_unique:
  fixes key :: "'a \<Rightarrow> 'b::linorder"
  assumes "sorted_wrt (<) (map key xs)" and "sorted_wrt (<) (map key ys)" and "set xs = set ys"
  shows "xs = ys"
proof -
  have "map key xs = map key ys"
    using assms by (intro sorted_distinct_set_unique) (auto simp: strict_sorted_iff)
  moreover have "inj_on key (set xs \<union> set ys)"
    using assms(1,3) by (simp add: strict_sorted_iff distinct_map)
  ultimately show ?thesis by (rule map_inj_on)
qed

text \<open>Continuing behind an entry lists the rest.\<close>

lemma listEntries_resume:
  assumes "sorted_wrt (<) (map obj_Key obs)" and "i < length (listEntries p d a obs)"
  shows "listEntries p d (entryKey (listEntries p d a obs ! i)) obs = drop (Suc i) (listEntries p d a obs)"
proof (rule sorted_key_unique [where key = entryKey])
  let ?E = "listEntries p d a obs"
  note props = listEntries_props [OF assms(1)]
  show "sorted_wrt (<) (map entryKey (listEntries p d (entryKey (?E ! i)) obs))" by (rule props)
  show "sorted_wrt (<) (map entryKey (drop (Suc i) ?E))"
    using props(1) [of p d a] by (simp add: drop_map [symmetric] sorted_wrt_drop)
  have "a < entryKey (?E ! i)" using nth_mem [OF assms(2)] props(2) [of p d a] by auto
  then have "set (listEntries p d (entryKey (?E ! i)) obs) = set (filter (\<lambda>e. entryKey (?E ! i) < entryKey e) ?E)"
    unfolding set_filter props(2) by auto
  then show "set (listEntries p d (entryKey (?E ! i)) obs) = set (drop (Suc i) ?E)"
    by (simp only: strict_sorted_filter_drop [OF props(1) assms(2)])
qed

section \<open>Listings of the in-memory index\<close>

definition mem_live :: "Memory \<Rightarrow> string \<Rightarrow> Object list option" where
  "mem_live m n = (case getBucket m n of Inl _ \<Rightarrow> None | Inr b \<Rightarrow> Some (liveObjects b))"

lemma mem_live_Some: "mem_live m n = Some obs \<longleftrightarrow> (\<exists>b. getBucket m n = Inr b \<and> obs = liveObjects b)"
  by (auto simp: mem_live_def split: sum.splits)

interpretation mem_listing: object_listing memory_wf ListObjects mem_live
proof
  fix m n obs p a l
  assume wf: "memory_wf m"
  {
    assume "mem_live m n = Some obs"
    then obtain b where b: "getBucket m n = Inr b" and obs: "obs = liveObjects b" by (auto simp: mem_live_Some)
    have bwf: "bucket_wf n b" using wf b by (rule memory_wf_getBucket)
    show "sorted_wrt (<) (map obj_Key obs)"
      using liveKeys_sorted [OF bwf] liveObjects_Key [OF bwf] by (simp add: obs)
    show "ListObjects m n p a l = Inr (takeLimit l (filter (\<lambda>ob. HasPrefix (obj_Key ob) p \<and> a < obj_Key ob) obs))"
      using ListObjects_eq [OF bwf b] by (simp add: obs)
  }
  show "ListObjects m n p a l = Inl ErrBucketNotFound" if "mem_live m n = None"
    using that by (auto simp: mem_live_def ListObjects_def getBucket_Inl_iff getBucket_def split: sum.splits option.splits)
qed

section \<open>The list handlers\<close>

definition show4 :: "int \<Rightarrow> string" where
  "show4 n = show2 (n div 100) @ show2 (n mod 100)"

definition show3 :: "int \<Rightarrow> string" where
  "show3 n = char_of (nat (48 + n div 100)) # show2 (n mod 100)"

text \<open>\<open>xmlTime\<close>: the layout 2006-01-02T15:04:05.000Z in UTC, milliseconds truncated.\<close>

definition xmlTime :: "gotime \<Rightarrow> string" where
  "xmlTime t =
     (let s = t div second; (y, mo, d) = civil_from_days (s div 86400); r = s mod 86400
      in show4 y @ ''-'' @ show2 mo @ ''-'' @ show2 d @ ''T'' @ show2 (r div 3600) @ '':'' @
         show2 (r mod 3600 div 60) @ '':'' @ show2 (r mod 60) @ ''.'' @ show3 (t mod second div 1000000) @ ''Z'')"

record xmlObject =
  xo_Key :: string
  xo_LastModified :: string
  xo_ETag :: string
  xo_Size :: int
  xo_StorageClass :: string

record listBucketResultV2 =
  v2_Name :: string
  v2_Prefix :: string
  v2_StartAfter :: string
  v2_ContinuationToken :: string
  v2_NextContinuationToken :: string
  v2_KeyCount :: int
  v2_MaxKeys :: int
  v2_Delimiter :: string
  v2_EncodingType :: string
  v2_IsTruncated :: bool
  v2_Contents :: "xmlObject list"
  v2_CommonPrefixes :: "string list"

record listBucketResultV1 =
  v1_Name :: string
  v1_Prefix :: string
  v1_Marker :: string
  v1_NextMarker :: string
  v1_MaxKeys :: int
  v1_Delimiter :: string
  v1_EncodingType :: string
  v1_IsTruncated :: bool
  v1_Contents :: "xmlObject list"
  v1_CommonPrefixes :: "string list"

datatype list_response = ListV2 listBucketResultV2 | ListV1 listBucketResultV1

definition quoted :: "string \<Rightarrow> string" where
  "quoted s = [CHR 0x22] @ s @ [CHR 0x22]"

definition listEnc :: "string \<Rightarrow> string \<Rightarrow> string" where
  "listEnc encoding v = (if encoding = ''url'' then EncodePath v else v)"

definition parseMaxKeys :: "url_values \<Rightarrow> (apiError, int) result" where
  "parseMaxKeys q =
     (let mk = Values_Get q ''max-keys'' in
      if mk \<noteq> [] then
        (case strconv_Atoi mk of
           None \<Rightarrow> Inl (withMessage errInvalidArgument ''invalid max-keys'')
         | Some n \<Rightarrow> if n < 0 then Inl (withMessage errInvalidArgument ''invalid max-keys'')
                     else Inr (min n 1000))
      else Inr 1000)"

definition parseListEncoding :: "url_values \<Rightarrow> (apiError, string) result" where
  "parseListEncoding q =
     (let encoding = Values_Get q ''encoding-type'' in
      if encoding \<noteq> [] \<and> encoding \<noteq> ''url'' then Inl (withMessage errInvalidArgument ''invalid encoding-type'')
      else Inr encoding)"

text \<open>The position a listing starts behind: a continuation token, start-after or marker.\<close>

definition listAfter :: "url_values \<Rightarrow> int \<Rightarrow> (apiError, string) result" where
  "listAfter q version =
     (if version = 2 then
        (let token = Values_Get q ''continuation-token'' in
         if token \<noteq> [] then
           (case base64_DecodeString RawURLEncoding token of
              None \<Rightarrow> Inl (withMessage errInvalidArgument ''invalid continuation token'')
            | Some dec \<Rightarrow> Inr dec)
         else Inr (Values_Get q ''start-after''))
      else Inr (Values_Get q ''marker''))"

definition listContents :: "string \<Rightarrow> Object \<Rightarrow> xmlObject" where
  "listContents encoding ob =
     \<lparr>xo_Key = listEnc encoding (obj_Key ob), xo_LastModified = xmlTime (obj_LastModified ob),
      xo_ETag = quoted (obj_ETag ob), xo_Size = obj_Size ob, xo_StorageClass = obj_StorageClass ob\<rparr>"

definition listResponse :: "url_values \<Rightarrow> string \<Rightarrow> int \<Rightarrow> string \<Rightarrow> int \<Rightarrow> scanResult \<Rightarrow> list_response" where
  "listResponse q bucket version encoding maxKeys res =
     (let enc = listEnc encoding;
          contents = map (listContents encoding) (sr_contents res);
          prefixes = map enc (sr_prefixes res) in
      if version = 2 then
        ListV2 \<lparr>v2_Name = bucket, v2_Prefix = enc (Values_Get q ''prefix''),
          v2_StartAfter = enc (Values_Get q ''start-after''),
          v2_ContinuationToken = Values_Get q ''continuation-token'',
          v2_NextContinuationToken =
            (if sr_truncated res then base64_EncodeToString RawURLEncoding (sr_resumeAfter res) else []),
          v2_KeyCount = int (length contents) + int (length prefixes), v2_MaxKeys = maxKeys,
          v2_Delimiter = enc (Values_Get q ''delimiter''), v2_EncodingType = encoding,
          v2_IsTruncated = sr_truncated res, v2_Contents = contents, v2_CommonPrefixes = prefixes\<rparr>
      else
        ListV1 \<lparr>v1_Name = bucket, v1_Prefix = enc (Values_Get q ''prefix''), v1_Marker = enc (Values_Get q ''marker''),
          v1_NextMarker = (if sr_truncated res then enc (sr_resumeAfter res) else []), v1_MaxKeys = maxKeys,
          v1_Delimiter = enc (Values_Get q ''delimiter''), v1_EncodingType = encoding,
          v1_IsTruncated = sr_truncated res, v1_Contents = contents, v1_CommonPrefixes = prefixes\<rparr>)"

text \<open>\<open>None\<close> is a scan that never returns.\<close>

definition handleListObjects ::
  "Memory \<Rightarrow> Request \<Rightarrow> string \<Rightarrow> int \<Rightarrow> (apiError, list_response) result option" where
  "handleListObjects m r bucket version =
     (let q = req_Query r in
      case GetBucket m bucket of
        Inl e \<Rightarrow> Some (Inl (storeError e))
      | Inr _ \<Rightarrow>
      (case parseListEncoding q of
         Inl e \<Rightarrow> Some (Inl e)
       | Inr encoding \<Rightarrow>
      (case parseMaxKeys q of
         Inl e \<Rightarrow> Some (Inl e)
       | Inr maxKeys \<Rightarrow>
      (case listAfter q version of
         Inl e \<Rightarrow> Some (Inl e)
       | Inr after \<Rightarrow>
      (case scanObjects (ListObjects m) bucket (Values_Get q ''prefix'') (Values_Get q ''delimiter'') after maxKeys of
         None \<Rightarrow> None
       | Some (Inl e) \<Rightarrow> Some (Inl (storeError e))
       | Some (Inr res) \<Rightarrow> Some (Inr (listResponse q bucket version encoding maxKeys res)))))))"

section \<open>Properties\<close>

lemma mem_live_getBucket: "GetBucket m n = Inr meta \<Longrightarrow> \<exists>b. getBucket m n = Inr b \<and> mem_live m n = Some (liveObjects b)"
  by (auto simp: GetBucket_def rbind_Inr_iff mem_live_Some)

lemma GetObject_live:
  "memory_wf m \<Longrightarrow> getBucket m n = Inr b \<Longrightarrow>
     ob \<in> set (liveObjects b) \<longleftrightarrow> GetObject m n (obj_Key ob) = Inr ob \<and> \<not> obj_DeleteMarker ob"
  using memory_wf_getBucket [of m n b] in_liveObjects_iff [of n b ob]
  by (auto simp: GetObject_def split: list.splits)

lemma live_sorted_keys: "memory_wf m \<Longrightarrow> mem_live m n = Some obs \<Longrightarrow> sorted_wrt (<) (map obj_Key obs)"
  by (rule mem_listing.live_sorted)

lemma scanned_empty:
  "scanned mk emptyScan 0 es =
     \<lparr>sr_contents = entryObjects (take (nat mk) es), sr_prefixes = entryPrefixes (take (nat mk) es),
      sr_truncated = (nat mk < length es),
      sr_resumeAfter = (if take (nat mk) es = [] then [] else entryKey (last (take (nat mk) es)))\<rparr>"
  by (simp add: scanned_def emptyScan_def Let_def)

text \<open>C18. One page of a delimited listing. The scan terminates and returns the first
  \<open>maxKeys\<close> entries, in key order, of: every object \<open>GetObject\<close> shows (no delete markers)
  under the prefix, rolled up to its common prefix when the delimiter follows, each entry
  once, behind the start position. It is marked truncated exactly when entries remain, and
  then says the position of its last entry.\<close>

theorem delimited_listing_page:
  assumes "mem_reachable m" and "GetBucket m n = Inr meta" and "0 < maxKeys"
  shows "\<exists>es. sorted_wrt (<) (map entryKey es) \<and>
     set es = {toEntry p d ob | ob. GetObject m n (obj_Key ob) = Inr ob \<and> \<not> obj_DeleteMarker ob \<and>
                 HasPrefix (obj_Key ob) p \<and> a < entryKey (toEntry p d ob)} \<and>
     scanObjects (ListObjects m) n p d a maxKeys = Some (Inr
       \<lparr>sr_contents = entryObjects (take (nat maxKeys) es), sr_prefixes = entryPrefixes (take (nat maxKeys) es),
        sr_truncated = (nat maxKeys < length es),
        sr_resumeAfter = (if take (nat maxKeys) es = [] then [] else entryKey (last (take (nat maxKeys) es)))\<rparr>)"
proof -
  have wf: "memory_wf m" using assms(1) by (rule mem_reachable_wf)
  obtain b where b: "getBucket m n = Inr b" and live: "mem_live m n = Some (liveObjects b)"
    using mem_live_getBucket [OF assms(2)] by blast
  note props = listEntries_props [OF live_sorted_keys [OF wf live], of p d a]
  show ?thesis
    using props mem_listing.scanObjects_eq [OF wf live assms(3), of p d a]
    by (intro exI [of _ "listEntries p d a (liveObjects b)"]) (simp add: scanned_empty GetObject_live [OF wf b])
qed

definition demo5 :: Memory where
  "demo5 = okOr NewMemory (PutObject demo3 (demoObject ''d/x'' ''v5'' 50) None)"

lemma demo5_step: "PutObject demo3 (demoObject ''d/x'' ''v5'' 50) None = Inr demo5"
  by code_simp

lemma demo5_reachable: "mem_reachable demo5"
  by (rule mem_reachable.step [OF demo_reachable(3), where opn = "CallPutObject (demoObject ''d/x'' ''v5'' 50) None"])
     (auto simp: op_ok_def demo5_step)

lemma demo5_bucket: "GetBucket demo5 ''bkt'' = Inr (demoBucket\<lparr>bkt_CreatedAt := 5\<rparr>)"
  by code_simp

theorem delimited_listing_page_witness:
  "\<exists>es. scanObjects (ListObjects demo5) ''bkt'' [] ''/'' [] 1 = Some (Inr
       \<lparr>sr_contents = entryObjects (take (nat 1) es), sr_prefixes = entryPrefixes (take (nat 1) es),
        sr_truncated = (nat 1 < length es),
        sr_resumeAfter = (if take (nat 1) es = [] then [] else entryKey (last (take (nat 1) es)))\<rparr>)"
  using delimited_listing_page [OF demo5_reachable demo5_bucket, of 1 "[]" "''/''" "[]"] by (simp only: zero_less_one) blast

text \<open>A client that follows the continuation tokens of ListObjectsV2 and collects the pages.\<close>

fun clientList ::
  "nat \<Rightarrow> Memory \<Rightarrow> Request \<Rightarrow> string \<Rightarrow> (xmlObject list \<times> string list) option" where
  "clientList 0 m r n = None"
| "clientList (Suc fuel) m r n =
     (case handleListObjects m r n 2 of
        Some (Inr (ListV2 resp)) \<Rightarrow>
          if v2_IsTruncated resp then
            map_option (\<lambda>(cs, ps). (v2_Contents resp @ cs, v2_CommonPrefixes resp @ ps))
              (clientList fuel m
                 (r\<lparr>req_Query := gm_put ''continuation-token'' [v2_NextContinuationToken resp] (req_Query r)\<rparr>) n)
          else Some (v2_Contents resp, v2_CommonPrefixes resp)
      | _ \<Rightarrow> None)"

lemma Values_Get_put [simp]:
  "Values_Get (gm_put k [v] q) k' = (if k' = k then v else Values_Get q k')"
  by (simp add: Values_Get_def)

lemma entry_append:
  "entryObjects (es @ fs) = entryObjects es @ entryObjects fs"
  "entryPrefixes (es @ fs) = entryPrefixes es @ entryPrefixes fs"
  by (simp_all add: entryObjects_def entryPrefixes_def)

lemma handleListObjects_V2:
  assumes "memory_wf m" and "GetBucket m n = Inr meta" and "mem_live m n = Some obs"
    and "parseListEncoding (req_Query r) = Inr encoding" and "parseMaxKeys (req_Query r) = Inr mk" and "0 < mk"
    and "listAfter (req_Query r) 2 = Inr a"
  shows "handleListObjects m r n 2 = Some (Inr (listResponse (req_Query r) n 2 encoding mk
     (scanned mk emptyScan 0 (listEntries (Values_Get (req_Query r) ''prefix'') (Values_Get (req_Query r) ''delimiter'') a obs))))"
  unfolding handleListObjects_def Let_def assms(2,4,5,7) sum.case
    mem_listing.scanObjects_eq [OF assms(1,3,6)] by simp

text \<open>The response without its echoed parameters.\<close>

lemma listResponse_V2:
  obtains resp where "listResponse q n 2 encoding mk res = ListV2 resp"
    and "v2_IsTruncated resp = sr_truncated res"
    and "v2_Contents resp = map (listContents encoding) (sr_contents res)"
    and "v2_CommonPrefixes resp = map (listEnc encoding) (sr_prefixes res)"
    and "sr_truncated res \<Longrightarrow> v2_NextContinuationToken resp = base64_EncodeToString RawURLEncoding (sr_resumeAfter res)"
  by (simp add: listResponse_def Let_def)

lemma clientList_eq:
  assumes "memory_wf m" and "GetBucket m n = Inr meta" and live: "mem_live m n = Some obs"
    and "0 < mk"
  shows "parseListEncoding (req_Query r) = Inr encoding \<Longrightarrow> parseMaxKeys (req_Query r) = Inr mk \<Longrightarrow>
    listAfter (req_Query r) 2 = Inr a \<Longrightarrow>
    es = listEntries (Values_Get (req_Query r) ''prefix'') (Values_Get (req_Query r) ''delimiter'') a obs \<Longrightarrow>
    length es < fuel \<Longrightarrow>
    clientList fuel m r n = Some (map (listContents encoding) (entryObjects es), map (listEnc encoding) (entryPrefixes es))"
proof (induction fuel arbitrary: r a es)
  case (Suc fuel)
  let ?p = "Values_Get (req_Query r) ''prefix''" and ?d = "Values_Get (req_Query r) ''delimiter''"
  let ?res = "scanned mk emptyScan 0 es"
  have h: "handleListObjects m r n 2 = Some (Inr (listResponse (req_Query r) n 2 encoding mk ?res))"
    using handleListObjects_V2 [OF assms(1,2) live Suc.prems(1,2) assms(4) Suc.prems(3)] Suc.prems(4) by simp
  obtain resp where resp: "listResponse (req_Query r) n 2 encoding mk ?res = ListV2 resp"
    and tr: "v2_IsTruncated resp = sr_truncated ?res"
    and cs: "v2_Contents resp = map (listContents encoding) (sr_contents ?res)"
    and ps: "v2_CommonPrefixes resp = map (listEnc encoding) (sr_prefixes ?res)"
    and tok: "sr_truncated ?res \<Longrightarrow> v2_NextContinuationToken resp = base64_EncodeToString RawURLEncoding (sr_resumeAfter ?res)"
    using listResponse_V2 by metis
  show ?case
  proof (cases "nat mk < length es")
    case False
    then show ?thesis by (simp add: h resp tr cs ps) (simp add: scanned_empty)
  next
    case True
    define i where "i = nat mk - 1"
    have mk: "nat mk = Suc i" using assms(4) by (simp add: i_def)
    then have i: "i < length es" "take (nat mk) es \<noteq> []" "last (take (nat mk) es) = es ! i" "nat mk = Suc i"
      using True by (auto simp: take_Suc_conv_app_nth)
    let ?a = "entryKey (es ! i)"
    have ra: "sr_resumeAfter ?res = ?a" using i by (simp add: scanned_empty)
    have trunc: "sr_truncated ?res" using True by (simp add: scanned_empty)
    have "a < ?a"
      using nth_mem [OF i(1)] unfolding Suc.prems(4) listEntries_props(2) [OF live_sorted_keys [OF assms(1) live]] by auto
    then have ne: "?a \<noteq> []" by auto
    let ?r = "r\<lparr>req_Query := gm_put ''continuation-token'' [base64_EncodeToString RawURLEncoding ?a] (req_Query r)\<rparr>"
    have la: "listAfter (req_Query ?r) 2 = Inr ?a"
      using ne by (simp add: listAfter_def base64_Decode_Encode)
    have rest: "drop (nat mk) es = listEntries (Values_Get (req_Query ?r) ''prefix'') (Values_Get (req_Query ?r) ''delimiter'') ?a obs"
      using listEntries_resume [OF live_sorted_keys [OF assms(1) live], of i ?p ?d a] i(1,4) Suc.prems(4) by simp
    have "clientList fuel m ?r n = Some (map (listContents encoding) (entryObjects (drop (nat mk) es)),
        map (listEnc encoding) (entryPrefixes (drop (nat mk) es)))"
    proof (rule Suc.IH [OF _ _ la rest])
      show "parseListEncoding (req_Query ?r) = Inr encoding" using Suc.prems(1) by (simp add: parseListEncoding_def)
      show "parseMaxKeys (req_Query ?r) = Inr mk" using Suc.prems(2) by (simp add: parseMaxKeys_def)
      show "length (drop (nat mk) es) < fuel" using Suc.prems(5) i(4) True by simp
    qed
    with trunc show ?thesis
      by (simp add: h resp tr cs ps tok ra)
         (simp add: scanned_empty map_append [symmetric] entry_append [symmetric] del: map_append)
  qed
qed simp

text \<open>C12. Pagination is complete and does not repeat: a client that follows the
  continuation tokens of ListObjectsV2 from the start, for whatever page size, prefix and
  delimiter, ends after finitely many requests and has received every live object under
  the prefix that no delimiter follows, and every common prefix, each exactly once and in
  key order.\<close>

theorem continuation_tokens_complete:
  assumes "mem_reachable m" and "GetBucket m n = Inr meta"
    and "parseListEncoding (req_Query r) = Inr encoding" and "parseMaxKeys (req_Query r) = Inr mk" and "0 < mk"
    and "Values_Get (req_Query r) ''continuation-token'' = []" and "Values_Get (req_Query r) ''start-after'' = []"
  shows "\<exists>es. sorted_wrt (<) (map entryKey es) \<and>
     set es = {toEntry (Values_Get (req_Query r) ''prefix'') (Values_Get (req_Query r) ''delimiter'') ob | ob.
       GetObject m n (obj_Key ob) = Inr ob \<and> \<not> obj_DeleteMarker ob \<and>
       HasPrefix (obj_Key ob) (Values_Get (req_Query r) ''prefix'') \<and>
       [] < entryKey (toEntry (Values_Get (req_Query r) ''prefix'') (Values_Get (req_Query r) ''delimiter'') ob)} \<and>
     (\<forall>fuel > length es. clientList fuel m r n =
        Some (map (listContents encoding) (entryObjects es), map (listEnc encoding) (entryPrefixes es)))"
proof -
  let ?p = "Values_Get (req_Query r) ''prefix''" and ?d = "Values_Get (req_Query r) ''delimiter''"
  have wf: "memory_wf m" using assms(1) by (rule mem_reachable_wf)
  obtain b where b: "getBucket m n = Inr b" and live: "mem_live m n = Some (liveObjects b)"
    using mem_live_getBucket [OF assms(2)] by blast
  have "listAfter (req_Query r) 2 = Inr []" using assms(6,7) by (simp add: listAfter_def)
  note c = clientList_eq [OF wf assms(2) live assms(5,3,4) this refl]
  note props = listEntries_props [OF live_sorted_keys [OF wf live], of ?p ?d "[]"]
  show ?thesis
    using props c by (intro exI [of _ "listEntries ?p ?d [] (liveObjects b)"]) (simp add: GetObject_live [OF wf b])
qed

theorem continuation_tokens_complete_witness:
  "\<exists>es. sorted_wrt (<) (map entryKey es) \<and>
     (\<forall>fuel > length es. clientList fuel demo5 (demoRequest ''/bkt'' []\<lparr>req_Query := [(''max-keys'', [''1'']), (''delimiter'', [''/''])]\<rparr>) ''bkt'' =
        Some (map (listContents []) (entryObjects es), map (listEnc []) (entryPrefixes es)))"
proof -
  let ?r = "demoRequest ''/bkt'' []\<lparr>req_Query := [(''max-keys'', [''1'']), (''delimiter'', [''/''])]\<rparr>"
  have "parseListEncoding (req_Query ?r) = Inr []" and "parseMaxKeys (req_Query ?r) = Inr 1"
    and "Values_Get (req_Query ?r) ''continuation-token'' = []" and "Values_Get (req_Query ?r) ''start-after'' = []"
    by code_simp+
  from continuation_tokens_complete [OF demo5_reachable demo5_bucket this(1,2) zero_less_one this(3,4)]
  show ?thesis by blast
qed

section \<open>Version listings\<close>

record xmlVersion =
  xv_Key :: string
  xv_VersionID :: string
  xv_IsLatest :: bool
  xv_LastModified :: string
  xv_ETag :: string
  xv_Size :: int
  xv_StorageClass :: string

record xmlDeleteMarker =
  xd_Key :: string
  xd_VersionID :: string
  xd_IsLatest :: bool
  xd_LastModified :: string

record listVersionsResult =
  lv_Name :: string
  lv_Prefix :: string
  lv_KeyMarker :: string
  lv_VersionIDMarker :: string
  lv_NextKeyMarker :: string
  lv_NextVersionIDMarker :: string
  lv_MaxKeys :: int
  lv_Delimiter :: string
  lv_EncodingType :: string
  lv_IsTruncated :: bool
  lv_Versions :: "xmlVersion list"
  lv_DeleteMarkers :: "xmlDeleteMarker list"
  lv_CommonPrefixes :: "string list"

definition toXmlVersion :: "string \<Rightarrow> Object \<Rightarrow> xmlVersion" where
  "toXmlVersion encoding v =
     \<lparr>xv_Key = listEnc encoding (obj_Key v), xv_VersionID = obj_VersionID v, xv_IsLatest = obj_IsLatest v,
      xv_LastModified = xmlTime (obj_LastModified v), xv_ETag = quoted (obj_ETag v), xv_Size = obj_Size v,
      xv_StorageClass = obj_StorageClass v\<rparr>"

definition toXmlDeleteMarker :: "string \<Rightarrow> Object \<Rightarrow> xmlDeleteMarker" where
  "toXmlDeleteMarker encoding v =
     \<lparr>xd_Key = listEnc encoding (obj_Key v), xd_VersionID = obj_VersionID v, xd_IsLatest = obj_IsLatest v,
      xd_LastModified = xmlTime (obj_LastModified v)\<rparr>"

text \<open>
  The loop state: the response so far, the number of items, the cursor and the position of
  the last item.
\<close>

record versionScan =
  vs_resp :: listVersionsResult
  vs_count :: int
  vs_curKey :: string
  vs_curVersion :: string
  vs_lastKey :: string
  vs_lastVersion :: string

text \<open>One page of rows; the first component tells that the scan stopped (\<open>break scan\<close>).\<close>

fun versionsBatch ::
  "string \<Rightarrow> string \<Rightarrow> string \<Rightarrow> string \<Rightarrow> int \<Rightarrow> versionScan \<Rightarrow> Object list \<Rightarrow> bool \<times> versionScan" where
  "versionsBatch prefix delimiter encoding keyMarker maxKeys st [] = (False, st)"
| "versionsBatch prefix delimiter encoding keyMarker maxKeys st (v # page) =
     (let st = st\<lparr>vs_curKey := obj_Key v, vs_curVersion := obj_VersionID v\<rparr>;
          resp = vs_resp st in
      case commonPrefix prefix delimiter (obj_Key v) of
        Some cp \<Rightarrow>
          if cp \<le> keyMarker then versionsBatch prefix delimiter encoding keyMarker maxKeys st page
          else if lv_CommonPrefixes resp \<noteq> [] \<and> last (lv_CommonPrefixes resp) = listEnc encoding cp then
            versionsBatch prefix delimiter encoding keyMarker maxKeys st page
          else if vs_count st = maxKeys then (True, st\<lparr>vs_resp := resp\<lparr>lv_IsTruncated := True\<rparr>\<rparr>)
          else versionsBatch prefix delimiter encoding keyMarker maxKeys
                 (st\<lparr>vs_resp := resp\<lparr>lv_CommonPrefixes := lv_CommonPrefixes resp @ [listEnc encoding cp]\<rparr>,
                     vs_lastKey := cp, vs_lastVersion := [], vs_count := vs_count st + 1\<rparr>) page
      | None \<Rightarrow>
          if vs_count st = maxKeys then (True, st\<lparr>vs_resp := resp\<lparr>lv_IsTruncated := True\<rparr>\<rparr>)
          else versionsBatch prefix delimiter encoding keyMarker maxKeys
                 (st\<lparr>vs_resp :=
                       (if obj_DeleteMarker v
                        then resp\<lparr>lv_DeleteMarkers := lv_DeleteMarkers resp @ [toXmlDeleteMarker encoding v]\<rparr>
                        else resp\<lparr>lv_Versions := lv_Versions resp @ [toXmlVersion encoding v]\<rparr>),
                     vs_lastKey := obj_Key v, vs_lastVersion := obj_VersionID v,
                     vs_count := vs_count st + 1\<rparr>) page)"

partial_function (option) versionsLoop ::
  "(string \<Rightarrow> string \<Rightarrow> string \<Rightarrow> int \<Rightarrow> (store_error, Object list) result) \<Rightarrow> string \<Rightarrow> string \<Rightarrow> string \<Rightarrow> string \<Rightarrow> int \<Rightarrow>
   versionScan \<Rightarrow> (store_error, versionScan) result option" where
  "versionsLoop lv prefix delimiter encoding keyMarker maxKeys st =
     (case lv prefix (vs_curKey st) (vs_curVersion st) scanPage of
        Inl e \<Rightarrow> Some (Inl e)
      | Inr page \<Rightarrow>
          (case versionsBatch prefix delimiter encoding keyMarker maxKeys st page of
             (stop, st) \<Rightarrow>
               if stop then Some (Inr st)
               else if int (length page) < scanPage then Some (Inr st)
               else versionsLoop lv prefix delimiter encoding keyMarker maxKeys st))"

definition handleListObjectVersions ::
  "Memory \<Rightarrow> Request \<Rightarrow> string \<Rightarrow> (apiError, listVersionsResult) result option" where
  "handleListObjectVersions m r bucket =
     (let q = req_Query r in
      case GetBucket m bucket of
        Inl e \<Rightarrow> Some (Inl (storeError e))
      | Inr _ \<Rightarrow>
      (case parseListEncoding q of
         Inl e \<Rightarrow> Some (Inl e)
       | Inr encoding \<Rightarrow>
      (case parseMaxKeys q of
         Inl e \<Rightarrow> Some (Inl e)
       | Inr maxKeys \<Rightarrow>
      let prefix = Values_Get q ''prefix''; delimiter = Values_Get q ''delimiter'';
          keyMarker = Values_Get q ''key-marker''; versionMarker = Values_Get q ''version-id-marker'';
          resp = \<lparr>lv_Name = bucket, lv_Prefix = listEnc encoding prefix, lv_KeyMarker = listEnc encoding keyMarker,
             lv_VersionIDMarker = versionMarker, lv_NextKeyMarker = [], lv_NextVersionIDMarker = [],
             lv_MaxKeys = maxKeys, lv_Delimiter = listEnc encoding delimiter, lv_EncodingType = encoding,
             lv_IsTruncated = False, lv_Versions = [], lv_DeleteMarkers = [], lv_CommonPrefixes = []\<rparr>;
          st = \<lparr>vs_resp = resp, vs_count = 0, vs_curKey = keyMarker, vs_curVersion = versionMarker,
             vs_lastKey = [], vs_lastVersion = []\<rparr> in
      (case (if 0 < maxKeys
             then versionsLoop (ListVersions m bucket) prefix delimiter encoding keyMarker maxKeys st
             else Some (Inr st)) of
         None \<Rightarrow> None
       | Some (Inl e) \<Rightarrow> Some (Inl (storeError e))
       | Some (Inr st) \<Rightarrow>
           (let resp = vs_resp st in
            Some (Inr (if lv_IsTruncated resp
                       then resp\<lparr>lv_NextKeyMarker := listEnc encoding (vs_lastKey st),
                                 lv_NextVersionIDMarker := vs_lastVersion st\<rparr>
                       else resp)))))))"

text \<open>
  What the version scan relies on: the listing from the start is a fixed list of rows, and
  a listing from the markers of a row is the rows behind it.
\<close>

locale version_listing =
  fixes inv :: "'s \<Rightarrow> string \<Rightarrow> bool"
    and lv :: "'s \<Rightarrow> string \<Rightarrow> string \<Rightarrow> string \<Rightarrow> string \<Rightarrow> int \<Rightarrow> (store_error, Object list) result"
    and rows :: "'s \<Rightarrow> string \<Rightarrow> string \<Rightarrow> Object list"
  assumes lv_first: "inv s n \<Longrightarrow> 0 < l \<Longrightarrow> lv s n p [] [] l = Inr (take (nat l) (rows s n p))"
    and lv_next: "inv s n \<Longrightarrow> 0 < l \<Longrightarrow> i < length (rows s n p) \<Longrightarrow>
      lv s n p (obj_Key (rows s n p ! i)) (obj_VersionID (rows s n p ! i)) l = Inr (take (nat l) (drop (Suc i) (rows s n p)))"
begin

text \<open>The markers that continue behind the first \<open>j\<close> rows.\<close>

definition at_row :: "'s \<Rightarrow> string \<Rightarrow> string \<Rightarrow> nat \<Rightarrow> string \<Rightarrow> string \<Rightarrow> bool" where
  "at_row s n p j km vm \<longleftrightarrow>
     (if j = 0 then km = [] \<and> vm = []
      else j \<le> length (rows s n p) \<and> km = obj_Key (rows s n p ! (j - 1)) \<and> vm = obj_VersionID (rows s n p ! (j - 1)))"

lemma lv_at_row:
  assumes "inv s n" and "0 < l" and "at_row s n p j km vm"
  shows "lv s n p km vm l = Inr (take (nat l) (drop j (rows s n p)))"
  using assms lv_first [OF assms(1,2), of p] lv_next [OF assms(1,2), of "j - 1" p]
  by (cases j) (auto simp: at_row_def)

end

lemma commonPrefix_no_delimiter [simp]: "commonPrefix p [] k = None"
  by (simp add: commonPrefix_def)

definition versionsScanned :: "string \<Rightarrow> int \<Rightarrow> versionScan \<Rightarrow> Object list \<Rightarrow> listVersionsResult \<times> string \<times> string" where
  "versionsScanned enc mk st xs =
     (let page = take (nat (mk - vs_count st)) xs; resp = vs_resp st in
      (resp\<lparr>lv_Versions := lv_Versions resp @ map (toXmlVersion enc) (filter (\<lambda>v. \<not> obj_DeleteMarker v) page),
            lv_DeleteMarkers := lv_DeleteMarkers resp @ map (toXmlDeleteMarker enc) (filter obj_DeleteMarker page),
            lv_IsTruncated := (lv_IsTruncated resp \<or> nat (mk - vs_count st) < length xs)\<rparr>,
       if page = [] then (vs_lastKey st, vs_lastVersion st)
       else (obj_Key (last page), obj_VersionID (last page))))"

definition scanOutput :: "versionScan \<Rightarrow> listVersionsResult \<times> string \<times> string" where
  "scanOutput st = (vs_resp st, vs_lastKey st, vs_lastVersion st)"

lemma versionsBatch_eq:
  assumes "vs_count st \<le> mk"
  shows "(fst (versionsBatch p [] enc km mk st xs) \<longleftrightarrow> nat (mk - vs_count st) < length xs) \<and>
    scanOutput (snd (versionsBatch p [] enc km mk st xs)) = versionsScanned enc mk st xs"
  using assms
proof (induction xs arbitrary: st)
  case Nil
  then show ?case by (simp add: versionsScanned_def scanOutput_def)
next
  case (Cons v xs)
  show ?case
  proof (cases "vs_count st = mk")
    case True
    then show ?thesis by (simp add: versionsScanned_def scanOutput_def Let_def)
  next
    case False
    with Cons.prems have lt: "vs_count st < mk" by simp
    define st' where "st' = st\<lparr>vs_curKey := obj_Key v, vs_curVersion := obj_VersionID v,
      vs_resp := (if obj_DeleteMarker v
        then (vs_resp st)\<lparr>lv_DeleteMarkers := lv_DeleteMarkers (vs_resp st) @ [toXmlDeleteMarker enc v]\<rparr>
        else (vs_resp st)\<lparr>lv_Versions := lv_Versions (vs_resp st) @ [toXmlVersion enc v]\<rparr>),
      vs_lastKey := obj_Key v, vs_lastVersion := obj_VersionID v, vs_count := vs_count st + 1\<rparr>"
    have step: "versionsBatch p [] enc km mk st (v # xs) = versionsBatch p [] enc km mk st' xs"
      using False by (simp add: st'_def Let_def)
    have "versionsScanned enc mk st (v # xs) = versionsScanned enc mk st' xs"
      using nat_diff_Suc [OF lt] by (simp add: versionsScanned_def st'_def Let_def)
    moreover have "nat (mk - vs_count st) < length (v # xs) \<longleftrightarrow> nat (mk - vs_count st') < length xs"
      using nat_diff_Suc [OF lt] by (simp add: st'_def)
    moreover have "vs_count st' \<le> mk" using lt by (simp add: st'_def)
    ultimately show ?thesis using Cons.IH [of st'] step by simp
  qed
qed

lemma versionsBatch_append:
  "versionsBatch p d enc km mk st (xs @ ys) =
     (let (stop, st') = versionsBatch p d enc km mk st xs in
      if stop then (stop, st') else versionsBatch p d enc km mk st' ys)"
  by (induction xs arbitrary: st) (simp_all add: Let_def split: option.split)

lemma versionsBatch_cursor:
  "xs \<noteq> [] \<Longrightarrow> versionsBatch p d enc km mk st xs = (False, st') \<Longrightarrow>
     vs_curKey st' = obj_Key (last xs) \<and> vs_curVersion st' = obj_VersionID (last xs)"
proof (induction xs arbitrary: st)
  case (Cons x xs)
  then show ?case
    by (cases "xs = []") (auto simp: Let_def split: option.splits if_splits)
qed simp

context version_listing begin

lemma versionsLoop_eq:
  assumes "inv s n"
  shows "at_row s n p j (vs_curKey st) (vs_curVersion st) \<Longrightarrow>
    versionsLoop (lv s n) p d enc km mk st =
      Some (Inr (snd (versionsBatch p d enc km mk st (drop j (rows s n p)))))"
proof (induction "length (rows s n p) - j" arbitrary: j st rule: less_induct)
  case less
  let ?R = "drop j (rows s n p)"
  have page: "lv s n p (vs_curKey st) (vs_curVersion st) 1000 = Inr (take 1000 ?R)"
    using lv_at_row [OF assms _ less.prems, of 1000] by simp
  obtain stop st' where b: "versionsBatch p d enc km mk st (take 1000 ?R) = (stop, st')"
    by (metis prod.exhaust)
  have whole: "versionsBatch p d enc km mk st ?R =
      (if stop then (stop, st') else versionsBatch p d enc km mk st' (drop 1000 ?R))"
    using versionsBatch_append [of p d enc km mk st "take 1000 ?R" "drop 1000 ?R"] by (simp add: b del: drop_drop)
  consider "stop" | "\<not> stop" "length ?R < 1000" | "\<not> stop" "1000 \<le> length ?R" by linarith
  then show ?case
  proof cases
    case 1
    with whole show ?thesis by (subst versionsLoop.simps) (simp add: page b scanPage_def)
  next
    case 2
    with whole show ?thesis by (subst versionsLoop.simps) (simp add: page b scanPage_def)
  next
    case 3
    have len: "j + 1000 \<le> length (rows s n p)" using 3(2) by simp
    have ne: "take 1000 ?R \<noteq> []" using 3(2) by auto
    have "last (take 1000 ?R) = rows s n p ! (j + 999)"
      using 3(2) ne by (simp add: last_conv_nth)
    with versionsBatch_cursor [OF ne] b 3(1)
    have cur: "at_row s n p (j + 1000) (vs_curKey st') (vs_curVersion st')"
      using len by (simp add: at_row_def add.commute [of j])
    have "length (rows s n p) - (j + 1000) < length (rows s n p) - j" using len by simp
    from less.hyps [OF this cur] 3 whole show ?thesis
      by (subst versionsLoop.simps) (simp add: page b scanPage_def add.commute)
  qed
qed

end

definition mem_versions_inv :: "Memory \<Rightarrow> string \<Rightarrow> bool" where
  "mem_versions_inv m n \<longleftrightarrow> memory_wf m \<and> (\<exists>b. getBucket m n = Inr b \<and> distinctVSeqs b \<and> versionsOf b [] = [] \<and>
     (\<forall>v \<in> set (versionRows b). obj_VersionID v \<noteq> []))"

definition mem_rows :: "Memory \<Rightarrow> string \<Rightarrow> string \<Rightarrow> Object list" where
  "mem_rows m n p = okOr [] (ListVersions m n p [] [] (- 1))"

lemma mem_rows_eq:
  assumes "mem_versions_inv m n"
  shows "ListVersions m n p [] [] (- 1) = Inr (mem_rows m n p)"
    and "0 < l \<Longrightarrow> ListVersions m n p [] [] l = Inr (take (nat l) (mem_rows m n p))"
proof -
  from assms obtain b where b: "memory_wf m" "getBucket m n = Inr b" "versionsOf b [] = []" "bucket_wf n b"
    by (auto simp: mem_versions_inv_def dest: memory_wf_getBucket)
  note f = ListVersions_first [OF b(4,2,3)]
  show "ListVersions m n p [] [] (- 1) = Inr (mem_rows m n p)"
    by (simp add: mem_rows_def f okOr_def)
  show "0 < l \<Longrightarrow> ListVersions m n p [] [] l = Inr (take (nat l) (mem_rows m n p))"
    by (simp add: mem_rows_def f okOr_def emitUpTo_Nil)
qed

interpretation mem_vlist: version_listing mem_versions_inv ListVersions mem_rows
proof
  fix m n p
  fix l :: int
  fix i
  assume inv: "mem_versions_inv m n" and l: "0 < l"
  show "ListVersions m n p [] [] l = Inr (take (nat l) (mem_rows m n p))"
    using mem_rows_eq(2) [OF inv l] .
  assume i: "i < length (mem_rows m n p)"
  from inv obtain b where b: "memory_wf m" "getBucket m n = Inr b" "distinctVSeqs b" "versionsOf b [] = []"
    "\<forall>v \<in> set (versionRows b). obj_VersionID v \<noteq> []" by (auto simp: mem_versions_inv_def)
  show "ListVersions m n p (obj_Key (mem_rows m n p ! i)) (obj_VersionID (mem_rows m n p ! i)) l =
      Inr (take (nat l) (drop (Suc i) (mem_rows m n p)))"
    by (rule ListVersions_resumes [OF b mem_rows_eq(1) [OF inv] i l])
qed

text \<open>C28. Version listings page without loss. In a well-formed state with non-empty keys and
  version ids and distinct write times, a request without delimiter whose markers are empty
  or those of the row at position \<open>j - 1\<close> of the bucket's full version listing is answered:
  the loop over index pages ends, and the response holds the next \<open>maxKeys\<close> rows, object
  versions and delete markers apart, in order; it is truncated exactly when rows remain,
  and then its next markers are those of its last row, so that the next request goes on
  behind it.\<close>

theorem version_listing_page:
  assumes "mem_versions_inv m n" and "parseListEncoding (req_Query r) = Inr enc" and "parseMaxKeys (req_Query r) = Inr mk"
    and "0 < mk" and "Values_Get (req_Query r) ''delimiter'' = []"
    and "mem_vlist.at_row m n (Values_Get (req_Query r) ''prefix'') j
       (Values_Get (req_Query r) ''key-marker'') (Values_Get (req_Query r) ''version-id-marker'')"
  shows "\<exists>resp. handleListObjectVersions m r n = Some (Inr resp) \<and>
    (let rest = drop j (mem_rows m n (Values_Get (req_Query r) ''prefix'')); page = take (nat mk) rest in
     lv_Versions resp = map (toXmlVersion enc) (filter (\<lambda>v. \<not> obj_DeleteMarker v) page) \<and>
     lv_DeleteMarkers resp = map (toXmlDeleteMarker enc) (filter obj_DeleteMarker page) \<and>
     lv_CommonPrefixes resp = [] \<and>
     (lv_IsTruncated resp \<longleftrightarrow> nat mk < length rest) \<and>
     (lv_IsTruncated resp \<longrightarrow> lv_NextKeyMarker resp = listEnc enc (obj_Key (last page)) \<and>
        lv_NextVersionIDMarker resp = obj_VersionID (last page)))"
proof -
  let ?q = "req_Query r"
  let ?p = "Values_Get ?q ''prefix''"
  from assms(1) obtain meta where meta: "GetBucket m n = Inr meta"
    by (auto simp: mem_versions_inv_def GetBucket_def)
  define st where "st = \<lparr>vs_resp = \<lparr>lv_Name = n, lv_Prefix = listEnc enc ?p,
      lv_KeyMarker = listEnc enc (Values_Get ?q ''key-marker''), lv_VersionIDMarker = Values_Get ?q ''version-id-marker'',
      lv_NextKeyMarker = [], lv_NextVersionIDMarker = [], lv_MaxKeys = mk, lv_Delimiter = listEnc enc [],
      lv_EncodingType = enc, lv_IsTruncated = False, lv_Versions = [], lv_DeleteMarkers = [], lv_CommonPrefixes = []\<rparr>,
      vs_count = 0, vs_curKey = Values_Get ?q ''key-marker'', vs_curVersion = Values_Get ?q ''version-id-marker'',
      vs_lastKey = [], vs_lastVersion = []\<rparr>"
  let ?rest = "drop j (mem_rows m n ?p)"
  let ?km = "Values_Get ?q ''key-marker''"
  define fin where "fin = snd (versionsBatch ?p [] enc ?km mk st ?rest)"
  have "mem_vlist.at_row m n ?p j (vs_curKey st) (vs_curVersion st)" using assms(6) by (simp add: st_def)
  from mem_vlist.versionsLoop_eq [OF assms(1) this, of "[]" enc ?km mk]
  have loop: "versionsLoop (ListVersions m n) ?p [] enc ?km mk st = Some (Inr fin)" by (simp add: fin_def)
  have out: "scanOutput fin = versionsScanned enc mk st ?rest"
    using versionsBatch_eq [of st mk ?p enc ?km ?rest] assms(4) by (simp add: fin_def st_def)
  have h: "handleListObjectVersions m r n = Some (Inr (let resp = vs_resp fin in
      if lv_IsTruncated resp then resp\<lparr>lv_NextKeyMarker := listEnc enc (vs_lastKey fin),
        lv_NextVersionIDMarker := vs_lastVersion fin\<rparr> else resp))"
    unfolding handleListObjectVersions_def Let_def meta assms(2,3,5) sum.case st_def [symmetric]
    using assms(4) loop by simp
  have page: "take (nat mk) ?rest \<noteq> []" if "nat mk < length ?rest" using that assms(4) by auto
  let ?page = "take (nat mk) ?rest"
  have resp: "vs_resp fin = (vs_resp st)\<lparr>
      lv_Versions := map (toXmlVersion enc) (filter (\<lambda>v. \<not> obj_DeleteMarker v) ?page),
      lv_DeleteMarkers := map (toXmlDeleteMarker enc) (filter obj_DeleteMarker ?page),
      lv_IsTruncated := nat mk < length ?rest\<rparr>"
    using arg_cong [where f = fst, OF out] by (simp add: scanOutput_def versionsScanned_def st_def Let_def)
  have "(vs_lastKey fin, vs_lastVersion fin) =
      (if ?page = [] then ([], []) else (obj_Key (last ?page), obj_VersionID (last ?page)))"
    using arg_cong [where f = snd, OF out] by (simp add: scanOutput_def versionsScanned_def st_def Let_def)
  then have last: "nat mk < length ?rest \<Longrightarrow> vs_lastKey fin = obj_Key (last ?page) \<and> vs_lastVersion fin = obj_VersionID (last ?page)"
    using page by (simp only: if_False prod.inject)
  show ?thesis
    unfolding h by (rule exI, rule conjI, rule refl) (use last in \<open>simp add: resp st_def Let_def\<close>)
qed

lemma demo3_versions_inv: "mem_versions_inv demo3 ''bkt''"
proof -
  obtain b where b: "getBucket demo3 ''bkt'' = Inr b" and b': "b = okOr undefined (getBucket demo3 ''bkt'')"
    by (cases "getBucket demo3 ''bkt''") (simp_all add: okOr_def, code_simp)
  have "distinctVSeqs b" unfolding b' distinctVSeqs_code by code_simp
  moreover have "versionsOf b [] = []" unfolding b' by code_simp
  moreover have "\<forall>v \<in> set (versionRows b). obj_VersionID v \<noteq> []" unfolding b' by code_simp
  ultimately show ?thesis
    using b mem_reachable_wf [OF demo_reachable(3)] by (auto simp: mem_versions_inv_def)
qed

theorem version_listing_page_witness:
  "\<exists>resp. handleListObjectVersions demo3 (demoRequest ''/bkt'' []\<lparr>req_Query := [(''max-keys'', [''1''])]\<rparr>) ''bkt'' = Some (Inr resp) \<and>
     lv_CommonPrefixes resp = []"
proof -
  let ?r = "demoRequest ''/bkt'' []\<lparr>req_Query := [(''max-keys'', [''1''])]\<rparr>"
  have "parseListEncoding (req_Query ?r) = Inr []" and "parseMaxKeys (req_Query ?r) = Inr 1"
    and "Values_Get (req_Query ?r) ''delimiter'' = []" by code_simp+
  moreover have "mem_vlist.at_row demo3 ''bkt'' (Values_Get (req_Query ?r) ''prefix'') 0
       (Values_Get (req_Query ?r) ''key-marker'') (Values_Get (req_Query ?r) ''version-id-marker'')"
    by (simp add: mem_vlist.at_row_def Values_Get_def)
  ultimately show ?thesis
    using version_listing_page [OF demo3_versions_inv, of ?r "[]" 1 0] by (auto simp: Let_def)
qed

end
