(* ===== verification/Index_Table.thy ===== *)
theory Index_Table
  imports Listing
begin

text \<open>
  The abstract metadata index: the tables that the interface Store (internal/store/store.go) describes, the
  effect and the errors it promises of each operation, and the contract of an implementation as the locale
  \<open>index_contract\<close>. The locale \<open>index_pair\<close> shows that two implementations of the contract answer every call alike.
\<close>

section \<open>The table\<close>

text \<open>
  The abstract index, as its interface (store.go) promises it: relations between names and values, without
  the maps of lists, the order of the versions and the flags of the latest one. The rows of objects are keyed by bucket, key
  and version id; which version is current is not stored.
\<close>

record Table =
  tb_buckets :: "string \<rightharpoonup> Bucket"
  tb_rows :: "string \<times> string \<times> string \<rightharpoonup> Object"
  tb_snapshots :: "string \<times> string \<rightharpoonup> Snapshot"
  tb_uploads :: "string \<rightharpoonup> MultipartUpload"
  tb_parts :: "string \<times> int \<rightharpoonup> Part"

definition unmarked :: "Object \<Rightarrow> Object" where
  "unmarked ob = ob\<lparr>obj_IsLatest := False\<rparr>"

text \<open>A newest row of a key is current; a listing or a get may show any of them when several are equally new.\<close>

definition current :: "Table \<Rightarrow> string \<Rightarrow> string \<Rightarrow> Object \<Rightarrow> bool" where
  "current T n k ob \<longleftrightarrow> tb_rows T (n, k, obj_VersionID ob) = Some ob \<and> (\<forall>v w. tb_rows T (n, k, v) = Some w \<longrightarrow> obj_VSeq w \<le> obj_VSeq ob)"

definition shows_etag :: "Table \<Rightarrow> string \<Rightarrow> string \<Rightarrow> string option \<Rightarrow> bool" where
  "shows_etag T n k e \<longleftrightarrow> (if \<forall>v. tb_rows T (n, k, v) = None then e = None
     else \<exists>ob. current T n k ob \<and> e = (if obj_DeleteMarker ob then None else Some (obj_ETag ob)))"

definition admits_put :: "PutCondition option \<Rightarrow> string option \<Rightarrow> bool" where
  "admits_put cond e = PutCondition_Ok cond (e \<noteq> None) (case e of None \<Rightarrow> [] | Some t \<Rightarrow> t)"

definition set_bucket :: "string \<Rightarrow> (Bucket \<Rightarrow> Bucket) \<Rightarrow> Table \<Rightarrow> Table \<Rightarrow> bool" where
  "set_bucket n f T T' \<longleftrightarrow> (\<exists>b. tb_buckets T n = Some b \<and> T' = T\<lparr>tb_buckets := (tb_buckets T)(n \<mapsto> f b)\<rparr>)"

text \<open>The effect of each operation on the table, when it succeeds.\<close>

fun table_step :: "mem_op \<Rightarrow> Table \<Rightarrow> Table \<Rightarrow> bool" where
  "table_step (CallCreateBucket now b) T T' \<longleftrightarrow> tb_buckets T (bkt_Name b) = None \<and>
     T' = T\<lparr>tb_buckets := (tb_buckets T)(bkt_Name b \<mapsto> (if bkt_CreatedAt b = zeroTime then b\<lparr>bkt_CreatedAt := now\<rparr> else b))\<rparr>"
| "table_step (CallDeleteBucket n) T T' \<longleftrightarrow> tb_buckets T n \<noteq> None \<and> (\<forall>k v. tb_rows T (n, k, v) = None) \<and>
     T' = T\<lparr>tb_buckets := (tb_buckets T)(n := None), tb_snapshots := (\<lambda>(n', l). if n' = n then None else tb_snapshots T (n', l))\<rparr>"
| "table_step (CallSetBucketVersioning n s) T T' \<longleftrightarrow> set_bucket n (\<lambda>b. b\<lparr>bkt_Versioning := s\<rparr>) T T'"
| "table_step (CallSetBucketEncryption n s) T T' \<longleftrightarrow> set_bucket n (\<lambda>b. b\<lparr>bkt_Encryption := s\<rparr>) T T'"
| "table_step (CallSetBucketRecoveryRecipient n s) T T' \<longleftrightarrow> set_bucket n (\<lambda>b. b\<lparr>bkt_RecoveryRecipient := s\<rparr>) T T'"
| "table_step (CallSetBucketCORS n s) T T' \<longleftrightarrow> set_bucket n (\<lambda>b. b\<lparr>bkt_CORS := s\<rparr>) T T'"
| "table_step (CallSetBucketTagging n s) T T' \<longleftrightarrow> set_bucket n (\<lambda>b. b\<lparr>bkt_Tags := s\<rparr>) T T'"
| "table_step (CallSetBucketACT n h g) T T' \<longleftrightarrow> set_bucket n (\<lambda>b. b\<lparr>bkt_ACT := True, bkt_ActHistory := h, bkt_ActGrantees := g\<rparr>) T T'"
| "table_step (CallSetBucketHead n r q) T T' \<longleftrightarrow> set_bucket n (\<lambda>b. b\<lparr>bkt_HeadRoot := r, bkt_CommitSeq := q\<rparr>) T T'"
| "table_step (CallSetObjectTags n k v t) T T' \<longleftrightarrow> tb_buckets T n \<noteq> None \<and>
     (\<exists>ob. (if v = [] then current T n k ob else tb_rows T (n, k, v) = Some ob) \<and>
        T' = T\<lparr>tb_rows := (tb_rows T)((n, k, obj_VersionID ob) \<mapsto> ob\<lparr>obj_Tags := t\<rparr>)\<rparr>)"
| "table_step (CallPutSnapshot now s) T T' \<longleftrightarrow> tb_buckets T (snap_Bucket s) \<noteq> None \<and>
     T' = T\<lparr>tb_snapshots := (tb_snapshots T)((snap_Bucket s, snap_Label s) \<mapsto>
       (if snap_CreatedAt s = zeroTime then s\<lparr>snap_CreatedAt := now\<rparr> else s))\<rparr>"
| "table_step (CallRestoreBucket n obs r q) T T' \<longleftrightarrow>
     (\<exists>T1. set_bucket n (\<lambda>b. b\<lparr>bkt_HeadRoot := r, bkt_CommitSeq := q\<rparr>) T T1 \<and>
        T' = T1\<lparr>tb_rows := (\<lambda>(n', k, v). if n' = n
          then map_of (map (\<lambda>ob. ((obj_Key ob, obj_VersionID ob), unmarked ob)) (map (restoredRow n) obs)) (k, v)
          else tb_rows T (n', k, v))\<rparr>)"
| "table_step (CallPutObject ob c) T T' \<longleftrightarrow> tb_buckets T (obj_Bucket ob) \<noteq> None \<and>
     (\<exists>e. shows_etag T (obj_Bucket ob) (obj_Key ob) e \<and> admits_put c e) \<and>
     T' = T\<lparr>tb_rows := (tb_rows T)((obj_Bucket ob, obj_Key ob, obj_VersionID ob) \<mapsto> unmarked ob)\<rparr>"
| "table_step (CallDeleteObject n k) T T' \<longleftrightarrow> tb_buckets T n \<noteq> None \<and>
     T' = T\<lparr>tb_rows := (\<lambda>(n', k', v). if n' = n \<and> k' = k then None else tb_rows T (n', k', v))\<rparr>"
| "table_step (CallDeleteVersion n k v) T T' \<longleftrightarrow> tb_buckets T n \<noteq> None \<and> tb_rows T (n, k, v) \<noteq> None \<and>
     T' = T\<lparr>tb_rows := (tb_rows T)((n, k, v) := None)\<rparr>"
| "table_step (CallCreateMultipartUpload now u) T T' \<longleftrightarrow> tb_buckets T (up_Bucket u) \<noteq> None \<and>
     T' = T\<lparr>tb_uploads := (tb_uploads T)(up_UploadID u \<mapsto> (if up_Initiated u = zeroTime then u\<lparr>up_Initiated := now\<rparr> else u)),
            tb_parts := (\<lambda>(uid, i). if uid = up_UploadID u then None else tb_parts T (uid, i))\<rparr>"
| "table_step (CallPutPart uid p) T T' \<longleftrightarrow> tb_uploads T uid \<noteq> None \<and>
     T' = T\<lparr>tb_parts := (tb_parts T)((uid, part_PartNumber p) \<mapsto> p)\<rparr>"
| "table_step (CallDeleteMultipartUpload uid) T T' \<longleftrightarrow> tb_uploads T uid \<noteq> None \<and>
     T' = T\<lparr>tb_uploads := (tb_uploads T)(uid := None), tb_parts := (\<lambda>(uid', i). if uid' = uid then None else tb_parts T (uid', i))\<rparr>"

text \<open>When an operation fails, and with which error.\<close>

fun table_error :: "mem_op \<Rightarrow> Table \<Rightarrow> store_error \<Rightarrow> bool" where
  "table_error (CallCreateBucket now b) T e \<longleftrightarrow> tb_buckets T (bkt_Name b) \<noteq> None \<and> e = ErrBucketExists"
| "table_error (CallPutPart uid p) T e \<longleftrightarrow> tb_uploads T uid = None \<and> e = ErrUploadNotFound"
| "table_error (CallDeleteMultipartUpload uid) T e \<longleftrightarrow> tb_uploads T uid = None \<and> e = ErrUploadNotFound"
| "table_error opn T e \<longleftrightarrow>
     (let n = (case opn of CallDeleteBucket n \<Rightarrow> n | CallSetBucketVersioning n _ \<Rightarrow> n | CallSetBucketEncryption n _ \<Rightarrow> n
         | CallSetBucketRecoveryRecipient n _ \<Rightarrow> n | CallSetBucketCORS n _ \<Rightarrow> n | CallSetBucketTagging n _ \<Rightarrow> n
         | CallSetBucketACT n _ _ \<Rightarrow> n | CallSetBucketHead n _ _ \<Rightarrow> n | CallSetObjectTags n _ _ _ \<Rightarrow> n
         | CallPutSnapshot _ s \<Rightarrow> snap_Bucket s | CallRestoreBucket n _ _ _ \<Rightarrow> n | CallPutObject ob _ \<Rightarrow> obj_Bucket ob
         | CallDeleteObject n _ \<Rightarrow> n | CallDeleteVersion n _ _ \<Rightarrow> n | CallCreateMultipartUpload _ u \<Rightarrow> up_Bucket u | _ \<Rightarrow> []) in
      if tb_buckets T n = None then e = ErrBucketNotFound
      else case opn of
        CallDeleteBucket _ \<Rightarrow> e = ErrBucketNotEmpty \<and> (\<exists>k v. tb_rows T (n, k, v) \<noteq> None)
      | CallSetObjectTags _ k v _ \<Rightarrow> e = ErrObjectNotFound \<and> (if v = [] then \<forall>w. tb_rows T (n, k, w) = None else tb_rows T (n, k, v) = None)
      | CallDeleteVersion _ k v \<Rightarrow> e = ErrObjectNotFound \<and> tb_rows T (n, k, v) = None
      | CallPutObject ob c \<Rightarrow> e = ErrPreconditionFailed \<and> (\<exists>t. shows_etag T n (obj_Key ob) t \<and> \<not> admits_put c t)
      | _ \<Rightarrow> False)"

declare table_step.simps [simp del] table_error.simps [simp del]

lemma unmarked_simps [simp]: "unmarked (ob\<lparr>obj_IsLatest := l\<rparr>) = unmarked ob" "obj_VersionID (unmarked ob) = obj_VersionID ob"
  "obj_VSeq (unmarked ob) = obj_VSeq ob" "obj_ETag (unmarked ob) = obj_ETag ob" "obj_DeleteMarker (unmarked ob) = obj_DeleteMarker ob"
  "unmarked (ob\<lparr>obj_Tags := t\<rparr>) = (unmarked ob)\<lparr>obj_Tags := t\<rparr>" "obj_Key (unmarked ob) = obj_Key ob" "obj_Bucket (unmarked ob) = obj_Bucket ob"
  by (simp_all add: unmarked_def)

lemma unmarked_eqI: "unmarked a = unmarked b \<Longrightarrow> obj_IsLatest a = obj_IsLatest b \<Longrightarrow> a = (b :: Object)"
  by (cases a, cases b) (simp add: unmarked_def)

lemma table_eqI:
  fixes T T' :: Table
  assumes "\<And>n. tb_buckets T n = tb_buckets T' n" "\<And>n k v. tb_rows T (n, k, v) = tb_rows T' (n, k, v)" "\<And>n l. tb_snapshots T (n, l) = tb_snapshots T' (n, l)"
    "\<And>u. tb_uploads T u = tb_uploads T' u" "\<And>u i. tb_parts T (u, i) = tb_parts T' (u, i)"
  shows "T = T'"
  using assms by (intro Table.equality) (auto simp: fun_eq_iff)

section \<open>The specification decides the outcome\<close>

text \<open>
  When no two newest rows of a key are equally new, the specification admits one outcome of each call: it succeeds or fails,
  with one next table or one error.
\<close>

definition newest_unique :: "Table \<Rightarrow> bool" where
  "newest_unique T \<longleftrightarrow> (\<forall>n k a b. current T n k a \<longrightarrow> current T n k b \<longrightarrow> a = b)"

lemma newest_uniqueD: "newest_unique T \<Longrightarrow> current T n k a \<Longrightarrow> current T n k b \<Longrightarrow> a = b"
  by (auto simp: newest_unique_def)

lemma shows_etag_unique: "newest_unique T \<Longrightarrow> shows_etag T n k d \<Longrightarrow> shows_etag T n k e \<Longrightarrow> d = e"
  by (auto simp: shows_etag_def split: if_splits dest: newest_uniqueD)

lemma set_bucket_unique: "set_bucket n f T T1 \<Longrightarrow> set_bucket n f T T2 \<Longrightarrow> T1 = T2"
  by (auto simp: set_bucket_def)

lemma table_step_unique:
  assumes "newest_unique T" "table_step opn T T1" "table_step opn T T2"
  shows "T1 = T2"
proof (cases opn)
  case (CallSetObjectTags n k v t)
  with assms show ?thesis by (auto simp: table_step.simps split: if_splits dest: newest_uniqueD)
next
  case (CallRestoreBucket n obs r q)
  with assms show ?thesis by (auto simp: table_step.simps dest: set_bucket_unique)
qed (use assms in \<open>auto simp: table_step.simps dest: set_bucket_unique\<close>)

lemma table_error_unique: "table_error opn T d \<Longrightarrow> table_error opn T e \<Longrightarrow> d = e"
  by (cases opn) (auto simp: table_error.simps Let_def split: if_splits)

lemma current_row: "current T n k ob \<Longrightarrow> \<exists>v. tb_rows T (n, k, v) = Some ob"
  by (auto simp: current_def)

lemma table_error_blocks:
  assumes "newest_unique T" "table_step opn T T'" "table_error opn T e"
  shows False
proof (cases opn)
  case (CallSetObjectTags n k v t)
  with assms show ?thesis by (auto simp: table_step.simps table_error.simps Let_def split: if_splits dest: current_row)
next
  case (CallPutObject ob c)
  with assms show ?thesis by (auto simp: table_step.simps table_error.simps Let_def split: if_splits dest: shows_etag_unique)
qed (use assms in \<open>auto simp: table_step.simps table_error.simps set_bucket_def Let_def split: if_splits\<close>)

section \<open>Listings\<close>

text \<open>
  A listing shows one current row of each key in its range, in the order of the keys, but for the keys whose current row
  is a delete marker.
\<close>

definition in_listing :: "string \<Rightarrow> string \<Rightarrow> string \<Rightarrow> bool" where
  "in_listing p a k \<longleftrightarrow> HasPrefix k p \<and> a < k"

definition full_listing :: "Table \<Rightarrow> string \<Rightarrow> string \<Rightarrow> string \<Rightarrow> Object list \<Rightarrow> bool" where
  "full_listing T n p a obs \<longleftrightarrow> sorted_wrt (<) (map obj_Key obs) \<and>
     (\<forall>ob \<in> set obs. in_listing p a (obj_Key ob) \<and> obj_IsLatest ob \<and> \<not> obj_DeleteMarker ob \<and> current T n (obj_Key ob) (unmarked ob)) \<and>
     (\<forall>k. in_listing p a k \<longrightarrow> (\<exists>v. tb_rows T (n, k, v) \<noteq> None) \<longrightarrow>
        k \<in> obj_Key ` set obs \<or> (\<exists>ob. current T n k ob \<and> obj_DeleteMarker ob))"

definition listing_of :: "Table \<Rightarrow> string \<Rightarrow> string \<Rightarrow> string \<Rightarrow> int \<Rightarrow> Object list \<Rightarrow> bool" where
  "listing_of T n p a limit obs \<longleftrightarrow> (\<exists>full. full_listing T n p a full \<and> obs = takeLimit limit full)"

lemma full_listing_subset:
  assumes u: "newest_unique T" and xs: "full_listing T n p a xs" and ys: "full_listing T n p a ys"
  shows "set xs \<subseteq> set ys"
proof
  fix x assume "x \<in> set xs"
  then have x: "in_listing p a (obj_Key x)" "obj_IsLatest x" "\<not> obj_DeleteMarker x" "current T n (obj_Key x) (unmarked x)"
    using xs unfolding full_listing_def by blast+
  have "tb_rows T (n, obj_Key x, obj_VersionID x) \<noteq> None" using x(4) unfolding current_def by simp
  then consider (row) "obj_Key x \<in> obj_Key ` set ys" | (marker) ob where "current T n (obj_Key x) ob" "obj_DeleteMarker ob"
    using ys x(1) unfolding full_listing_def by blast
  then show "x \<in> set ys"
  proof cases
    case row
    then obtain y where y: "y \<in> set ys" "obj_Key y = obj_Key x" by (metis imageE)
    then have "obj_IsLatest y" "current T n (obj_Key x) (unmarked y)" using ys unfolding full_listing_def by metis+
    moreover have "unmarked x = unmarked y" by (rule newest_uniqueD [OF u x(4)]) fact
    ultimately have "x = y" using x(2) by (metis unmarked_eqI)
    with y(1) show ?thesis by simp
  next
    case marker
    then have "ob = unmarked x" using newest_uniqueD [OF u _ x(4)] by blast
    with marker(2) x(3) show ?thesis by simp
  qed
qed

lemma listing_unique:
  assumes "newest_unique T" "listing_of T n p a limit xs" "listing_of T n p a limit ys"
  shows "xs = ys"
proof -
  obtain fx where fx: "full_listing T n p a fx" "xs = takeLimit limit fx" using assms(2) unfolding listing_of_def by blast
  obtain fy where fy: "full_listing T n p a fy" "ys = takeLimit limit fy" using assms(3) unfolding listing_of_def by blast
  have "set fx = set fy"
    using full_listing_subset [OF assms(1) fx(1) fy(1)] full_listing_subset [OF assms(1) fy(1) fx(1)] by simp
  moreover have "sorted_wrt (<) (map obj_Key fx)" "sorted_wrt (<) (map obj_Key fy)" using fx(1) fy(1) by (simp_all add: full_listing_def)
  ultimately have "fx = fy" by (intro sorted_key_unique)
  with fx(2) fy(2) show ?thesis by simp
qed

text \<open>
  A listing of versions shows every row after the marker, by key and newest first, each with the flag of the latest on the
  current row. Its order is one when no two rows of a key are equally new.
\<close>

definition vseqs_distinct :: "Table \<Rightarrow> bool" where
  "vseqs_distinct T \<longleftrightarrow> (\<forall>n k v w a b. tb_rows T (n, k, v) = Some a \<longrightarrow> tb_rows T (n, k, w) = Some b \<longrightarrow> obj_VSeq a = obj_VSeq b \<longrightarrow> v = w)"

definition after_marker :: "Table \<Rightarrow> string \<Rightarrow> string \<Rightarrow> string \<Rightarrow> Object \<Rightarrow> bool" where
  "after_marker T n km vm w \<longleftrightarrow>
     (let pos = (case tb_rows T (n, km, vm) of None \<Rightarrow> - 1 | Some a \<Rightarrow> obj_VSeq a) in
      if km = [] then True
      else if vm \<noteq> [] \<and> 0 \<le> pos then km < obj_Key w \<or> (obj_Key w = km \<and> obj_VSeq w < pos)
      else km < obj_Key w)"

definition version_listing :: "Table \<Rightarrow> string \<Rightarrow> string \<Rightarrow> string \<Rightarrow> string \<Rightarrow> Object list \<Rightarrow> bool" where
  "version_listing T n p km vm obs \<longleftrightarrow> sorted_wrt (<) (map rowPos obs) \<and>
     (\<forall>ob \<in> set obs. obj_IsLatest ob \<longleftrightarrow> current T n (obj_Key ob) (unmarked ob)) \<and>
     unmarked ` set obs = {w. (\<exists>k v. tb_rows T (n, k, v) = Some w \<and> obj_Key w = k) \<and> HasPrefix (obj_Key w) p \<and> after_marker T n km vm w}"

lemma version_listing_subset:
  assumes xs: "version_listing T n p km vm xs" and ys: "version_listing T n p km vm ys"
  shows "set xs \<subseteq> set ys"
proof
  fix x assume x: "x \<in> set xs"
  have "unmarked ` set xs = unmarked ` set ys" using xs ys unfolding version_listing_def by (elim conjE) (simp only:)
  then have "unmarked x \<in> unmarked ` set ys" using x by blast
  then obtain y where y: "y \<in> set ys" "unmarked x = unmarked y" by blast
  have key: "obj_Key x = obj_Key y" using arg_cong [OF y(2), of obj_Key] by simp
  have "obj_IsLatest x \<longleftrightarrow> current T n (obj_Key x) (unmarked x)" using xs x unfolding version_listing_def by blast
  moreover have "obj_IsLatest y \<longleftrightarrow> current T n (obj_Key y) (unmarked y)" using ys y(1) unfolding version_listing_def by blast
  ultimately have "obj_IsLatest x \<longleftrightarrow> obj_IsLatest y" by (simp only: y(2) key)
  with y(2) have "x = y" by (rule unmarked_eqI)
  with y(1) show "x \<in> set ys" by simp
qed

lemma version_listing_unique:
  assumes "version_listing T n p km vm xs" "version_listing T n p km vm ys"
  shows "xs = ys"
proof (rule sorted_key_unique)
  show "sorted_wrt (<) (map rowPos xs)" "sorted_wrt (<) (map rowPos ys)" using assms by (simp_all add: version_listing_def)
  show "set xs = set ys" using version_listing_subset [OF assms] version_listing_subset [OF assms(2,1)] by simp
qed

section \<open>The contract of an index\<close>

text \<open>
  What the handlers rely on: an implementation has states with a table each, every call that it admits keeps its
  invariant and changes the table or fails as the specification says, and the reads show the rows of the table. \<open>admits\<close> says which
  calls of a state the contract covers.
\<close>

locale index_contract =
  fixes exec :: "mem_op \<Rightarrow> 's \<Rightarrow> ('e, 's) result"
    and sentinel :: "store_error \<Rightarrow> 'e"
    and tab :: "'s \<Rightarrow> Table"
    and inv :: "'s \<Rightarrow> bool"
    and admits :: "'s \<Rightarrow> mem_op \<Rightarrow> bool"
    and get :: "'s \<Rightarrow> string \<Rightarrow> string \<Rightarrow> ('e, Object) result"
    and get_version :: "'s \<Rightarrow> string \<Rightarrow> string \<Rightarrow> string \<Rightarrow> ('e, Object) result"
    and list_objects :: "'s \<Rightarrow> string \<Rightarrow> string \<Rightarrow> string \<Rightarrow> int \<Rightarrow> ('e, Object list) result"
    and list_versions :: "'s \<Rightarrow> string \<Rightarrow> string \<Rightarrow> string \<Rightarrow> string \<Rightarrow> int \<Rightarrow> ('e, Object list) result"
  assumes step_inv: "inv s \<Longrightarrow> admits s opn \<Longrightarrow> exec opn s = Inr s' \<Longrightarrow> inv s'"
    and step_table: "inv s \<Longrightarrow> admits s opn \<Longrightarrow> exec opn s = Inr s' \<Longrightarrow> table_step opn (tab s) (tab s')"
    and step_error: "inv s \<Longrightarrow> admits s opn \<Longrightarrow> exec opn s = Inl e \<Longrightarrow> \<exists>x. e = sentinel x \<and> table_error opn (tab s) x"
    and get_current: "inv s \<Longrightarrow> get s n k = Inr ob \<Longrightarrow> obj_IsLatest ob \<and> current (tab s) n k (unmarked ob)"
    and get_error: "inv s \<Longrightarrow> get s n k = Inl e \<Longrightarrow> (\<forall>v. tb_rows (tab s) (n, k, v) = None) \<and>
      e = sentinel (if tb_buckets (tab s) n = None then ErrBucketNotFound else ErrObjectNotFound)"
    and get_version_row: "inv s \<Longrightarrow> get_version s n k v = Inr ob \<Longrightarrow>
      tb_rows (tab s) (n, k, v) = Some (unmarked ob)"
    and get_version_error: "inv s \<Longrightarrow> get_version s n k v = Inl e \<Longrightarrow> tb_rows (tab s) (n, k, v) = None \<and>
      e = sentinel (if tb_buckets (tab s) n = None then ErrBucketNotFound else ErrObjectNotFound)"
    and list_rows: "inv s \<Longrightarrow> list_objects s n p a limit = Inr obs \<Longrightarrow> tb_buckets (tab s) n \<noteq> None \<and> listing_of (tab s) n p a limit obs"
    and list_error: "inv s \<Longrightarrow> list_objects s n p a limit = Inl e \<Longrightarrow> tb_buckets (tab s) n = None \<and> e = sentinel ErrBucketNotFound"
    and version_rows: "inv s \<Longrightarrow> vseqs_distinct (tab s) \<Longrightarrow> limit \<noteq> 0 \<Longrightarrow> \<forall>v. tb_rows (tab s) (n, [], v) = None \<Longrightarrow>
      list_versions s n p km vm limit = Inr obs \<Longrightarrow> tb_buckets (tab s) n \<noteq> None \<and> (\<exists>full. version_listing (tab s) n p km vm full \<and> obs = takeLimit limit full)"
    and version_error: "inv s \<Longrightarrow> list_versions s n p km vm limit = Inl e \<Longrightarrow> tb_buckets (tab s) n = None \<and> e = sentinel ErrBucketNotFound"
begin

text \<open>A write that is newer than the other rows of its key is what a get returns next, and no other key changes.\<close>

lemma put_table:
  assumes "inv s" "admits s (CallPutObject ob c)" "exec (CallPutObject ob c) s = Inr s'"
  shows "tab s' = (tab s)\<lparr>tb_rows := (tb_rows (tab s))((obj_Bucket ob, obj_Key ob, obj_VersionID ob) \<mapsto> unmarked ob)\<rparr>"
  using step_table [OF assms] unfolding table_step.simps by blast

lemma put_get:
  assumes "inv s" "admits s (CallPutObject ob c)" "exec (CallPutObject ob c) s = Inr s'"
    and "\<And>v w. tb_rows (tab s) (obj_Bucket ob, obj_Key ob, v) = Some w \<Longrightarrow> v \<noteq> obj_VersionID ob \<Longrightarrow> obj_VSeq w < obj_VSeq ob"
  shows "get s' (obj_Bucket ob) (obj_Key ob) = Inr (ob\<lparr>obj_IsLatest := True\<rparr>)"
proof -
  let ?n = "obj_Bucket ob" and ?k = "obj_Key ob" and ?v = "obj_VersionID ob"
  have inv: "inv s'" using assms(1-3) by (rule step_inv)
  note T' = put_table [OF assms(1-3)]
  have row: "tb_rows (tab s') (?n, ?k, ?v) = Some (unmarked ob)" by (simp add: T')
  show ?thesis
  proof (cases "get s' ?n ?k")
    case (Inl e)
    with get_error [OF inv this] row show ?thesis by simp
  next
    case (Inr w)
    have w: "obj_IsLatest w" and cur: "current (tab s') ?n ?k (unmarked w)" using get_current [OF inv Inr] by simp_all
    have "obj_VersionID w = ?v"
    proof (rule ccontr)
      assume other: "obj_VersionID w \<noteq> ?v"
      then have "tb_rows (tab s) (?n, ?k, obj_VersionID w) = Some (unmarked w)" using cur by (simp add: current_def T')
      then have "obj_VSeq w < obj_VSeq ob" using assms(4) other by fastforce
      moreover have "obj_VSeq ob \<le> obj_VSeq w" using cur row unfolding current_def by fastforce
      ultimately show False by simp
    qed
    then have "unmarked w = unmarked ob" using cur row by (simp add: current_def)
    then have "unmarked w = unmarked (ob\<lparr>obj_IsLatest := True\<rparr>)" by simp
    then have "w = ob\<lparr>obj_IsLatest := True\<rparr>" by (rule unmarked_eqI) (simp add: w)
    with Inr show ?thesis by simp
  qed
qed

end

text \<open>The results of a sequence of calls, each on the state its predecessors left, and the last state.\<close>

fun run_calls :: "(mem_op \<Rightarrow> 's \<Rightarrow> ('e, 's) result) \<Rightarrow> mem_op list \<Rightarrow> 's \<Rightarrow> 'e option list \<times> 's" where
  "run_calls exec [] s = ([], s)"
| "run_calls exec (opn # opns) s =
     (case exec opn s of
        Inl e \<Rightarrow> (let (es, t) = run_calls exec opns s in (Some e # es, t))
      | Inr s' \<Rightarrow> (let (es, t) = run_calls exec opns s' in (None # es, t)))"

fun all_admitted :: "(mem_op \<Rightarrow> 's \<Rightarrow> ('e, 's) result) \<Rightarrow> ('s \<Rightarrow> mem_op \<Rightarrow> bool) \<Rightarrow> mem_op list \<Rightarrow> 's \<Rightarrow> bool" where
  "all_admitted exec admits [] s = True"
| "all_admitted exec admits (opn # opns) s =
     (admits s opn \<and> all_admitted exec admits opns (case exec opn s of Inl e \<Rightarrow> s | Inr s' \<Rightarrow> s'))"

section \<open>Two indexes\<close>

text \<open>
  Two implementations of the contract cannot be told apart. One of them keeps its newest rows unique and admits no
  call that the other does not.
\<close>

locale index_pair =
  A: index_contract exec1 sentinel1 tab1 inv1 admits1 get1 get_version1 list1 versions1 +
  B: index_contract exec2 sentinel2 tab2 inv2 admits2 get2 get_version2 list2 versions2
  for exec1 :: "mem_op \<Rightarrow> 's \<Rightarrow> ('d, 's) result" and sentinel1 tab1 inv1 admits1 get1 get_version1 list1 versions1
    and exec2 :: "mem_op \<Rightarrow> 't \<Rightarrow> ('e, 't) result" and sentinel2 tab2 inv2 admits2 get2 get_version2 list2 versions2 +
  assumes unique: "inv2 t \<Longrightarrow> newest_unique (tab2 t)"
    and distinct_vseqs: "inv2 t \<Longrightarrow> vseqs_distinct (tab2 t)"
    and admitted: "inv1 s \<Longrightarrow> inv2 t \<Longrightarrow> tab1 s = tab2 t \<Longrightarrow> admits2 t opn \<Longrightarrow> admits1 s opn"
begin

lemma same_call:
  assumes "inv1 s" "inv2 t" "tab1 s = tab2 t" "admits2 t opn"
  shows "(\<exists>s' t'. exec1 opn s = Inr s' \<and> exec2 opn t = Inr t' \<and> inv1 s' \<and> inv2 t' \<and> tab1 s' = tab2 t') \<or>
    (\<exists>x. exec1 opn s = Inl (sentinel1 x) \<and> exec2 opn t = Inl (sentinel2 x))"
proof -
  have a1: "admits1 s opn" by (rule admitted [OF assms])
  note u = unique [OF assms(2)]
  show ?thesis
  proof (cases "exec1 opn s")
    case (Inl d)
    obtain x where x: "d = sentinel1 x" "table_error opn (tab2 t) x" using A.step_error [OF assms(1) a1 Inl] assms(3) by auto
    show ?thesis
    proof (cases "exec2 opn t")
      case (Inl e)
      obtain y where y: "e = sentinel2 y" "table_error opn (tab2 t) y" using B.step_error [OF assms(2,4) Inl] by auto
      from table_error_unique [OF x(2) y(2)] Inl \<open>exec1 opn s = Inl d\<close> x(1) y(1) show ?thesis by auto
    next
      case (Inr t')
      from table_error_blocks [OF u B.step_table [OF assms(2,4) Inr] x(2)] show ?thesis ..
    qed
  next
    case (Inr s')
    note st = A.step_table [OF assms(1) a1 Inr, unfolded assms(3)]
    show ?thesis
    proof (cases "exec2 opn t")
      case (Inl e)
      obtain y where "table_error opn (tab2 t) y" using B.step_error [OF assms(2,4) Inl] by auto
      from table_error_blocks [OF u st this] show ?thesis ..
    next
      case (Inr t')
      from table_step_unique [OF u st B.step_table [OF assms(2,4) Inr]] A.step_inv [OF assms(1) a1 \<open>exec1 opn s = Inr s'\<close>]
        B.step_inv [OF assms(2,4) Inr] \<open>exec1 opn s = Inr s'\<close> Inr show ?thesis by blast
    qed
  qed
qed

lemma same_calls:
  assumes "inv1 s" "inv2 t" "tab1 s = tab2 t" "all_admitted exec2 admits2 opns t"
  shows "\<exists>es s' t'. run_calls exec1 opns s = (map (map_option sentinel1) es, s') \<and> run_calls exec2 opns t = (map (map_option sentinel2) es, t') \<and>
    inv1 s' \<and> inv2 t' \<and> tab1 s' = tab2 t'"
  using assms
proof (induction opns arbitrary: s t)
  case Nil
  then show ?case by (auto intro!: exI [of _ "[] :: store_error option list"])
next
  case (Cons opn opns)
  have now: "admits2 t opn" and rest: "all_admitted exec2 admits2 opns (case exec2 opn t of Inl e \<Rightarrow> t | Inr t' \<Rightarrow> t')" using Cons.prems(4) by simp_all
  from same_call [OF Cons.prems(1-3) now] show ?case
  proof (elim disjE exE conjE)
    fix s' t' assume ok: "exec1 opn s = Inr s'" "exec2 opn t = Inr t'" and *: "inv1 s'" "inv2 t'" "tab1 s' = tab2 t'"
    with rest Cons.IH [OF *] obtain es u w where "run_calls exec1 opns s' = (map (map_option sentinel1) es, u)"
      "run_calls exec2 opns t' = (map (map_option sentinel2) es, w)" "inv1 u" "inv2 w" "tab1 u = tab2 w" by auto
    with ok show ?thesis by (intro exI [of _ "None # es"]) simp
  next
    fix x assume bad: "exec1 opn s = Inl (sentinel1 x)" "exec2 opn t = Inl (sentinel2 x)"
    with rest Cons.IH [OF Cons.prems(1-3)] obtain es u w where "run_calls exec1 opns s = (map (map_option sentinel1) es, u)"
      "run_calls exec2 opns t = (map (map_option sentinel2) es, w)" "inv1 u" "inv2 w" "tab1 u = tab2 w" by auto
    with bad show ?thesis by (intro exI [of _ "Some x # es"]) simp
  qed
qed

lemma same_get:
  assumes "inv1 s" "inv2 t" "tab1 s = tab2 t"
  shows "(\<exists>ob. get1 s n k = Inr ob \<and> get2 t n k = Inr ob) \<or> (\<exists>x. get1 s n k = Inl (sentinel1 x) \<and> get2 t n k = Inl (sentinel2 x))"
proof (cases "get1 s n k")
  case (Inl d)
  note one = A.get_error [OF assms(1) Inl]
  show ?thesis
  proof (cases "get2 t n k")
    case (Inl e)
    from B.get_error [OF assms(2) Inl] one Inl \<open>get1 s n k = Inl d\<close> assms(3) show ?thesis by auto
  next
    case (Inr b)
    from B.get_current [OF assms(2) Inr] one assms(3) show ?thesis by (auto simp: current_def)
  qed
next
  case (Inr a)
  note one = A.get_current [OF assms(1) Inr]
  show ?thesis
  proof (cases "get2 t n k")
    case (Inl e)
    from B.get_error [OF assms(2) Inl] one assms(3) show ?thesis by (auto simp: current_def)
  next
    case (Inr b)
    have b: "obj_IsLatest b" "current (tab2 t) n k (unmarked b)" using B.get_current [OF assms(2) Inr] by simp_all
    have a: "obj_IsLatest a" "current (tab2 t) n k (unmarked a)" using one assms(3) by simp_all
    have "a = b" by (rule unmarked_eqI) (use newest_uniqueD [OF unique [OF assms(2)] a(2) b(2)] a(1) b(1) in simp_all)
    with Inr \<open>get1 s n k = Inr a\<close> show ?thesis by blast
  qed
qed

lemma same_listing:
  assumes "inv1 s" "inv2 t" "tab1 s = tab2 t"
  shows "(\<exists>obs. list1 s n p a limit = Inr obs \<and> list2 t n p a limit = Inr obs) \<or>
    (list1 s n p a limit = Inl (sentinel1 ErrBucketNotFound) \<and> list2 t n p a limit = Inl (sentinel2 ErrBucketNotFound))"
proof (cases "list1 s n p a limit")
  case (Inl d)
  then show ?thesis
    using A.list_error [OF assms(1) Inl] B.list_error [OF assms(2)] B.list_rows [OF assms(2)] assms(3)
    by (cases "list2 t n p a limit") auto
next
  case (Inr xs)
  note one = A.list_rows [OF assms(1) Inr]
  show ?thesis
  proof (cases "list2 t n p a limit")
    case (Inl e)
    from B.list_error [OF assms(2) Inl] one assms(3) show ?thesis by simp
  next
    case (Inr ys)
    from B.list_rows [OF assms(2) Inr] one assms(3) have "xs = ys" using listing_unique [OF unique [OF assms(2)]] by auto
    with Inr \<open>list1 s n p a limit = Inr xs\<close> show ?thesis by blast
  qed
qed

lemma same_versions:
  assumes "inv1 s" "inv2 t" "tab1 s = tab2 t" "limit \<noteq> 0" "\<forall>v. tb_rows (tab2 t) (n, [], v) = None"
  shows "(\<exists>obs. versions1 s n p km vm limit = Inr obs \<and> versions2 t n p km vm limit = Inr obs) \<or>
    (versions1 s n p km vm limit = Inl (sentinel1 ErrBucketNotFound) \<and> versions2 t n p km vm limit = Inl (sentinel2 ErrBucketNotFound))"
proof -
  note d = distinct_vseqs [OF assms(2)]
  note rows1 = A.version_rows [OF assms(1), unfolded assms(3), OF d assms(4,5)] and rows2 = B.version_rows [OF assms(2) d assms(4,5)]
  note error1 = A.version_error [OF assms(1), unfolded assms(3)] and error2 = B.version_error [OF assms(2)]
  show ?thesis
  proof (cases "versions1 s n p km vm limit")
    case (Inl e)
    with error1 [OF Inl] error2 rows2 show ?thesis by (cases "versions2 t n p km vm limit") auto
  next
    case (Inr xs)
    show ?thesis
    proof (cases "versions2 t n p km vm limit")
      case (Inl e)
      with error2 [OF Inl] rows1 [OF Inr] show ?thesis by simp
    next
      case (Inr ys)
      from rows1 [OF \<open>versions1 s n p km vm limit = Inr xs\<close>] rows2 [OF Inr] have "xs = ys" by (auto dest: version_listing_unique)
      with Inr \<open>versions1 s n p km vm limit = Inr xs\<close> show ?thesis by blast
    qed
  qed
qed

end

end
