(* ===== verification/Sql_Table.thy ===== *)
theory Sql_Table
  imports Sql_Rows Index_Table
begin

text \<open>
  The invariant of the SQL databases and the abstract table of one: lookups by primary key after each statement, the
  order of the versions of a key and the promotion of the newest, what the contract covers (\<open>sql_admits\<close>).
\<close>

section \<open>The invariant of the database\<close>

text \<open>
  The primary keys are unique, rows of objects and parts have their bucket and upload, no two versions of a key
  have the same sequence number, and the flag of the latest version is on the newest one.
\<close>

definition versionRowsOf :: "objectRow list \<Rightarrow> string \<Rightarrow> string \<Rightarrow> objectRow set" where
  "versionRowsOf rows n k = {r \<in> set rows. oc_bucket r = n \<and> oc_key r = k}"

definition newestOf :: "objectRow set \<Rightarrow> objectRow \<Rightarrow> bool" where
  "newestOf S r \<longleftrightarrow> (\<forall>q \<in> S. oc_vseq q \<le> oc_vseq r)"

definition key_wf :: "objectRow set \<Rightarrow> bool" where
  "key_wf S \<longleftrightarrow> inj_on oc_vseq S \<and> (\<forall>r \<in> S. oc_is_latest r \<longleftrightarrow> newestOf S r)"

definition objects_wf :: "objectRow list \<Rightarrow> bool" where
  "objects_wf rows \<longleftrightarrow> distinct (map objectKey rows) \<and> (\<forall>n k. key_wf (versionRowsOf rows n k))"

definition sql_wf :: "Database \<Rightarrow> bool" where
  "sql_wf s \<longleftrightarrow> distinct (map bc_name (db_buckets s)) \<and> distinct (map snapshotKey (db_snapshots s)) \<and>
     distinct (map uc_upload_id (db_uploads s)) \<and> distinct (map partKey (db_parts s)) \<and> objects_wf (db_objects s) \<and>
     (\<forall>r \<in> set (db_objects s). oc_bucket r \<in> bc_name ` set (db_buckets s)) \<and>
     (\<forall>r \<in> set (db_parts s). pc_upload_id r \<in> uc_upload_id ` set (db_uploads s))"

section \<open>Lookup by primary key\<close>

definition lookup :: "('r \<Rightarrow> 'k) \<Rightarrow> 'r list \<Rightarrow> 'k \<Rightarrow> 'r option" where
  "lookup key rows x = find (\<lambda>r. key r = x) rows"

named_theorems lookup_simps \<open>lookups after the statements\<close>

lemma lookup_Nil [simp]: "lookup key [] x = None"
  by (simp add: lookup_def)

lemma lookup_Cons [simp]: "lookup key (r # rows) x = (if key r = x then Some r else lookup key rows x)"
  by (simp add: lookup_def)

lemma lookup_append [simp]: "lookup key (rows @ rest) x = (case lookup key rows x of None \<Rightarrow> lookup key rest x | Some r \<Rightarrow> Some r)"
  by (induction rows) auto

lemma lookup_None_iff: "lookup key rows x = None \<longleftrightarrow> x \<notin> key ` set rows"
  by (induction rows) auto

lemma lookup_SomeD: "lookup key rows x = Some r \<Longrightarrow> r \<in> set rows \<and> key r = x"
  by (induction rows) (auto split: if_splits)

lemma lookup_Some_iff: "distinct (map key rows) \<Longrightarrow> lookup key rows x = Some r \<longleftrightarrow> r \<in> set rows \<and> key r = x"
  by (induction rows) (auto split: if_splits)

lemma lookup_filter: "(\<And>r. r \<in> set rows \<Longrightarrow> key r = x \<Longrightarrow> p r \<longleftrightarrow> P) \<Longrightarrow> lookup key (filter p rows) x = (if P then lookup key rows x else None)"
  by (induction rows) auto

lemma lookup_map: "(\<And>r. key (f r) = key r) \<Longrightarrow> lookup key (map f rows) x = map_option f (lookup key rows x)"
  by (induction rows) auto

lemma list_ex_key: "list_ex (\<lambda>x. key x = y) rows \<longleftrightarrow> lookup key rows y \<noteq> None"
  by (induction rows) auto

lemma lookup_insert: "sql_insert key r rows = Inr rows' \<longleftrightarrow> lookup key rows (key r) = None \<and> rows' = rows @ [r]"
  "sql_insert key r rows = Inl e \<longleftrightarrow> lookup key rows (key r) \<noteq> None \<and> e = ConstraintFailed"
  by (auto simp: sql_insert_def list_ex_key)

lemma lookup_update [lookup_simps]:
  "(\<And>r. key (f r) = key r) \<Longrightarrow> lookup key (snd (sql_update p f rows)) x = map_option (\<lambda>r. if p r then f r else r) (lookup key rows x)"
  by (simp add: sql_update_def lookup_map)

lemma lookup_delete [lookup_simps]:
  "(\<And>r. r \<in> set rows \<Longrightarrow> key r = x \<Longrightarrow> p r \<longleftrightarrow> P) \<Longrightarrow> lookup key (snd (sql_delete p rows)) x = (if P then None else lookup key rows x)"
  by (simp add: sql_delete_def lookup_filter [where P = "\<not> P"])

lemma find_lookup: "find (\<lambda>r. key r = x) rows = lookup key rows x"
  by (simp add: lookup_def)

lemma distinct_replace: "distinct (map key rows) \<Longrightarrow> distinct (map key (sql_replace key r rows))"
  by (auto simp: sql_replace_def distinct_map_filter)

lemma set_replace: "set (sql_replace key r rows) = insert r {q \<in> set rows. key q \<noteq> key r}"
  by (auto simp: sql_replace_def)

text \<open>A row that joins a table in place of the one with its key, wherever it is put.\<close>

definition row_put :: "('r \<Rightarrow> 'k) \<Rightarrow> 'r \<Rightarrow> 'r list \<Rightarrow> 'r list \<Rightarrow> bool" where
  "row_put key r rows rows2 \<longleftrightarrow> distinct (map key rows2) \<and> set rows2 = insert r {q \<in> set rows. key q \<noteq> key r}"

lemma row_put_replace: "distinct (map key rows) \<Longrightarrow> row_put key r rows (sql_replace key r rows)"
  by (simp add: row_put_def distinct_replace set_replace)

lemma row_put_upsert:
  assumes "distinct (map key rows)"
  shows "row_put key r rows (sql_upsert key r rows)"
proof -
  let ?f = "\<lambda>x. if key x = key r then r else x"
  have "map key (map ?f rows) = map key rows" unfolding map_map by (rule map_cong) simp_all
  then have d: "distinct (map key (map ?f rows))" using assms by (simp only:)
  show ?thesis
  proof (cases "list_ex (\<lambda>x. key x = key r) rows")
    case True
    then have "sql_upsert key r rows = map ?f rows" by (simp add: sql_upsert_def)
    moreover have "set (map ?f rows) = insert r {q \<in> set rows. key q \<noteq> key r}" using True by (auto simp: list_ex_iff)
    ultimately show ?thesis using d by (simp only: row_put_def)
  next
    case False
    then show ?thesis using assms by (auto simp: row_put_def sql_upsert_def list_ex_iff)
  qed
qed

lemma lookup_put:
  assumes "distinct (map key rows)" "row_put key r rows rows2"
  shows "lookup key rows2 y = (if y = key r then Some r else lookup key rows y)"
proof (cases "lookup key rows2 y")
  case None
  then show ?thesis using assms lookup_None_iff [of key rows2 y] lookup_None_iff [of key rows y] by (auto simp: row_put_def)
next
  case (Some q)
  with assms show ?thesis using lookup_SomeD [OF Some] lookup_Some_iff [OF assms(1), of y q] by (auto simp: row_put_def)
qed

lemma updated_none_iff: "fst (sql_update p f rows) = 0 \<longleftrightarrow> (\<forall>r \<in> set rows. \<not> p r)"
  by (auto simp: sql_update_def filter_empty_conv)

lemma deleted_none_iff: "fst (sql_delete p rows) = 0 \<longleftrightarrow> (\<forall>r \<in> set rows. \<not> p r)"
  by (auto simp: sql_delete_def filter_empty_conv)

lemma sql_max_Some: "sql_max xs = Some m \<longleftrightarrow> m \<in> set xs \<and> (\<forall>x \<in> set xs. x \<le> m)"
proof (cases xs)
  case (Cons y ys)
  then have "sql_max xs = Some (Max (set xs))" by (simp add: sql_max_def flip: Max.set_eq_fold)
  moreover have "Max (set xs) = m \<longleftrightarrow> m \<in> set xs \<and> (\<forall>x \<in> set xs. x \<le> m)" using Cons by (intro Max_eq_iff) auto
  ultimately show ?thesis by simp
qed (simp add: sql_max_def)

section \<open>Promotion of the newest version\<close>

text \<open>A key none of whose older rows is marked becomes well formed, and the other keys stay as they are.\<close>

definition premarked :: "objectRow set \<Rightarrow> bool" where
  "premarked S \<longleftrightarrow> inj_on oc_vseq S \<and> (\<forall>r \<in> S. oc_is_latest r \<longrightarrow> newestOf S r)"

lemma promoteNewest_map:
  "promoteNewest n k rows =
     map (\<lambda>r. if oc_bucket r = n \<and> oc_key r = k \<and> newestOf (versionRowsOf rows n k) r then r\<lparr>oc_is_latest := True\<rparr> else r) rows"
proof -
  have "(oc_bucket r = n \<and> oc_key r = k \<and> Some (oc_vseq r) = sql_max (map oc_vseq (filter (\<lambda>r. oc_bucket r = n \<and> oc_key r = k) rows)))
    = (oc_bucket r = n \<and> oc_key r = k \<and> newestOf (versionRowsOf rows n k) r)" if "r \<in> set rows" for r
    using that by (subst eq_commute [of "Some _"], subst sql_max_Some) (auto simp: newestOf_def versionRowsOf_def)
  then show ?thesis unfolding promoteNewest_def sql_update_def snd_conv by (intro map_cong refl if_cong)
qed

lemma newestOf_image: "(\<And>r. oc_vseq (f r) = oc_vseq r) \<Longrightarrow> newestOf (f ` S) (f r) \<longleftrightarrow> newestOf S r"
  by (auto simp: newestOf_def)

lemma versionRowsOf_map: "(\<And>r. objectKey (g r) = objectKey r) \<Longrightarrow> versionRowsOf (map g rows) n k = g ` versionRowsOf rows n k"
  unfolding versionRowsOf_def objectKey_def by force

lemma promoted_key:
  assumes "premarked S"
  shows "key_wf ((\<lambda>r. if newestOf S r then r\<lparr>oc_is_latest := True\<rparr> else r) ` S)"
proof -
  let ?f = "\<lambda>r. if newestOf S r then r\<lparr>oc_is_latest := True\<rparr> else r"
  have vseq: "oc_vseq (?f r) = oc_vseq r" for r by simp
  have "newestOf (?f ` S) (?f r) \<longleftrightarrow> newestOf S r" for r by (rule newestOf_image [OF vseq])
  moreover have "inj_on oc_vseq (?f ` S)"
    using assms by (intro inj_onI) (auto simp: premarked_def vseq simp del: if_split split del: if_split dest: inj_onD)
  moreover have "oc_is_latest (?f r) \<longleftrightarrow> newestOf S r" if "r \<in> S" for r using assms that by (auto simp: premarked_def)
  ultimately show ?thesis unfolding key_wf_def by blast
qed

lemma promoteNewest_rows:
  "map objectKey (promoteNewest n k rows) = map objectKey rows"
  "versionRowsOf (promoteNewest n k rows) n k =
     (\<lambda>r. if newestOf (versionRowsOf rows n k) r then r\<lparr>oc_is_latest := True\<rparr> else r) ` versionRowsOf rows n k"
  "(n', k') \<noteq> (n, k) \<Longrightarrow> versionRowsOf (promoteNewest n k rows) n' k' = versionRowsOf rows n' k'"
proof -
  let ?S = "versionRowsOf rows n k"
  let ?g = "\<lambda>r. if oc_bucket r = n \<and> oc_key r = k \<and> newestOf ?S r then r\<lparr>oc_is_latest := True\<rparr> else r"
  have key: "objectKey (?g r) = objectKey r" for r by (simp add: objectKey_def)
  show "map objectKey (promoteNewest n k rows) = map objectKey rows" unfolding promoteNewest_map by (simp add: key)
  show "versionRowsOf (promoteNewest n k rows) n k = (\<lambda>r. if newestOf ?S r then r\<lparr>oc_is_latest := True\<rparr> else r) ` ?S"
    unfolding promoteNewest_map versionRowsOf_map [of ?g, OF key] by (rule image_cong) (auto simp: versionRowsOf_def)
  show "versionRowsOf (promoteNewest n k rows) n' k' = versionRowsOf rows n' k'" if "(n', k') \<noteq> (n, k)"
  proof -
    have "?g ` versionRowsOf rows n' k' = (\<lambda>r. r) ` versionRowsOf rows n' k'"
      using that by (intro image_cong) (auto simp: versionRowsOf_def)
    then show ?thesis unfolding promoteNewest_map versionRowsOf_map [of ?g, OF key] by simp
  qed
qed

lemma promoteNewest_wf:
  assumes "distinct (map objectKey rows)" "premarked (versionRowsOf rows n k)"
    and "\<And>n' k'. (n', k') \<noteq> (n, k) \<Longrightarrow> key_wf (versionRowsOf rows n' k')"
  shows "objects_wf (promoteNewest n k rows)"
  using assms promoted_key [OF assms(2)] promoteNewest_rows unfolding objects_wf_def by (metis prod.inject)

section \<open>The table of a database\<close>

definition rowAt :: "Codec \<Rightarrow> objectRow list \<Rightarrow> string \<times> string \<times> string \<Rightarrow> Object option" where
  "rowAt cd rows x = map_option (\<lambda>r. unmarked (scanObject cd r)) (lookup objectKey rows x)"

definition sqlTable :: "Codec \<Rightarrow> Database \<Rightarrow> Table" where
  "sqlTable cd s =
     \<lparr>tb_buckets = (\<lambda>n. map_option (scanBucket cd) (lookup bc_name (db_buckets s) n)),
      tb_rows = rowAt cd (db_objects s),
      tb_snapshots = (\<lambda>x. map_option (scanSnapshot cd) (lookup snapshotKey (db_snapshots s) x)),
      tb_uploads = (\<lambda>u. map_option (scanUpload cd) (lookup uc_upload_id (db_uploads s) u)),
      tb_parts = (\<lambda>x. map_option (scanPart cd) (lookup partKey (db_parts s) x))\<rparr>"

lemma sqlTable_sel [simp]:
  "tb_buckets (sqlTable cd s) n = map_option (scanBucket cd) (lookup bc_name (db_buckets s) n)"
  "tb_rows (sqlTable cd s) x = rowAt cd (db_objects s) x"
  "tb_snapshots (sqlTable cd s) y = map_option (scanSnapshot cd) (lookup snapshotKey (db_snapshots s) y)"
  "tb_uploads (sqlTable cd s) u = map_option (scanUpload cd) (lookup uc_upload_id (db_uploads s) u)"
  "tb_parts (sqlTable cd s) z = map_option (scanPart cd) (lookup partKey (db_parts s) z)"
  by (simp_all add: sqlTable_def)

lemma scan_sel [simp]:
  "obj_Bucket (scanObject cd r) = oc_bucket r" "obj_Key (scanObject cd r) = oc_key r" "obj_VersionID (scanObject cd r) = oc_version_id r"
  "obj_VSeq (scanObject cd r) = oc_vseq r" "obj_ETag (scanObject cd r) = oc_etag r" "obj_IsLatest (scanObject cd r) = oc_is_latest r"
  "obj_DeleteMarker (scanObject cd r) = oc_delete_marker r"
  "unmarked (scanObject cd (r\<lparr>oc_is_latest := l\<rparr>)) = unmarked (scanObject cd r)"
  "scanObject cd (r\<lparr>oc_tags := t\<rparr>) = (scanObject cd r)\<lparr>obj_Tags := t\<rparr>"
  by (simp_all add: scanObject_def unmarked_def)

lemma objectKey_upd [simp]: "objectKey (r\<lparr>oc_is_latest := l\<rparr>) = objectKey r" "objectKey (r\<lparr>oc_tags := t\<rparr>) = objectKey r"
  by (simp_all add: objectKey_def)

lemma lookup_objectKeyD: "lookup objectKey rows (n, k, v) = Some r \<Longrightarrow> r \<in> set rows \<and> oc_bucket r = n \<and> oc_key r = k \<and> oc_version_id r = v"
  by (drule lookup_SomeD) (simp add: objectKey_def)

lemma rowAt_None_iff: "rowAt cd rows (n, k, v) = None \<longleftrightarrow> v \<notin> oc_version_id ` versionRowsOf rows n k"
  by (auto simp: rowAt_def lookup_None_iff objectKey_def versionRowsOf_def image_iff)

lemma rowAt_Some:
  assumes "distinct (map objectKey rows)"
  shows "rowAt cd rows (n, k, v) = Some w \<longleftrightarrow> (\<exists>r \<in> versionRowsOf rows n k. oc_version_id r = v \<and> w = unmarked (scanObject cd r))"
  by (auto simp: rowAt_def lookup_Some_iff [OF assms] versionRowsOf_def objectKey_def)

lemma rowAt_map: "(\<And>r. objectKey (f r) = objectKey r \<and> unmarked (scanObject cd (f r)) = unmarked (scanObject cd r)) \<Longrightarrow> rowAt cd (map f rows) x = rowAt cd rows x"
  by (simp add: rowAt_def lookup_map option.map_comp comp_def)

lemma rowAt_promote [simp]: "rowAt cd (promoteNewest n k rows) x = rowAt cd rows x"
  unfolding promoteNewest_map by (rule rowAt_map) simp

lemma rowAt_demote [simp]: "rowAt cd (snd (sql_update p (\<lambda>r. r\<lparr>oc_is_latest := l\<rparr>) rows)) x = rowAt cd rows x"
  unfolding sql_update_def snd_conv by (rule rowAt_map) simp

text \<open>In a well-formed table the current row of a key is the one with the flag.\<close>

lemma sql_current:
  assumes "objects_wf rows" "tb_rows T = rowAt cd rows"
  shows "current T n k ob \<longleftrightarrow> (\<exists>r \<in> versionRowsOf rows n k. oc_is_latest r \<and> ob = unmarked (scanObject cd r))"
proof -
  have d: "distinct (map objectKey rows)" and wf: "key_wf (versionRowsOf rows n k)" using assms(1) by (simp_all add: objects_wf_def)
  have "current T n k ob \<longleftrightarrow> (\<exists>r \<in> versionRowsOf rows n k. oc_version_id r = obj_VersionID ob \<and> ob = unmarked (scanObject cd r)) \<and>
     (\<forall>r \<in> versionRowsOf rows n k. oc_vseq r \<le> obj_VSeq ob)"
  proof -
    have "(\<forall>v w. (\<exists>r \<in> S. oc_version_id r = v \<and> w = U r) \<longrightarrow> obj_VSeq w \<le> c) \<longleftrightarrow> (\<forall>r \<in> S. obj_VSeq (U r) \<le> c)" for S and U :: "objectRow \<Rightarrow> Object" and c by blast
    then show ?thesis unfolding current_def assms(2) rowAt_Some [OF d] by simp
  qed
  also have "\<dots> \<longleftrightarrow> (\<exists>r \<in> versionRowsOf rows n k. oc_is_latest r \<and> ob = unmarked (scanObject cd r))"
    using wf unfolding key_wf_def newestOf_def by (intro iffI; elim conjE bexE; intro conjI bexI) simp_all
  finally show ?thesis .
qed

lemma latest_unique: "key_wf S \<Longrightarrow> r \<in> S \<Longrightarrow> q \<in> S \<Longrightarrow> oc_is_latest r \<Longrightarrow> oc_is_latest q \<Longrightarrow> r = q"
  unfolding key_wf_def newestOf_def by (metis inj_onD order_antisym)

lemma latest_exists:
  assumes "key_wf S" "finite S" "S \<noteq> {}"
  shows "\<exists>r \<in> S. oc_is_latest r"
proof -
  have "Max (oc_vseq ` S) \<in> oc_vseq ` S" using assms by (intro Max_in) auto
  then obtain r where "r \<in> S" "oc_vseq r = Max (oc_vseq ` S)" by auto
  moreover from this have "newestOf S r" using assms(2) by (simp add: newestOf_def)
  ultimately show ?thesis using assms(1) by (auto simp: key_wf_def)
qed

lemma finite_versionRowsOf [simp]: "finite (versionRowsOf rows n k)"
  by (simp add: versionRowsOf_def)

lemma sql_newest_unique: "sql_wf s \<Longrightarrow> newest_unique (sqlTable cd s)"
  unfolding newest_unique_def
  by (auto simp: sql_wf_def objects_wf_def sql_current [where rows = "db_objects s" and cd = cd, unfolded fun_eq_iff] dest: latest_unique)

text \<open>The row that the statements read as the latest.\<close>

definition latestRow :: "objectRow list \<Rightarrow> string \<Rightarrow> string \<Rightarrow> objectRow option" where
  "latestRow rows n k = find (\<lambda>r. oc_bucket r = n \<and> oc_key r = k \<and> oc_is_latest r) rows"

lemma latestRow_Some: "latestRow rows n k = Some r \<Longrightarrow> r \<in> versionRowsOf rows n k \<and> oc_is_latest r"
  by (auto simp: latestRow_def versionRowsOf_def find_Some_iff)

lemma latestRow_None: "objects_wf rows \<Longrightarrow> latestRow rows n k = None \<longleftrightarrow> versionRowsOf rows n k = {}"
  using latest_exists [of "versionRowsOf rows n k"] by (auto simp: latestRow_def objects_wf_def versionRowsOf_def find_None_iff)

lemma sql_shows_etag:
  assumes "objects_wf rows" "tb_rows T = rowAt cd rows"
  shows "shows_etag T n k (case latestRow rows n k of None \<Rightarrow> None | Some r \<Rightarrow> if oc_delete_marker r then None else Some (oc_etag r))"
proof (cases "latestRow rows n k")
  case None
  then have "versionRowsOf rows n k = {}" using latestRow_None [OF assms(1)] by blast
  then have "\<forall>v. tb_rows T (n, k, v) = None" unfolding assms(2) rowAt_None_iff by simp
  with None show ?thesis by (simp add: shows_etag_def)
next
  case (Some r)
  then have r: "r \<in> versionRowsOf rows n k" "oc_is_latest r" using latestRow_Some by blast+
  then have "current T n k (unmarked (scanObject cd r))" using sql_current [OF assms] by blast
  moreover have "\<not> (\<forall>v. tb_rows T (n, k, v) = None)" using r(1) unfolding assms(2) rowAt_None_iff by blast
  ultimately show ?thesis using Some by (auto simp: shows_etag_def intro!: exI [of _ "unmarked (scanObject cd r)"])
qed

section \<open>What the contract covers\<close>

text \<open>
  The text columns give the value back. The statements of a call differ from those of the in-memory index in
  five cases, which the contract leaves out: an object that is not newer than the versions it joins or has no version id, the
  restore of a document with two rows of a key or with a delete marker, the delete of a bucket that has snapshots, and an upload
  id that is taken.
\<close>

definition keepsTime :: "Codec \<Rightarrow> gotime \<Rightarrow> bool" where
  "keepsTime cd t \<longleftrightarrow> cd_Parse cd (cd_Format cd t) = t"

definition keepsMeta :: "Codec \<Rightarrow> (string, string) gomap \<Rightarrow> bool" where
  "keepsMeta cd m \<longleftrightarrow> cd_UnmarshalMeta cd (cd_MarshalMeta cd m) = m"

definition keepsParts :: "Codec \<Rightarrow> Part list \<Rightarrow> bool" where
  "keepsParts cd ps \<longleftrightarrow> ps = [] \<or> (cd_MarshalParts cd ps \<noteq> [] \<and> cd_UnmarshalParts cd (cd_MarshalParts cd ps) = ps)"

definition keepsObject :: "Codec \<Rightarrow> Object \<Rightarrow> bool" where
  "keepsObject cd ob \<longleftrightarrow> keepsTime cd (obj_LastModified ob) \<and> keepsMeta cd (obj_UserMetadata ob) \<and> keepsParts cd (obj_Parts ob)"

fun sql_admits :: "Codec \<Rightarrow> Database \<Rightarrow> mem_op \<Rightarrow> bool" where
  "sql_admits cd s (CallCreateBucket now b) = keepsTime cd (if bkt_CreatedAt b = zeroTime then now else bkt_CreatedAt b)"
| "sql_admits cd s (CallDeleteBucket n) = (\<forall>r \<in> set (db_snapshots s). sc_bucket r \<noteq> n)"
| "sql_admits cd s (CallPutSnapshot now snap) = keepsTime cd (if snap_CreatedAt snap = zeroTime then now else snap_CreatedAt snap)"
| "sql_admits cd s (CallRestoreBucket n obs h q) =
     (distinct (map obj_Key obs) \<and> (\<forall>ob \<in> set obs. keepsObject cd ob \<and> \<not> obj_DeleteMarker ob))"
| "sql_admits cd s (CallPutObject ob c) =
     (keepsObject cd ob \<and> obj_VersionID ob \<noteq> [] \<and>
      (\<forall>r \<in> set (db_objects s). oc_bucket r = obj_Bucket ob \<longrightarrow> oc_key r = obj_Key ob \<longrightarrow> oc_version_id r \<noteq> obj_VersionID ob \<longrightarrow>
         oc_vseq r < obj_VSeq ob))"
| "sql_admits cd s (CallCreateMultipartUpload now u) =
     (keepsTime cd (if up_Initiated u = zeroTime then now else up_Initiated u) \<and> keepsMeta cd (up_UserMetadata u) \<and>
      (\<forall>r \<in> set (db_uploads s). uc_upload_id r \<noteq> up_UploadID u))"
| "sql_admits cd s (CallPutPart u p) = keepsTime cd (part_LastModified p)"
| "sql_admits cd s _ = True"

lemma scan_values:
  "keepsObject cd ob \<Longrightarrow> scanObject cd (objectValues cd marker ob) = ob\<lparr>obj_IsLatest := True, obj_DeleteMarker := marker\<rparr>"
  "keepsTime cd (bkt_CreatedAt b) \<Longrightarrow> scanBucket cd (bucketValues cd b) = b"
  "keepsTime cd (snap_CreatedAt s) \<Longrightarrow> scanSnapshot cd (snapshotValues cd s) = s"
  "keepsTime cd (up_Initiated u) \<Longrightarrow> keepsMeta cd (up_UserMetadata u) \<Longrightarrow> scanUpload cd (uploadValues cd u) = u"
  "keepsTime cd (part_LastModified p) \<Longrightarrow> scanPart cd (partValues cd uid p) = p"
  by (auto simp: scanObject_def objectValues_def scanBucket_def bucketValues_def scanSnapshot_def snapshotValues_def scanUpload_def uploadValues_def
    scanPart_def partValues_def keepsObject_def keepsTime_def keepsMeta_def keepsParts_def partsJSON_def)

lemma values_key [simp]:
  "objectKey (objectValues cd marker ob) = (obj_Bucket ob, obj_Key ob, obj_VersionID ob)" "bc_name (bucketValues cd b) = bkt_Name b"
  "snapshotKey (snapshotValues cd s) = (snap_Bucket s, snap_Label s)" "uc_upload_id (uploadValues cd u) = up_UploadID u"
  "partKey (partValues cd uid p) = (uid, part_PartNumber p)" "oc_vseq (objectValues cd marker ob) = obj_VSeq ob"
  "oc_is_latest (objectValues cd marker ob)" "oc_bucket (objectValues cd marker ob) = obj_Bucket ob" "oc_key (objectValues cd marker ob) = obj_Key ob"
  "oc_version_id (objectValues cd marker ob) = obj_VersionID ob" "pc_upload_id (partValues cd uid p) = uid"
  by (simp_all add: objectKey_def objectValues_def bucketValues_def snapshotKey_def snapshotValues_def uploadValues_def partKey_def partValues_def)

section \<open>The statements keep the versions in order\<close>

lemma objects_wf_map:
  assumes "\<And>r. objectKey (f r) = objectKey r \<and> oc_vseq (f r) = oc_vseq r \<and> oc_is_latest (f r) = oc_is_latest r" "objects_wf rows"
  shows "objects_wf (map f rows)"
proof -
  have "key_wf (f ` S)" if "key_wf S" for S
  proof -
    have "newestOf (f ` S) (f r) \<longleftrightarrow> newestOf S r" for r using assms(1) by (intro newestOf_image) simp
    moreover have "inj_on oc_vseq (f ` S)" using that assms(1) by (auto simp: key_wf_def inj_on_def)
    ultimately show ?thesis using that assms(1) by (auto simp: key_wf_def)
  qed
  moreover have "versionRowsOf (map f rows) n k = f ` versionRowsOf rows n k" for n k using assms(1) by (intro versionRowsOf_map) simp
  moreover have "map objectKey (map f rows) = map objectKey rows" using assms(1) by simp
  ultimately show ?thesis using assms(2) unfolding objects_wf_def by metis
qed

lemma versionRowsOf_filter: "versionRowsOf (filter p rows) n k = {r \<in> versionRowsOf rows n k. p r}"
  by (auto simp: versionRowsOf_def)

lemma key_wf_empty [simp]: "key_wf {}"
  by (simp add: key_wf_def)

lemma objects_wf_filter:
  assumes "objects_wf rows" "\<And>n k. (\<forall>r \<in> versionRowsOf rows n k. p r) \<or> (\<forall>r \<in> versionRowsOf rows n k. \<not> p r)"
  shows "objects_wf (filter p rows)"
proof -
  have "key_wf (versionRowsOf (filter p rows) n k)" for n k
  proof -
    from assms(2) have "versionRowsOf (filter p rows) n k = versionRowsOf rows n k \<or> versionRowsOf (filter p rows) n k = {}"
      unfolding versionRowsOf_filter by blast
    with assms(1) show ?thesis by (auto simp: objects_wf_def)
  qed
  with assms(1) show ?thesis by (simp add: objects_wf_def distinct_map_filter)
qed

text \<open>A write: the rows of the key lose the flag, the new row joins them, the newest is promoted.\<close>

definition demote :: "string \<Rightarrow> string \<Rightarrow> objectRow list \<Rightarrow> objectRow list" where
  "demote n k rows = snd (sql_update (\<lambda>r. oc_bucket r = n \<and> oc_key r = k \<and> oc_is_latest r) (\<lambda>r. r\<lparr>oc_is_latest := False\<rparr>) rows)"

lemma demote_map: "demote n k rows = map (\<lambda>r. if oc_bucket r = n \<and> oc_key r = k \<and> oc_is_latest r then r\<lparr>oc_is_latest := False\<rparr> else r) rows"
  by (simp add: demote_def sql_update_def)

lemma demote_rows:
  "map objectKey (demote n k rows) = map objectKey rows"
  "(n', k') \<noteq> (n, k) \<Longrightarrow> versionRowsOf (demote n k rows) n' k' = versionRowsOf rows n' k'"
  "r \<in> versionRowsOf (demote n k rows) n k \<Longrightarrow> \<not> oc_is_latest r"
  "oc_vseq ` versionRowsOf (demote n k rows) n k = oc_vseq ` versionRowsOf rows n k"
  "inj_on oc_vseq (versionRowsOf rows n k) \<Longrightarrow> inj_on oc_vseq (versionRowsOf (demote n k rows) n k)"
proof -
  let ?f = "\<lambda>r. if oc_bucket r = n \<and> oc_key r = k \<and> oc_is_latest r then r\<lparr>oc_is_latest := False\<rparr> else r"
  have key: "objectKey (?f r) = objectKey r" and vseq: "oc_vseq (?f r) = oc_vseq r" for r by simp_all
  have rows: "versionRowsOf (demote n k rows) n' k' = ?f ` versionRowsOf rows n' k'" for n' k'
    unfolding demote_map by (rule versionRowsOf_map) (rule key)
  show "map objectKey (demote n k rows) = map objectKey rows" unfolding demote_map by (simp add: key)
  show "versionRowsOf (demote n k rows) n' k' = versionRowsOf rows n' k'" if "(n', k') \<noteq> (n, k)"
  proof -
    have "?f ` versionRowsOf rows n' k' = (\<lambda>r. r) ` versionRowsOf rows n' k'" using that by (intro image_cong) (auto simp: versionRowsOf_def)
    then show ?thesis unfolding rows by simp
  qed
  show "\<not> oc_is_latest r" if "r \<in> versionRowsOf (demote n k rows) n k" using that unfolding rows by (auto simp: versionRowsOf_def)
  show "oc_vseq ` versionRowsOf (demote n k rows) n k = oc_vseq ` versionRowsOf rows n k" unfolding rows image_image vseq ..
  show "inj_on oc_vseq (versionRowsOf (demote n k rows) n k)" if "inj_on oc_vseq (versionRowsOf rows n k)"
    unfolding rows by (rule inj_on_imageI) (use that in \<open>simp add: comp_def vseq del: if_split split del: if_split\<close>)
qed

lemma objects_wf_put:
  assumes "objects_wf rows" "distinct (map objectKey rows2)"
    and set2: "set rows2 = insert x {q \<in> set (demote n k rows). objectKey q \<noteq> objectKey x}"
    and x: "oc_bucket x = n" "oc_key x = k" "oc_is_latest x"
    and newer: "\<And>r. r \<in> versionRowsOf rows n k \<Longrightarrow> oc_version_id r \<noteq> oc_version_id x \<Longrightarrow> oc_vseq r < oc_vseq x"
  shows "objects_wf (promoteNewest n k rows2)"
proof (rule promoteNewest_wf [OF assms(2)])
  have wf: "key_wf (versionRowsOf rows n' k')" for n' k' using assms(1) by (simp add: objects_wf_def)
  let ?old = "{q \<in> versionRowsOf (demote n k rows) n k. oc_version_id q \<noteq> oc_version_id x}"
  have S: "versionRowsOf rows2 n k = insert x ?old" using x by (auto simp: versionRowsOf_def set2 objectKey_def)
  have less: "oc_vseq q < oc_vseq x" if "q \<in> ?old" for q
  proof -
    have q: "q \<in> versionRowsOf (demote n k rows) n k" "oc_version_id q \<noteq> oc_version_id x" using that by auto
    let ?f = "\<lambda>r. if oc_bucket r = n \<and> oc_key r = k \<and> oc_is_latest r then r\<lparr>oc_is_latest := False\<rparr> else r"
    from q(1) obtain r where "r \<in> versionRowsOf rows n k" "q = ?f r"
      unfolding demote_map by (subst (asm) versionRowsOf_map) auto
    with newer [of r] q(2) show ?thesis by (auto split: if_splits)
  qed
  have "inj_on oc_vseq ?old"
    by (rule inj_on_subset [OF demote_rows(5)]) (use wf [of n k] in \<open>auto simp: key_wf_def\<close>)
  then have "inj_on oc_vseq (insert x ?old)" using less by fastforce
  moreover have "newestOf (insert x ?old) x" using less by (auto simp: newestOf_def intro: less_imp_le)
  moreover have "\<not> oc_is_latest q" if "q \<in> ?old" for q using demote_rows(3) that by blast
  ultimately show "premarked (versionRowsOf rows2 n k)" unfolding S premarked_def by auto
  show "key_wf (versionRowsOf rows2 n' k')" if "(n', k') \<noteq> (n, k)" for n' k'
  proof -
    have "versionRowsOf rows2 n' k' = versionRowsOf (demote n k rows) n' k'"
      using that x by (auto simp: versionRowsOf_def set2 objectKey_def)
    then show ?thesis using wf demote_rows(2) [OF that] by simp
  qed
qed

text \<open>A delete of one version.\<close>

definition withoutVersion :: "string \<Rightarrow> string \<Rightarrow> string \<Rightarrow> objectRow list \<Rightarrow> objectRow list" where
  "withoutVersion n k v rows = snd (sql_delete (\<lambda>r. oc_bucket r = n \<and> oc_key r = k \<and> oc_version_id r = v) rows)"

lemma withoutVersion_rows:
  "versionRowsOf (withoutVersion n k v rows) n' k' =
    (if (n', k') = (n, k) then {r \<in> versionRowsOf rows n k. oc_version_id r \<noteq> v} else versionRowsOf rows n' k')"
  by (auto simp: withoutVersion_def sql_delete_def versionRowsOf_def)

lemma withoutVersion_distinct: "distinct (map objectKey rows) \<Longrightarrow> distinct (map objectKey (withoutVersion n k v rows))"
  by (simp add: withoutVersion_def sql_delete_def distinct_map_filter)

lemma objects_wf_delete:
  assumes "objects_wf rows" "r \<in> versionRowsOf rows n k" "oc_version_id r = v"
  shows "objects_wf (if oc_is_latest r then promoteNewest n k (withoutVersion n k v rows) else withoutVersion n k v rows)"
proof -
  have d: "distinct (map objectKey rows)" and wf: "key_wf (versionRowsOf rows n' k')" for n' k' using assms(1) by (simp_all add: objects_wf_def)
  let ?S = "versionRowsOf rows n k" and ?rest = "{r \<in> versionRowsOf rows n k. oc_version_id r \<noteq> v}"
  have inj: "inj_on oc_vseq ?rest" by (rule inj_on_subset [of _ ?S]) (use wf [of n k] in \<open>auto simp: key_wf_def\<close>)
  show ?thesis
  proof (cases "oc_is_latest r")
    case True
    have "\<not> oc_is_latest q" if "q \<in> ?rest" for q using latest_unique [OF wf assms(2) _ True, of q] that assms(3) by auto
    then have "premarked ?rest" using inj by (simp add: premarked_def)
    then have "objects_wf (promoteNewest n k (withoutVersion n k v rows))"
      by (intro promoteNewest_wf withoutVersion_distinct d) (use wf in \<open>auto simp: withoutVersion_rows\<close>)
    with True show ?thesis by simp
  next
    case False
    obtain t where t: "t \<in> ?S" "oc_is_latest t" using latest_exists [OF wf, of n k] assms(2) by auto
    have "oc_version_id t \<noteq> v"
    proof
      assume "oc_version_id t = v"
      with assms(2,3) t(1) have "objectKey t = objectKey r" "t \<in> set rows" "r \<in> set rows" by (simp_all add: versionRowsOf_def objectKey_def)
      then have "t = r" using d by (simp add: distinct_map inj_on_def)
      with t(2) False show False by simp
    qed
    then have t': "t \<in> ?rest" using t(1) by simp
    have le: "newestOf ?S t" using t wf [of n k] by (simp add: key_wf_def)
    have "oc_is_latest q \<longleftrightarrow> newestOf ?rest q" if q: "q \<in> ?rest" for q
    proof
      assume "oc_is_latest q" then show "newestOf ?rest q" using q wf [of n k] by (simp add: key_wf_def newestOf_def)
    next
      assume "newestOf ?rest q"
      then have "oc_vseq t \<le> oc_vseq q" using t' by (simp add: newestOf_def)
      moreover have "oc_vseq q \<le> oc_vseq t" using le q by (simp add: newestOf_def)
      ultimately have "q = t" using inj_onD [OF inj _ q t'] by simp
      with t(2) show "oc_is_latest q" by simp
    qed
    then have "key_wf ?rest" using inj by (simp add: key_wf_def)
    then have "objects_wf (withoutVersion n k v rows)"
      using wf withoutVersion_distinct [OF d] by (simp add: objects_wf_def withoutVersion_rows)
    with False show ?thesis by simp
  qed
qed

text \<open>A restore.\<close>

definition restoredValues :: "Codec \<Rightarrow> string \<Rightarrow> Object \<Rightarrow> objectRow" where
  "restoredValues cd n ob = objectValues cd False (withVersion (ob\<lparr>obj_Bucket := n\<rparr>))"

lemma withVersion_sel [simp]: "obj_Bucket (withVersion ob) = obj_Bucket ob" "obj_Key (withVersion ob) = obj_Key ob"
  "obj_VSeq (withVersion ob) = obj_VSeq ob" "obj_DeleteMarker (withVersion ob) = obj_DeleteMarker ob"
  "keepsObject cd (withVersion ob) = keepsObject cd ob"
  by (simp_all add: withVersion_def keepsObject_def)

lemma objects_wf_restore:
  assumes "objects_wf rows" "distinct (map obj_Key obs)"
  shows "objects_wf (filter (\<lambda>r. oc_bucket r \<noteq> n) rows @ map (restoredValues cd n) obs)"
proof -
  let ?new = "map (restoredValues cd n) obs"
  have x: "oc_bucket (restoredValues cd n ob) = n" "oc_key (restoredValues cd n ob) = obj_Key ob" "oc_is_latest (restoredValues cd n ob)" for ob
    by (simp_all add: restoredValues_def)
  have "distinct (map oc_key ?new)" using assms(2) by (simp add: comp_def x)
  then have "distinct (map objectKey ?new)" by (auto simp: distinct_map inj_on_def objectKey_def)
  moreover have "objects_wf (filter (\<lambda>r. oc_bucket r \<noteq> n) rows)"
    by (rule objects_wf_filter [OF assms(1)]) (auto simp: versionRowsOf_def)
  moreover have "key_wf (versionRowsOf ?new n' k')" for n' k'
  proof -
    have "r = q" if "r \<in> versionRowsOf ?new n' k'" "q \<in> versionRowsOf ?new n' k'" for r q
    proof -
      have "inj_on oc_key (set ?new)" using \<open>distinct (map oc_key ?new)\<close> unfolding distinct_map [of oc_key] by blast
      moreover have "r \<in> set ?new" "q \<in> set ?new" "oc_key r = oc_key q" using that by (simp_all add: versionRowsOf_def)
      ultimately show ?thesis unfolding inj_on_def by blast
    qed
    moreover have "oc_is_latest r" if "r \<in> versionRowsOf ?new n' k'" for r using that x by (auto simp: versionRowsOf_def)
    ultimately show ?thesis unfolding key_wf_def newestOf_def by (metis inj_onI order_refl)
  qed
  moreover have "versionRowsOf (filter (\<lambda>r. oc_bucket r \<noteq> n) rows @ ?new) n' k' =
      (if n' = n then versionRowsOf ?new n' k' else versionRowsOf (filter (\<lambda>r. oc_bucket r \<noteq> n) rows) n' k')" for n' k'
    using x by (auto simp: versionRowsOf_def)
  ultimately show ?thesis using x by (auto simp: objects_wf_def objectKey_def)
qed

end
