(* ===== verification/Sqlite_Table.thy ===== *)
theory Sqlite_Table
  imports Sqlite Sql_Table
begin

text \<open>
  The refinement of the SQLite index: every method keeps the invariant and the contract of theory \<open>Index_Table\<close>.
\<close>

section \<open>Every statement implements the specification\<close>

definition implements :: "Codec \<Rightarrow> Database \<Rightarrow> mem_op \<Rightarrow> Database sql_result \<Rightarrow> bool" where
  "implements cd s opn r \<longleftrightarrow>
     (case r of Inl e \<Rightarrow> \<exists>x. e = Sentinel x \<and> table_error opn (sqlTable cd s) x
      | Inr s' \<Rightarrow> sql_wf s' \<and> table_step opn (sqlTable cd s) (sqlTable cd s'))"

lemma implementsI:
  "sql_wf s' \<Longrightarrow> table_step opn (sqlTable cd s) (sqlTable cd s') \<Longrightarrow> implements cd s opn (Inr s')"
  "table_error opn (sqlTable cd s) x \<Longrightarrow> implements cd s opn (Inl (Sentinel x))"
  by (simp_all add: implements_def)

lemma bucket_missing_iff: "lookup bc_name (db_buckets s) n = None \<longleftrightarrow> tb_buckets (sqlTable cd s) n = None"
  by simp

lemma GetBucket_cases:
  "SQLite_GetBucket cd s n = (case lookup bc_name (db_buckets s) n of None \<Rightarrow> Inl (Sentinel ErrBucketNotFound) | Some r \<Rightarrow> Inr (scanBucket cd r))"
  by (simp add: SQLite_GetBucket_def find_lookup)

lemma sql_wf_objects: "sql_wf s \<Longrightarrow> objects_wf (db_objects s)"
  by (simp add: sql_wf_def)

lemma sql_wf_update:
  "sql_wf s \<Longrightarrow> map bc_name bs = map bc_name (db_buckets s) \<Longrightarrow> sql_wf (s\<lparr>db_buckets := bs\<rparr>)"
  "sql_wf s \<Longrightarrow> objects_wf rows \<Longrightarrow> (\<And>r. r \<in> set rows \<Longrightarrow> oc_bucket r \<in> bc_name ` set (db_buckets s)) \<Longrightarrow> sql_wf (s\<lparr>db_objects := rows\<rparr>)"
  "sql_wf s \<Longrightarrow> distinct (map snapshotKey ss) \<Longrightarrow> sql_wf (s\<lparr>db_snapshots := ss\<rparr>)"
  "sql_wf s \<Longrightarrow> distinct (map partKey ps) \<Longrightarrow> (\<And>r. r \<in> set ps \<Longrightarrow> pc_upload_id r \<in> uc_upload_id ` set (db_uploads s)) \<Longrightarrow> sql_wf (s\<lparr>db_parts := ps\<rparr>)"
  unfolding sql_wf_def by (simp_all flip: set_map)

text \<open>The setters of bucket columns.\<close>

lemma updateBucket_sql:
  assumes "sql_wf s" "\<And>r. bc_name (f r) = bc_name r" "\<And>r. scanBucket cd (f r) = g (scanBucket cd r)"
  shows "updateBucket s n f = Inr s' \<Longrightarrow> sql_wf s' \<and> set_bucket n g (sqlTable cd s) (sqlTable cd s')"
    and "updateBucket s n f = Inr s' \<Longrightarrow> \<exists>bs. s' = s\<lparr>db_buckets := bs\<rparr> \<and> bc_name ` set bs = bc_name ` set (db_buckets s)"
    and "updateBucket s n f = Inl e \<Longrightarrow> e = Sentinel ErrBucketNotFound \<and> lookup bc_name (db_buckets s) n = None"
proof -
  define h where "h r = (if bc_name r = n then f r else r)" for r
  have names: "bc_name (h r) = bc_name r" for r using assms(2) by (simp add: h_def)
  have eq: "updateBucket s n f = (if lookup bc_name (db_buckets s) n = None then Inl (Sentinel ErrBucketNotFound)
      else Inr (s\<lparr>db_buckets := map h (db_buckets s)\<rparr>))"
    by (auto simp: updateBucket_def sql_update_def filter_empty_conv lookup_None_iff h_def)
  have same: "map bc_name (map h (db_buckets s)) = map bc_name (db_buckets s)" by (simp add: names)
  show "sql_wf s' \<and> set_bucket n g (sqlTable cd s) (sqlTable cd s')" if upd: "updateBucket s n f = Inr s'"
  proof -
    have s': "s' = s\<lparr>db_buckets := map h (db_buckets s)\<rparr>" using upd unfolding eq by (simp split: if_splits)
    obtain r where r: "lookup bc_name (db_buckets s) n = Some r" using upd unfolding eq by (auto split: if_splits)
    have look: "lookup bc_name (map h (db_buckets s)) n' = map_option h (lookup bc_name (db_buckets s) n')" for n' by (rule lookup_map) (rule names)
    have "sqlTable cd s' = (sqlTable cd s)\<lparr>tb_buckets := (tb_buckets (sqlTable cd s))(n \<mapsto> g (scanBucket cd r))\<rparr>"
    proof (rule table_eqI)
      show "tb_buckets (sqlTable cd s') n' = tb_buckets ((sqlTable cd s)\<lparr>tb_buckets := (tb_buckets (sqlTable cd s))(n \<mapsto> g (scanBucket cd r))\<rparr>) n'" for n'
        using r by (auto simp: s' look h_def assms(3) option.map_comp comp_def split: option.splits dest: lookup_SomeD intro!: option.map_cong)
    qed (simp_all add: s')
    moreover have "sql_wf s'" unfolding s' using assms(1) same by (rule sql_wf_update)
    ultimately show ?thesis using r by (auto simp: set_bucket_def)
  qed
  show "\<exists>bs. s' = s\<lparr>db_buckets := bs\<rparr> \<and> bc_name ` set bs = bc_name ` set (db_buckets s)" if "updateBucket s n f = Inr s'"
    using that arg_cong [OF same, of set] unfolding eq set_map by (intro exI [of _ "map h (db_buckets s)"]) (auto split: if_splits)
  show "e = Sentinel ErrBucketNotFound \<and> lookup bc_name (db_buckets s) n = None" if "updateBucket s n f = Inl e"
    using that unfolding eq by (auto split: if_splits)
qed


declare table_step.simps [simp] table_error.simps [simp]

lemma implements_settings:
  assumes "sql_wf s"
  shows "implements cd s (CallSetBucketVersioning n a) (SQLite_SetBucketVersioning s n a)"
    "implements cd s (CallSetBucketEncryption n a) (SQLite_SetBucketEncryption s n a)"
    "implements cd s (CallSetBucketRecoveryRecipient n a) (SQLite_SetBucketRecoveryRecipient s n a)"
    "implements cd s (CallSetBucketCORS n a) (SQLite_SetBucketCORS s n a)"
    "implements cd s (CallSetBucketTagging n a) (SQLite_SetBucketTagging s n a)"
    "implements cd s (CallSetBucketACT n a c) (SQLite_SetBucketACT s n a c)"
    "implements cd s (CallSetBucketHead n a q) (SQLite_SetBucketHead s n a q)"
proof -
  have upd: "implements cd s opn (updateBucket s n f)"
    if "\<And>r. bc_name (f r) = bc_name r" "\<And>r. scanBucket cd (f r) = g (scanBucket cd r)"
      "\<And>T'. set_bucket n g (sqlTable cd s) T' \<Longrightarrow> table_step opn (sqlTable cd s) T'"
      "lookup bc_name (db_buckets s) n = None \<Longrightarrow> table_error opn (sqlTable cd s) ErrBucketNotFound" for opn f g
    using updateBucket_sql [OF assms that(1,2), of n] that(3,4) by (cases "updateBucket s n f") (auto simp: implements_def)
  show "implements cd s (CallSetBucketVersioning n a) (SQLite_SetBucketVersioning s n a)"
    unfolding SQLite_SetBucketVersioning_def by (rule upd [where g = "\<lambda>b. b\<lparr>bkt_Versioning := a\<rparr>"]) (simp_all add: scanBucket_def)
  show "implements cd s (CallSetBucketEncryption n a) (SQLite_SetBucketEncryption s n a)"
    unfolding SQLite_SetBucketEncryption_def by (rule upd [where g = "\<lambda>b. b\<lparr>bkt_Encryption := a\<rparr>"]) (simp_all add: scanBucket_def)
  show "implements cd s (CallSetBucketRecoveryRecipient n a) (SQLite_SetBucketRecoveryRecipient s n a)"
    unfolding SQLite_SetBucketRecoveryRecipient_def by (rule upd [where g = "\<lambda>b. b\<lparr>bkt_RecoveryRecipient := a\<rparr>"]) (simp_all add: scanBucket_def)
  show "implements cd s (CallSetBucketCORS n a) (SQLite_SetBucketCORS s n a)"
    unfolding SQLite_SetBucketCORS_def by (rule upd [where g = "\<lambda>b. b\<lparr>bkt_CORS := a\<rparr>"]) (simp_all add: scanBucket_def)
  show "implements cd s (CallSetBucketTagging n a) (SQLite_SetBucketTagging s n a)"
    unfolding SQLite_SetBucketTagging_def by (rule upd [where g = "\<lambda>b. b\<lparr>bkt_Tags := a\<rparr>"]) (simp_all add: scanBucket_def)
  show "implements cd s (CallSetBucketACT n a c) (SQLite_SetBucketACT s n a c)"
    unfolding SQLite_SetBucketACT_def by (rule upd [where g = "\<lambda>b. b\<lparr>bkt_ACT := True, bkt_ActHistory := a, bkt_ActGrantees := c\<rparr>"]) (simp_all add: scanBucket_def)
  show "implements cd s (CallSetBucketHead n a q) (SQLite_SetBucketHead s n a q)"
    unfolding SQLite_SetBucketHead_def by (rule upd [where g = "\<lambda>b. b\<lparr>bkt_HeadRoot := a, bkt_CommitSeq := q\<rparr>"]) (simp_all add: scanBucket_def)
qed

lemma implements_buckets:
  assumes "sql_wf s"
  shows "sql_admits cd s (CallCreateBucket now b) \<Longrightarrow> implements cd s (CallCreateBucket now b) (SQLite_CreateBucket cd s now b)"
    and "sql_admits cd s (CallDeleteBucket n) \<Longrightarrow> implements cd s (CallDeleteBucket n) (SQLite_DeleteBucket s n)"
proof -
  show "implements cd s (CallCreateBucket now b) (SQLite_CreateBucket cd s now b)" if adm: "sql_admits cd s (CallCreateBucket now b)"
  proof -
    define c where "c = (if bkt_CreatedAt b = zeroTime then b\<lparr>bkt_CreatedAt := now\<rparr> else b)"
    have c: "scanBucket cd (bucketValues cd c) = c" by (rule scan_values) (use adm in \<open>auto simp: c_def split: if_splits\<close>)
    have name: "bkt_Name c = bkt_Name b" by (simp add: c_def)
    have eq: "SQLite_CreateBucket cd s now b = (if lookup bc_name (db_buckets s) (bkt_Name b) = None
        then Inr (s\<lparr>db_buckets := db_buckets s @ [bucketValues cd c]\<rparr>) else Inl (Sentinel ErrBucketExists))"
      unfolding SQLite_CreateBucket_def c_def [symmetric] by (simp add: Let_def sql_insert_ignore_def list_ex_key name)
    show ?thesis
    proof (cases "lookup bc_name (db_buckets s) (bkt_Name b)")
      case None
      let ?s = "s\<lparr>db_buckets := db_buckets s @ [bucketValues cd c]\<rparr>"
      have "sql_wf ?s" using assms None by (auto simp: sql_wf_def lookup_None_iff name)
      moreover have "sqlTable cd ?s = (sqlTable cd s)\<lparr>tb_buckets := (tb_buckets (sqlTable cd s))(bkt_Name b \<mapsto> c)\<rparr>"
        using None c name by (intro table_eqI) (auto split: option.splits)
      ultimately show ?thesis unfolding eq using None by (auto intro!: implementsI simp: c_def)
    next
      case (Some r)
      then have "SQLite_CreateBucket cd s now b = Inl (Sentinel ErrBucketExists)" unfolding eq by simp
      with Some show ?thesis by (simp add: implementsI)
    qed
  qed
  show "implements cd s (CallDeleteBucket n) (SQLite_DeleteBucket s n)" if adm: "sql_admits cd s (CallDeleteBucket n)"
  proof (cases "lookup bc_name (db_buckets s) n")
    case None
    then show ?thesis by (simp add: SQLite_DeleteBucket_def find_lookup implementsI Let_def)
  next
    case (Some r)
    show ?thesis
    proof (cases "find (\<lambda>r. oc_bucket r = n) (db_objects s)")
      case None
      let ?s = "s\<lparr>db_buckets := snd (sql_delete (\<lambda>r. bc_name r = n) (db_buckets s))\<rparr>"
      have run: "SQLite_DeleteBucket s n = Inr ?s" using Some None by (simp add: SQLite_DeleteBucket_def find_lookup)
      have free: "oc_bucket r \<noteq> n" if "r \<in> set (db_objects s)" for r using None that by (auto simp: find_None_iff)
      have look: "lookup bc_name (snd (sql_delete (\<lambda>r. bc_name r = n) (db_buckets s))) n' = (if n' = n then None else lookup bc_name (db_buckets s) n')" for n'
        by (rule lookup_delete) auto
      have "sql_wf ?s" using assms free by (simp add: sql_wf_def sql_delete_def distinct_map_filter image_iff) metis
      moreover have "rowAt cd (db_objects s) (n, k, v) = None" for k v
        using free by (auto simp: rowAt_None_iff versionRowsOf_def)
      moreover have "lookup snapshotKey (db_snapshots s) (n, l) = None" for l
        using adm by (auto simp: lookup_None_iff snapshotKey_def)
      ultimately show ?thesis unfolding run using Some by (intro implementsI) (auto simp: look intro!: table_eqI)
    next
      case (Some q)
      then have "q \<in> set (db_objects s)" "oc_bucket q = n" by (auto simp: find_Some_iff)
      then have "rowAt cd (db_objects s) (n, oc_key q, oc_version_id q) \<noteq> None" by (auto simp: rowAt_None_iff versionRowsOf_def)
      then have "table_error (CallDeleteBucket n) (sqlTable cd s) ErrBucketNotEmpty"
        using \<open>lookup bc_name (db_buckets s) n = Some r\<close> by (simp add: Let_def) blast
      then show ?thesis using Some \<open>lookup bc_name (db_buckets s) n = Some r\<close>
        by (simp add: SQLite_DeleteBucket_def find_lookup implementsI(2) del: table_error.simps)
    qed
  qed
qed

lemma tableOf_rows:
  "sqlTable cd (s\<lparr>db_objects := rows\<rparr>) = (sqlTable cd s)\<lparr>tb_rows := rowAt cd rows\<rparr>"
  by (rule table_eqI) simp_all

lemma promote_buckets: "r \<in> set (promoteNewest n k rows) \<Longrightarrow> oc_bucket r \<in> oc_bucket ` set rows"
  unfolding promoteNewest_map by auto

lemma demote_buckets: "oc_bucket ` set (demote n k rows) = oc_bucket ` set rows"
  unfolding demote_map set_map image_image by (intro image_cong) simp_all

text \<open>A write, whichever way the row is put into the table.\<close>

lemma implements_put_rows:
  assumes "sql_wf s" "sql_admits cd s (CallPutObject ob c)" "lookup bc_name (db_buckets s) (obj_Bucket ob) \<noteq> None"
    and x: "x = objectValues cd (obj_DeleteMarker ob) ob"
    and put: "row_put objectKey x (demote (obj_Bucket ob) (obj_Key ob) (db_objects s)) rows2"
  shows "sql_wf (s\<lparr>db_objects := promoteNewest (obj_Bucket ob) (obj_Key ob) rows2\<rparr>)"
    and "sqlTable cd (s\<lparr>db_objects := promoteNewest (obj_Bucket ob) (obj_Key ob) rows2\<rparr>) =
      (sqlTable cd s)\<lparr>tb_rows := (tb_rows (sqlTable cd s))((obj_Bucket ob, obj_Key ob, obj_VersionID ob) \<mapsto> unmarked ob)\<rparr>"
proof -
  let ?n = "obj_Bucket ob" and ?k = "obj_Key ob" and ?v = "obj_VersionID ob"
  have key: "objectKey x = (?n, ?k, ?v)" by (simp add: x)
  have d: "distinct (map objectKey rows2)" and set2: "set rows2 = insert x {q \<in> set (demote ?n ?k (db_objects s)). objectKey q \<noteq> objectKey x}"
    using put by (simp_all add: row_put_def)
  have "objects_wf (promoteNewest ?n ?k rows2)"
    by (rule objects_wf_put [OF sql_wf_objects [OF assms(1)] d set2]) (use assms(2) x in \<open>auto simp: versionRowsOf_def\<close>)
  moreover have "oc_bucket r \<in> bc_name ` set (db_buckets s)" if "r \<in> set (promoteNewest ?n ?k rows2)" for r
  proof -
    have "oc_bucket ` set rows2 \<subseteq> insert ?n (oc_bucket ` set (db_objects s))" using demote_buckets [of ?n ?k "db_objects s"] x by (auto simp: set2)
    moreover have "?n \<in> bc_name ` set (db_buckets s)" using assms(3) by (auto simp: lookup_None_iff)
    ultimately show ?thesis using promote_buckets [OF that] assms(1) by (auto simp: sql_wf_def)
  qed
  ultimately show "sql_wf (s\<lparr>db_objects := promoteNewest ?n ?k rows2\<rparr>)" using assms(1) by (intro sql_wf_update)
  have d1: "distinct (map objectKey (demote ?n ?k (db_objects s)))"
    using sql_wf_objects [OF assms(1)] by (simp add: demote_rows objects_wf_def)
  note look = lookup_put [OF d1 put, unfolded key]
  have scan: "unmarked (scanObject cd x) = unmarked ob" using assms(2) by (simp add: x scan_values unmarked_def)
  have dem: "map_option (\<lambda>r. unmarked (scanObject cd r)) (lookup objectKey (demote ?n ?k (db_objects s)) y) = rowAt cd (db_objects s) y" for y
    using rowAt_demote [of cd _ False "db_objects s" y] by (simp add: rowAt_def demote_def)
  show "sqlTable cd (s\<lparr>db_objects := promoteNewest ?n ?k rows2\<rparr>) =
      (sqlTable cd s)\<lparr>tb_rows := (tb_rows (sqlTable cd s))((?n, ?k, ?v) \<mapsto> unmarked ob)\<rparr>"
    unfolding tableOf_rows by (rule table_eqI) (simp_all add: rowAt_def [of cd rows2] look scan dem)
qed

lemma sql_condition:
  assumes "sql_wf s"
  shows "shows_etag (sqlTable cd s) n k (case latestRow (db_objects s) n k of None \<Rightarrow> None | Some r \<Rightarrow> if oc_delete_marker r then None else Some (oc_etag r))"
  by (rule sql_shows_etag [where cd = cd, OF sql_wf_objects [OF assms]]) (simp add: fun_eq_iff)

text \<open>The check of the condition is the one of the specification.\<close>

lemma condition_admits:
  "(c \<noteq> None \<and> (let exists = (case row of None \<Rightarrow> False | Some r \<Rightarrow> \<not> oc_delete_marker r); etag = (case row of None \<Rightarrow> [] | Some r \<Rightarrow> oc_etag r)
      in \<not> PutCondition_Ok c exists etag)) \<longleftrightarrow>
   \<not> admits_put c (case row of None \<Rightarrow> None | Some r \<Rightarrow> if oc_delete_marker r then None else Some (oc_etag r))"
proof (cases c)
  case (Some pc)
  then show ?thesis by (cases row) (auto simp: admits_put_def PutCondition_Ok_iff Let_def)
qed (simp add: admits_put_def)

lemma implements_put_via:
  assumes "sql_wf s" "sql_admits cd s (CallPutObject ob c)"
    and "row_put objectKey (objectValues cd (obj_DeleteMarker ob) ob) (demote (obj_Bucket ob) (obj_Key ob) (db_objects s)) rows"
  shows "implements cd s (CallPutObject ob c)
    (if lookup bc_name (db_buckets s) (obj_Bucket ob) = None then Inl (Sentinel ErrBucketNotFound)
     else if c \<noteq> None \<and> (let row = latestRow (db_objects s) (obj_Bucket ob) (obj_Key ob); exists = (case row of None \<Rightarrow> False | Some r \<Rightarrow> \<not> oc_delete_marker r);
         etag = (case row of None \<Rightarrow> [] | Some r \<Rightarrow> oc_etag r) in \<not> PutCondition_Ok c exists etag) then Inl (Sentinel ErrPreconditionFailed)
     else Inr (s\<lparr>db_objects := promoteNewest (obj_Bucket ob) (obj_Key ob) rows\<rparr>))"
proof -
  let ?n = "obj_Bucket ob" and ?k = "obj_Key ob"
  let ?e = "case latestRow (db_objects s) ?n ?k of None \<Rightarrow> None | Some r \<Rightarrow> if oc_delete_marker r then None else Some (oc_etag r)"
  note etag = sql_condition [OF assms(1), of cd ?n ?k]
  have "implements cd s (CallPutObject ob c)
    (if lookup bc_name (db_buckets s) ?n = None then Inl (Sentinel ErrBucketNotFound)
     else if \<not> admits_put c ?e then Inl (Sentinel ErrPreconditionFailed) else Inr (s\<lparr>db_objects := promoteNewest ?n ?k rows\<rparr>))"
  proof (cases "lookup bc_name (db_buckets s) ?n")
    case None
    then show ?thesis by (simp add: implementsI(2) Let_def)
  next
    case (Some b)
    show ?thesis
    proof (cases "admits_put c ?e")
      case False
      then have "table_error (CallPutObject ob c) (sqlTable cd s) ErrPreconditionFailed" using etag Some by (simp add: Let_def) blast
      with False Some show ?thesis by (simp add: implementsI(2) del: table_error.simps)
    next
      case True
      have "lookup bc_name (db_buckets s) ?n \<noteq> None" using Some by simp
      note put = implements_put_rows [OF assms(1,2) this refl assms(3)]
      have "table_step (CallPutObject ob c) (sqlTable cd s) (sqlTable cd (s\<lparr>db_objects := promoteNewest ?n ?k rows\<rparr>))"
        unfolding put(2) using etag True Some by auto
      then have "implements cd s (CallPutObject ob c) (Inr (s\<lparr>db_objects := promoteNewest ?n ?k rows\<rparr>))" by (rule implementsI(1) [OF put(1)])
      then show ?thesis using True Some by simp
    qed
  qed
  then show ?thesis using condition_admits [of c "latestRow (db_objects s) ?n ?k"] by (simp only: Let_def)
qed

lemma demote_distinct: "sql_wf s \<Longrightarrow> distinct (map objectKey (demote n k (db_objects s)))"
  by (simp add: demote_rows sql_wf_def objects_wf_def)

lemma implements_put:
  assumes "sql_wf s" "sql_admits cd s (CallPutObject ob c)"
  shows "implements cd s (CallPutObject ob c) (SQLite_PutObject cd s ob c)"
proof -
  have "withVersion ob = ob" using assms(2) by (simp add: withVersion_def)
  then show ?thesis
    using implements_put_via [OF assms row_put_replace [OF demote_distinct [OF assms(1)]]]
    unfolding SQLite_PutObject_def find_lookup latestRow_def demote_def by (simp only: Let_def)
qed

lemma implements_tags:
  assumes "sql_wf s"
  shows "implements cd s (CallSetObjectTags n k v t) (SQLite_SetObjectTags cd s n k v t)"
proof -
  define q :: "objectRow \<Rightarrow> bool" where "q = (if v \<noteq> [] then (\<lambda>r. oc_bucket r = n \<and> oc_key r = k \<and> oc_version_id r = v)
      else (\<lambda>r. oc_bucket r = n \<and> oc_key r = k \<and> oc_is_latest r))"
  define f where "f r = (if q r then r\<lparr>oc_tags := t\<rparr> else r)" for r :: objectRow
  let ?s = "s\<lparr>db_objects := map f (db_objects s)\<rparr>"
  have eq: "SQLite_SetObjectTags cd s n k v t = (if \<forall>r \<in> set (db_objects s). \<not> q r
      then rbind (SQLite_GetBucket cd s n) (\<lambda>_. Inl (Sentinel ErrObjectNotFound)) else Inr ?s)"
    unfolding SQLite_SetObjectTags_def q_def [symmetric] by (simp add: sql_update_def filter_empty_conv f_def)
  note ow = sql_wf_objects [OF assms]
  have d: "distinct (map objectKey (db_objects s))" using ow by (simp add: objects_wf_def)
  have f_keeps: "objectKey (f r) = objectKey r \<and> oc_vseq (f r) = oc_vseq r \<and> oc_is_latest (f r) = oc_is_latest r" "oc_bucket (f r) = oc_bucket r" for r
    by (simp_all add: f_def)
  have cur: "current (sqlTable cd s) n k ob \<longleftrightarrow> (\<exists>r \<in> versionRowsOf (db_objects s) n k. oc_is_latest r \<and> ob = unmarked (scanObject cd r))" for ob
    by (rule sql_current [OF ow]) (simp add: fun_eq_iff)
  show ?thesis
  proof (cases "\<exists>r \<in> set (db_objects s). q r")
    case True
    then obtain r where r: "r \<in> set (db_objects s)" "q r" by blast
    then have r': "r \<in> versionRowsOf (db_objects s) n k" by (auto simp: q_def versionRowsOf_def split: if_splits)
    have only: "q r2 \<longleftrightarrow> r2 = r" if "r2 \<in> set (db_objects s)" for r2
    proof
      assume q2: "q r2"
      show "r2 = r"
      proof (cases "v = []")
        case True
        have "r2 \<in> versionRowsOf (db_objects s) n k" "oc_is_latest r" "oc_is_latest r2" using True q2 r(2) that by (auto simp: q_def versionRowsOf_def)
        then show ?thesis using r' ow by (intro latest_unique) (auto simp: objects_wf_def)
      next
        case False
        then have "objectKey r2 = objectKey r" using q2 r(2) by (simp add: q_def objectKey_def)
        then show ?thesis using d that r(1) by (simp add: distinct_map inj_on_def)
      qed
    qed (use r in simp)
    have wf: "sql_wf ?s" using assms objects_wf_map [OF f_keeps(1) ow] by (intro sql_wf_update) (auto simp: f_keeps(2) sql_wf_def)
    have "tb_rows (sqlTable cd ?s) y = (if y = objectKey r then Some ((unmarked (scanObject cd r))\<lparr>obj_Tags := t\<rparr>) else rowAt cd (db_objects s) y)" for y
    proof (cases "lookup objectKey (db_objects s) y")
      case None
      then have "y \<noteq> objectKey r" using r(1) by (auto simp: lookup_None_iff)
      with None show ?thesis using f_keeps(1) by (simp add: rowAt_def lookup_map)
    next
      case (Some r2)
      then have r2: "r2 \<in> set (db_objects s)" "objectKey r2 = y" by (auto dest: lookup_SomeD)
      have "f r2 = (if r2 = r then r\<lparr>oc_tags := t\<rparr> else r2)" using only [OF r2(1)] by (simp add: f_def)
      moreover have "r2 = r \<longleftrightarrow> y = objectKey r" using r2 r(1) d by (auto simp: distinct_map inj_on_def)
      ultimately show ?thesis using Some f_keeps(1) by (simp add: rowAt_def lookup_map)
    qed
    then have T': "sqlTable cd ?s = (sqlTable cd s)\<lparr>tb_rows := (tb_rows (sqlTable cd s))((n, k, oc_version_id r) \<mapsto> (unmarked (scanObject cd r))\<lparr>obj_Tags := t\<rparr>)\<rparr>"
      using r' by (intro table_eqI) (auto simp: objectKey_def versionRowsOf_def)
    have row: "if v = [] then current (sqlTable cd s) n k (unmarked (scanObject cd r)) else tb_rows (sqlTable cd s) (n, k, v) = Some (unmarked (scanObject cd r))"
    proof (cases "v = []")
      case True
      then have "oc_is_latest r" using r(2) by (simp add: q_def)
      with True cur r' show ?thesis by auto
    next
      case False
      then have "oc_version_id r = v" using r(2) by (simp add: q_def)
      with False r' show ?thesis unfolding sqlTable_sel rowAt_Some [OF d] by auto
    qed
    have "lookup bc_name (db_buckets s) n \<noteq> None" using assms r' by (auto simp: sql_wf_def versionRowsOf_def lookup_None_iff)
    then have "table_step (CallSetObjectTags n k v t) (sqlTable cd s) (sqlTable cd ?s)"
      unfolding table_step.simps T' using row by (intro conjI exI [of _ "unmarked (scanObject cd r)"]) simp_all
    then have "implements cd s (CallSetObjectTags n k v t) (Inr ?s)" by (rule implementsI(1) [OF wf])
    then show ?thesis using True unfolding eq by auto
  next
    case False
    have none: "if v = [] then \<forall>w. rowAt cd (db_objects s) (n, k, w) = None else rowAt cd (db_objects s) (n, k, v) = None"
    proof (cases "v = []")
      case True
      then have "\<not> oc_is_latest r" if "r \<in> versionRowsOf (db_objects s) n k" for r using False that by (auto simp: q_def versionRowsOf_def)
      then have "versionRowsOf (db_objects s) n k = {}" using latest_exists [of "versionRowsOf (db_objects s) n k"] ow by (auto simp: objects_wf_def)
      with True show ?thesis by (simp add: rowAt_None_iff)
    next
      case False
      with \<open>\<not> (\<exists>r \<in> set (db_objects s). q r)\<close> show ?thesis by (auto simp: q_def rowAt_None_iff versionRowsOf_def)
    qed
    show ?thesis
    proof (cases "lookup bc_name (db_buckets s) n")
      case None
      then show ?thesis using False unfolding eq by (simp add: GetBucket_cases implementsI(2) Let_def)
    next
      case (Some b)
      then have "table_error (CallSetObjectTags n k v t) (sqlTable cd s) ErrObjectNotFound" using none by (simp add: Let_def)
      then show ?thesis using False Some unfolding eq by (simp add: GetBucket_cases implementsI(2) del: table_error.simps)
    qed
  qed
qed

lemma implements_delete:
  assumes "sql_wf s"
  shows "implements cd s (CallDeleteVersion n k v) (rbind (SQLite_DeleteVersion cd s n k v) (\<lambda>(_, s'). Inr s'))"
    and "implements cd s (CallDeleteObject n k) (SQLite_DeleteObject cd s n k)"
proof -
  note ow = sql_wf_objects [OF assms]
  have d: "distinct (map objectKey (db_objects s))" using ow by (simp add: objects_wf_def)
  let ?q = "\<lambda>r. oc_bucket r = n \<and> oc_key r = k \<and> oc_version_id r = v"
  have find: "find ?q (db_objects s) = lookup objectKey (db_objects s) (n, k, v)" by (simp add: lookup_def objectKey_def)
  show "implements cd s (CallDeleteVersion n k v) (rbind (SQLite_DeleteVersion cd s n k v) (\<lambda>(_, s'). Inr s'))"
  proof (cases "lookup objectKey (db_objects s) (n, k, v)")
    case None
    show ?thesis
    proof (cases "lookup bc_name (db_buckets s) n")
      case None
      then show ?thesis using \<open>lookup objectKey _ _ = None\<close> by (simp add: SQLite_DeleteVersion_def find GetBucket_cases implementsI(2) Let_def)
    next
      case (Some b)
      then have "table_error (CallDeleteVersion n k v) (sqlTable cd s) ErrObjectNotFound" using None by (simp add: Let_def rowAt_def)
      then show ?thesis using Some None by (simp add: SQLite_DeleteVersion_def find GetBucket_cases implementsI(2) del: table_error.simps)
    qed
  next
    case (Some r)
    then have r: "r \<in> versionRowsOf (db_objects s) n k" "oc_version_id r = v" by (auto dest: lookup_objectKeyD simp: versionRowsOf_def)
    define rows where "rows = (if oc_is_latest r then promoteNewest n k (withoutVersion n k v (db_objects s)) else withoutVersion n k v (db_objects s))"
    have run: "SQLite_DeleteVersion cd s n k v = Inr (scanObject cd r, s\<lparr>db_objects := rows\<rparr>)"
      using Some unfolding SQLite_DeleteVersion_def rows_def withoutVersion_def Let_def find by simp
    have buckets: "oc_bucket q \<in> bc_name ` set (db_buckets s)" if "q \<in> set rows" for q
    proof -
      have "oc_bucket q \<in> oc_bucket ` set (withoutVersion n k v (db_objects s))" using that promote_buckets unfolding rows_def by (auto split: if_splits)
      then show ?thesis using assms by (auto simp: withoutVersion_def sql_delete_def sql_wf_def)
    qed
    have wf: "sql_wf (s\<lparr>db_objects := rows\<rparr>)"
      using objects_wf_delete [OF ow r] buckets unfolding rows_def [symmetric] by (intro sql_wf_update assms)
    have "rowAt cd rows y = rowAt cd (withoutVersion n k v (db_objects s)) y" for y by (simp add: rows_def)
    moreover have "lookup objectKey (withoutVersion n k v (db_objects s)) y = (if y = (n, k, v) then None else lookup objectKey (db_objects s) y)" for y
      unfolding withoutVersion_def by (rule lookup_delete) (auto simp: objectKey_def)
    ultimately have "sqlTable cd (s\<lparr>db_objects := rows\<rparr>) = (sqlTable cd s)\<lparr>tb_rows := (tb_rows (sqlTable cd s))((n, k, v) := None)\<rparr>"
      unfolding tableOf_rows by (intro table_eqI) (auto simp: rowAt_def)
    moreover have "lookup bc_name (db_buckets s) n \<noteq> None" using assms r by (auto simp: sql_wf_def versionRowsOf_def lookup_None_iff)
    ultimately have "table_step (CallDeleteVersion n k v) (sqlTable cd s) (sqlTable cd (s\<lparr>db_objects := rows\<rparr>))"
      using Some by (simp add: rowAt_def)
    then show ?thesis unfolding run by (simp add: implementsI(1) [OF wf] del: table_step.simps)
  qed
  show "implements cd s (CallDeleteObject n k) (SQLite_DeleteObject cd s n k)"
  proof (cases "lookup bc_name (db_buckets s) n")
    case None
    then show ?thesis by (simp add: SQLite_DeleteObject_def GetBucket_cases implementsI(2) Let_def)
  next
    case (Some b)
    define rows where "rows = snd (sql_delete (\<lambda>r. oc_bucket r = n \<and> oc_key r = k) (db_objects s))"
    have run: "SQLite_DeleteObject cd s n k = Inr (s\<lparr>db_objects := rows\<rparr>)" using Some by (simp add: SQLite_DeleteObject_def GetBucket_cases rows_def)
    have "objects_wf rows" unfolding rows_def sql_delete_def snd_conv by (rule objects_wf_filter [OF ow]) (auto simp: versionRowsOf_def)
    then have wf: "sql_wf (s\<lparr>db_objects := rows\<rparr>)" using assms by (intro sql_wf_update) (auto simp: rows_def sql_delete_def sql_wf_def)
    have "lookup objectKey rows (n', k', v) = (if n' = n \<and> k' = k then None else lookup objectKey (db_objects s) (n', k', v))" for n' k' v
      unfolding rows_def by (rule lookup_delete) (auto simp: objectKey_def)
    then have "sqlTable cd (s\<lparr>db_objects := rows\<rparr>) =
        (sqlTable cd s)\<lparr>tb_rows := (\<lambda>(n', k', v). if n' = n \<and> k' = k then None else tb_rows (sqlTable cd s) (n', k', v))\<rparr>"
      unfolding tableOf_rows by (intro table_eqI) (auto simp: rowAt_def)
    then have "table_step (CallDeleteObject n k) (sqlTable cd s) (sqlTable cd (s\<lparr>db_objects := rows\<rparr>))" using Some by simp
    then show ?thesis unfolding run by (rule implementsI(1) [OF wf])
  qed
qed

lemma implements_snapshot_via:
  assumes "sql_wf s" "sql_admits cd s (CallPutSnapshot now sn)"
    and "c = (if snap_CreatedAt sn = zeroTime then sn\<lparr>snap_CreatedAt := now\<rparr> else sn)" "row_put snapshotKey (snapshotValues cd c) (db_snapshots s) rows"
  shows "implements cd s (CallPutSnapshot now sn)
    (rbind (SQLite_GetBucket cd s (snap_Bucket sn)) (\<lambda>_. Inr (s\<lparr>db_snapshots := rows\<rparr>)))"
proof (cases "lookup bc_name (db_buckets s) (snap_Bucket sn)")
  case None
  then show ?thesis by (simp add: GetBucket_cases implementsI(2) Let_def)
next
  case (Some b)
  have c: "scanSnapshot cd (snapshotValues cd c) = c" by (rule scan_values) (use assms(2,3) in \<open>auto split: if_splits\<close>)
  have key: "snap_Bucket c = snap_Bucket sn" "snap_Label c = snap_Label sn" by (simp_all add: assms(3))
  have wf: "sql_wf (s\<lparr>db_snapshots := rows\<rparr>)" using assms(1,4) by (intro sql_wf_update) (simp_all add: row_put_def)
  have "distinct (map snapshotKey (db_snapshots s))" using assms(1) by (simp add: sql_wf_def)
  note look = lookup_put [OF this assms(4)]
  have "sqlTable cd (s\<lparr>db_snapshots := rows\<rparr>) = (sqlTable cd s)\<lparr>tb_snapshots := (tb_snapshots (sqlTable cd s))((snap_Bucket sn, snap_Label sn) \<mapsto> c)\<rparr>"
    using c key by (intro table_eqI) (auto simp: look)
  then have "table_step (CallPutSnapshot now sn) (sqlTable cd s) (sqlTable cd (s\<lparr>db_snapshots := rows\<rparr>))" using Some by (simp add: assms(3))
  then have "implements cd s (CallPutSnapshot now sn) (Inr (s\<lparr>db_snapshots := rows\<rparr>))" by (rule implementsI(1) [OF wf])
  with Some show ?thesis by (simp add: GetBucket_cases)
qed

lemma implements_snapshot:
  assumes "sql_wf s" "sql_admits cd s (CallPutSnapshot now sn)"
  shows "implements cd s (CallPutSnapshot now sn) (SQLite_PutSnapshot cd s now sn)"
proof -
  have "distinct (map snapshotKey (db_snapshots s))" using assms(1) by (simp add: sql_wf_def)
  from implements_snapshot_via [OF assms refl row_put_replace [OF this]] show ?thesis unfolding SQLite_PutSnapshot_def by (simp only: Let_def)
qed

lemma restored_scan:
  assumes "keepsObject cd ob" "\<not> obj_DeleteMarker ob"
  shows "unmarked (scanObject cd (restoredValues cd n ob)) = unmarked (restoredRow n ob)"
proof -
  let ?ob = "withVersion (ob\<lparr>obj_Bucket := n\<rparr>)"
  have "keepsObject cd ?ob" using assms(1) by (simp add: keepsObject_def withVersion_def)
  then have "scanObject cd (restoredValues cd n ob) = ?ob\<lparr>obj_IsLatest := True, obj_DeleteMarker := False\<rparr>"
    unfolding restoredValues_def by (rule scan_values)
  then show ?thesis using assms(2) by (simp add: unmarked_def withVersion_def restoredRow_def)
qed

lemma insertRestored_ok:
  assumes "distinct (map obj_Key obs)" "\<And>r. r \<in> set rows \<Longrightarrow> oc_bucket r = n \<Longrightarrow> oc_key r \<notin> obj_Key ` set obs"
  shows "insertRestored cd n obs rows = Inr (rows @ map (restoredValues cd n) obs)"
  using assms
proof (induction obs arbitrary: rows)
  case (Cons ob obs)
  let ?x = "restoredValues cd n ob"
  have x: "oc_bucket ?x = n" "oc_key ?x = obj_Key ob" by (simp_all add: restoredValues_def)
  have "lookup objectKey rows (objectKey ?x) = None"
    using Cons.prems(2) x by (force simp: lookup_None_iff objectKey_def)
  then have "sql_insert objectKey ?x rows = Inr (rows @ [?x])" using lookup_insert(1) by metis
  moreover have "insertRestored cd n obs (rows @ [?x]) = Inr ((rows @ [?x]) @ map (restoredValues cd n) obs)"
    by (rule Cons.IH) (use Cons.prems x in \<open>auto simp: image_iff\<close>)
  ultimately show ?case by (simp add: restoredValues_def)
qed simp

lemma implements_restore:
  assumes "sql_wf s" "sql_admits cd s (CallRestoreBucket n obs h q)"
  shows "implements cd s (CallRestoreBucket n obs h q) (SQLite_RestoreBucket cd s n obs h q)"
proof -
  let ?f = "\<lambda>r. r\<lparr>bc_head_root := h, bc_commit_seq := q\<rparr>" and ?g = "\<lambda>b. b\<lparr>bkt_HeadRoot := h, bkt_CommitSeq := q\<rparr>"
  have fg: "bc_name (?f r) = bc_name r" "scanBucket cd (?f r) = ?g (scanBucket cd r)" for r by (simp_all add: scanBucket_def)
  note upd = updateBucket_sql [OF assms(1) fg, of n]
  show ?thesis
  proof (cases "updateBucket s n ?f")
    case (Inl e)
    with upd(3) [OF Inl] show ?thesis by (simp add: SQLite_RestoreBucket_def implementsI(2) Let_def)
  next
    case (Inr s1)
    obtain bs where s1: "s1 = s\<lparr>db_buckets := bs\<rparr>" "bc_name ` set bs = bc_name ` set (db_buckets s)" using upd(2) [OF Inr] by blast
    have wf1: "sql_wf s1" and T1: "set_bucket n ?g (sqlTable cd s) (sqlTable cd s1)" using upd(1) [OF Inr] by blast+
    define rows where "rows = filter (\<lambda>r. oc_bucket r \<noteq> n) (db_objects s1) @ map (restoredValues cd n) obs"
    have keys: "distinct (map obj_Key obs)" and ok: "\<And>ob. ob \<in> set obs \<Longrightarrow> keepsObject cd ob \<and> \<not> obj_DeleteMarker ob" using assms(2) by auto
    have "insertRestored cd n obs (snd (sql_delete (\<lambda>r. oc_bucket r = n) (db_objects s1))) = Inr rows"
      unfolding rows_def sql_delete_def snd_conv by (rule insertRestored_ok [OF keys]) simp
    then have run: "SQLite_RestoreBucket cd s n obs h q = Inr (s1\<lparr>db_objects := rows\<rparr>)" by (simp add: SQLite_RestoreBucket_def Inr s1)
    have "objects_wf rows" unfolding rows_def by (rule objects_wf_restore [OF sql_wf_objects [OF wf1] keys])
    moreover have "oc_bucket r \<in> bc_name ` set (db_buckets s1)" if "r \<in> set rows" for r
    proof -
      have "n \<in> bc_name ` set (db_buckets s)" using T1 lookup_None_iff [of bc_name "db_buckets s" n] by (auto simp: set_bucket_def)
      with that wf1 show ?thesis by (auto simp: rows_def restoredValues_def sql_wf_def s1)
    qed
    ultimately have wf: "sql_wf (s1\<lparr>db_objects := rows\<rparr>)" by (intro sql_wf_update wf1)
    have new: "map_option (\<lambda>r. unmarked (scanObject cd r)) (lookup objectKey (map (restoredValues cd n) obs) (n', k, v)) =
      (if n' = n then map_of (map (\<lambda>ob. ((obj_Key ob, obj_VersionID ob), unmarked ob)) (map (restoredRow n) obs)) (k, v) else None)" for n' k v
      using ok
    proof (induction obs)
      case (Cons ob obs)
      then have "unmarked (scanObject cd (restoredValues cd n ob)) = unmarked (restoredRow n ob)" by (intro restored_scan) auto
      moreover have "objectKey (restoredValues cd n ob) = (n, obj_Key ob, obj_VersionID (restoredRow n ob))"
        by (simp add: restoredValues_def restoredRow_def withVersion_def)
      moreover have "obj_Key (restoredRow n ob) = obj_Key ob" by (simp add: restoredRow_def)
      ultimately show ?case using Cons by auto
    qed simp
    have old: "lookup objectKey (filter (\<lambda>r. oc_bucket r \<noteq> n) (db_objects s1)) (n', k, v) = (if n' \<noteq> n then lookup objectKey (db_objects s1) (n', k, v) else None)" for n' k v
      by (rule lookup_filter) (auto simp: objectKey_def)
    have "rowAt cd rows (n', k, v) = (if n' = n then map_of (map (\<lambda>ob. ((obj_Key ob, obj_VersionID ob), unmarked ob)) (map (restoredRow n) obs)) (k, v)
        else rowAt cd (db_objects s) (n', k, v))" for n' k v
    proof (cases "n' = n")
      case True
      then show ?thesis using new [of n k v] old [of n k v] by (simp add: rowAt_def rows_def)
    next
      case False
      then have "lookup objectKey (map (restoredValues cd n) obs) (n', k, v) = None" using new [of n' k v] by simp
      with False show ?thesis using old [of n' k v] by (auto simp: rowAt_def rows_def s1 split: option.splits)
    qed
    then have "sqlTable cd (s1\<lparr>db_objects := rows\<rparr>) = (sqlTable cd s1)\<lparr>tb_rows := (\<lambda>(n', k, v). if n' = n
          then map_of (map (\<lambda>ob. ((obj_Key ob, obj_VersionID ob), unmarked ob)) (map (restoredRow n) obs)) (k, v)
          else tb_rows (sqlTable cd s) (n', k, v))\<rparr>"
      unfolding tableOf_rows by (intro table_eqI) simp_all
    then have "table_step (CallRestoreBucket n obs h q) (sqlTable cd s) (sqlTable cd (s1\<lparr>db_objects := rows\<rparr>))"
      using T1 unfolding table_step.simps by blast
    then show ?thesis unfolding run by (rule implementsI(1) [OF wf])
  qed
qed

lemma implements_uploads:
  assumes "sql_wf s"
  shows "sql_admits cd s (CallCreateMultipartUpload now u) \<Longrightarrow>
      implements cd s (CallCreateMultipartUpload now u) (SQLite_CreateMultipartUpload cd s now u)"
    and "implements cd s (CallDeleteMultipartUpload uid) (SQLite_DeleteMultipartUpload s uid)"
proof -
  show "implements cd s (CallCreateMultipartUpload now u) (SQLite_CreateMultipartUpload cd s now u)"
    if adm: "sql_admits cd s (CallCreateMultipartUpload now u)"
  proof (cases "lookup bc_name (db_buckets s) (up_Bucket u)")
    case None
    then show ?thesis by (simp add: SQLite_CreateMultipartUpload_def GetBucket_cases implementsI(2) Let_def)
  next
    case (Some b)
    define c where "c = (if up_Initiated u = zeroTime then u\<lparr>up_Initiated := now\<rparr> else u)"
    have c: "scanUpload cd (uploadValues cd c) = c" by (rule scan_values) (use adm in \<open>auto simp: c_def split: if_splits\<close>)
    have key: "up_UploadID c = up_UploadID u" by (simp add: c_def)
    have free: "lookup uc_upload_id (db_uploads s) (up_UploadID u) = None" using adm by (auto simp: lookup_None_iff)
    have noparts: "lookup partKey (db_parts s) (up_UploadID u, i) = None" for i
      using assms adm by (force simp: lookup_None_iff sql_wf_def partKey_def)
    let ?s = "s\<lparr>db_uploads := db_uploads s @ [uploadValues cd c]\<rparr>"
    have ins: "sql_insert uc_upload_id (uploadValues cd c) (db_uploads s) = Inr (db_uploads s @ [uploadValues cd c])"
      using free key by (simp add: lookup_insert)
    have run: "SQLite_CreateMultipartUpload cd s now u = Inr ?s"
      using Some ins unfolding SQLite_CreateMultipartUpload_def c_def [symmetric] by (simp add: GetBucket_cases)
    have wf: "sql_wf ?s" using assms free by (auto simp: sql_wf_def lookup_None_iff key)
    have "sqlTable cd ?s = (sqlTable cd s)\<lparr>tb_uploads := (tb_uploads (sqlTable cd s))(up_UploadID u \<mapsto> c),
        tb_parts := (\<lambda>(uid, i). if uid = up_UploadID u then None else tb_parts (sqlTable cd s) (uid, i))\<rparr>"
      using c key free noparts by (intro table_eqI) (auto split: option.splits)
    then have "table_step (CallCreateMultipartUpload now u) (sqlTable cd s) (sqlTable cd ?s)" using Some by (simp add: c_def)
    then show ?thesis unfolding run by (rule implementsI(1) [OF wf])
  qed
  show "implements cd s (CallDeleteMultipartUpload uid) (SQLite_DeleteMultipartUpload s uid)"
  proof (cases "lookup uc_upload_id (db_uploads s) uid")
    case None
    then have "SQLite_DeleteMultipartUpload s uid = Inl (Sentinel ErrUploadNotFound)"
      by (auto simp: SQLite_DeleteMultipartUpload_def sql_delete_def filter_empty_conv lookup_None_iff)
    with None show ?thesis by (simp add: implementsI(2))
  next
    case (Some r)
    let ?us = "filter (\<lambda>r. uc_upload_id r \<noteq> uid) (db_uploads s)" and ?ps = "filter (\<lambda>r. pc_upload_id r \<noteq> uid) (db_parts s)"
    let ?s = "s\<lparr>db_uploads := ?us, db_parts := ?ps\<rparr>"
    have "r \<in> set (db_uploads s)" "uc_upload_id r = uid" using lookup_SomeD [OF Some] by simp_all
    then have run: "SQLite_DeleteMultipartUpload s uid = Inr ?s"
      by (auto simp: SQLite_DeleteMultipartUpload_def sql_delete_def filter_empty_conv)
    have wf: "sql_wf ?s" using assms by (simp add: sql_wf_def distinct_map_filter image_iff) metis
    have look: "lookup uc_upload_id ?us u = (if u \<noteq> uid then lookup uc_upload_id (db_uploads s) u else None)" for u by (rule lookup_filter) auto
    have look2: "lookup partKey ?ps (u, i) = (if u \<noteq> uid then lookup partKey (db_parts s) (u, i) else None)" for u i by (rule lookup_filter) (auto simp: partKey_def)
    have "sqlTable cd ?s = (sqlTable cd s)\<lparr>tb_uploads := (tb_uploads (sqlTable cd s))(uid := None),
        tb_parts := (\<lambda>(u, i). if u = uid then None else tb_parts (sqlTable cd s) (u, i))\<rparr>"
      by (intro table_eqI) (simp_all add: look look2)
    then have "table_step (CallDeleteMultipartUpload uid) (sqlTable cd s) (sqlTable cd ?s)" using Some by simp
    then show ?thesis unfolding run by (rule implementsI(1) [OF wf])
  qed
qed

text \<open>A part, whichever way its row is put into the table.\<close>

lemma implements_part_via:
  assumes "sql_wf s" "sql_admits cd s (CallPutPart uid p)" "row_put partKey (partValues cd uid p) (db_parts s) ps"
  shows "implements cd s (CallPutPart uid p)
    (if list_ex (\<lambda>r. uc_upload_id r = uid) (db_uploads s) then Inr (s\<lparr>db_parts := ps\<rparr>) else Inl (Sentinel ErrUploadNotFound))"
proof (cases "lookup uc_upload_id (db_uploads s) uid")
  case None
  then show ?thesis by (simp add: list_ex_key implementsI(2))
next
  case (Some r)
  have "uid \<in> uc_upload_id ` set (db_uploads s)" using lookup_None_iff [of uc_upload_id "db_uploads s" uid] Some by auto
  then have wf: "sql_wf (s\<lparr>db_parts := ps\<rparr>)" using assms(1,3) by (intro sql_wf_update) (auto simp: row_put_def sql_wf_def)
  have "distinct (map partKey (db_parts s))" using assms(1) by (simp add: sql_wf_def)
  note look = lookup_put [OF this assms(3)]
  have "scanPart cd (partValues cd uid p) = p" by (rule scan_values) (use assms(2) in simp)
  then have "sqlTable cd (s\<lparr>db_parts := ps\<rparr>) = (sqlTable cd s)\<lparr>tb_parts := (tb_parts (sqlTable cd s))((uid, part_PartNumber p) \<mapsto> p)\<rparr>"
    by (intro table_eqI) (simp_all add: look)
  then have "table_step (CallPutPart uid p) (sqlTable cd s) (sqlTable cd (s\<lparr>db_parts := ps\<rparr>))" using Some by auto
  then have "implements cd s (CallPutPart uid p) (Inr (s\<lparr>db_parts := ps\<rparr>))" by (rule implementsI(1) [OF wf])
  with Some show ?thesis by (simp add: list_ex_key)
qed

lemma implements_part:
  assumes "sql_wf s" "sql_admits cd s (CallPutPart uid p)"
  shows "implements cd s (CallPutPart uid p) (SQLite_PutPart cd s uid p)"
proof -
  have "distinct (map partKey (db_parts s))" using assms(1) by (simp add: sql_wf_def)
  from implements_part_via [OF assms row_put_replace [OF this]] show ?thesis by (simp only: SQLite_PutPart_def)
qed

section \<open>The range of a prefix\<close>

definition topChars :: "string \<Rightarrow> bool" where
  "topChars fs \<longleftrightarrow> (\<forall>c \<in> set fs. (of_char c :: nat) = 255)"

definition nextChar :: "char \<Rightarrow> char" where
  "nextChar c = char_of (of_char c + 1 :: nat)"

lemma of_char_le: "(of_char c :: nat) \<le> 255"
proof -
  have "(of_char c :: nat) = of_char c mod 256" by simp
  also have "\<dots> < 256" by (rule mod_less_divisor) simp
  finally show ?thesis by linarith
qed

lemma of_char_nextChar: "(of_char c :: nat) < 255 \<Longrightarrow> (of_char (nextChar c) :: nat) = of_char c + 1"
  by (simp add: nextChar_def)

lemma less_nextChar: "(of_char c :: nat) < 255 \<Longrightarrow> d < nextChar c \<longleftrightarrow> d \<le> c"
  by (simp add: less_char_def less_eq_char_def of_char_nextChar less_Suc_eq_le)

lemma prefixEnd_snoc:
  "prefixEnd (p @ [c]) = (if (of_char c :: nat) < 255 then p @ [nextChar c] else prefixEnd p)"
  by (simp add: prefixEnd_def nextChar_def)

lemma prefixEnd_Nil [simp]: "prefixEnd [] = []"
  by (simp add: prefixEnd_def)

lemma top_le_iff: "topChars fs \<Longrightarrow> fs \<le> k \<longleftrightarrow> HasPrefix k fs"
proof (induction fs arbitrary: k)
  case (Cons c fs)
  have "(of_char c :: nat) = 255" using Cons.prems by (simp add: topChars_def)
  then have "\<not> c < d" for d using of_char_le [of d] by (simp add: less_char_def)
  moreover have "topChars fs" using Cons.prems by (simp add: topChars_def)
  ultimately show ?case using Cons.IH by (cases k) auto
qed simp

lemma bounded_iff:
  assumes "topChars fs" "(of_char c :: nat) < 255"
  shows "p @ c # fs \<le> k \<and> k < p @ [nextChar c] \<longleftrightarrow> HasPrefix k (p @ c # fs)"
proof (induction p arbitrary: k)
  case Nil
  show ?case
  proof (cases k)
    case (Cons d k')
    have "c # fs \<le> d # k' \<and> d # k' < [nextChar c] \<longleftrightarrow> (c < d \<or> c = d \<and> HasPrefix k' fs) \<and> d \<le> c"
      by (simp add: top_le_iff [OF assms(1)] less_nextChar [OF assms(2)])
    moreover have "(c < d \<or> c = d \<and> HasPrefix k' fs) \<and> d \<le> c \<longleftrightarrow> d = c \<and> HasPrefix k' fs" by (meson leD order_refl)
    ultimately show ?thesis by (simp add: Cons)
  qed simp
next
  case (Cons x p)
  show ?case using Cons.IH [of "tl k"] by (cases k) auto
qed

lemma prefix_range:
  "HasPrefix k p \<longleftrightarrow> inPrefixRange p k"
proof -
  have "topChars fs \<Longrightarrow> p @ fs \<le> k \<and> (prefixEnd p \<noteq> [] \<longrightarrow> k < prefixEnd p) \<longleftrightarrow> HasPrefix k (p @ fs)" for fs
  proof (induction p arbitrary: fs rule: rev_induct)
    case Nil
    then show ?case by (simp add: top_le_iff)
  next
    case (snoc c p)
    show ?case
    proof (cases "(of_char c :: nat) < 255")
      case True
      with bounded_iff [OF snoc.prems True, of p k] show ?thesis by (simp add: prefixEnd_snoc)
    next
      case False
      then have "topChars (c # fs)" using snoc.prems of_char_le [of c] by (simp add: topChars_def)
      with snoc.IH [of "c # fs"] False show ?thesis by (simp add: prefixEnd_snoc)
    qed
  qed
  from this [of "[]"] show ?thesis by (simp add: inPrefixRange_def topChars_def)
qed

section \<open>The SQLite index keeps the contract\<close>

fun sqlite_exec :: "Codec \<Rightarrow> mem_op \<Rightarrow> Database \<Rightarrow> Database sql_result" where
  "sqlite_exec cd (CallCreateBucket now b) s = SQLite_CreateBucket cd s now b"
| "sqlite_exec cd (CallDeleteBucket n) s = SQLite_DeleteBucket s n"
| "sqlite_exec cd (CallSetBucketVersioning n a) s = SQLite_SetBucketVersioning s n a"
| "sqlite_exec cd (CallSetBucketEncryption n a) s = SQLite_SetBucketEncryption s n a"
| "sqlite_exec cd (CallSetBucketRecoveryRecipient n a) s = SQLite_SetBucketRecoveryRecipient s n a"
| "sqlite_exec cd (CallSetBucketCORS n a) s = SQLite_SetBucketCORS s n a"
| "sqlite_exec cd (CallSetBucketTagging n a) s = SQLite_SetBucketTagging s n a"
| "sqlite_exec cd (CallSetBucketACT n h g) s = SQLite_SetBucketACT s n h g"
| "sqlite_exec cd (CallSetBucketHead n r q) s = SQLite_SetBucketHead s n r q"
| "sqlite_exec cd (CallSetObjectTags n k v t) s = SQLite_SetObjectTags cd s n k v t"
| "sqlite_exec cd (CallPutSnapshot now sn) s = SQLite_PutSnapshot cd s now sn"
| "sqlite_exec cd (CallRestoreBucket n obs r q) s = SQLite_RestoreBucket cd s n obs r q"
| "sqlite_exec cd (CallPutObject ob c) s = SQLite_PutObject cd s ob c"
| "sqlite_exec cd (CallDeleteObject n k) s = SQLite_DeleteObject cd s n k"
| "sqlite_exec cd (CallDeleteVersion n k v) s = rbind (SQLite_DeleteVersion cd s n k v) (\<lambda>(_, s'). Inr s')"
| "sqlite_exec cd (CallCreateMultipartUpload now u) s = SQLite_CreateMultipartUpload cd s now u"
| "sqlite_exec cd (CallPutPart u p) s = SQLite_PutPart cd s u p"
| "sqlite_exec cd (CallDeleteMultipartUpload u) s = SQLite_DeleteMultipartUpload s u"

lemma sqlite_implements:
  assumes "sql_wf s" "sql_admits cd s opn"
  shows "implements cd s opn (sqlite_exec cd opn s)"
  using assms
  by (cases opn)
    (simp_all only: sqlite_exec.simps implements_settings implements_buckets implements_put implements_tags implements_delete implements_snapshot
      implements_restore implements_uploads implements_part)

lemma sqlite_get:
  assumes "sql_wf s"
  shows "SQLite_GetObject cd s n k = Inr ob \<Longrightarrow> obj_IsLatest ob \<and> current (sqlTable cd s) n k (unmarked ob)"
    and "SQLite_GetObject cd s n k = Inl e \<Longrightarrow> (\<forall>v. tb_rows (sqlTable cd s) (n, k, v) = None) \<and>
      e = Sentinel (if tb_buckets (sqlTable cd s) n = None then ErrBucketNotFound else ErrObjectNotFound)"
proof -
  note ow = sql_wf_objects [OF assms]
  have cur: "current (sqlTable cd s) n k w \<longleftrightarrow> (\<exists>r \<in> versionRowsOf (db_objects s) n k. oc_is_latest r \<and> w = unmarked (scanObject cd r))" for w
    by (rule sql_current [OF ow]) (simp add: fun_eq_iff)
  show "obj_IsLatest ob \<and> current (sqlTable cd s) n k (unmarked ob)" if get: "SQLite_GetObject cd s n k = Inr ob"
  proof -
    obtain r where "latestRow (db_objects s) n k = Some r" "ob = scanObject cd r"
      using get by (auto simp: SQLite_GetObject_def latestRow_def GetBucket_cases split: option.splits)
    then show ?thesis using latestRow_Some [of "db_objects s" n k r] unfolding cur by auto
  qed
  show "(\<forall>v. tb_rows (sqlTable cd s) (n, k, v) = None) \<and>
      e = Sentinel (if tb_buckets (sqlTable cd s) n = None then ErrBucketNotFound else ErrObjectNotFound)" if get: "SQLite_GetObject cd s n k = Inl e"
  proof -
    have "latestRow (db_objects s) n k = None" "e = Sentinel (if lookup bc_name (db_buckets s) n = None then ErrBucketNotFound else ErrObjectNotFound)"
      using get by (auto simp: SQLite_GetObject_def latestRow_def GetBucket_cases split: option.splits)
    then show ?thesis using latestRow_None [OF ow] by (simp add: rowAt_None_iff)
  qed
qed

lemma sqlite_get_version:
  assumes "sql_wf s"
  shows "SQLite_GetObjectVersion cd s n k v = Inr ob \<Longrightarrow> tb_rows (sqlTable cd s) (n, k, v) = Some (unmarked ob)"
    and "SQLite_GetObjectVersion cd s n k v = Inl e \<Longrightarrow> tb_rows (sqlTable cd s) (n, k, v) = None \<and>
      e = Sentinel (if tb_buckets (sqlTable cd s) n = None then ErrBucketNotFound else ErrObjectNotFound)"
proof -
  have find: "find (\<lambda>r. oc_bucket r = n \<and> oc_key r = k \<and> oc_version_id r = v) rows = lookup objectKey rows (n, k, v)" for rows
    by (simp add: lookup_def objectKey_def)
  show "tb_rows (sqlTable cd s) (n, k, v) = Some (unmarked ob)" if "SQLite_GetObjectVersion cd s n k v = Inr ob"
    using that by (auto simp: SQLite_GetObjectVersion_def find GetBucket_cases rowAt_def split: option.splits)
  show "tb_rows (sqlTable cd s) (n, k, v) = None \<and> e = Sentinel (if tb_buckets (sqlTable cd s) n = None then ErrBucketNotFound else ErrObjectNotFound)"
    if "SQLite_GetObjectVersion cd s n k v = Inl e"
    using that by (auto simp: SQLite_GetObjectVersion_def find GetBucket_cases rowAt_def split: option.splits)
qed

lemma sql_limit_takeLimit: "sql_limit n xs = takeLimit n xs"
  by (auto simp: sql_limit_def takeLimit_def)

lemma sorted_by_distinct_key:
  assumes "distinct (map f xs)"
  shows "sorted_wrt (<) (map f (sort_key f xs))"
proof -
  have "distinct (map f (sort_key f xs))"
    using assms by (metis distinct_map_sort_key)
  then show ?thesis by (simp add: strict_sorted_iff)
qed

lemma sqlite_list:
  assumes "sql_wf s"
  shows "SQLite_ListObjects cd s n p a limit = Inr obs \<Longrightarrow> tb_buckets (sqlTable cd s) n \<noteq> None \<and> listing_of (sqlTable cd s) n p a limit obs"
    and "SQLite_ListObjects cd s n p a limit = Inl e \<Longrightarrow> tb_buckets (sqlTable cd s) n = None \<and> e = Sentinel ErrBucketNotFound"
proof -
  note ow = sql_wf_objects [OF assms]
  have cur: "current (sqlTable cd s) n k w \<longleftrightarrow> (\<exists>r \<in> versionRowsOf (db_objects s) n k. oc_is_latest r \<and> w = unmarked (scanObject cd r))" for k w
    by (rule sql_current [OF ow]) (simp add: fun_eq_iff)
  define rows where "rows = filter (\<lambda>r. oc_bucket r = n \<and> oc_is_latest r \<and> \<not> oc_delete_marker r \<and> a < oc_key r \<and> inPrefixRange p (oc_key r)) (db_objects s)"
  define full where "full = map (scanObject cd) (sort_key oc_key rows)"
  have eq: "SQLite_ListObjects cd s n p a limit = (if lookup bc_name (db_buckets s) n = None then Inl (Sentinel ErrBucketNotFound) else Inr (takeLimit limit full))"
    by (simp add: SQLite_ListObjects_def GetBucket_cases rows_def full_def sql_limit_takeLimit takeLimit_map Let_def split: option.split)
  have keys: "map obj_Key full = map oc_key (sort_key oc_key rows)" by (simp add: full_def)
  have "distinct (map oc_key rows)"
  proof -
    have "inj_on oc_key (set rows)"
    proof (rule inj_onI)
      fix r q assume rq: "r \<in> set rows" "q \<in> set rows" "oc_key r = oc_key q"
      then have "r \<in> versionRowsOf (db_objects s) n (oc_key q)" "q \<in> versionRowsOf (db_objects s) n (oc_key q)" "oc_is_latest r" "oc_is_latest q"
        by (auto simp: rows_def versionRowsOf_def)
      with ow show "r = q" by (auto simp: objects_wf_def intro: latest_unique)
    qed
    moreover have "distinct rows" using ow by (simp add: rows_def objects_wf_def distinct_map)
    ultimately show ?thesis by (simp add: distinct_map)
  qed
  then have sorted: "sorted_wrt (<) (map obj_Key full)" unfolding keys by (rule sorted_by_distinct_key)
  have "full_listing (sqlTable cd s) n p a full"
    unfolding full_listing_def
  proof (intro conjI ballI allI impI)
    show "sorted_wrt (<) (map obj_Key full)" by (rule sorted)
  next
    fix ob assume "ob \<in> set full"
    then obtain r where r: "r \<in> set rows" "ob = scanObject cd r" by (auto simp: full_def)
    then have "r \<in> versionRowsOf (db_objects s) n (oc_key r)" "oc_is_latest r" by (simp_all add: rows_def versionRowsOf_def)
    with r show "in_listing p a (obj_Key ob)" "obj_IsLatest ob" "\<not> obj_DeleteMarker ob" "current (sqlTable cd s) n (obj_Key ob) (unmarked ob)"
      unfolding cur by (auto simp: rows_def in_listing_def prefix_range)
  next
    fix k assume k: "in_listing p a k" "\<exists>v. tb_rows (sqlTable cd s) (n, k, v) \<noteq> None"
    then have "versionRowsOf (db_objects s) n k \<noteq> {}" by (auto simp: rowAt_None_iff)
    then obtain r where r: "r \<in> versionRowsOf (db_objects s) n k" "oc_is_latest r" using latest_exists [of "versionRowsOf (db_objects s) n k"] ow by (auto simp: objects_wf_def)
    show "k \<in> obj_Key ` set full \<or> (\<exists>ob. current (sqlTable cd s) n k ob \<and> obj_DeleteMarker ob)"
    proof (cases "oc_delete_marker r")
      case True
      have "current (sqlTable cd s) n k (unmarked (scanObject cd r))" unfolding cur using r by blast
      with True show ?thesis by (intro disjI2 exI [of _ "unmarked (scanObject cd r)"]) simp
    next
      case False
      with r k(1) have "r \<in> set rows" "oc_key r = k" by (simp_all add: rows_def versionRowsOf_def in_listing_def prefix_range)
      then have "scanObject cd r \<in> set full" "obj_Key (scanObject cd r) = k" by (simp_all add: full_def)
      then show ?thesis by blast
    qed
  qed
  then have "listing_of (sqlTable cd s) n p a limit (takeLimit limit full)" by (auto simp: listing_of_def)
  then show "tb_buckets (sqlTable cd s) n \<noteq> None \<and> listing_of (sqlTable cd s) n p a limit obs" if "SQLite_ListObjects cd s n p a limit = Inr obs"
    using that unfolding eq by (auto split: if_splits)
  show "tb_buckets (sqlTable cd s) n = None \<and> e = Sentinel ErrBucketNotFound" if "SQLite_ListObjects cd s n p a limit = Inl e"
    using that unfolding eq by (auto split: if_splits)
qed

text \<open>Version listings.\<close>

lemma sql_vseqs_distinct:
  assumes "sql_wf s"
  shows "vseqs_distinct (sqlTable cd s)"
proof -
  have d: "distinct (map objectKey (db_objects s))" and wf: "\<And>n k. key_wf (versionRowsOf (db_objects s) n k)"
    using sql_wf_objects [OF assms] by (simp_all add: objects_wf_def)
  show ?thesis
    unfolding vseqs_distinct_def sqlTable_sel rowAt_Some [OF d]
  proof (intro allI impI, elim bexE conjE)
    fix n k v w a b r q
    assume r: "r \<in> versionRowsOf (db_objects s) n k" "oc_version_id r = v" "a = unmarked (scanObject cd r)"
      and q: "q \<in> versionRowsOf (db_objects s) n k" "oc_version_id q = w" "b = unmarked (scanObject cd q)" and eq: "obj_VSeq a = obj_VSeq b"
    have "oc_vseq r = oc_vseq q" using eq r(3) q(3) by simp
    then have "r = q" using wf [of n k] r(1) q(1) by (auto simp: key_wf_def inj_on_def)
    with r(2) q(2) show "v = w" by simp
  qed
qed

lemma sqlite_versions:
  assumes "sql_wf s"
  shows "SQLite_ListVersions cd s n p km vm limit = Inr obs \<Longrightarrow>
      tb_buckets (sqlTable cd s) n \<noteq> None \<and> (\<exists>full. version_listing (sqlTable cd s) n p km vm full \<and> obs = takeLimit limit full)"
    and "SQLite_ListVersions cd s n p km vm limit = Inl e \<Longrightarrow> tb_buckets (sqlTable cd s) n = None \<and> e = Sentinel ErrBucketNotFound"
proof -
  note ow = sql_wf_objects [OF assms]
  have d: "distinct (map objectKey (db_objects s))" and wf: "\<And>n k. key_wf (versionRowsOf (db_objects s) n k)"
    using ow by (simp_all add: objects_wf_def)
  have cur: "current (sqlTable cd s) n k w \<longleftrightarrow> (\<exists>r \<in> versionRowsOf (db_objects s) n k. oc_is_latest r \<and> w = unmarked (scanObject cd r))" for k w
    by (rule sql_current [OF ow]) (simp add: fun_eq_iff)
  define rows where "rows = filter (\<lambda>r. oc_bucket r = n \<and> inPrefixRange p (oc_key r) \<and> after_marker (sqlTable cd s) n km vm (unmarked (scanObject cd r))) (db_objects s)"
  define pos :: "objectRow \<Rightarrow> string \<times> int" where "pos = (\<lambda>r. (oc_key r, - oc_vseq r))"
  define full where "full = map (scanObject cd) (sort_key pos rows)"
  have find: "find (\<lambda>r. oc_bucket r = n \<and> oc_key r = km \<and> oc_version_id r = vm) (db_objects s) = lookup objectKey (db_objects s) (n, km, vm)"
    by (simp add: lookup_def objectKey_def)
  have marker: "(case lookup objectKey (db_objects s) (n, km, vm) of None \<Rightarrow> - 1 | Some r \<Rightarrow> oc_vseq r) =
      (case tb_rows (sqlTable cd s) (n, km, vm) of None \<Rightarrow> - 1 | Some a \<Rightarrow> obj_VSeq a)" by (simp add: rowAt_def split: option.split)
  have eq: "SQLite_ListVersions cd s n p km vm limit = (if lookup bc_name (db_buckets s) n = None then Inl (Sentinel ErrBucketNotFound) else Inr (takeLimit limit full))"
    unfolding SQLite_ListVersions_def GetBucket_cases find marker full_def rows_def pos_def sql_limit_takeLimit
    by (auto simp: after_marker_def takeLimit_map Let_def split: option.split intro!: arg_cong [where f = "takeLimit limit"] arg_cong [where f = "map (scanObject cd)"] arg_cong [where f = "sort_key _"] filter_cong)
  have "distinct (map pos rows)"
  proof -
    have "inj_on pos (set rows)"
    proof (rule inj_onI)
      fix r q assume rq: "r \<in> set rows" "q \<in> set rows" "pos r = pos q"
      then have "r \<in> versionRowsOf (db_objects s) n (oc_key q)" "q \<in> versionRowsOf (db_objects s) n (oc_key q)" "oc_vseq r = oc_vseq q"
        by (auto simp: rows_def versionRowsOf_def pos_def)
      with wf [of n "oc_key q"] show "r = q" by (auto simp: key_wf_def inj_on_def)
    qed
    moreover have "distinct rows" using d by (simp add: rows_def distinct_map)
    ultimately show ?thesis by (simp add: distinct_map)
  qed
  then have "sorted_wrt (<) (map pos (sort_key pos rows))" by (rule sorted_by_distinct_key)
  moreover have "map rowPos full = map pos (sort_key pos rows)" by (simp add: full_def rowPos_def pos_def)
  ultimately have sorted: "sorted_wrt (<) (map rowPos full)" by (simp only:)
  have "version_listing (sqlTable cd s) n p km vm full"
    unfolding version_listing_def
  proof (intro conjI ballI)
    show "sorted_wrt (<) (map rowPos full)" by (rule sorted)
    show "obj_IsLatest ob \<longleftrightarrow> current (sqlTable cd s) n (obj_Key ob) (unmarked ob)" if ob: "ob \<in> set full" for ob
    proof -
      obtain r where r: "r \<in> set rows" "ob = scanObject cd r" using ob by (auto simp: full_def)
      have S: "r \<in> versionRowsOf (db_objects s) n (oc_key r)" using r(1) by (simp add: rows_def versionRowsOf_def)
      have "oc_is_latest q \<longrightarrow> oc_is_latest r" if q: "q \<in> versionRowsOf (db_objects s) n (oc_key r)" "unmarked (scanObject cd r) = unmarked (scanObject cd q)" for q
      proof -
        have "oc_vseq r = oc_vseq q" using arg_cong [OF q(2), of obj_VSeq] by simp
        then have "r = q" using wf [of n "oc_key r"] S q(1) by (auto simp: key_wf_def inj_on_def)
        then show ?thesis by simp
      qed
      then show ?thesis using S unfolding r(2) scan_sel cur by blast
    qed
    show "unmarked ` set full = {w. (\<exists>k v. tb_rows (sqlTable cd s) (n, k, v) = Some w \<and> obj_Key w = k) \<and> HasPrefix (obj_Key w) p \<and> after_marker (sqlTable cd s) n km vm w}"
    proof (intro set_eqI iffI)
      fix w assume "w \<in> unmarked ` set full"
      then obtain r where r: "r \<in> set rows" "w = unmarked (scanObject cd r)" by (auto simp: full_def)
      then have "r \<in> versionRowsOf (db_objects s) n (oc_key r)" by (simp add: rows_def versionRowsOf_def)
      then have "tb_rows (sqlTable cd s) (n, oc_key r, oc_version_id r) = Some w" unfolding sqlTable_sel rowAt_Some [OF d] r(2) by blast
      moreover have "obj_Key w = oc_key r" using r(2) by simp
      moreover have "HasPrefix (obj_Key w) p" "after_marker (sqlTable cd s) n km vm w" using r by (simp_all add: rows_def prefix_range)
      ultimately show "w \<in> {w. (\<exists>k v. tb_rows (sqlTable cd s) (n, k, v) = Some w \<and> obj_Key w = k) \<and> HasPrefix (obj_Key w) p \<and> after_marker (sqlTable cd s) n km vm w}"
        by blast
    next
      fix w assume "w \<in> {w. (\<exists>k v. tb_rows (sqlTable cd s) (n, k, v) = Some w \<and> obj_Key w = k) \<and> HasPrefix (obj_Key w) p \<and> after_marker (sqlTable cd s) n km vm w}"
      then obtain v where w: "tb_rows (sqlTable cd s) (n, obj_Key w, v) = Some w" "HasPrefix (obj_Key w) p" "after_marker (sqlTable cd s) n km vm w" by blast
      obtain r where r: "r \<in> versionRowsOf (db_objects s) n (obj_Key w)" "w = unmarked (scanObject cd r)"
        using w(1) unfolding sqlTable_sel rowAt_Some [OF d] by blast
      then have "r \<in> set rows" using w(2,3) by (simp add: rows_def versionRowsOf_def prefix_range)
      then show "w \<in> unmarked ` set full" using r(2) by (simp add: full_def)
    qed
  qed
  then show "tb_buckets (sqlTable cd s) n \<noteq> None \<and> (\<exists>full. version_listing (sqlTable cd s) n p km vm full \<and> obs = takeLimit limit full)"
    if "SQLite_ListVersions cd s n p km vm limit = Inr obs" using that unfolding eq by (auto split: if_splits)
  show "tb_buckets (sqlTable cd s) n = None \<and> e = Sentinel ErrBucketNotFound" if "SQLite_ListVersions cd s n p km vm limit = Inl e"
    using that unfolding eq by (auto split: if_splits)
qed

interpretation sqlite: index_contract "sqlite_exec cd" Sentinel "sqlTable cd" sql_wf "sql_admits cd"
  "SQLite_GetObject cd" "SQLite_GetObjectVersion cd" "SQLite_ListObjects cd" "SQLite_ListVersions cd" for cd
proof unfold_locales
  fix s opn s' assume "sql_wf s" "sql_admits cd s opn" "sqlite_exec cd opn s = Inr s'"
  with sqlite_implements [of s cd opn] show "sql_wf s'" "table_step opn (sqlTable cd s) (sqlTable cd s')" by (simp_all add: implements_def)
next
  fix s opn e assume "sql_wf s" "sql_admits cd s opn" "sqlite_exec cd opn s = Inl e"
  with sqlite_implements [of s cd opn] show "\<exists>x. e = Sentinel x \<and> table_error opn (sqlTable cd s) x" by (simp add: implements_def)
qed (rule sqlite_get sqlite_get_version sqlite_list sqlite_versions; assumption)+

section \<open>A migrated database\<close>

lemma migrated_wf:
  assumes "distinct (map (\<lambda>r. (v1_bucket r, v1_key r)) old)"
  shows "objects_wf (migrateObjectsToVersioned (ObjectsV1 old))"
    and "q \<in> set old \<Longrightarrow> copyV1Row q \<in> set (migrateObjectsToVersioned (ObjectsV1 old))"
proof -
  let ?rows = "migrateObjectsToVersioned (ObjectsV1 old)"
  have rows: "?rows = map copyV1Row old" by (simp add: migrateObjectsToVersioned_def)
  have key: "objectKey (copyV1Row q) = (v1_bucket q, v1_key q, ''null'')" for q by (simp add: objectKey_def copyV1Row_def)
  have d: "distinct (map objectKey ?rows)" using assms by (auto simp: rows distinct_map inj_on_def key)
  moreover have "key_wf (versionRowsOf ?rows n k)" for n k
  proof -
    have one: "r = q" if rq: "r \<in> versionRowsOf ?rows n k" "q \<in> versionRowsOf ?rows n k" for r q
    proof -
      have "oc_version_id x = ''null''" if "x \<in> set ?rows" for x using that by (auto simp: rows copyV1Row_def)
      then have "objectKey r = objectKey q" using rq by (simp add: versionRowsOf_def objectKey_def)
      moreover have "r \<in> set ?rows" "q \<in> set ?rows" using rq by (simp_all add: versionRowsOf_def)
      ultimately show ?thesis using d unfolding distinct_map inj_on_def by blast
    qed
    moreover have "oc_is_latest r" if "r \<in> versionRowsOf ?rows n k" for r using that by (auto simp: versionRowsOf_def rows copyV1Row_def)
    ultimately show ?thesis unfolding key_wf_def newestOf_def by (metis inj_onI order_refl)
  qed
  ultimately show "objects_wf ?rows" by (simp add: objects_wf_def)
  show "copyV1Row q \<in> set ?rows" if "q \<in> set old" using that by (simp add: rows)
qed

end
