(* ===== verification/Memory_Table.thy ===== *)
theory Memory_Table
  imports Index_Table Memory_Props
begin

text \<open>
  The refinement of the in-memory index: the table of a state, and the proof that every method of \<open>Memory\<close>
  keeps the contract of theory \<open>Index_Table\<close>.
\<close>

declare table_step.simps [simp] table_error.simps [simp]

section \<open>The in-memory index implements it\<close>

definition rowsOf :: "Object list \<Rightarrow> string \<rightharpoonup> Object" where
  "rowsOf vs = map_of (map (\<lambda>ob. (obj_VersionID ob, unmarked ob)) vs)"

definition tableOf :: "Memory \<Rightarrow> Table" where
  "tableOf m =
     \<lparr>tb_buckets = (\<lambda>n. map_option mb_meta (gm_get (mem_buckets m) n)),
      tb_rows = (\<lambda>(n, k, v). case gm_get (mem_buckets m) n of None \<Rightarrow> None | Some b \<Rightarrow> rowsOf (versionsOf b k) v),
      tb_snapshots = (\<lambda>(n, l). case gm_get (mem_buckets m) n of None \<Rightarrow> None | Some b \<Rightarrow> gm_get (mb_snapshots b) l),
      tb_uploads = (\<lambda>uid. map_option mu_meta (gm_get (mem_uploads m) uid)),
      tb_parts = (\<lambda>(uid, i). case gm_get (mem_uploads m) uid of None \<Rightarrow> None | Some u \<Rightarrow> gm_get (mu_parts u) i)\<rparr>"

lemma rowsOf_simps [simp]: "rowsOf [] = Map.empty" "rowsOf (ob # vs) = (rowsOf vs)(obj_VersionID ob \<mapsto> unmarked ob)"
  by (simp_all add: rowsOf_def)

lemma rowsOf_map: "(\<And>ob. obj_VersionID (f ob) = obj_VersionID ob \<and> unmarked (f ob) = unmarked ob) \<Longrightarrow> rowsOf (map f vs) = rowsOf vs"
  by (induction vs) auto

lemma rowsOf_None_iff: "rowsOf vs v = None \<longleftrightarrow> v \<notin> obj_VersionID ` set vs"
  by (induction vs) auto

lemma rowsOf_filter: "rowsOf (filter (\<lambda>ob. obj_VersionID ob \<noteq> v) vs) = (rowsOf vs)(v := None)"
  by (induction vs) auto

lemma rowsOf_eq:
  assumes "distinct (map obj_VersionID vs)" "distinct (map obj_VersionID ws)"
    and "(\<lambda>ob. (obj_VersionID ob, unmarked ob)) ` set vs = (\<lambda>ob. (obj_VersionID ob, unmarked ob)) ` set ws"
  shows "rowsOf vs = rowsOf ws"
  unfolding rowsOf_def using assms by (subst map_of_inject_set) (simp_all add: comp_def)

lemma rowsOf_sort: "distinct (map obj_VersionID vs) \<Longrightarrow> rowsOf (sortVersions vs) = rowsOf vs"
  by (rule rowsOf_eq) (simp_all add: distinct_sortVersions image_sortVersions)

lemma rowsOf_put:
  "distinct (map obj_VersionID vs) \<Longrightarrow> rowsOf (putVersions ob vs) = (rowsOf vs)(obj_VersionID ob \<mapsto> unmarked ob)"
  unfolding putVersions_def
  by (subst rowsOf_sort) (auto simp: comp_def distinct_map_filter rowsOf_map rowsOf_filter)

lemma rowsOf_take:
  assumes "takeVersion v vs = Some (ob, ws)" "distinct (map obj_VersionID vs)"
  shows "rowsOf (sortVersions ws) = (rowsOf vs)(v := None)" "rowsOf vs v \<noteq> None"
proof -
  obtain as bs where vs: "vs = as @ ob # bs" "ws = as @ bs" "obj_VersionID ob = v" using takeVersion_Some [OF assms(1)] by blast
  have "filter (\<lambda>x. obj_VersionID x \<noteq> v) vs = ws" 
  proof -
    have "filter (\<lambda>x. obj_VersionID x \<noteq> v) as = as" "filter (\<lambda>x. obj_VersionID x \<noteq> v) bs = bs"
      using assms(2) vs by (auto simp: filter_id_conv image_iff)
    then show ?thesis using vs by simp
  qed
  then have "rowsOf ws = (rowsOf vs)(v := None)" using rowsOf_filter [of v vs] by simp
  moreover have "distinct (map obj_VersionID ws)" using assms(2) vs by simp
  ultimately show "rowsOf (sortVersions ws) = (rowsOf vs)(v := None)" by (simp add: rowsOf_sort)
  show "rowsOf vs v \<noteq> None" using vs by (auto simp: rowsOf_None_iff)
qed

text \<open>The first row is a current one.\<close>

lemma versions_current:
  assumes "versions_wf n k (ob # vs)"
  shows "rowsOf (ob # vs) (obj_VersionID ob) = Some (unmarked ob)" and "rowsOf (ob # vs) v = Some w \<Longrightarrow> obj_VSeq w \<le> obj_VSeq ob"
proof -
  show "rowsOf (ob # vs) (obj_VersionID ob) = Some (unmarked ob)" by simp
  assume "rowsOf (ob # vs) v = Some w"
  then have "(v, w) \<in> set (map (\<lambda>ob. (obj_VersionID ob, unmarked ob)) (ob # vs))" unfolding rowsOf_def by (rule map_of_SomeD)
  then obtain x where "x \<in> set (ob # vs)" "w = unmarked x" by auto
  with assms show "obj_VSeq w \<le> obj_VSeq ob" by (auto simp: versions_wf_def)
qed

lemma tagFirst_rows:
  assumes "tagFirst p t vs = Some ws" "distinct (map obj_VersionID vs)"
  shows "\<exists>ob. List.find p vs = Some ob \<and> rowsOf ws = (rowsOf vs)(obj_VersionID ob \<mapsto> (unmarked ob)\<lparr>obj_Tags := t\<rparr>)"
  using assms
proof (induction vs arbitrary: ws)
  case (Cons x vs)
  show ?case
  proof (cases "p x")
    case False
    with Cons.prems obtain ws' where ws': "tagFirst p t vs = Some ws'" "ws = x # ws'" by auto
    moreover have "distinct (map obj_VersionID vs)" using Cons.prems(2) by simp
    ultimately obtain ob where ob: "List.find p vs = Some ob" "rowsOf ws' = (rowsOf vs)(obj_VersionID ob \<mapsto> (unmarked ob)\<lparr>obj_Tags := t\<rparr>)"
      using Cons.IH by blast
    from ob(1) have "ob \<in> set vs" by (auto simp: find_Some_iff)
    then have "obj_VersionID ob \<noteq> obj_VersionID x" using Cons.prems(2) by (metis distinct.simps(2) image_eqI list.set_map list.simps(9))
    with ob ws'(2) False show ?thesis by (auto simp: fun_upd_twist)
  qed (use Cons.prems in auto)
qed simp

lemma tagFirst_None_iff: "tagFirst p t vs = None \<longleftrightarrow> List.find p vs = None"
  by (induction vs) auto

text \<open>The table of a changed bucket.\<close>

lemma tableOf_put:
  "tableOf (putBucket m n b) = (tableOf m)
     \<lparr>tb_buckets := (tb_buckets (tableOf m))(n \<mapsto> mb_meta b),
      tb_rows := (\<lambda>(n', k, v). if n' = n then rowsOf (versionsOf b k) v else tb_rows (tableOf m) (n', k, v)),
      tb_snapshots := (\<lambda>(n', l). if n' = n then gm_get (mb_snapshots b) l else tb_snapshots (tableOf m) (n', l))\<rparr>"
  by (auto simp: tableOf_def putBucket_def fun_eq_iff)

lemma tableOf_bucket:
  "getBucket m n = Inr b \<Longrightarrow> tb_buckets (tableOf m) n = Some (mb_meta b)"
  "getBucket m n = Inl e \<Longrightarrow> tb_buckets (tableOf m) n = None"
  "getBucket m n = Inr b \<Longrightarrow> tb_rows (tableOf m) (n, k, v) = rowsOf (versionsOf b k) v"
  "getBucket m n = Inr b \<Longrightarrow> tb_snapshots (tableOf m) (n, l) = gm_get (mb_snapshots b) l"
  by (auto simp: tableOf_def getBucket_def split: option.splits)

lemma tableOf_meta:
  assumes "getBucket m n = Inr b"
  shows "set_bucket n f (tableOf m) (tableOf (putBucket m n (b\<lparr>mb_meta := f (mb_meta b)\<rparr>)))"
  unfolding set_bucket_def tableOf_put using tableOf_bucket(1,3,4) [OF assms]
  by (intro exI [of _ "mb_meta b"]) (auto simp: versionsOf_def intro!: table_eqI)

lemma tableOf_objects:
  assumes "getBucket m n = Inr b" "mb_meta b' = mb_meta b" "mb_snapshots b' = mb_snapshots b"
  shows "tableOf (putBucket m n b') = (tableOf m)\<lparr>tb_rows :=
    (\<lambda>(n', k, v). if n' = n then rowsOf (versionsOf b' k) v else tb_rows (tableOf m) (n', k, v))\<rparr>"
  unfolding tableOf_put using tableOf_bucket(1,3,4) [OF assms(1)] assms(2,3)
  by (intro table_eqI) (auto simp: fun_eq_iff)

lemma tableOf_current:
  assumes "memory_wf m" "getBucket m n = Inr b" "versionsOf b k = ob # vs"
  shows "current (tableOf m) n k (unmarked ob)"
proof -
  have "versions_wf n k (ob # vs)" using versionsOf_wf [OF memory_wf_getBucket [OF assms(1,2)], of k] assms(3) by simp
  then show ?thesis
    using versions_current [of n k ob vs] tableOf_bucket(3) [OF assms(2), of k] assms(3) by (auto simp: current_def)
qed

lemma tableOf_etag:
  assumes "memory_wf m" "getBucket m n = Inr b"
  shows "shows_etag (tableOf m) n k (currentETag (versionsOf b k))"
proof (cases "versionsOf b k")
  case Nil
  then show ?thesis using tableOf_bucket(3) [OF assms(2), of k] by (simp add: shows_etag_def currentETag_def)
next
  case (Cons ob vs)
  have "\<not> (\<forall>v. tb_rows (tableOf m) (n, k, v) = None)"
    using tableOf_bucket(3) [OF assms(2), of k "obj_VersionID ob"] Cons by auto
  then show ?thesis
    using tableOf_current [OF assms Cons] by (auto simp: shows_etag_def currentETag_def Cons intro!: exI [of _ "unmarked ob"])
qed

lemma versions_distinct: "memory_wf m \<Longrightarrow> getBucket m n = Inr b \<Longrightarrow> distinct (map obj_VersionID (versionsOf b k))"
  using versionsOf_wf [OF memory_wf_getBucket, of m n b k] by (cases "versionsOf b k = []") (auto simp: versions_wf_def)

lemma refines_put:
  assumes "memory_wf m"
  shows "PutObject m ob c = Inr m' \<Longrightarrow> table_step (CallPutObject ob c) (tableOf m) (tableOf m')"
    and "PutObject m ob c = Inl e \<Longrightarrow> table_error (CallPutObject ob c) (tableOf m) e"
proof -
  let ?n = "obj_Bucket ob" and ?k = "obj_Key ob"
  have cond: "cond_holds c vs = admits_put c (currentETag vs)" for vs by (simp add: cond_holds_def admits_put_def)
  show "table_step (CallPutObject ob c) (tableOf m) (tableOf m')" if put: "PutObject m ob c = Inr m'"
  proof -
    obtain b where b: "getBucket m ?n = Inr b" "cond_holds c (versionsOf b ?k)"
      and m': "m' = putBucket m ?n (b\<lparr>mb_objects := gm_put ?k (putVersions ob (versionsOf b ?k)) (mb_objects b)\<rparr>)"
      using put by (auto simp: PutObject_eq rbind_Inr_iff split: if_splits)
    have "tableOf m' = (tableOf m)\<lparr>tb_rows := (tb_rows (tableOf m))((?n, ?k, obj_VersionID ob) \<mapsto> unmarked ob)\<rparr>"
      unfolding m' using tableOf_bucket(1,3) [OF b(1)] rowsOf_put [OF versions_distinct [OF assms b(1)]]
      by (subst tableOf_objects [OF b(1)]) (auto intro!: table_eqI)
    with b cond tableOf_etag [OF assms b(1)] tableOf_bucket(1) [OF b(1)] show ?thesis by auto
  qed
  show "table_error (CallPutObject ob c) (tableOf m) e" if "PutObject m ob c = Inl e"
    using that tableOf_bucket(1) [of m ?n] tableOf_bucket(2) [of m ?n] cond tableOf_etag [OF assms, of ?n _ ?k]
    by (cases "getBucket m ?n") (auto simp: PutObject_eq getBucket_Inl_iff Let_def split: if_splits)
qed

lemma refines_tags:
  assumes "memory_wf m"
  shows "SetObjectTags m n k v t = Inr m' \<Longrightarrow> table_step (CallSetObjectTags n k v t) (tableOf m) (tableOf m')"
    and "SetObjectTags m n k v t = Inl e \<Longrightarrow> table_error (CallSetObjectTags n k v t) (tableOf m) e"
proof -
  let ?p = "\<lambda>w. (v = [] \<and> obj_IsLatest w) \<or> obj_VersionID w = v"
  have found: "if v = [] then current (tableOf m) n k (unmarked ob) else tb_rows (tableOf m) (n, k, v) = Some (unmarked ob)"
    if b: "getBucket m n = Inr b" and ob: "List.find ?p (versionsOf b k) = Some ob" for b ob
  proof (cases "v = []")
    case True
    obtain x xs where vs: "versionsOf b k = x # xs" using ob by (cases "versionsOf b k") auto
    then have "versions_wf n k (x # xs)" using versionsOf_wf [OF memory_wf_getBucket [OF assms b], of k] by simp
    then have "obj_IsLatest x" by (auto simp: versions_wf_def)
    with ob vs True have "x = ob" by simp
    with True tableOf_current [OF assms b vs] show ?thesis by simp
  next
    case False
    with ob have "ob \<in> set (versionsOf b k)" "obj_VersionID ob = v" by (auto simp: find_Some_iff)
    then have "rowsOf (versionsOf b k) v = Some (unmarked ob)"
      using versions_distinct [OF assms b, of k] by (auto simp: rowsOf_def comp_def)
    with False show ?thesis by (simp add: tableOf_bucket(3) [OF b])
  qed
  show "table_step (CallSetObjectTags n k v t) (tableOf m) (tableOf m')" if set: "SetObjectTags m n k v t = Inr m'"
  proof -
    obtain b vs where b: "getBucket m n = Inr b" and vs: "tagFirst ?p t (versionsOf b k) = Some vs"
      and m': "m' = putBucket m n (b\<lparr>mb_objects := gm_put k vs (mb_objects b)\<rparr>)"
      using set by (auto simp: SetObjectTags_def rbind_Inr_iff split: option.splits)
    note bt = tableOf_bucket(1,3) [OF b]
    obtain ob where ob: "List.find ?p (versionsOf b k) = Some ob"
      "rowsOf vs = (rowsOf (versionsOf b k))(obj_VersionID ob \<mapsto> (unmarked ob)\<lparr>obj_Tags := t\<rparr>)"
      using tagFirst_rows [OF vs versions_distinct [OF assms b]] by blast
    have "tableOf m' = (tableOf m)\<lparr>tb_rows := (tb_rows (tableOf m))((n, k, obj_VersionID ob) \<mapsto> (unmarked ob)\<lparr>obj_Tags := t\<rparr>)\<rparr>"
      unfolding m' using bt ob(2) by (subst tableOf_objects [OF b]) (auto intro!: table_eqI)
    with found [OF b ob(1)] show ?thesis using bt(1) by (auto intro!: exI [of _ "unmarked ob"] split: if_splits)
  qed
  show "table_error (CallSetObjectTags n k v t) (tableOf m) e" if "SetObjectTags m n k v t = Inl e"
  proof (cases "getBucket m n")
    case (Inl e')
    with that tableOf_bucket(2) [OF Inl] show ?thesis by (simp add: SetObjectTags_def getBucket_Inl_iff)
  next
    case (Inr b)
    with that have e: "e = ErrObjectNotFound" "List.find ?p (versionsOf b k) = None"
      by (auto simp: SetObjectTags_def tagFirst_None_iff split: option.splits)
    have "if v = [] then versionsOf b k = [] else v \<notin> obj_VersionID ` set (versionsOf b k)"
    proof (cases "v = []")
      case True
      then show ?thesis
        using e(2) versionsOf_wf [OF memory_wf_getBucket [OF assms Inr], of k] by (cases "versionsOf b k") (auto simp: versions_wf_def)
    qed (use e(2) in \<open>auto simp: find_None_iff\<close>)
    then show ?thesis
      using e(1) tableOf_bucket(1,3) [OF Inr] by (auto simp: rowsOf_None_iff Let_def split: if_splits)
  qed
qed

lemma refines_delete:
  assumes "memory_wf m"
  shows "DeleteVersion m n k v = Inr (ob, m') \<Longrightarrow> table_step (CallDeleteVersion n k v) (tableOf m) (tableOf m')"
    and "DeleteVersion m n k v = Inl e \<Longrightarrow> table_error (CallDeleteVersion n k v) (tableOf m) e"
    and "DeleteObject m n k = Inr m' \<Longrightarrow> table_step (CallDeleteObject n k) (tableOf m) (tableOf m')"
    and "DeleteObject m n k = Inl e \<Longrightarrow> table_error (CallDeleteObject n k) (tableOf m) e"
proof -
  show "table_step (CallDeleteVersion n k v) (tableOf m) (tableOf m')" if del: "DeleteVersion m n k v = Inr (ob, m')"
  proof -
    obtain b ws where b: "getBucket m n = Inr b" and ws: "takeVersion v (versionsOf b k) = Some (ob, ws)"
      and m': "m' = putBucket m n (b\<lparr>mb_objects := if ws = [] then gm_del k (mb_objects b) else gm_put k (sortVersions ws) (mb_objects b)\<rparr>)"
      using del by (auto simp: DeleteVersion_def rbind_Inr_iff Let_def split: option.splits)
    note rows = rowsOf_take [OF ws versions_distinct [OF assms b]]
    let ?b = "b\<lparr>mb_objects := if ws = [] then gm_del k (mb_objects b) else gm_put k (sortVersions ws) (mb_objects b)\<rparr>"
    have "versionsOf ?b k = sortVersions ws" by (cases "ws = []") (simp_all add: sortVersions_def)
    then have new: "rowsOf (versionsOf ?b k) = (rowsOf (versionsOf b k))(v := None)" using rows(1) by simp
    have "versionsOf ?b k' = versionsOf b k'" if "k' \<noteq> k" for k' using that by (cases "ws = []") simp_all
    then have "tableOf m' = (tableOf m)\<lparr>tb_rows := (tb_rows (tableOf m))((n, k, v) := None)\<rparr>"
      unfolding m' using tableOf_bucket(1,3) [OF b] new
      by (subst tableOf_objects [OF b, of ?b]) (auto simp del: if_split intro!: table_eqI split: if_split_asm)
    with tableOf_bucket(1,3) [OF b] rows(2) show ?thesis by auto
  qed
  show "table_error (CallDeleteVersion n k v) (tableOf m) e" if "DeleteVersion m n k v = Inl e"
    using that tableOf_bucket(1,3) [of m n] tableOf_bucket(2) [of m n]
    by (cases "getBucket m n") (auto simp: DeleteVersion_def getBucket_Inl_iff Let_def takeVersion_None_iff rowsOf_None_iff split: option.splits)
  show "table_step (CallDeleteObject n k) (tableOf m) (tableOf m')" if del: "DeleteObject m n k = Inr m'"
  proof -
    obtain b where b: "getBucket m n = Inr b" and m': "m' = putBucket m n (b\<lparr>mb_objects := gm_del k (mb_objects b)\<rparr>)"
      using del by (auto simp: DeleteObject_def rbind_Inr_iff)
    show ?thesis
      unfolding m' using tableOf_bucket(1,3) [OF b] by (subst tableOf_objects [OF b]) (auto intro!: table_eqI)
  qed
  show "table_error (CallDeleteObject n k) (tableOf m) e" if "DeleteObject m n k = Inl e"
    using that tableOf_bucket(2) [of m n] by (cases "getBucket m n") (auto simp: DeleteObject_def getBucket_Inl_iff)
qed

lemma refines_meta:
  "setMeta m n f = Inr m' \<Longrightarrow> set_bucket n f (tableOf m) (tableOf m')"
  "setMeta m n f = Inl e \<Longrightarrow> tb_buckets (tableOf m) n = None \<and> e = ErrBucketNotFound"
  using tableOf_meta [of m n] tableOf_bucket(2) [of m n] by (auto simp: setMeta_def rbind_def getBucket_Inl_iff split: sum.splits)

lemma restoredObjects_versions:
  "versionsOf (b\<lparr>mb_objects := restoredObjects n obs, mb_meta := x\<rparr>) k = sortVersions (filter (\<lambda>ob. obj_Key ob = k) (map (restoredRow n) obs))"
  by (simp add: versionsOf_def restoredObjects_get Let_def sortVersions_def)

lemma rowsOf_restored:
  assumes "restorable n obs"
  shows "rowsOf (sortVersions (filter (\<lambda>ob. obj_Key ob = k) (map (restoredRow n) obs))) v =
    map_of (map (\<lambda>ob. ((obj_Key ob, obj_VersionID ob), unmarked ob)) (map (restoredRow n) obs)) (k, v)"
proof -
  let ?rows = "map (restoredRow n) obs"
  have "obj_Key (restoredRow n ob) = obj_Key ob" for ob by (simp add: restoredRow_def)
  then have "distinct (map (\<lambda>ob. (obj_Key ob, obj_VersionID ob)) ?rows)" using assms by (simp add: restorable_def comp_def)
  then have "distinct (map obj_VersionID (filter (\<lambda>ob. obj_Key ob = k) ?rows))" by (rule distinct_map_pair_filter)
  then have "rowsOf (sortVersions (filter (\<lambda>ob. obj_Key ob = k) ?rows)) = rowsOf (filter (\<lambda>ob. obj_Key ob = k) ?rows)" by (rule rowsOf_sort)
  moreover have "rowsOf (filter (\<lambda>ob. obj_Key ob = k) xs) v = map_of (map (\<lambda>ob. ((obj_Key ob, obj_VersionID ob), unmarked ob)) xs) (k, v)" for xs
    by (induction xs) auto
  ultimately show ?thesis by simp
qed

lemma refines_restore:
  assumes "restorable n obs"
  shows "RestoreBucket m n obs r q = Inr m' \<Longrightarrow> table_step (CallRestoreBucket n obs r q) (tableOf m) (tableOf m')"
    and "RestoreBucket m n obs r q = Inl e \<Longrightarrow> table_error (CallRestoreBucket n obs r q) (tableOf m) e"
proof -
  show "table_step (CallRestoreBucket n obs r q) (tableOf m) (tableOf m')" if res: "RestoreBucket m n obs r q = Inr m'"
  proof -
    obtain b where b: "getBucket m n = Inr b" and m': "m' = putBucket m n (b\<lparr>mb_objects := restoredObjects n obs,
        mb_meta := (mb_meta b)\<lparr>bkt_HeadRoot := r, bkt_CommitSeq := q\<rparr>\<rparr>)"
      using res by (auto simp: RestoreBucket_eq rbind_Inr_iff)
    show ?thesis
      unfolding m' tableOf_put restoredObjects_versions table_step.simps set_bucket_def
      using tableOf_bucket(1,4) [OF b] rowsOf_restored [OF assms]
      by (intro exI [of _ "(tableOf m)\<lparr>tb_buckets := (tb_buckets (tableOf m))(n \<mapsto> (mb_meta b)\<lparr>bkt_HeadRoot := r, bkt_CommitSeq := q\<rparr>)\<rparr>"])
        (auto intro!: table_eqI)
  qed
  show "table_error (CallRestoreBucket n obs r q) (tableOf m) e" if "RestoreBucket m n obs r q = Inl e"
    using that tableOf_bucket(2) [of m n] by (cases "getBucket m n") (auto simp: RestoreBucket_eq getBucket_Inl_iff)
qed

lemma tableOf_missing:
  assumes "gm_get (mem_buckets m) n = None"
  shows "tb_buckets (tableOf m) n = None" "tb_rows (tableOf m) (n, k, v) = None" "tb_snapshots (tableOf m) (n, l) = None"
  using assms by (simp_all add: tableOf_def)

lemma tableOf_uploads:
  "tableOf (m\<lparr>mem_uploads := us\<rparr>) = (tableOf m)\<lparr>tb_uploads := (\<lambda>uid. map_option mu_meta (gm_get us uid)),
     tb_parts := (\<lambda>(uid, i). case gm_get us uid of None \<Rightarrow> None | Some u \<Rightarrow> gm_get (mu_parts u) i)\<rparr>"
  "tb_uploads (tableOf m) uid = map_option mu_meta (gm_get (mem_uploads m) uid)"
  "tb_parts (tableOf m) (uid, i) = (case gm_get (mem_uploads m) uid of None \<Rightarrow> None | Some u \<Rightarrow> gm_get (mu_parts u) i)"
  by (simp_all add: tableOf_def)

lemma refines_buckets:
  assumes "memory_wf m"
  shows "CreateBucket m now b = Inr m' \<Longrightarrow> table_step (CallCreateBucket now b) (tableOf m) (tableOf m')"
    and "CreateBucket m now b = Inl e \<Longrightarrow> table_error (CallCreateBucket now b) (tableOf m) e"
    and "DeleteBucket m n = Inr m' \<Longrightarrow> table_step (CallDeleteBucket n) (tableOf m) (tableOf m')"
    and "DeleteBucket m n = Inl e \<Longrightarrow> table_error (CallDeleteBucket n) (tableOf m) e"
proof -
  show "table_step (CallCreateBucket now b) (tableOf m) (tableOf m')" if "CreateBucket m now b = Inr m'"
  proof -
    let ?b = "if bkt_CreatedAt b = zeroTime then b\<lparr>bkt_CreatedAt := now\<rparr> else b"
    have none: "gm_get (mem_buckets m) (bkt_Name b) = None"
      and m': "m' = putBucket m (bkt_Name b) \<lparr>mb_meta = ?b, mb_objects = [], mb_snapshots = []\<rparr>"
      using that by (auto simp: CreateBucket_def Let_def split: option.splits)
    show ?thesis unfolding m' tableOf_put using tableOf_missing [OF none] by (auto simp: versionsOf_def intro!: table_eqI)
  qed
  show "table_error (CallCreateBucket now b) (tableOf m) e" if "CreateBucket m now b = Inl e"
    using that by (auto simp: CreateBucket_def Let_def tableOf_def split: option.splits)
  show "table_step (CallDeleteBucket n) (tableOf m) (tableOf m')" if del: "DeleteBucket m n = Inr m'"
  proof -
    obtain b where b: "gm_get (mem_buckets m) n = Some b" "mb_objects b = []" and m': "m' = m\<lparr>mem_buckets := gm_del n (mem_buckets m)\<rparr>"
      using del by (auto simp: DeleteBucket_def rbind_Inr_iff getBucket_Inr_iff split: if_splits)
    have "versionsOf b k = []" for k using b(2) by (simp add: versionsOf_def)
    then show ?thesis
      using b(1) unfolding m' by (auto simp: tableOf_def fun_eq_iff)
  qed
  show "table_error (CallDeleteBucket n) (tableOf m) e" if del: "DeleteBucket m n = Inl e"
  proof (cases "getBucket m n")
    case (Inl e')
    with del tableOf_bucket(2) [OF Inl] show ?thesis by (simp add: DeleteBucket_def getBucket_Inl_iff)
  next
    case (Inr b)
    with del have e: "e = ErrBucketNotEmpty" and "mb_objects b \<noteq> []" by (auto simp: DeleteBucket_def split: if_splits)
    then obtain k v rest where "mb_objects b = (k, v) # rest" by (cases "mb_objects b") auto
    then obtain vs where "gm_get (mb_objects b) k = Some vs" by simp
    moreover from this have "versions_wf n k vs" using memory_wf_getBucket [OF assms Inr] by (auto simp: bucket_wf_def dest: gm_allD)
    ultimately obtain ob vs' where "versionsOf b k = ob # vs'" by (cases vs) (auto simp: versionsOf_def versions_wf_def)
    then have "tb_rows (tableOf m) (n, k, obj_VersionID ob) \<noteq> None" by (simp add: tableOf_bucket(3) [OF Inr])
    with e tableOf_bucket(1) [OF Inr] show ?thesis by (auto simp: Let_def)
  qed
qed

lemma refines_snapshot:
  "PutSnapshot m now s = Inr m' \<Longrightarrow> table_step (CallPutSnapshot now s) (tableOf m) (tableOf m')"
  "PutSnapshot m now s = Inl e \<Longrightarrow> table_error (CallPutSnapshot now s) (tableOf m) e"
proof -
  show "table_step (CallPutSnapshot now s) (tableOf m) (tableOf m')" if put: "PutSnapshot m now s = Inr m'"
  proof -
    let ?s = "if snap_CreatedAt s = zeroTime then s\<lparr>snap_CreatedAt := now\<rparr> else s"
    obtain b where b: "getBucket m (snap_Bucket s) = Inr b"
      and m': "m' = putBucket m (snap_Bucket s) (b\<lparr>mb_snapshots := gm_put (snap_Label s) ?s (mb_snapshots b)\<rparr>)"
      using put by (auto simp: PutSnapshot_def rbind_Inr_iff Let_def split: if_splits)
    show ?thesis
      unfolding m' tableOf_put using tableOf_bucket(1,3,4) [OF b] by (auto simp: versionsOf_def intro!: table_eqI)
  qed
  show "table_error (CallPutSnapshot now s) (tableOf m) e" if "PutSnapshot m now s = Inl e"
    using that tableOf_bucket(2) [of m "snap_Bucket s"] by (cases "getBucket m (snap_Bucket s)") (auto simp: PutSnapshot_def getBucket_Inl_iff Let_def)
qed

lemma refines_upload_create:
  "CreateMultipartUpload m now u = Inr m' \<Longrightarrow> table_step (CallCreateMultipartUpload now u) (tableOf m) (tableOf m')"
  "CreateMultipartUpload m now u = Inl e \<Longrightarrow> table_error (CallCreateMultipartUpload now u) (tableOf m) e"
proof -
  show "table_step (CallCreateMultipartUpload now u) (tableOf m) (tableOf m')" if create: "CreateMultipartUpload m now u = Inr m'"
  proof -
    let ?u = "if up_Initiated u = zeroTime then u\<lparr>up_Initiated := now\<rparr> else u"
    obtain b where b: "getBucket m (up_Bucket u) = Inr b"
      and m': "m' = m\<lparr>mem_uploads := gm_put (up_UploadID u) \<lparr>mu_meta = ?u, mu_parts = []\<rparr> (mem_uploads m)\<rparr>"
      using create by (auto simp: CreateMultipartUpload_def rbind_Inr_iff Let_def split: if_splits)
    show ?thesis
      unfolding m' tableOf_uploads(1) using tableOf_bucket(1) [OF b] by (auto simp: tableOf_uploads fun_eq_iff intro!: table_eqI)
  qed
  show "table_error (CallCreateMultipartUpload now u) (tableOf m) e" if "CreateMultipartUpload m now u = Inl e"
    using that tableOf_bucket(2) [of m "up_Bucket u"] by (cases "getBucket m (up_Bucket u)") (auto simp: CreateMultipartUpload_def getBucket_Inl_iff Let_def)
qed

lemma refines_uploads:
  "PutPart m uid p = Inr m' \<Longrightarrow> table_step (CallPutPart uid p) (tableOf m) (tableOf m')"
  "PutPart m uid p = Inl e \<Longrightarrow> table_error (CallPutPart uid p) (tableOf m) e"
  "DeleteMultipartUpload m uid = Inr m' \<Longrightarrow> table_step (CallDeleteMultipartUpload uid) (tableOf m) (tableOf m')"
  "DeleteMultipartUpload m uid = Inl e \<Longrightarrow> table_error (CallDeleteMultipartUpload uid) (tableOf m) e"
  by (auto simp: PutPart_def DeleteMultipartUpload_def tableOf_uploads fun_eq_iff intro!: table_eqI split: option.splits)

lemma refines_settings:
  "SetBucketVersioning m n s = Inr m' \<Longrightarrow> table_step (CallSetBucketVersioning n s) (tableOf m) (tableOf m')" "SetBucketVersioning m n s = Inl e \<Longrightarrow> table_error (CallSetBucketVersioning n s) (tableOf m) e"
  "SetBucketEncryption m n s = Inr m' \<Longrightarrow> table_step (CallSetBucketEncryption n s) (tableOf m) (tableOf m')" "SetBucketEncryption m n s = Inl e \<Longrightarrow> table_error (CallSetBucketEncryption n s) (tableOf m) e"
  "SetBucketRecoveryRecipient m n s = Inr m' \<Longrightarrow> table_step (CallSetBucketRecoveryRecipient n s) (tableOf m) (tableOf m')" "SetBucketRecoveryRecipient m n s = Inl e \<Longrightarrow> table_error (CallSetBucketRecoveryRecipient n s) (tableOf m) e"
  "SetBucketCORS m n s = Inr m' \<Longrightarrow> table_step (CallSetBucketCORS n s) (tableOf m) (tableOf m')" "SetBucketCORS m n s = Inl e \<Longrightarrow> table_error (CallSetBucketCORS n s) (tableOf m) e"
  "SetBucketTagging m n s = Inr m' \<Longrightarrow> table_step (CallSetBucketTagging n s) (tableOf m) (tableOf m')" "SetBucketTagging m n s = Inl e \<Longrightarrow> table_error (CallSetBucketTagging n s) (tableOf m) e"
  "SetBucketACT m n s g = Inr m' \<Longrightarrow> table_step (CallSetBucketACT n s g) (tableOf m) (tableOf m')" "SetBucketACT m n s g = Inl e \<Longrightarrow> table_error (CallSetBucketACT n s g) (tableOf m) e"
  "SetBucketHead m n s q = Inr m' \<Longrightarrow> table_step (CallSetBucketHead n s q) (tableOf m) (tableOf m')" "SetBucketHead m n s q = Inl e \<Longrightarrow> table_error (CallSetBucketHead n s q) (tableOf m) e"
  by (simp_all add: set_meta_defs refines_meta Let_def)

declare table_step.simps [simp del] table_error.simps [simp del]

lemmas refines_ops = refines_put refines_tags refines_delete refines_buckets refines_snapshot refines_upload_create refines_uploads refines_settings

lemma refines_exec:
  assumes "memory_wf m" "op_ok opn"
  shows "case mem_exec opn m of Inr m' \<Rightarrow> table_step opn (tableOf m) (tableOf m') | Inl e \<Rightarrow> table_error opn (tableOf m) e"
  using assms
  by (cases opn) (auto simp: op_ok_def rbind_def split: sum.split intro: refines_ops refines_restore)

text \<open>The reads.\<close>

lemma refines_get:
  assumes "memory_wf m"
  shows "case GetObject m n k of Inr ob \<Rightarrow> obj_IsLatest ob \<and> current (tableOf m) n k (unmarked ob)
    | Inl e \<Rightarrow> (if tb_buckets (tableOf m) n = None then e = ErrBucketNotFound else e = ErrObjectNotFound \<and> (\<forall>v. tb_rows (tableOf m) (n, k, v) = None))"
proof (cases "getBucket m n")
  case (Inl e)
  then have "e = ErrBucketNotFound" by (simp add: getBucket_Inl_iff)
  then show ?thesis using tableOf_bucket(2) [OF Inl] by (simp add: GetObject_def Inl)
next
  case (Inr b)
  show ?thesis
  proof (cases "versionsOf b k")
    case Nil
    then show ?thesis using tableOf_bucket(1,3) [OF Inr] by (simp add: GetObject_def Inr)
  next
    case (Cons ob vs)
    then have "versions_wf n k (ob # vs)" using versionsOf_wf [OF memory_wf_getBucket [OF assms Inr], of k] by simp
    then have "obj_IsLatest ob" by (auto simp: versions_wf_def)
    then show ?thesis using tableOf_current [OF assms Inr Cons] by (simp add: GetObject_def Inr Cons)
  qed
qed

lemma rowsOf_find:
  "map_option unmarked (List.find (\<lambda>ob. obj_VersionID ob = v) vs) = rowsOf vs v"
  by (induction vs) auto

lemma refines_get_version:
  "case GetObjectVersion m n k v of Inr ob \<Rightarrow> tb_rows (tableOf m) (n, k, v) = Some (unmarked ob)
    | Inl e \<Rightarrow> tb_rows (tableOf m) (n, k, v) = None \<and> e = (if tb_buckets (tableOf m) n = None then ErrBucketNotFound else ErrObjectNotFound)"
proof (cases "getBucket m n")
  case (Inl e)
  then have "e = ErrBucketNotFound" "gm_get (mem_buckets m) n = None" by (simp_all add: getBucket_Inl_iff)
  then show ?thesis using tableOf_bucket(2) [OF Inl] by (simp add: GetObjectVersion_def Inl tableOf_missing)
next
  case (Inr b)
  then show ?thesis using tableOf_bucket(1,3) [OF Inr] rowsOf_find [of v "versionsOf b k"]
    by (cases "List.find (\<lambda>ob. obj_VersionID ob = v) (versionsOf b k)") (simp_all add: GetObjectVersion_def)
qed

lemma tableOf_start: "tableOf NewMemory = \<lparr>tb_buckets = Map.empty, tb_rows = Map.empty, tb_snapshots = Map.empty, tb_uploads = Map.empty, tb_parts = Map.empty\<rparr>"
  by (auto simp: tableOf_def NewMemory_def)

text \<open>C3. The in-memory index implements the table that its interface describes: rows keyed by bucket, key and version id, with
  no order and no flag of the latest version. From every state that calls can reach, a call that succeeds changes the table exactly as
  the specification of the operation says, a call that fails fails for the reason and with the error that the specification names,
  \<open>GetObject\<close> returns a newest row of its key and \<open>GetObjectVersion\<close> the row of its version, and the empty index is the empty
  table.\<close>

theorem index_refines_table:
  assumes "mem_reachable m" "op_ok opn"
  shows "(case mem_exec opn m of Inr m' \<Rightarrow> table_step opn (tableOf m) (tableOf m') | Inl e \<Rightarrow> table_error opn (tableOf m) e) \<and>
    (case GetObject m n k of Inr ob \<Rightarrow> obj_IsLatest ob \<and> current (tableOf m) n k (unmarked ob)
      | Inl e \<Rightarrow> (if tb_buckets (tableOf m) n = None then e = ErrBucketNotFound else e = ErrObjectNotFound \<and> (\<forall>v. tb_rows (tableOf m) (n, k, v) = None))) \<and>
    (case GetObjectVersion m n k v of Inr ob \<Rightarrow> tb_rows (tableOf m) (n, k, v) = Some (unmarked ob)
      | Inl e \<Rightarrow> tb_rows (tableOf m) (n, k, v) = None \<and> e = (if tb_buckets (tableOf m) n = None then ErrBucketNotFound else ErrObjectNotFound)) \<and>
    tableOf NewMemory = \<lparr>tb_buckets = Map.empty, tb_rows = Map.empty, tb_snapshots = Map.empty, tb_uploads = Map.empty, tb_parts = Map.empty\<rparr>"
  using refines_exec [OF mem_reachable_wf assms(2)] refines_get [OF mem_reachable_wf] refines_get_version assms(1) tableOf_start by blast

theorem index_refines_table_witness:
  "table_step (CallPutObject (demoObject ''a'' ''v2'' 20) None) (tableOf demo2) (tableOf demo3) \<and>
   current (tableOf demo2) ''bkt'' ''a'' (demoObject ''a'' ''v1'' 10)"
proof -
  let ?op = "CallPutObject (demoObject ''a'' ''v2'' 20) None"
  have run: "mem_exec ?op demo2 = Inr demo3" by (simp add: demo3_step)
  have get: "GetObject demo2 ''bkt'' ''a'' = Inr ((demoObject ''a'' ''v1'' 10)\<lparr>obj_IsLatest := True\<rparr>)" by code_simp
  have row: "unmarked ((demoObject ''a'' ''v1'' 10)\<lparr>obj_IsLatest := True\<rparr>) = demoObject ''a'' ''v1'' 10" by code_simp
  have "op_ok ?op" by (simp add: op_ok_def)
  from index_refines_table [OF demo_reachable(2) this, of "''bkt''" "''a''" "[]"] show ?thesis unfolding run get sum.case row by blast
qed

lemma refines_list:
  assumes "memory_wf m"
  shows "ListObjects m n p a limit = Inr obs \<Longrightarrow> tb_buckets (tableOf m) n \<noteq> None \<and> listing_of (tableOf m) n p a limit obs"
    and "ListObjects m n p a limit = Inl e \<Longrightarrow> tb_buckets (tableOf m) n = None \<and> e = ErrBucketNotFound"
proof -
  show "tb_buckets (tableOf m) n \<noteq> None \<and> listing_of (tableOf m) n p a limit obs" if list: "ListObjects m n p a limit = Inr obs"
  proof -
    obtain b where b: "getBucket m n = Inr b" using list by (auto simp: ListObjects_def rbind_Inr_iff)
    have wf: "bucket_wf n b" by (rule memory_wf_getBucket [OF assms b])
    let ?full = "filter (\<lambda>ob. HasPrefix (obj_Key ob) p \<and> a < obj_Key ob) (liveObjects b)"
    have "obs = takeLimit limit ?full" using list ListObjects_eq [OF wf b] by simp
    moreover have "full_listing (tableOf m) n p a ?full"
      unfolding full_listing_def
    proof (intro conjI ballI allI impI)
      show "sorted_wrt (<) (map obj_Key ?full)"
        using liveKeys_sorted [OF wf] unfolding liveObjects_Key [OF wf, symmetric] by (simp add: sorted_wrt_map sorted_wrt_filter)
    next
      fix ob assume "ob \<in> set ?full"
      then have ob: "ob \<in> set (liveObjects b)" "in_listing p a (obj_Key ob)" by (auto simp: in_listing_def)
      then obtain vs where vs: "versionsOf b (obj_Key ob) = ob # vs" and live: "\<not> obj_DeleteMarker ob" using in_liveObjects_iff [OF wf] by blast
      show "in_listing p a (obj_Key ob)" "\<not> obj_DeleteMarker ob" by fact+
      show "obj_IsLatest ob" using versionsOf_hd [OF wf, of "obj_Key ob"] vs by simp
      show "current (tableOf m) n (obj_Key ob) (unmarked ob)" by (rule tableOf_current [OF assms b vs])
    next
      fix k assume k: "in_listing p a k" "\<exists>v. tb_rows (tableOf m) (n, k, v) \<noteq> None"
      then obtain ob vs where vs: "versionsOf b k = ob # vs" using tableOf_bucket(3) [OF b, of k] by (cases "versionsOf b k") auto
      show "k \<in> obj_Key ` set ?full \<or> (\<exists>ob. current (tableOf m) n k ob \<and> obj_DeleteMarker ob)"
      proof (cases "obj_DeleteMarker ob")
        case True
        with tableOf_current [OF assms b vs] show ?thesis by (intro disjI2 exI [of _ "unmarked ob"]) simp
      next
        case False
        have "obj_Key ob = k" using versionsOf_hd [OF wf, of k] vs by simp
        with False vs k(1) have "ob \<in> set ?full" using in_liveObjects_iff [OF wf, of ob] by (simp add: in_listing_def)
        with \<open>obj_Key ob = k\<close> show ?thesis by blast
      qed
    qed
    ultimately show ?thesis using tableOf_bucket(1) [OF b] by (auto simp: listing_of_def)
  qed
  show "tb_buckets (tableOf m) n = None \<and> e = ErrBucketNotFound" if "ListObjects m n p a limit = Inl e"
    using that tableOf_bucket(2) [of m n] by (cases "getBucket m n") (auto simp: ListObjects_def getBucket_Inl_iff)
qed

lemma foldl_no_match: "v \<notin> g ` set xs \<Longrightarrow> foldl (\<lambda>s x. if g x = v then h x else s) z xs = z"
  by (induction xs) auto

lemma rowsOf_Some: "distinct (map obj_VersionID vs) \<Longrightarrow> rowsOf vs v = Some w \<longleftrightarrow> (\<exists>ob \<in> set vs. obj_VersionID ob = v \<and> w = unmarked ob)"
  by (auto simp: rowsOf_def comp_def)

text \<open>The position of the marker is that of the row it names.\<close>

lemma markerVSeq_table:
  assumes "memory_wf m" "getBucket m n = Inr b" "km \<noteq> []" "vm \<noteq> []"
  shows "markerVSeq b km vm = (case tb_rows (tableOf m) (n, km, vm) of None \<Rightarrow> - 1 | Some a \<Rightarrow> obj_VSeq a)"
proof (cases "\<exists>ob \<in> set (versionsOf b km). obj_VersionID ob = vm")
  case True
  then obtain ob where ob: "ob \<in> set (versionsOf b km)" "obj_VersionID ob = vm" by blast
  note d = versions_distinct [OF assms(1,2), of km]
  have "markerVSeq b km vm = obj_VSeq ob" using foldl_last_match [OF d ob(1), of obj_VSeq] ob(2) assms(3,4) by (simp add: markerVSeq_def)
  moreover have "tb_rows (tableOf m) (n, km, vm) = Some (unmarked ob)" unfolding tableOf_bucket(3) [OF assms(2)] rowsOf_Some [OF d] using ob by blast
  ultimately show ?thesis by simp
next
  case False
  then have "vm \<notin> obj_VersionID ` set (versionsOf b km)" by auto
  then show ?thesis
    using assms(3,4) foldl_no_match [of vm obj_VersionID "versionsOf b km" obj_VSeq "- 1"]
    by (simp add: markerVSeq_def tableOf_bucket(3) [OF assms(2)] flip: rowsOf_None_iff)
qed

lemma table_distinctVSeqs:
  assumes "memory_wf m" "getBucket m n = Inr b" "vseqs_distinct (tableOf m)"
  shows "distinct (map obj_VSeq (versionsOf b k))"
proof -
  note d = versions_distinct [OF assms(1,2), of k]
  have "inj_on obj_VSeq (set (versionsOf b k))"
  proof (rule inj_onI)
    fix x y assume x: "x \<in> set (versionsOf b k)" and y: "y \<in> set (versionsOf b k)" and eq: "obj_VSeq x = obj_VSeq y"
    have row: "tb_rows (tableOf m) (n, k, obj_VersionID ob) = Some (unmarked ob)" if "ob \<in> set (versionsOf b k)" for ob
      unfolding tableOf_bucket(3) [OF assms(2)] rowsOf_Some [OF d] using that by blast
    have "obj_VSeq (unmarked x) = obj_VSeq (unmarked y)" using eq by simp
    then have "obj_VersionID x = obj_VersionID y" using row [OF x] row [OF y] assms(3) unfolding vseqs_distinct_def by blast
    then show "x = y" using d x y unfolding distinct_map inj_on_def by blast
  qed
  moreover have "distinct (versionsOf b k)" using d by (simp add: distinct_map)
  ultimately show ?thesis by (simp add: distinct_map)
qed

lemma current_flag:
  assumes "memory_wf m" "getBucket m n = Inr b" "vseqs_distinct (tableOf m)" "ob \<in> set (versionsOf b k)"
  shows "obj_IsLatest ob \<longleftrightarrow> current (tableOf m) n k (unmarked ob)"
proof -
  note d = versions_distinct [OF assms(1,2), of k] and dv = table_distinctVSeqs [OF assms(1-3), of k]
  obtain x xs where vs: "versionsOf b k = x # xs" using assms(4) by (cases "versionsOf b k") auto
  have wf: "versions_wf n k (x # xs)" using versionsOf_wf [OF memory_wf_getBucket [OF assms(1,2)], of k] vs by simp
  then have flag: "obj_IsLatest ob \<longleftrightarrow> ob = x" using assms(4) d unfolding vs by (auto simp: versions_wf_def map_fixed_iff dest: arg_cong [where f = obj_IsLatest])
  have cur: "current (tableOf m) n k (unmarked x)" by (rule tableOf_current [OF assms(1,2) vs])
  have "ob = x" if c: "current (tableOf m) n k (unmarked ob)"
  proof -
    have "tb_rows (tableOf m) (n, k, obj_VersionID x) = Some (unmarked x)" using cur by (simp add: current_def)
    then have "obj_VSeq (unmarked x) \<le> obj_VSeq (unmarked ob)" using c unfolding current_def by blast
    moreover have "tb_rows (tableOf m) (n, k, obj_VersionID ob) = Some (unmarked ob)" using c by (simp add: current_def)
    then have "obj_VSeq (unmarked ob) \<le> obj_VSeq (unmarked x)" using cur unfolding current_def by blast
    ultimately have "obj_VSeq ob = obj_VSeq x" by simp
    then show ?thesis using dv assms(4) unfolding vs distinct_map inj_on_def by (meson list.set_intros(1))
  qed
  with flag cur show ?thesis by blast
qed

lemma versions_sorted_pos:
  assumes "bucket_wf n b" "distinct (map obj_VSeq (versionsOf b k))"
  shows "sorted_wrt (<) (map rowPos (versionsOf b k))"
proof (cases "versionsOf b k = []")
  case False
  have "map rowPos (versionsOf b k) = map (Pair k) (map (\<lambda>v. - obj_VSeq v) (versionsOf b k))"
    using versionsOf_member [OF assms(1), of _ k] by (auto simp: rowPos_def)
  moreover have "sorted_wrt (<) (map (\<lambda>v. - obj_VSeq v) (versionsOf b k))"
    using versionsOf_wf [OF assms(1) False] assms(2) by (auto simp: strict_sorted_iff versions_wf_def distinct_map inj_on_def)
  then have "sorted_wrt (<) (map (Pair k) (map (\<lambda>v. - obj_VSeq v) (versionsOf b k)))" by (simp add: sorted_wrt_map less_prod_def')
  ultimately show ?thesis by (simp only:)
qed simp

text \<open>Version listings; the limit 0 and rows with an empty key are left out, where the methods differ.\<close>

lemma markers_agree:
  assumes "memory_wf m" "getBucket m n = Inr b" "w \<in> set (versionRows b)" "obj_Key w \<noteq> []"
  shows "(km \<le> obj_Key w \<and> \<not> (obj_Key w = km \<and> (vm = [] \<or> markerVSeq b km vm < 0 \<or> markerVSeq b km vm \<le> obj_VSeq w))) \<longleftrightarrow>
    after_marker (tableOf m) n km vm (unmarked w)"
proof (cases "km = [] \<or> vm = []")
  case True
  then show ?thesis using assms(4) by (auto simp: after_marker_def)
next
  case False
  then show ?thesis
    using markerVSeq_table [OF assms(1,2), of km vm] by (auto simp: after_marker_def Let_def)
qed

lemma refines_versions:
  assumes "memory_wf m"
  shows "vseqs_distinct (tableOf m) \<Longrightarrow> limit \<noteq> 0 \<Longrightarrow> \<forall>v. tb_rows (tableOf m) (n, [], v) = None \<Longrightarrow> ListVersions m n p km vm limit = Inr obs \<Longrightarrow>
      tb_buckets (tableOf m) n \<noteq> None \<and> (\<exists>full. version_listing (tableOf m) n p km vm full \<and> obs = takeLimit limit full)"
    and "ListVersions m n p km vm limit = Inl e \<Longrightarrow> tb_buckets (tableOf m) n = None \<and> e = ErrBucketNotFound"
proof -
  show "tb_buckets (tableOf m) n \<noteq> None \<and> (\<exists>full. version_listing (tableOf m) n p km vm full \<and> obs = takeLimit limit full)"
    if d: "vseqs_distinct (tableOf m)" and "limit \<noteq> 0" and nokey: "\<forall>v. tb_rows (tableOf m) (n, [], v) = None" and list: "ListVersions m n p km vm limit = Inr obs"
  proof -
    obtain b where b: "getBucket m n = Inr b" using list by (auto simp: ListVersions_def rbind_Inr_iff)
    have wf: "bucket_wf n b" by (rule memory_wf_getBucket [OF assms b])
    have member: "w \<in> set (versionsOf b (obj_Key w))" if "w \<in> set (versionRows b)" for w using that versionRows_iff [OF wf] by blast
    have row: "tb_rows (tableOf m) (n, obj_Key w, obj_VersionID w) = Some (unmarked w)" if "w \<in> set (versionRows b)" for w
      unfolding tableOf_bucket(3) [OF b] rowsOf_Some [OF versions_distinct [OF assms b]] using member [OF that] by blast
    have key: "obj_Key w \<noteq> []" if "w \<in> set (versionRows b)" for w using row [OF that] nokey by auto
    define full where "full = filter (\<lambda>w. HasPrefix (obj_Key w) p \<and> after_marker (tableOf m) n km vm (unmarked w)) (versionRows b)"
    have "filter (\<lambda>v. (HasPrefix (obj_Key v) p \<and> km \<le> obj_Key v) \<and>
        \<not> (obj_Key v = km \<and> (vm = [] \<or> markerVSeq b km vm < 0 \<or> markerVSeq b km vm \<le> obj_VSeq v))) (versionRows b) = full"
      unfolding full_def using markers_agree [OF assms b _ key, of _ km vm] by (intro filter_cong) auto
    then have "obs = emitUpTo limit [] full" using list ListVersions_eq [OF wf b, of p km vm limit] by simp
    then have obs: "obs = takeLimit limit full" using \<open>limit \<noteq> 0\<close> by (simp add: emitUpTo_Nil takeLimit_def)
    have sorted: "sorted_wrt (<) (map rowPos (versionRows b))"
      unfolding versionRows_def
    proof (rule strict_sorted_concat_map)
      show "sorted_wrt (<) (sort (map fst (mb_objects b)))" using wf by (simp add: strict_sorted_iff bucket_wf_def gm_all_def gm_wf_def)
      show "fst (rowPos v) = k" if "v \<in> set (versionsOf b k)" for k v using that versionsOf_member [OF wf] by (simp add: rowPos_def)
      show "sorted_wrt (<) (map rowPos (versionsOf b k))" for k
        by (rule versions_sorted_pos [OF wf table_distinctVSeqs [OF assms b d]])
    qed
    have "version_listing (tableOf m) n p km vm full"
      unfolding version_listing_def
    proof (intro conjI ballI)
      show "sorted_wrt (<) (map rowPos full)" using sorted by (simp add: full_def sorted_wrt_map sorted_wrt_filter)
      show "obj_IsLatest ob \<longleftrightarrow> current (tableOf m) n (obj_Key ob) (unmarked ob)" if "ob \<in> set full" for ob
        using current_flag [OF assms b d member] that by (simp add: full_def)
      show "unmarked ` set full = {w. (\<exists>k v. tb_rows (tableOf m) (n, k, v) = Some w \<and> obj_Key w = k) \<and> HasPrefix (obj_Key w) p \<and> after_marker (tableOf m) n km vm w}"
      proof (intro set_eqI iffI)
        fix w assume "w \<in> unmarked ` set full"
        then obtain ob where ob: "ob \<in> set full" "w = unmarked ob" by blast
        then have "ob \<in> set (versionRows b)" by (simp add: full_def)
        with row ob have "tb_rows (tableOf m) (n, obj_Key w, obj_VersionID w) = Some w" by simp
        with ob show "w \<in> {w. (\<exists>k v. tb_rows (tableOf m) (n, k, v) = Some w \<and> obj_Key w = k) \<and> HasPrefix (obj_Key w) p \<and> after_marker (tableOf m) n km vm w}"
          by (simp add: full_def) blast
      next
        fix w assume "w \<in> {w. (\<exists>k v. tb_rows (tableOf m) (n, k, v) = Some w \<and> obj_Key w = k) \<and> HasPrefix (obj_Key w) p \<and> after_marker (tableOf m) n km vm w}"
        then obtain v where w: "tb_rows (tableOf m) (n, obj_Key w, v) = Some w" "HasPrefix (obj_Key w) p" "after_marker (tableOf m) n km vm w" by blast
        obtain ob where ob: "ob \<in> set (versionsOf b (obj_Key w))" "w = unmarked ob"
          using w(1) unfolding tableOf_bucket(3) [OF b] rowsOf_Some [OF versions_distinct [OF assms b]] by blast
        then have "ob \<in> set (versionRows b)" using versionRows_iff [OF wf] by simp
        with ob w(2,3) show "w \<in> unmarked ` set full" by (simp add: full_def)
      qed
    qed
    with obs tableOf_bucket(1) [OF b] show ?thesis by auto
  qed
  show "tb_buckets (tableOf m) n = None \<and> e = ErrBucketNotFound" if "ListVersions m n p km vm limit = Inl e"
    using that tableOf_bucket(2) [of m n] by (cases "getBucket m n") (auto simp: ListVersions_def getBucket_Inl_iff Let_def)
qed

interpretation mem: index_contract mem_exec "\<lambda>e. e" tableOf memory_wf "\<lambda>_. op_ok" GetObject GetObjectVersion ListObjects ListVersions
proof unfold_locales
  fix m opn m' assume wf: "memory_wf m" and ok: "op_ok opn" and run: "mem_exec opn m = Inr m'"
  show "memory_wf m'" by (rule mem_exec_wf [OF wf ok run])
  show "table_step opn (tableOf m) (tableOf m')" using refines_exec [OF wf ok] run by simp
next
  fix m opn and e :: store_error assume "memory_wf m" "op_ok opn" "mem_exec opn m = Inl e"
  then show "\<exists>x. e = x \<and> table_error opn (tableOf m) x" using refines_exec [of m opn] by simp
next
  fix m n k ob assume "memory_wf m" "GetObject m n k = Inr ob"
  then show "obj_IsLatest ob \<and> current (tableOf m) n k (unmarked ob)" using refines_get [of m n k] by simp
next
  fix m n k e assume "memory_wf m" "GetObject m n k = Inl e"
  then show "(\<forall>v. tb_rows (tableOf m) (n, k, v) = None) \<and> e = (if tb_buckets (tableOf m) n = None then ErrBucketNotFound else ErrObjectNotFound)"
    using refines_get [of m n k] tableOf_missing(2) [of m n k] by (cases "gm_get (mem_buckets m) n") (auto simp: tableOf_def)
next
  fix m n k v ob assume "memory_wf m" "GetObjectVersion m n k v = Inr ob"
  then show "tb_rows (tableOf m) (n, k, v) = Some (unmarked ob)" using refines_get_version [of m n k v] by simp
next
  fix m n k v e assume "memory_wf m" "GetObjectVersion m n k v = Inl e"
  then show "tb_rows (tableOf m) (n, k, v) = None \<and> e = (if tb_buckets (tableOf m) n = None then ErrBucketNotFound else ErrObjectNotFound)"
    using refines_get_version [of m n k v] by simp
qed (rule refines_list refines_versions; assumption)+

end
