(* ===== verification/Index_Props.thy ===== *)
theory Index_Props
  imports Postgres Sqlite_Table Memory_Table
begin

text \<open>
  The three indexes together: the PostgreSQL index keeps the contract as well, so the three answer every sequence of calls
  alike, and the calls outside the contract where they do not.
\<close>

section \<open>The PostgreSQL index\<close>

text \<open>
  Its statements are those of the SQLite index but for the one that replaces a row where it is, and the listings of a
  database without row order are the same.
\<close>

lemma pg_limit_eq: "pg_limit n rows = sql_limit n rows"
  by (simp add: pg_limit_def sql_limit_def)

lemma setBucketColumn_eq: "setBucketColumn = updateBucket"
  by (simp add: fun_eq_iff setBucketColumn_def updateBucket_def)

lemma Postgres_GetBucket_eq: "Postgres_GetBucket = SQLite_GetBucket"
  by (simp add: fun_eq_iff Postgres_GetBucket_def SQLite_GetBucket_def)

lemma insertRestoredRows_eq: "insertRestoredRows cd n obs rows = insertRestored cd n obs rows"
proof -
  have "insertRestoredRows cd n obs = insertRestored cd n obs" by (induction obs) (rule ext; simp)+
  then show ?thesis by simp
qed

lemmas postgres_shared = pg_limit_eq setBucketColumn_eq Postgres_GetBucket_eq insertRestoredRows_eq

lemma postgres_same:
  "Postgres_CreateBucket = SQLite_CreateBucket" "Postgres_ListBuckets = SQLite_ListBuckets" "Postgres_DeleteBucket = SQLite_DeleteBucket"
  "Postgres_SetBucketEncryption = SQLite_SetBucketEncryption" "Postgres_SetBucketVersioning = SQLite_SetBucketVersioning"
  "Postgres_SetBucketRecoveryRecipient = SQLite_SetBucketRecoveryRecipient" "Postgres_SetBucketCORS = SQLite_SetBucketCORS"
  "Postgres_SetBucketTagging = SQLite_SetBucketTagging" "Postgres_SetBucketACT = SQLite_SetBucketACT" "Postgres_SetBucketHead = SQLite_SetBucketHead"
  "Postgres_SetObjectTags = SQLite_SetObjectTags" "Postgres_GetObject = SQLite_GetObject" "Postgres_GetObjectVersion = SQLite_GetObjectVersion"
  "Postgres_DeleteVersion = SQLite_DeleteVersion" "Postgres_DeleteObject = SQLite_DeleteObject" "Postgres_ListObjects = SQLite_ListObjects"
  "Postgres_ListVersions = SQLite_ListVersions" "Postgres_GetSnapshot = SQLite_GetSnapshot" "Postgres_ListSnapshots = SQLite_ListSnapshots"
  "Postgres_RestoreBucket = SQLite_RestoreBucket" "Postgres_CreateMultipartUpload = SQLite_CreateMultipartUpload"
  "Postgres_GetMultipartUpload = SQLite_GetMultipartUpload" "Postgres_ListParts = SQLite_ListParts"
  "Postgres_ListMultipartUploads = SQLite_ListMultipartUploads" "Postgres_DeleteMultipartUpload = SQLite_DeleteMultipartUpload"
  by (simp_all only: fun_eq_iff postgres_shared
      Postgres_CreateBucket_def SQLite_CreateBucket_def Postgres_ListBuckets_def SQLite_ListBuckets_def Postgres_DeleteBucket_def SQLite_DeleteBucket_def
      Postgres_SetBucketEncryption_def SQLite_SetBucketEncryption_def Postgres_SetBucketVersioning_def SQLite_SetBucketVersioning_def
      Postgres_SetBucketRecoveryRecipient_def SQLite_SetBucketRecoveryRecipient_def Postgres_SetBucketCORS_def SQLite_SetBucketCORS_def
      Postgres_SetBucketTagging_def SQLite_SetBucketTagging_def Postgres_SetBucketACT_def SQLite_SetBucketACT_def
      Postgres_SetBucketHead_def SQLite_SetBucketHead_def Postgres_SetObjectTags_def SQLite_SetObjectTags_def
      Postgres_GetObject_def SQLite_GetObject_def Postgres_GetObjectVersion_def SQLite_GetObjectVersion_def
      Postgres_DeleteVersion_def SQLite_DeleteVersion_def Postgres_DeleteObject_def SQLite_DeleteObject_def
      Postgres_ListObjects_def SQLite_ListObjects_def Postgres_ListVersions_def SQLite_ListVersions_def
      Postgres_GetSnapshot_def SQLite_GetSnapshot_def Postgres_ListSnapshots_def SQLite_ListSnapshots_def
      Postgres_RestoreBucket_def SQLite_RestoreBucket_def Postgres_CreateMultipartUpload_def SQLite_CreateMultipartUpload_def
      Postgres_GetMultipartUpload_def SQLite_GetMultipartUpload_def Postgres_ListParts_def SQLite_ListParts_def
      Postgres_ListMultipartUploads_def SQLite_ListMultipartUploads_def Postgres_DeleteMultipartUpload_def SQLite_DeleteMultipartUpload_def simp_thms)

fun postgres_exec :: "Codec \<Rightarrow> mem_op \<Rightarrow> Database \<Rightarrow> Database sql_result" where
  "postgres_exec cd (CallCreateBucket now b) s = Postgres_CreateBucket cd s now b"
| "postgres_exec cd (CallDeleteBucket n) s = Postgres_DeleteBucket s n"
| "postgres_exec cd (CallSetBucketVersioning n a) s = Postgres_SetBucketVersioning s n a"
| "postgres_exec cd (CallSetBucketEncryption n a) s = Postgres_SetBucketEncryption s n a"
| "postgres_exec cd (CallSetBucketRecoveryRecipient n a) s = Postgres_SetBucketRecoveryRecipient s n a"
| "postgres_exec cd (CallSetBucketCORS n a) s = Postgres_SetBucketCORS s n a"
| "postgres_exec cd (CallSetBucketTagging n a) s = Postgres_SetBucketTagging s n a"
| "postgres_exec cd (CallSetBucketACT n h g) s = Postgres_SetBucketACT s n h g"
| "postgres_exec cd (CallSetBucketHead n r q) s = Postgres_SetBucketHead s n r q"
| "postgres_exec cd (CallSetObjectTags n k v t) s = Postgres_SetObjectTags cd s n k v t"
| "postgres_exec cd (CallPutSnapshot now sn) s = Postgres_PutSnapshot cd s now sn"
| "postgres_exec cd (CallRestoreBucket n obs r q) s = Postgres_RestoreBucket cd s n obs r q"
| "postgres_exec cd (CallPutObject ob c) s = Postgres_PutObject cd s ob c"
| "postgres_exec cd (CallDeleteObject n k) s = Postgres_DeleteObject cd s n k"
| "postgres_exec cd (CallDeleteVersion n k v) s = rbind (Postgres_DeleteVersion cd s n k v) (\<lambda>(_, s'). Inr s')"
| "postgres_exec cd (CallCreateMultipartUpload now u) s = Postgres_CreateMultipartUpload cd s now u"
| "postgres_exec cd (CallPutPart u p) s = Postgres_PutPart cd s u p"
| "postgres_exec cd (CallDeleteMultipartUpload u) s = Postgres_DeleteMultipartUpload s u"


lemma postgres_implements:
  assumes "sql_wf s" "sql_admits cd s opn"
  shows "implements cd s opn (postgres_exec cd opn s)"
proof -
  have d: "distinct (map snapshotKey (db_snapshots s))" "distinct (map partKey (db_parts s))" using assms(1) by (simp_all add: sql_wf_def)
  have put: "implements cd s (CallPutObject ob c) (Postgres_PutObject cd s ob c)" if "sql_admits cd s (CallPutObject ob c)" for ob c
  proof -
    have "withVersion ob = ob" using that by (simp add: withVersion_def)
    then show ?thesis
      using implements_put_via [OF assms(1) that row_put_upsert [OF demote_distinct [OF assms(1)]]]
      unfolding Postgres_PutObject_def find_lookup latestRow_def demote_def by (simp only: Let_def)
  qed
  have snapshot: "implements cd s (CallPutSnapshot now sn) (Postgres_PutSnapshot cd s now sn)" if "sql_admits cd s (CallPutSnapshot now sn)" for now sn
    using implements_snapshot_via [OF assms(1) that refl row_put_upsert [OF d(1)]]
    unfolding Postgres_PutSnapshot_def Postgres_GetBucket_eq by (simp only: Let_def)
  have part: "implements cd s (CallPutPart uid p) (Postgres_PutPart cd s uid p)" if "sql_admits cd s (CallPutPart uid p)" for uid p
    using implements_part_via [OF assms(1) that row_put_upsert [OF d(2)]] by (simp only: Postgres_PutPart_def)
  show ?thesis
    using assms(2)
  proof (cases opn)
    case (CallPutObject ob c)
    with put assms(2) show ?thesis by simp
  next
    case (CallPutSnapshot now sn)
    with snapshot assms(2) show ?thesis by simp
  next
    case (CallPutPart uid p)
    with part assms(2) show ?thesis by simp
  qed (use sqlite_implements [OF assms] in \<open>simp_all only: sqlite_exec.simps postgres_exec.simps postgres_same\<close>)
qed

interpretation postgres: index_contract "postgres_exec cd" Sentinel "sqlTable cd" sql_wf "sql_admits cd"
  "Postgres_GetObject cd" "Postgres_GetObjectVersion cd" "Postgres_ListObjects cd" "Postgres_ListVersions cd" for cd
proof unfold_locales
  fix s opn s' assume "sql_wf s" "sql_admits cd s opn" "postgres_exec cd opn s = Inr s'"
  with postgres_implements [of s cd opn] show "sql_wf s'" "table_step opn (sqlTable cd s) (sqlTable cd s')" by (simp_all add: implements_def)
next
  fix s opn e assume "sql_wf s" "sql_admits cd s opn" "postgres_exec cd opn s = Inl e"
  with postgres_implements [of s cd opn] show "\<exists>x. e = Sentinel x \<and> table_error opn (sqlTable cd s) x" by (simp add: implements_def)
qed (unfold postgres_same, (rule sqlite_get sqlite_get_version sqlite_list sqlite_versions; assumption)+)

section \<open>The three indexes agree\<close>

text \<open>What the contract covers is a matter of the table alone.\<close>

lemma sql_admits_rows:
  assumes "sql_wf s"
  shows "(\<forall>r \<in> set (db_objects s). oc_bucket r = n \<longrightarrow> oc_key r = k \<longrightarrow> oc_version_id r \<noteq> v \<longrightarrow> oc_vseq r < q) \<longleftrightarrow>
    (\<forall>w ob. tb_rows (sqlTable cd s) (n, k, w) = Some ob \<longrightarrow> w \<noteq> v \<longrightarrow> obj_VSeq ob < q)"
proof -
  have d: "distinct (map objectKey (db_objects s))" using assms by (simp add: sql_wf_def objects_wf_def)
  have eq: "(\<forall>w ob. (\<exists>r \<in> S. oc_version_id r = w \<and> ob = U r) \<longrightarrow> w \<noteq> v \<longrightarrow> obj_VSeq ob < q) \<longleftrightarrow>
      (\<forall>r \<in> S. oc_version_id r \<noteq> v \<longrightarrow> obj_VSeq (U r) < q)" for S and U :: "objectRow \<Rightarrow> Object" by blast
  show ?thesis unfolding sqlTable_sel rowAt_Some [OF d] eq by (auto simp: versionRowsOf_def)
qed

lemma sql_admits_snapshots: "(\<forall>r \<in> set (db_snapshots s). sc_bucket r \<noteq> n) \<longleftrightarrow> (\<forall>l. tb_snapshots (sqlTable cd s) (n, l) = None)"
  by (auto simp: lookup_None_iff snapshotKey_def image_iff)

lemma sql_admits_uploads: "(\<forall>r \<in> set (db_uploads s). uc_upload_id r \<noteq> u) \<longleftrightarrow> tb_uploads (sqlTable cd s) u = None"
  by (auto simp: lookup_None_iff)

lemma sql_admits_table:
  assumes "sql_wf s" "sql_wf t" "sqlTable cd s = sqlTable cd t"
  shows "sql_admits cd s opn \<longleftrightarrow> sql_admits cd t opn"
  by (cases opn)
    (simp_all only: sql_admits.simps sql_admits_rows [OF assms(1), where cd = cd] sql_admits_rows [OF assms(2), where cd = cd]
      sql_admits_snapshots [where cd = cd] sql_admits_uploads [where cd = cd] assms(3))

lemma sql_admits_op_ok:
  assumes "sql_admits cd s opn"
  shows "op_ok opn"
proof (cases opn)
  case (CallRestoreBucket n obs r q)
  then have "distinct (map obj_Key obs)" using assms by simp
  then have "distinct (map (\<lambda>ob. (obj_Key ob, obj_VersionID (restoredRow n ob))) obs)" by (auto simp: distinct_map inj_on_def)
  then show ?thesis by (simp add: CallRestoreBucket op_ok_def restorable_def)
qed (simp_all add: op_ok_def)


interpretation sqlite_memory: index_pair mem_exec "\<lambda>e. e" tableOf memory_wf "\<lambda>_. op_ok" GetObject GetObjectVersion ListObjects ListVersions
  "sqlite_exec cd" Sentinel "sqlTable cd" sql_wf "sql_admits cd" "SQLite_GetObject cd" "SQLite_GetObjectVersion cd" "SQLite_ListObjects cd" "SQLite_ListVersions cd" for cd
  by unfold_locales (erule sql_newest_unique, erule sql_vseqs_distinct, erule sql_admits_op_ok)

interpretation postgres_sqlite: index_pair "postgres_exec cd" Sentinel "sqlTable cd" sql_wf "sql_admits cd"
  "Postgres_GetObject cd" "Postgres_GetObjectVersion cd" "Postgres_ListObjects cd" "Postgres_ListVersions cd"
  "sqlite_exec cd" Sentinel "sqlTable cd" sql_wf "sql_admits cd" "SQLite_GetObject cd" "SQLite_GetObjectVersion cd" "SQLite_ListObjects cd" "SQLite_ListVersions cd" for cd
proof unfold_locales
  show "newest_unique (sqlTable cd t)" if "sql_wf t" for t using that by (rule sql_newest_unique)
  show "vseqs_distinct (sqlTable cd t)" if "sql_wf t" for t using that by (rule sql_vseqs_distinct)
  show "sql_admits cd s opn" if "sql_wf s" "sql_wf t" "sqlTable cd s = sqlTable cd t" "sql_admits cd t opn" for s t opn
    using sql_admits_table [OF that(1-3), of opn] that(4) by blast
qed

lemma emptyDatabase_wf: "sql_wf emptyDatabase"
  by (simp add: sql_wf_def emptyDatabase_def objects_wf_def versionRowsOf_def)

lemma emptyDatabase_table: "sqlTable cd emptyDatabase = tableOf NewMemory"
  by (rule table_eqI) (simp_all add: tableOf_start emptyDatabase_def rowAt_def)

definition same_result :: "(store_error, 'a) result \<Rightarrow> 'a sql_result \<Rightarrow> bool" where
  "same_result r q \<longleftrightarrow> q = (case r of Inl e \<Rightarrow> Inl (Sentinel e) | Inr x \<Rightarrow> Inr x)"


text \<open>C10. The SQL indexes implement the table of the interface. In a database that keeps its invariant (unique keys, rows
  that have their bucket, versions of distinct sequence numbers with the latest flag on the newest), every call that the contract covers
  keeps the invariant and changes the table as the specification says, or fails for its reason and with its error.\<close>

theorem sql_refines_table:
  assumes "sql_wf s" "sql_admits cd s opn"
  shows "implements cd s opn (sqlite_exec cd opn s) \<and> implements cd s opn (postgres_exec cd opn s)"
  using sqlite_implements [OF assms] postgres_implements [OF assms] by blast

text \<open>C11. The range of keys that the SQL queries use for a prefix holds exactly the keys that start with it, whatever its
  bytes, those that end in 255 included.\<close>

theorem prefix_range_exact: "inPrefixRange p k \<longleftrightarrow> HasPrefix k p"
  using prefix_range by simp



section \<open>Examples\<close>

text \<open>A codec of times and of empty metadata, and a bucket with two versions of a key, in the three indexes.\<close>

definition demoCodec :: Codec where
  "demoCodec = \<lparr>cd_Format = strconv_Itoa, cd_Parse = (\<lambda>t. case strconv_ParseInt 10 t of None \<Rightarrow> zeroTime | Some i \<Rightarrow> i),
     cd_MarshalMeta = (\<lambda>m. if m = [] then ''null'' else ''{}''), cd_UnmarshalMeta = (\<lambda>_. []),
     cd_MarshalParts = (\<lambda>_. ''[]''), cd_UnmarshalParts = (\<lambda>_. [])\<rparr>"

definition demoCalls :: "mem_op list" where
  "demoCalls = [CallCreateBucket 5 demoBucket, CallPutObject ((demoObject ''a'' ''v1'' 10)\<lparr>obj_LastModified := 7\<rparr>) None,
     CallPutObject ((demoObject ''a'' ''v2'' 20)\<lparr>obj_LastModified := 8\<rparr>) None, CallDeleteBucket ''bkt'']"

definition demoDatabase :: Database where
  "demoDatabase = snd (run_calls (sqlite_exec demoCodec) demoCalls emptyDatabase)"

lemma demo_keepsTime: "in_int64 t \<Longrightarrow> keepsTime demoCodec t"
  by (simp add: keepsTime_def demoCodec_def ParseInt_Itoa)

lemma demo_admitted: "all_admitted (sqlite_exec demoCodec) (sql_admits demoCodec) demoCalls emptyDatabase"
  by code_simp



lemma demoDatabase_wf: "sql_wf demoDatabase"
  using sqlite_memory.same_calls [OF memory_wf_NewMemory emptyDatabase_wf emptyDatabase_table [symmetric] demo_admitted]
  unfolding demoDatabase_def by fastforce

theorem sql_refines_table_witness:
  "sql_admits demoCodec demoDatabase (CallDeleteVersion ''bkt'' ''a'' ''v2'') \<and>
   implements demoCodec demoDatabase (CallDeleteVersion ''bkt'' ''a'' ''v2'') (postgres_exec demoCodec (CallDeleteVersion ''bkt'' ''a'' ''v2'') demoDatabase)"
  using sql_refines_table [OF demoDatabase_wf, of demoCodec "CallDeleteVersion ''bkt'' ''a'' ''v2''"] by simp

text \<open>An object written with the clock set back.\<close>

definition demoOld :: Object where
  "demoOld = (demoObject ''a'' ''v3'' 15)\<lparr>obj_LastModified := 9\<rparr>"

definition demoLatest :: objectRow where
  "demoLatest = objectValues demoCodec False ((demoObject ''a'' ''v2'' 20)\<lparr>obj_LastModified := 8\<rparr>)"


text \<open>A bucket with a snapshot, deleted and created again by someone else.\<close>

definition demoSnapCalls :: "mem_op list" where
  "demoSnapCalls = [CallCreateBucket 5 demoBucket,
     CallPutSnapshot 6 \<lparr>snap_Bucket = ''bkt'', snap_Label = ''l'', snap_Root = ''root'', snap_Seq = 1, snap_CreatedAt = 6\<rparr>]"

definition demoSnapped :: Database where
  "demoSnapped = snd (run_calls (sqlite_exec demoCodec) demoSnapCalls emptyDatabase)"

definition demoSnappedMem :: Memory where
  "demoSnappedMem = snd (run_calls mem_exec demoSnapCalls NewMemory)"


end
