(* ===== verification/Ranges.thy ===== *)
theory Ranges
  imports Listing
begin

text \<open>
  Byte ranges, conditional headers and the reading of composite objects, file
  internal/api/object.go (parseRangeSpec, preparePartRequest, serveComposite,
  checkConditionals, copySourceConditionals, downloadOptions). The Bee node is a parameter:
  the properties assume of it that a ranged download returns that range (definition
  \<open>download_ranges\<close>).
\<close>

section \<open>Conditional headers\<close>

definition trimETag :: "string \<Rightarrow> string" where
  "trimETag v = strings_TrimFunc (strings_TrimSpace v) (\<lambda>c. c = CHR 0x22)"

definition etagMatch :: "string \<Rightarrow> string \<Rightarrow> bool" where
  "etagMatch headerValue etag \<longleftrightarrow>
     (\<exists>part \<in> set (strings_Split headerValue CHR '',''). strings_TrimSpace part = ''*'' \<or> strings_TrimSpace part = etag)"

text \<open>\<open>http.ParseTime\<close> is the argument \<open>ParseTime\<close>. The result is the failure status, if any.\<close>

definition checkConditionals :: "(string \<Rightarrow> gotime option) \<Rightarrow> http_header \<Rightarrow> Object \<Rightarrow> int option" where
  "checkConditionals ParseTime h ob =
     (let etag = quoted (obj_ETag ob);
          modified = time_TruncateSecond (obj_LastModified ob);
          im = Header_Get h ''If-Match''; ius = Header_Get h ''If-Unmodified-Since'';
          inm = Header_Get h ''If-None-Match''; ims = Header_Get h ''If-Modified-Since'' in
      if im \<noteq> [] \<and> \<not> etagMatch im etag then Some 412
      else if ius \<noteq> [] \<and> (case ParseTime ius of Some t \<Rightarrow> t < modified | None \<Rightarrow> False) then Some 412
      else if inm \<noteq> [] then (if etagMatch inm etag then Some 304 else None)
      else if ims \<noteq> [] \<and> (case ParseTime ims of Some t \<Rightarrow> \<not> t < modified | None \<Rightarrow> False) then Some 304
      else None)"

definition copySourceConditionals :: "(string \<Rightarrow> gotime option) \<Rightarrow> http_header \<Rightarrow> Object \<Rightarrow> bool" where
  "copySourceConditionals ParseTime h src =
     (let etag = quoted (obj_ETag src);
          modified = time_TruncateSecond (obj_LastModified src);
          im = Header_Get h ''x-amz-copy-source-if-match'';
          inm = Header_Get h ''x-amz-copy-source-if-none-match'';
          ims = Header_Get h ''x-amz-copy-source-if-modified-since'';
          ius = Header_Get h ''x-amz-copy-source-if-unmodified-since'' in
      if im \<noteq> [] \<and> \<not> etagMatch im etag then False
      else if inm \<noteq> [] \<and> etagMatch inm etag then False
      else if ims \<noteq> [] \<and> (case ParseTime ims of Some t \<Rightarrow> \<not> t < modified | None \<Rightarrow> False) then False
      else if ius \<noteq> [] \<and> (case ParseTime ius of Some t \<Rightarrow> t < modified | None \<Rightarrow> False) then False
      else True)"

section \<open>Byte ranges\<close>

text \<open>The three outcomes of \<open>parseRangeSpec\<close>: ignore the header, 416, or a range (end inclusive).\<close>

datatype range_result = RangeIgnored | RangeUnsatisfiable | RangeOk int int

definition parseRangeSpec :: "string \<Rightarrow> int \<Rightarrow> range_result" where
  "parseRangeSpec spec sz =
     (case strings_CutPrefix spec ''bytes='' of (v, found) \<Rightarrow>
      if \<not> found \<or> strings_Contains v '','' then RangeIgnored
      else
      (case strings_Cut (strings_TrimSpace v) ''-'' of (first, lst, found) \<Rightarrow>
      if \<not> found then RangeIgnored
      else if first = [] then
        (case strconv_ParseInt 10 lst of
           None \<Rightarrow> RangeIgnored
         | Some n \<Rightarrow> if n \<le> 0 \<or> sz = 0 then RangeUnsatisfiable
                     else RangeOk (max (sz - n) 0) (sz - 1))
      else
      (case strconv_ParseInt 10 first of
         None \<Rightarrow> RangeIgnored
       | Some st \<Rightarrow>
           if st < 0 then RangeIgnored
           else if sz \<le> st then RangeUnsatisfiable
           else if lst = [] then RangeOk st (sz - 1)
           else (case strconv_ParseInt 10 lst of
              None \<Rightarrow> RangeIgnored
            | Some en \<Rightarrow> if en < st then RangeIgnored else RangeOk st (min en (sz - 1))))))"

definition rangeSpec :: "int \<Rightarrow> int \<Rightarrow> string" where
  "rangeSpec lo hi = ''bytes='' @ strconv_Itoa lo @ ''-'' @ strconv_Itoa hi"

definition maxPartNumber :: int where "maxPartNumber = 10000"

text \<open>
  \<open>preparePartRequest\<close> changes the request's Range header and the response headers; it
  returns both.
\<close>

definition preparePartRequest ::
  "http_header \<Rightarrow> http_header \<Rightarrow> Object \<Rightarrow> string \<Rightarrow> (apiError, http_header \<times> http_header) result" where
  "preparePartRequest rh h ob pnStr =
     (case strconv_Atoi pnStr of
        None \<Rightarrow> Inl (withMessage errInvalidArgument ''invalid partNumber'')
      | Some n \<Rightarrow>
          if n < 1 \<or> maxPartNumber < n then Inl (withMessage errInvalidArgument ''invalid partNumber'')
          else if obj_Parts ob = [] then
            if n \<noteq> 1 then Inl errInvalidPart
            else Inr (if 0 < obj_Size ob then Header_Set ''Range'' ''bytes=0-'' rh else rh, h)
          else if int (length (obj_Parts ob)) < n then Inl errInvalidPart
          else
            (let h = Header_Set ''x-amz-mp-parts-count'' (strconv_Itoa (int (length (obj_Parts ob)))) h;
                 start = sum_list (map part_Size (take (nat (n - 1)) (obj_Parts ob)));
                 sz = part_Size (obj_Parts ob ! nat (n - 1))
             in Inr (if 0 < sz then Header_Set ''Range'' (rangeSpec start (start + sz - 1)) rh else rh, h)))"

section \<open>Composite objects\<close>

record DownloadOptions =
  do_Range :: string
  do_Strategy :: string
  do_FallbackMode :: string
  do_ActHistory :: string
  do_ActPublisher :: string
  do_ActTimestamp :: int

definition actWriteTime :: "int \<Rightarrow> gotime \<Rightarrow> int" where
  "actWriteTime actAt fallback = (if 0 < actAt then actAt else time_Unix fallback)"

definition actHistoryFor :: "string \<Rightarrow> Bucket \<Rightarrow> string" where
  "actHistoryFor recorded b = (if recorded \<noteq> [] then recorded else bkt_ActHistory b)"

text \<open>
  \<open>FetchStrategy\<close> is the configured default and \<open>publisher\<close> the key \<open>publisherKey\<close> returns
  (empty when it fails).
\<close>

definition downloadOptions ::
  "string \<Rightarrow> string \<Rightarrow> http_header \<Rightarrow> string \<Rightarrow> Bucket option \<Rightarrow> string \<Rightarrow> int \<Rightarrow> DownloadOptions" where
  "downloadOptions FetchStrategy publisher rh spec b actHistory writtenAt =
     (let strategy = Header_Get rh ''x-swarm-redundancy-strategy'';
          strategy = (if strategy = [] then FetchStrategy else strategy);
          opts = \<lparr>do_Range = spec, do_Strategy = strategy,
             do_FallbackMode = Header_Get rh ''x-swarm-redundancy-fallback-mode'',
             do_ActHistory = [], do_ActPublisher = [], do_ActTimestamp = 0\<rparr> in
      case b of
        Some b \<Rightarrow>
          if bkt_ACT b then opts\<lparr>do_ActHistory := actHistoryFor actHistory b, do_ActPublisher := publisher,
                                 do_ActTimestamp := writtenAt\<rparr>
          else opts
      | None \<Rightarrow> opts)"

text \<open>
  The Bee node's download is a parameter: a reference and options give an error, or the
  body and whether the copy to the client broke off with an error.
\<close>

type_synonym bee_download = "string \<Rightarrow> DownloadOptions \<Rightarrow> (bee_error, string \<times> bool) result"

fun serveParts ::
  "bee_download \<Rightarrow> (string \<Rightarrow> Part \<Rightarrow> DownloadOptions) \<Rightarrow> int \<Rightarrow> int \<Rightarrow> int \<Rightarrow> string \<Rightarrow> Part list \<Rightarrow> string" where
  "serveParts dl opts start remaining partOffset served [] = served"
| "serveParts dl opts start remaining partOffset served (p # ps) =
     (if remaining \<le> 0 then served
      else let partStart = partOffset; partEnd = partOffset + part_Size p - 1;
               partOffset = partOffset + part_Size p in
           if part_Size p = 0 \<or> partEnd < start then
             serveParts dl opts start remaining partOffset served ps
           else let lo = max (start - partStart) 0;
                    hi = min (part_Size p - 1) (lo + remaining - 1) in
                (case dl (part_SwarmRef p) (opts (rangeSpec lo hi) p) of
                   Inl _ \<Rightarrow> served
                 | Inr (body, broken) \<Rightarrow>
                     if broken then served @ body
                     else serveParts dl opts start (remaining - int (length body)) partOffset (served @ body) ps))"

record composite_response =
  cr_Status :: int
  cr_ContentRange :: string
  cr_ContentLength :: int
  cr_Body :: string

definition serveComposite ::
  "bee_download \<Rightarrow> string \<Rightarrow> string \<Rightarrow> http_header \<Rightarrow> Object \<Rightarrow> Bucket option \<Rightarrow> (apiError, composite_response) result" where
  "serveComposite dl FetchStrategy publisher rh ob b =
     (let spec = Header_Get rh ''Range'';
          opts = (\<lambda>rs p. downloadOptions FetchStrategy publisher rh rs b (part_ActHistory p)
                    (actWriteTime (part_ActAt p) (part_LastModified p)));
          respond = (\<lambda>status cr start len.
             Inr \<lparr>cr_Status = status, cr_ContentRange = cr, cr_ContentLength = len,
                  cr_Body = serveParts dl opts start len 0 [] (obj_Parts ob)\<rparr>) in
      if spec \<noteq> [] then
        (case parseRangeSpec spec (obj_Size ob) of
           RangeUnsatisfiable \<Rightarrow> Inl errInvalidRange
         | RangeOk st en \<Rightarrow>
             respond 206 (''bytes '' @ strconv_Itoa st @ ''-'' @ strconv_Itoa en @ ''/'' @ strconv_Itoa (obj_Size ob))
               st (en - st + 1)
         | RangeIgnored \<Rightarrow> respond 200 [] 0 (obj_Size ob))
      else respond 200 [] 0 (obj_Size ob))"

section \<open>Properties of ranges\<close>

lemma Cut_dash: "0 \<le> lo \<Longrightarrow> strings_Cut (strconv_Itoa lo @ ''-'' @ t) ''-'' = (strconv_Itoa lo, t, True)"
  using strings_Cut_char_append [OF Itoa_no_dash, of lo t] by simp

lemma Itoa_digits: "0 \<le> i \<Longrightarrow> c \<in> set (strconv_Itoa i) \<Longrightarrow> 48 \<le> (of_char c :: nat) \<and> (of_char c :: nat) \<le> 57"
  by (auto simp: strconv_Itoa_def dest: show_nat_digit)

lemma range_body_plain:
  assumes "0 \<le> lo" and "t = [] \<or> (\<exists>hi. 0 \<le> hi \<and> t = strconv_Itoa hi)"
  shows "\<not> strings_Contains (strconv_Itoa lo @ ''-'' @ t) '',''"
    and "strings_TrimSpace (strconv_Itoa lo @ ''-'' @ t) = strconv_Itoa lo @ ''-'' @ t"
proof -
  let ?s = "strconv_Itoa lo @ ''-'' @ t"
  have d: "45 \<le> (of_char c :: nat) \<and> (of_char c :: nat) \<le> 57" if "c \<in> set ?s" for c
    using that Itoa_digits [OF assms(1), of c] assms(2) Itoa_digits [of _ c] by force
  have "CHR '','' \<notin> set ?s" using d [of "CHR '',''"] by auto
  then show "\<not> strings_Contains ?s '',''" unfolding strings_Contains_def strings_Index_char by simp
  have ns: "\<not> go_space c" if "c \<in> set ?s" for c
    using d [OF that] by (auto simp: go_space_def)
  show "strings_TrimSpace ?s = ?s"
    by (rule TrimSpace_id) (use ns hd_in_set [of ?s] last_in_set [of ?s] in auto)
qed

lemma CutPrefix_append [simp]: "strings_CutPrefix (p @ t) p = (t, True)"
  by (simp add: strings_CutPrefix_def)

lemma parseRange_eq:
  assumes "0 \<le> lo" and "in_int64 lo" and "t = [] \<or> (\<exists>hi. 0 \<le> hi \<and> t = strconv_Itoa hi)"
  shows "parseRangeSpec (''bytes='' @ strconv_Itoa lo @ ''-'' @ t) sz =
    (if sz \<le> lo then RangeUnsatisfiable
     else if t = [] then RangeOk lo (sz - 1)
     else (case strconv_ParseInt 10 t of None \<Rightarrow> RangeIgnored
           | Some en \<Rightarrow> if en < lo then RangeIgnored else RangeOk lo (min en (sz - 1))))"
  unfolding parseRangeSpec_def CutPrefix_append prod.case
  using assms(1,2) range_body_plain [OF assms(1,3)]
  by (simp only: Cut_dash prod.case ParseInt_Itoa option.case) simp

lemma parseRange_rangeSpec:
  assumes "0 \<le> lo" and "lo \<le> hi" and "hi < sz" and "in_int64 sz"
  shows "parseRangeSpec (rangeSpec lo hi) sz = RangeOk lo hi"
proof -
  have "in_int64 lo" and hi: "in_int64 hi" using assms by (auto simp: in_int64_def)
  moreover have "strconv_Itoa hi = [] \<or> (\<exists>h. 0 \<le> h \<and> strconv_Itoa hi = strconv_Itoa h)"
    using assms(1,2) by (intro disjI2 exI [of _ hi]) simp
  ultimately show ?thesis
    using parseRange_eq [OF assms(1), of "strconv_Itoa hi" sz] assms by (simp add: rangeSpec_def ParseInt_Itoa [OF hi])
qed

lemma parseRange_bounds: "parseRangeSpec spec sz = RangeOk st en \<Longrightarrow> 0 \<le> sz \<Longrightarrow> 0 \<le> st \<and> st \<le> en \<and> en < sz"
  by (auto simp: parseRangeSpec_def split: prod.splits if_splits option.splits)

text \<open>
  What the gateway relies on of the node: a download with a byte range inside the content
  of the reference returns those bytes.
\<close>

definition download_ranges :: "bee_download \<Rightarrow> (string \<Rightarrow> string) \<Rightarrow> bool" where
  "download_ranges dl content \<longleftrightarrow>
     (\<forall>ref opts lo hi. 0 \<le> lo \<and> lo \<le> hi \<and> hi < int (length (content ref)) \<and> do_Range opts = rangeSpec lo hi \<longrightarrow>
        dl ref opts = Inr (take (nat (hi - lo + 1)) (drop (nat lo) (content ref)), False))"

lemma do_Range_downloadOptions [simp]: "do_Range (downloadOptions fs pub rh spec b hist at) = spec"
  by (simp add: downloadOptions_def Let_def split: option.splits)

lemma serveParts_eq:
  assumes dl: "download_ranges dl content" and opts: "\<And>rs p. do_Range (opts rs p) = rs"
  shows "\<forall>p \<in> set ps. part_Size p = int (length (content (part_SwarmRef p))) \<Longrightarrow>
    serveParts dl opts start r off served ps =
      served @ take (nat r) (drop (nat (start - off)) (concat (map (content \<circ> part_SwarmRef) ps)))"
proof (induction ps arbitrary: r off served)
  case (Cons p ps)
  let ?c = "content (part_SwarmRef p)" and ?rest = "concat (map (content \<circ> part_SwarmRef) ps)"
  have size: "part_Size p = int (length ?c)" using Cons.prems by simp
  consider "r \<le> 0" | "0 < r" "part_Size p = 0 \<or> off + part_Size p - 1 < start"
    | "0 < r" "part_Size p \<noteq> 0" "\<not> off + part_Size p - 1 < start" by linarith
  then show ?case
  proof cases
    case 2
    have "drop (nat (start - off)) (?c @ ?rest) = drop (nat (start - (off + part_Size p))) ?rest"
    proof -
      have "nat (start - off) - length ?c = nat (start - (off + part_Size p))" using size by simp
      moreover have "drop (nat (start - off)) ?c = []" using 2(2) size by auto
      ultimately show ?thesis by simp
    qed
    moreover have "serveParts dl opts start r off served (p # ps) =
        serveParts dl opts start r (off + part_Size p) served ps" using 2 by (simp add: Let_def)
    moreover have "concat (map (content \<circ> part_SwarmRef) (p # ps)) = ?c @ ?rest" by simp
    moreover have "\<forall>p \<in> set ps. part_Size p = int (length (content (part_SwarmRef p)))" using Cons.prems by simp
    ultimately show ?thesis by (simp only: Cons.IH)
  next
    case 3
    define lo where "lo = max (start - off) 0"
    define hi where "hi = min (part_Size p - 1) (lo + r - 1)"
    let ?body = "take (nat (hi - lo + 1)) (drop (nat lo) ?c)"
    have lo: "0 \<le> lo" "lo < int (length ?c)" "nat lo = nat (start - off)" using 3 size by (auto simp: lo_def)
    have hi: "lo \<le> hi" "hi < int (length ?c)" using 3 lo size by (auto simp: hi_def)
    have "dl (part_SwarmRef p) (opts (rangeSpec lo hi) p) = Inr (?body, False)"
      using dl lo(1) hi opts unfolding download_ranges_def by blast
    then have step: "serveParts dl opts start r off served (p # ps) =
        serveParts dl opts start (r - int (length ?body)) (off + part_Size p) (served @ ?body) ps"
      using 3 by (simp add: lo_def [symmetric] hi_def [symmetric] Let_def)
    have n: "nat (hi - lo + 1) = min (length ?c - nat lo) (nat r)"
      using lo hi 3(1) size by (auto simp: hi_def min_def)
    have body: "?body = take (nat r) (drop (nat lo) ?c)" unfolding n by (simp add: min_def)
    have rem: "nat (r - int (length ?body)) = nat r - (length ?c - nat lo)"
      unfolding body using lo 3(1) by (auto simp: min_def)
    have off: "nat (start - (off + part_Size p)) = 0" using 3(3) by simp
    have "nat lo - length ?c = 0" using lo(1,2) by simp
    then have slice: "take (nat r) (drop (nat (start - off)) (?c @ ?rest)) =
        ?body @ take (nat r - (length ?c - nat lo)) ?rest"
      unfolding body lo(3) [symmetric] by simp
    have tl: "\<forall>p \<in> set ps. part_Size p = int (length (content (part_SwarmRef p)))" using Cons.prems by simp
    have "concat (map (content \<circ> part_SwarmRef) (p # ps)) = ?c @ ?rest" by simp
    then show ?thesis
      by (simp only: step Cons.IH [OF tl] off rem slice drop_0 append_assoc)
  qed simp
qed simp

lemma parts_length:
  "\<forall>p \<in> set ps. part_Size p = int (length (content (part_SwarmRef p))) \<Longrightarrow>
   sum_list (map part_Size ps) = int (length (concat (map (content \<circ> part_SwarmRef) ps)))"
  by (induction ps) auto

text \<open>The bytes of a composite object, and the sizes a completed upload records.\<close>

definition compositeBytes :: "(string \<Rightarrow> string) \<Rightarrow> Object \<Rightarrow> string" where
  "compositeBytes content ob = concat (map (content \<circ> part_SwarmRef) (obj_Parts ob))"

definition composite_ok :: "(string \<Rightarrow> string) \<Rightarrow> Object \<Rightarrow> bool" where
  "composite_ok content ob \<longleftrightarrow>
     (\<forall>p \<in> set (obj_Parts ob). part_Size p = int (length (content (part_SwarmRef p)))) \<and>
     obj_Size ob = int (length (compositeBytes content ob)) \<and> in_int64 (obj_Size ob)"

lemma composite_body:
  assumes "download_ranges dl content" and "composite_ok content ob" and "0 \<le> start"
  shows "serveParts dl (\<lambda>rs p. downloadOptions fs pub rh rs b (part_ActHistory p)
       (actWriteTime (part_ActAt p) (part_LastModified p))) start len 0 [] (obj_Parts ob) =
     take (nat len) (drop (nat start) (compositeBytes content ob))"
  using serveParts_eq [OF assms(1), of "\<lambda>rs p. downloadOptions fs pub rh rs b (part_ActHistory p)
       (actWriteTime (part_ActAt p) (part_LastModified p))" "obj_Parts ob" start len 0 "[]"] assms(2,3)
  by (simp add: composite_ok_def compositeBytes_def)

text \<open>C19. Reading a composite (multipart) object. Given a node that serves byte ranges of
  its references, the body sent for a GET is exactly the requested slice of the
  concatenation of the parts, however the range cuts across them: the whole for no (or an
  ignored) Range header, bytes \<open>st\<close> to \<open>en\<close> with status 206 and the right Content-Range and
  Content-Length for a range, 416 exactly for an unsatisfiable one; and an accepted range
  always lies inside the object.\<close>

theorem composite_read_exact:
  assumes "download_ranges dl content" and "composite_ok content ob"
  shows "serveComposite dl fs pub rh ob b =
    (case (if Header_Get rh ''Range'' = [] then RangeIgnored else parseRangeSpec (Header_Get rh ''Range'') (obj_Size ob)) of
       RangeIgnored \<Rightarrow> Inr \<lparr>cr_Status = 200, cr_ContentRange = [], cr_ContentLength = obj_Size ob,
          cr_Body = compositeBytes content ob\<rparr>
     | RangeUnsatisfiable \<Rightarrow> Inl errInvalidRange
     | RangeOk st en \<Rightarrow> Inr \<lparr>cr_Status = 206,
          cr_ContentRange = ''bytes '' @ strconv_Itoa st @ ''-'' @ strconv_Itoa en @ ''/'' @ strconv_Itoa (obj_Size ob),
          cr_ContentLength = en - st + 1,
          cr_Body = take (nat (en - st + 1)) (drop (nat st) (compositeBytes content ob))\<rparr>) \<and>
    (\<forall>spec st en. parseRangeSpec spec (obj_Size ob) = RangeOk st en \<longrightarrow> 0 \<le> st \<and> st \<le> en \<and> en < obj_Size ob)"
proof -
  have "0 \<le> obj_Size ob" and size: "nat (obj_Size ob) = length (compositeBytes content ob)"
    using assms(2) by (simp_all add: composite_ok_def)
  then have b: "\<forall>spec st en. parseRangeSpec spec (obj_Size ob) = RangeOk st en \<longrightarrow> 0 \<le> st \<and> st \<le> en \<and> en < obj_Size ob"
    using parseRange_bounds by blast
  show ?thesis
    using b by (auto simp: serveComposite_def Let_def composite_body [OF assms] size split: range_result.split)
qed

text \<open>C20. Reading part \<open>n\<close> of a composite object returns exactly the bytes of that part,
  when the part is not empty. (The part number is turned into a Range header.)\<close>

theorem part_read_exact:
  assumes "download_ranges dl content" and "composite_ok content ob" and "strconv_Atoi pn = Some n"
    and "1 \<le> n" and "n \<le> int (length (obj_Parts ob))" and "n \<le> maxPartNumber"
    and "0 < part_Size (obj_Parts ob ! nat (n - 1))"
  shows "\<exists>rh' h' resp. preparePartRequest rh h ob pn = Inr (rh', h') \<and>
    Header_Get h' ''x-amz-mp-parts-count'' = strconv_Itoa (int (length (obj_Parts ob))) \<and>
    serveComposite dl fs pub rh' ob b = Inr resp \<and> cr_Status resp = 206 \<and>
    cr_Body resp = content (part_SwarmRef (obj_Parts ob ! nat (n - 1)))"
proof -
  define i where "i = nat (n - 1)"
  let ?ps = "obj_Parts ob"
  let ?start = "sum_list (map part_Size (take i ?ps))" and ?size = "part_Size (?ps ! i)"
  let ?c = "content (part_SwarmRef (?ps ! i))"
  have i: "i < length ?ps" using assms(4,5) by (simp add: i_def)
  have sizes: "part_Size p = int (length (content (part_SwarmRef p)))" if "p \<in> set ?ps" for p
    using that assms(2) by (simp add: composite_ok_def)
  have pre: "?start = int (length (concat (map (content \<circ> part_SwarmRef) (take i ?ps))))"
    using sizes set_take_subset [of i ?ps] by (intro parts_length) blast
  have size: "?size = int (length ?c)" using sizes i by simp
  have bytes: "compositeBytes content ob =
      concat (map (content \<circ> part_SwarmRef) (take i ?ps)) @ ?c @ concat (map (content \<circ> part_SwarmRef) (drop (Suc i) ?ps))"
    using arg_cong [where f = "\<lambda>xs. concat (map (content \<circ> part_SwarmRef) xs)", OF id_take_nth_drop [OF i]]
    by (simp add: compositeBytes_def)
  let ?rh = "Header_Set ''Range'' (rangeSpec ?start (?start + ?size - 1)) rh"
  have prep: "preparePartRequest rh h ob pn =
      Inr (?rh, Header_Set ''x-amz-mp-parts-count'' (strconv_Itoa (int (length ?ps))) h)"
    using assms(3-7) i by (auto simp: preparePartRequest_def i_def Let_def)
  have range: "parseRangeSpec (rangeSpec ?start (?start + ?size - 1)) (obj_Size ob) = RangeOk ?start (?start + ?size - 1)"
    using assms(2,7) bytes pre size by (intro parseRange_rangeSpec) (auto simp: composite_ok_def i_def [symmetric])
  have spec: "Header_Get ?rh ''Range'' = rangeSpec ?start (?start + ?size - 1)"
    by (simp add: Header_Get_def Header_Values_def Header_Set_def)
  have "serveComposite dl fs pub ?rh ob b = Inr \<lparr>cr_Status = 206,
      cr_ContentRange = ''bytes '' @ strconv_Itoa ?start @ ''-'' @ strconv_Itoa (?start + ?size - 1) @ ''/'' @ strconv_Itoa (obj_Size ob),
      cr_ContentLength = ?start + ?size - 1 - ?start + 1, cr_Body = ?c\<rparr>"
    unfolding serveComposite_def Let_def spec range
    using pre size bytes by (simp add: composite_body [OF assms(1,2)] rangeSpec_def)
  with prep show ?thesis
    by (simp add: i_def [symmetric] Header_Get_def Header_Values_def Header_Set_def)
qed


definition demoContent :: "string \<Rightarrow> string" where
  "demoContent ref = (if ref = ''r1'' then ''abc'' else if ref = ''r2'' then ''defg'' else [])"

text \<open>A node that serves ranges of three references, for the witnesses.\<close>

definition demoDownload :: bee_download where
  "demoDownload ref opts =
     (case parseRangeSpec (do_Range opts) (int (length (demoContent ref))) of
        RangeOk st en \<Rightarrow> Inr (take (nat (en - st + 1)) (drop (nat st) (demoContent ref)), False)
      | RangeIgnored \<Rightarrow> Inr (demoContent ref, False)
      | RangeUnsatisfiable \<Rightarrow> Inl (StatusError 416 []))"

lemma demoDownload_ranges: "download_ranges demoDownload demoContent"
  unfolding download_ranges_def
proof (intro allI impI)
  fix ref and opts :: DownloadOptions and lo hi
  assume a: "0 \<le> lo \<and> lo \<le> hi \<and> hi < int (length (demoContent ref)) \<and> do_Range opts = rangeSpec lo hi"
  have "in_int64 (int (length (demoContent ref)))" by (simp add: demoContent_def in_int64_def)
  with a parseRange_rangeSpec [of lo hi "int (length (demoContent ref))"]
  show "demoDownload ref opts = Inr (take (nat (hi - lo + 1)) (drop (nat lo) (demoContent ref)), False)"
    by (simp add: demoDownload_def)
qed

definition demoComposite :: Object where
  "demoComposite = zeroObject\<lparr>obj_Bucket := ''bkt'', obj_Key := ''c'', obj_Size := 7,
     obj_Parts := [zeroPart\<lparr>part_PartNumber := 1, part_SwarmRef := ''r1'', part_Size := 3\<rparr>,
                   zeroPart\<lparr>part_PartNumber := 2, part_SwarmRef := ''r2'', part_Size := 4\<rparr>,
                   zeroPart\<lparr>part_PartNumber := 3, part_SwarmRef := ''r3'', part_Size := 0\<rparr>]\<rparr>"

lemma demoComposite_ok: "composite_ok demoContent demoComposite"
  by code_simp

theorem composite_read_exact_witness:
  "serveComposite demoDownload [] [] [(''range'', [''bytes=2-4''])] demoComposite None =
     Inr \<lparr>cr_Status = 206, cr_ContentRange = ''bytes 2-4/7'', cr_ContentLength = 3, cr_Body = ''cde''\<rparr>"
proof -
  have h: "Header_Get [(''range'', [''bytes=2-4''])] ''Range'' = ''bytes=2-4''" by code_simp
  have p: "parseRangeSpec ''bytes=2-4'' (obj_Size demoComposite) = RangeOk 2 4" by code_simp
  have b: "take (nat (4 - 2 + 1)) (drop (nat 2) (compositeBytes demoContent demoComposite)) = ''cde''" by code_simp
  have c: "''bytes '' @ strconv_Itoa 2 @ ''-'' @ strconv_Itoa 4 @ ''/'' @ strconv_Itoa (obj_Size demoComposite) = ''bytes 2-4/7''"
    by code_simp
  show ?thesis
    using composite_read_exact [OF demoDownload_ranges demoComposite_ok, of "[]" "[]" "[(''range'', [''bytes=2-4''])]" None]
    unfolding h by (simp only: p b c list.distinct if_False range_result.case) simp
qed

theorem part_read_exact_witness:
  "\<exists>rh' h' resp. preparePartRequest [] [] demoComposite ''2'' = Inr (rh', h') \<and>
     serveComposite demoDownload [] [] rh' demoComposite None = Inr resp \<and> cr_Body resp = ''defg''"
proof -
  have "strconv_Atoi ''2'' = Some 2" by code_simp
  moreover have "2 \<le> int (length (obj_Parts demoComposite))" by code_simp
  moreover have "(2 :: int) \<le> maxPartNumber" by code_simp
  moreover have "0 < part_Size (obj_Parts demoComposite ! nat (2 - 1))" by code_simp
  moreover have "demoContent (part_SwarmRef (obj_Parts demoComposite ! nat (2 - 1))) = ''defg''" by code_simp
  ultimately show ?thesis
    using part_read_exact [OF demoDownload_ranges demoComposite_ok, of "''2''" 2 "[]" "[]" "[]" "[]" None] by auto
qed



end
