(* ===== verification/Chunked.thy ===== *)
theory Chunked
  imports Ranges
begin

text \<open>
  The decoder of aws-chunked bodies, file internal/auth/chunked.go: the framing, the chain
  of chunk signatures and the trailing headers. The reader is a record whose state the
  operations thread; an operation that fails returns the error as a value. The reader that
  is drained in pieces of any size agrees with a decoder that takes a chunk at a time, which
  carries the round trip and the soundness of the signature chain.
\<close>

section \<open>Lines\<close>

text \<open>
  The source of the reader is the body and the way it ends: an empty error is \<open>io.EOF\<close>,
  any other text a read error. \<open>ReadString\<close> of \<open>bufio.Reader\<close> returns the bytes up to and
  including the first newline, or all that is left and the error.
\<close>

definition LF :: char where "LF = CHR 0x0A"
definition CR :: char where "CR = CHR 0x0D"

definition bufio_ReadString :: "string \<Rightarrow> string \<times> bool \<times> string" where
  "bufio_ReadString inp =
     (let line = takeWhile (\<lambda>c. c \<noteq> LF) inp; rest = dropWhile (\<lambda>c. c \<noteq> LF) inp in
      case rest of [] \<Rightarrow> (line, False, []) | c # rest \<Rightarrow> (line @ [c], True, rest))"

definition trimCRLF :: "string \<Rightarrow> string" where
  "trimCRLF s = rev (dropWhile (\<lambda>c. c = CR \<or> c = LF) (rev s))"

text \<open>
  The errors of the reader. \<open>isChunkSignature\<close> is \<open>errors.Is\<close> with \<open>ErrChunkSignature\<close>.
\<close>

datatype chunk_error =
    ReadingHeader
  | MalformedSize string
  | MissingSignature
  | BadChunkSignature
  | TruncatedData
  | ReadingTrailer
  | MalformedTrailer string
  | BadTrailerSignature
  | ExpectedTerminator
  | UnexpectedData string

definition isChunkSignature :: "chunk_error \<Rightarrow> bool" where
  "isChunkSignature e \<longleftrightarrow> e \<in> {MissingSignature, BadChunkSignature, BadTrailerSignature}"

record ChunkedReader =
  ch_br :: string
  ch_srcErr :: string
  ch_stream :: "StreamContext option"
  ch_remaining :: int
  ch_chunkSig :: string
  ch_chunkHash :: "string option"
  ch_trailer :: http_header
  ch_done :: bool
  ch_err :: "chunk_error option"

definition NewChunkedReader :: "string \<Rightarrow> string \<Rightarrow> StreamContext option \<Rightarrow> ChunkedReader" where
  "NewChunkedReader body srcErr stream =
     \<lparr>ch_br = body, ch_srcErr = srcErr, ch_stream = stream, ch_remaining = 0, ch_chunkSig = [],
      ch_chunkHash = None, ch_trailer = [], ch_done = False, ch_err = None\<rparr>"

text \<open>
  \<open>readLine\<close>: the line without its line end, the error (an empty text is \<open>io.EOF\<close>) and the
  rest of the input. At the end of the source a line that is not empty is still returned
  without error when the source ended with \<open>io.EOF\<close>.
\<close>

definition readLine :: "ChunkedReader \<Rightarrow> string \<times> string option \<times> ChunkedReader" where
  "readLine c =
     (case bufio_ReadString (ch_br c) of (line, found, rest) \<Rightarrow>
        (trimCRLF line,
         if found then None else if ch_srcErr c = [] \<and> line \<noteq> [] then None else Some (ch_srcErr c),
         c\<lparr>ch_br := rest\<rparr>))"

section \<open>Signatures\<close>

definition emptySHA256 :: string where
  "emptySHA256 = ''e3b0c44298fc1c149afbf4c8996fb92427ae41e4649b934ca495991b7852b855''"

definition chunkSignature :: "crypto \<Rightarrow> StreamContext \<Rightarrow> string \<Rightarrow> string" where
  "chunkSignature cr sc payloadSHA =
     hex_EncodeToString (hmacSHA256 cr (sc_signingKey sc)
       (strings_Join [''AWS4-HMAC-SHA256-PAYLOAD'', sc_amzDate sc, sc_scope sc, sc_prevSig sc, emptySHA256, payloadSHA] nl))"

definition trailerSignature :: "crypto \<Rightarrow> StreamContext \<Rightarrow> string \<Rightarrow> string" where
  "trailerSignature cr sc trailerSHA =
     hex_EncodeToString (hmacSHA256 cr (sc_signingKey sc)
       (strings_Join [''AWS4-HMAC-SHA256-TRAILER'', sc_amzDate sc, sc_scope sc, sc_prevSig sc, trailerSHA] nl))"

text \<open>The previous signature advances along the chain.\<close>

definition verifyChunk :: "crypto \<Rightarrow> StreamContext \<Rightarrow> string \<Rightarrow> string \<Rightarrow> (chunk_error, StreamContext) result" where
  "verifyChunk cr sc chunkSig payloadSHA =
     (let want = chunkSignature cr sc payloadSHA in
      if want \<noteq> strings_ToLower chunkSig then Inl BadChunkSignature
      else Inr (sc\<lparr>sc_prevSig := want\<rparr>))"

definition expectCRLF :: "ChunkedReader \<Rightarrow> (chunk_error, ChunkedReader) result" where
  "expectCRLF c =
     (case readLine c of (line, err, c) \<Rightarrow>
        if err \<noteq> None then Inl ExpectedTerminator
        else if line \<noteq> [] then Inl (UnexpectedData line)
        else Inr c)"

definition finishChunk :: "crypto \<Rightarrow> ChunkedReader \<Rightarrow> (chunk_error, ChunkedReader) result" where
  "finishChunk cr c =
     (case expectCRLF c of
        Inl e \<Rightarrow> Inl e
      | Inr c \<Rightarrow>
          (case ch_stream c of
             None \<Rightarrow> Inr c
           | Some sc \<Rightarrow>
               (case verifyChunk cr sc (ch_chunkSig c) (hex_EncodeToString (sha256_Sum256 cr (case ch_chunkHash c of Some d \<Rightarrow> d | None \<Rightarrow> []))) of
                  Inl e \<Rightarrow> Inl e
                | Inr sc \<Rightarrow> Inr (c\<lparr>ch_stream := Some sc, ch_chunkHash := None\<rparr>))))"

section \<open>Trailers\<close>

text \<open>
  The loop of \<open>readTrailer\<close>: the trailing headers, the lines to sign and the signature.
  A header the loop meets twice keeps its last value but signs both lines.
\<close>

lemma ReadString_shorter:
  "bufio_ReadString inp = (line, found, rest) \<Longrightarrow> trimCRLF line \<noteq> [] \<Longrightarrow> length rest < length inp"
proof -
  assume "bufio_ReadString inp = (line, found, rest)" and "trimCRLF line \<noteq> []"
  moreover from this have "line \<noteq> []" by (auto simp: trimCRLF_def)
  moreover have "length inp = length (takeWhile (\<lambda>c. c \<noteq> LF) inp) + length (dropWhile (\<lambda>c. c \<noteq> LF) inp)"
    by (simp flip: length_append)
  ultimately show ?thesis by (auto simp: bufio_ReadString_def Let_def split: list.splits)
qed

function trailerLoop ::
  "ChunkedReader \<Rightarrow> http_header \<Rightarrow> string \<Rightarrow> string \<Rightarrow> (chunk_error, http_header \<times> string \<times> string \<times> ChunkedReader) result" where
  "trailerLoop c tr canonical trailerSig =
     (case readLine c of (line, err, c') \<Rightarrow>
        if err = Some [] \<or> line = [] then Inr (tr, canonical, trailerSig, c')
        else if err \<noteq> None then Inl ReadingTrailer
        else (case strings_Cut line '':'' of (name, val, ok) \<Rightarrow>
          if \<not> ok then Inl (MalformedTrailer line)
          else (let name = strings_ToLower (strings_TrimSpace name); val = strings_TrimSpace val in
            if name = ''x-amz-trailer-signature'' then trailerLoop c' tr canonical val
            else trailerLoop c' (Header_Set name val tr) (canonical @ name @ '':'' @ val @ nl) trailerSig)))"
  by pat_completeness auto
termination
  apply (relation "measure (\<lambda>(c, _). length (ch_br c))")
  apply (auto simp: readLine_def dest!: ReadString_shorter split: prod.splits if_splits)
  done

declare trailerLoop.simps [simp del]

definition readTrailer :: "crypto \<Rightarrow> ChunkedReader \<Rightarrow> (chunk_error, ChunkedReader) result" where
  "readTrailer cr c =
     (case trailerLoop c [] [] [] of
        Inl e \<Rightarrow> Inl e
      | Inr (tr, canonical, trailerSig, c) \<Rightarrow>
          (case ch_stream c of
             Some sc \<Rightarrow>
               if sc_trailerSigned sc \<and>
                  trailerSignature cr sc (hex_EncodeToString (sha256_Sum256 cr canonical)) \<noteq> strings_ToLower trailerSig
               then Inl BadTrailerSignature
               else Inr (c\<lparr>ch_trailer := tr, ch_done := True\<rparr>)
           | None \<Rightarrow> Inr (c\<lparr>ch_trailer := tr, ch_done := True\<rparr>)))"

section \<open>Reading\<close>

text \<open>\<open>advance\<close> parses a chunk header; a chunk of size zero ends the stream.\<close>

definition advance :: "crypto \<Rightarrow> ChunkedReader \<Rightarrow> (chunk_error, ChunkedReader) result" where
  "advance cr c =
     (case readLine c of (line, err, c) \<Rightarrow>
      if err \<noteq> None then Inl ReadingHeader
      else
      (case strings_Cut line '';'' of (sizeStr, sig, _) \<Rightarrow>
      (case strconv_ParseInt 16 sizeStr of
         None \<Rightarrow> Inl (MalformedSize sizeStr)
       | Some sz \<Rightarrow>
           if sz < 0 then Inl (MalformedSize sizeStr)
           else
           (let c = c\<lparr>ch_chunkSig := strings_TrimPrefix sig ''chunk-signature=''\<rparr> in
            if ch_stream c \<noteq> None \<and> ch_chunkSig c = [] then Inl MissingSignature
            else if sz = 0 then
              (case ch_stream c of
                 None \<Rightarrow> readTrailer cr c
               | Some sc \<Rightarrow>
                   (case verifyChunk cr sc (ch_chunkSig c) emptySHA256 of
                      Inl e \<Rightarrow> Inl e
                    | Inr sc \<Rightarrow> readTrailer cr (c\<lparr>ch_stream := Some sc\<rparr>)))
            else Inr (c\<lparr>ch_remaining := sz,
                        ch_chunkHash := (if ch_stream c \<noteq> None then Some [] else ch_chunkHash c)\<rparr>)))))"

text \<open>
  One \<open>Read\<close>. The buffered reader below returns between one and \<open>len(p)\<close> bytes of what it
  has: \<open>k\<close> is that number, cut to the rest of the chunk and of the body. The call is with
  \<open>len(p) > 0\<close>. An \<open>advance\<close> that succeeds either ends the stream or leaves bytes to read,
  so the loop of the source runs at most twice.
\<close>

datatype read_result = ReadData string | ReadEOF | ReadErr chunk_error

text \<open>The reader after the bytes \<open>p\<close> of a chunk, before the end of the chunk is looked at.\<close>

definition tookData :: "string \<Rightarrow> ChunkedReader \<Rightarrow> ChunkedReader" where
  "tookData p c = c\<lparr>ch_br := drop (length p) (ch_br c), ch_remaining := ch_remaining c - int (length p),
     ch_chunkHash := map_option (\<lambda>d. d @ p) (ch_chunkHash c)\<rparr>"

definition gotData :: "crypto \<Rightarrow> string \<Rightarrow> ChunkedReader \<Rightarrow> ChunkedReader" where
  "gotData cr p c =
     (let c = tookData p c in
      if ch_remaining c = 0 then
        (case finishChunk cr c of Inl e \<Rightarrow> c\<lparr>ch_err := Some e\<rparr> | Inr c \<Rightarrow> c)
      else c)"

definition readData :: "crypto \<Rightarrow> nat \<Rightarrow> ChunkedReader \<Rightarrow> read_result \<times> ChunkedReader" where
  "readData cr k c =
     (let p = take (min (max 1 k) (nat (ch_remaining c))) (ch_br c) in
      if p = [] then (ReadErr TruncatedData, c\<lparr>ch_err := Some TruncatedData\<rparr>)
      else (ReadData p, gotData cr p c))"

definition Read :: "crypto \<Rightarrow> nat \<Rightarrow> ChunkedReader \<Rightarrow> read_result \<times> ChunkedReader" where
  "Read cr k c =
     (case ch_err c of
        Some e \<Rightarrow> (ReadErr e, c)
      | None \<Rightarrow>
          if ch_done c then (ReadEOF, c)
          else if ch_remaining c = 0 then
            (case advance cr c of
               Inl e \<Rightarrow> (ReadErr e, c\<lparr>ch_err := Some e\<rparr>)
             | Inr c \<Rightarrow> if ch_done c then (ReadEOF, c) else readData cr k c)
          else readData cr k c)"


text \<open>Every step only consumes input, so a reader that is drained comes to an end.\<close>

lemma readLine_br: "readLine c = (line, err, c') \<Longrightarrow> length (ch_br c') \<le> length (ch_br c)"
proof -
  assume "readLine c = (line, err, c')"
  moreover have "length (dropWhile (\<lambda>c. c \<noteq> LF) (ch_br c)) \<le> length (ch_br c)" by (rule length_dropWhile_le)
  ultimately show ?thesis
    by (auto simp: readLine_def bufio_ReadString_def Let_def split: list.splits)
qed

lemma trailerLoop_br: "trailerLoop c tr cn ts = Inr (tr', cn', ts', c') \<Longrightarrow> length (ch_br c') \<le> length (ch_br c)"
proof (induction c tr cn ts rule: trailerLoop.induct)
  case (1 c tr cn ts)
  obtain line err c1 where rl: "readLine c = (line, err, c1)" by (cases "readLine c") auto
  obtain name val ok where cut: "strings_Cut line '':'' = (name, val, ok)" by (cases "strings_Cut line '':''") auto
  let ?name = "strings_ToLower (strings_TrimSpace name)"
  show ?case
  proof (cases "err = None \<and> line \<noteq> [] \<and> ok")
    case False
    then have "trailerLoop c tr cn ts =
        (if err = Some [] \<or> line = [] then Inr (tr, cn, ts, c1)
         else if err \<noteq> None then Inl ReadingTrailer else Inl (MalformedTrailer line))"
      by (subst trailerLoop.simps) (use False in \<open>auto simp: rl cut Let_def\<close>)
    with "1.prems" readLine_br [OF rl] show ?thesis by (simp split: if_splits)
  next
    case True
    then have go: "trailerLoop c tr cn ts =
        (if ?name = ''x-amz-trailer-signature'' then trailerLoop c1 tr cn (strings_TrimSpace val)
         else trailerLoop c1 (Header_Set ?name (strings_TrimSpace val) tr)
                (cn @ ?name @ '':'' @ strings_TrimSpace val @ nl) ts)"
      by (subst trailerLoop.simps) (simp add: rl cut Let_def)
    have "length (ch_br c') \<le> length (ch_br c1)"
    proof (cases "?name = ''x-amz-trailer-signature''")
      case name: True
      show ?thesis
        by (rule "1.IH"(1) [OF rl [symmetric] refl _ _ cut [symmetric] refl _ refl refl name])
          (use True "1.prems" go name in simp_all)
    next
      case name: False
      show ?thesis
        by (rule "1.IH"(2) [OF rl [symmetric] refl _ _ cut [symmetric] refl _ refl refl name])
          (use True "1.prems" go name in simp_all)
    qed
    then show ?thesis using readLine_br [OF rl] by simp
  qed
qed

lemma readTrailer_br: "readTrailer cr c = Inr c' \<Longrightarrow> length (ch_br c') \<le> length (ch_br c)"
  by (auto simp: readTrailer_def dest!: trailerLoop_br split: sum.splits option.splits if_splits)

lemma advance_br: "advance cr c = Inr c' \<Longrightarrow> length (ch_br c') \<le> length (ch_br c)"
  by (auto simp: advance_def Let_def dest!: readTrailer_br readLine_br
        split: prod.splits if_splits option.splits sum.splits)

lemma finishChunk_br: "finishChunk cr c = Inr c' \<Longrightarrow> length (ch_br c') \<le> length (ch_br c)"
  by (auto simp: finishChunk_def expectCRLF_def dest!: readLine_br split: prod.splits if_splits option.splits sum.splits)

lemma gotData_br:
  assumes "p \<noteq> []" and "ch_br c \<noteq> []"
  shows "length (ch_br (gotData cr p c)) < length (ch_br c)"
proof -
  have "length (ch_br (tookData p c)) < length (ch_br c)"
    using assms by (cases "ch_br c"; cases p) (simp_all add: tookData_def)
  then show ?thesis
    using finishChunk_br [of cr "tookData p c"] by (auto simp: gotData_def Let_def split: sum.splits)
qed

lemma readData_br:
  assumes "readData cr k c = (ReadData p, c')"
  shows "length (ch_br c') < length (ch_br c)"
proof -
  define q where "q = take (min (max 1 k) (nat (ch_remaining c))) (ch_br c)"
  from assms have "q \<noteq> []" "c' = gotData cr q c"
    unfolding readData_def q_def [symmetric] Let_def by (auto split: if_splits)
  then show ?thesis
    using gotData_br [of q c cr] by (auto simp: q_def)
qed

lemma Read_br: "Read cr k c = (ReadData p, c') \<Longrightarrow> length (ch_br c') < length (ch_br c)"
  by (auto simp: Read_def dest!: readData_br advance_br split: if_splits sum.splits option.splits)

text \<open>
  Draining a reader, as \<open>io.Copy\<close> and the upload do: \<open>ks\<close> gives how much each call delivers.
  The result is the payload, the error and the trailing headers.
\<close>

function readAll :: "crypto \<Rightarrow> (nat \<Rightarrow> nat) \<Rightarrow> nat \<Rightarrow> ChunkedReader \<Rightarrow> string \<times> chunk_error option \<times> http_header" where
  "readAll cr ks i c =
     (case Read cr (ks i) c of
        (ReadData p, c') \<Rightarrow> (case readAll cr ks (Suc i) c' of (q, res) \<Rightarrow> (p @ q, res))
      | (ReadEOF, c') \<Rightarrow> ([], None, ch_trailer c')
      | (ReadErr e, c') \<Rightarrow> ([], Some e, ch_trailer c'))"
  by pat_completeness auto
termination
  apply (relation "measure (\<lambda>(_, _, _, c). length (ch_br c))")
   apply simp
  apply (simp only: in_measure split_conv)
  subgoal for cr ks i c x y p by (rule Read_br [of cr "ks i" c p y]) simp
  done

declare readAll.simps [simp del]

section \<open>Decoding chunk by chunk\<close>

text \<open>
  The reference decoder takes a whole chunk at a time; the reader that is drained in pieces
  of any size delivers the same payload, error and trailers.
\<close>

function decodeChunks :: "crypto \<Rightarrow> ChunkedReader \<Rightarrow> string \<times> chunk_error option \<times> http_header" where
  "decodeChunks cr c =
     (case advance cr c of
        Inl e \<Rightarrow> ([], Some e, ch_trailer c)
      | Inr c1 \<Rightarrow>
          if ch_done c1 then ([], None, ch_trailer c1)
          else if ch_remaining c1 \<le> 0 \<or> int (length (ch_br c1)) < ch_remaining c1 then
            (ch_br c1, Some TruncatedData, ch_trailer c1)
          else
            (let p = take (nat (ch_remaining c1)) (ch_br c1); c2 = tookData p c1 in
             case finishChunk cr c2 of
               Inl e \<Rightarrow> (p, Some e, ch_trailer c2)
             | Inr c3 \<Rightarrow> (case decodeChunks cr c3 of (q, res) \<Rightarrow> (p @ q, res))))"
  by pat_completeness auto
termination
proof (relation "measure (\<lambda>(_, c). length (ch_br c))")
  fix cr c c1 p c2 c3
  assume a: "advance cr c = Inr c1" "\<not> ch_done c1"
    and r: "\<not> (ch_remaining c1 \<le> 0 \<or> int (length (ch_br c1)) < ch_remaining c1)"
    and p: "p = take (nat (ch_remaining c1)) (ch_br c1)" "c2 = tookData p c1" and f: "finishChunk cr c2 = Inr c3"
  from r p have "length (ch_br c2) < length (ch_br c1)" by (auto simp: tookData_def)
  with advance_br [OF a(1)] finishChunk_br [OF f] show "((cr, c3), cr, c) \<in> measure (\<lambda>(_, c). length (ch_br c))"
    by simp
qed simp

declare decodeChunks.simps [simp del]

lemma readLine_fields:
  assumes "readLine c = (line, err, c')"
  shows "c' = c\<lparr>ch_br := ch_br c'\<rparr>"
  using assms by (auto simp: readLine_def split: prod.splits)

lemma trailerLoop_fields:
  assumes "trailerLoop c tr cn ts = Inr (tr', cn', ts', c')"
  shows "c' = c\<lparr>ch_br := ch_br c'\<rparr>"
  using assms
proof (induction c tr cn ts rule: trailerLoop.induct)
  case (1 c tr cn ts)
  obtain line err c1 where rl: "readLine c = (line, err, c1)" by (cases "readLine c") auto
  obtain name val ok where cut: "strings_Cut line '':'' = (name, val, ok)" by (cases "strings_Cut line '':''") auto
  note IH = "1.IH" [OF rl [symmetric] refl _ _ cut [symmetric] refl _ refl refl]
  have c1: "c1 = c\<lparr>ch_br := ch_br c1\<rparr>" by (rule readLine_fields [OF rl])
  have "c1 = c' \<or> c' = c1\<lparr>ch_br := ch_br c'\<rparr>"
    using "1.prems" IH by (subst (asm) trailerLoop.simps) (simp add: rl cut Let_def split: if_splits)
  then show ?case using c1 by (metis ChunkedReader.surjective ChunkedReader.update_convs(1))
qed

lemma readTrailer_fields:
  assumes "readTrailer cr c = Inr c'"
  shows "ch_err c' = ch_err c \<and> ch_done c' \<and> ch_remaining c' = ch_remaining c"
proof -
  obtain tr cn ts c0 where tl: "trailerLoop c [] [] [] = Inr (tr, cn, ts, c0)"
    using assms by (auto simp: readTrailer_def split: sum.splits)
  obtain b where c0: "c0 = c\<lparr>ch_br := b\<rparr>" using trailerLoop_fields [OF tl] by metis
  show ?thesis using assms by (auto simp: readTrailer_def tl c0 split: option.splits if_splits)
qed

text \<open>What \<open>advance\<close> leaves unchanged, and that it delivers a chunk or the end.\<close>

lemma advance_next:
  assumes "advance cr c = Inr c'"
  shows "ch_err c' = ch_err c" and "\<not> ch_done c' \<Longrightarrow> 0 < ch_remaining c'"
proof -
  obtain line err c0 where rl: "readLine c = (line, err, c0)" by (cases "readLine c") auto
  obtain sizeStr sig f where cut: "strings_Cut line '';'' = (sizeStr, sig, f)" by (cases "strings_Cut line '';''") auto
  from readLine_fields [OF rl] have e: "ch_err c0 = ch_err c" by (metis ChunkedReader.ext_inject ChunkedReader.surjective ChunkedReader.update_convs(1))
  show "ch_err c' = ch_err c"
    using assms e by (auto simp: advance_def rl cut Let_def dest!: readTrailer_fields split: if_splits option.splits sum.splits)
  show "\<not> ch_done c' \<Longrightarrow> 0 < ch_remaining c'"
    using assms by (auto simp: advance_def rl cut Let_def dest!: readTrailer_fields split: if_splits option.splits sum.splits)
qed

lemma take_append_take: "take n xs @ take m (drop n xs) = take (n + m) xs"
  by (simp add: take_add)

lemma tookData_tookData:
  "tookData q (tookData p c) = tookData (p @ q) c"
  by (cases "ch_chunkHash c") (simp_all add: tookData_def algebra_simps)

lemma finishChunk_fields:
  assumes "finishChunk cr c = Inr c'"
  shows "ch_err c' = ch_err c \<and> ch_done c' = ch_done c \<and> ch_remaining c' = ch_remaining c \<and> ch_trailer c' = ch_trailer c"
proof -
  obtain line err c0 where rl: "readLine c = (line, err, c0)" by (cases "readLine c") auto
  obtain b where "c0 = c\<lparr>ch_br := b\<rparr>" using readLine_fields [OF rl] by metis
  then show ?thesis
    using assms by (auto simp: finishChunk_def expectCRLF_def rl split: if_splits option.splits sum.splits)
qed

text \<open>Reading within a chunk: the pieces add up to the rest of the chunk.\<close>

lemma readAll_data:
  assumes "ch_err c = None" and "\<not> ch_done c" and "0 < ch_remaining c"
  shows "\<exists>j. readAll cr ks i c =
    (if int (length (ch_br c)) < ch_remaining c then (ch_br c, Some TruncatedData, ch_trailer c)
     else let p = take (nat (ch_remaining c)) (ch_br c) in
       case finishChunk cr (tookData p c) of
         Inl e \<Rightarrow> (p, Some e, ch_trailer c)
       | Inr c3 \<Rightarrow> (case readAll cr ks j c3 of (q, res) \<Rightarrow> (p @ q, res)))"
  using assms
proof (induction "length (ch_br c)" arbitrary: c i rule: less_induct)
  case less
  define p where "p = take (min (max 1 (ks i)) (nat (ch_remaining c))) (ch_br c)"
  let ?r = "nat (ch_remaining c)"
  have rd: "Read cr (ks i) c = (if p = [] then (ReadErr TruncatedData, c\<lparr>ch_err := Some TruncatedData\<rparr>)
      else (ReadData p, gotData cr p c))"
    unfolding Read_def readData_def p_def [symmetric] Let_def using less.prems by simp
  have lenp: "length p = min (min (max 1 (ks i)) ?r) (length (ch_br c))" by (simp add: p_def min.commute)
  have ptake: "p = take (length p) (ch_br c)" and plen: "length p \<le> length (ch_br c)"
    by (simp_all add: p_def min_def)
  show ?case
  proof (cases "p = []")
    case True
    then have "ch_br c = []" using less.prems lenp by (auto simp: min_def split: if_splits)
    then show ?thesis using less.prems True by (subst readAll.simps) (simp add: rd)
  next
    case False
    have step: "readAll cr ks i c = (case readAll cr ks (Suc i) (gotData cr p c) of (q, res) \<Rightarrow> (p @ q, res))"
      using False by (subst readAll.simps) (simp add: rd)
    have ple: "int (length p) \<le> ch_recv" if "ch_recv = ch_remaining c" for ch_recv
      using that less.prems lenp by simp
    show ?thesis
    proof (cases "int (length p) = ch_remaining c")
      case True
      then have p: "p = take ?r (ch_br c)" "\<not> int (length (ch_br c)) < ch_remaining c"
        using ptake plen by (metis nat_int, linarith)
      have "ch_remaining (tookData p c) = 0" using True by (simp add: tookData_def)
      then have got: "gotData cr p c = (case finishChunk cr (tookData p c) of
          Inl e \<Rightarrow> (tookData p c)\<lparr>ch_err := Some e\<rparr> | Inr c \<Rightarrow> c)"
        by (simp add: gotData_def Let_def)
      show ?thesis
      proof (cases "finishChunk cr (tookData p c)")
        case (Inl e)
        then have "readAll cr ks (Suc i) (gotData cr p c) = ([], Some e, ch_trailer c)"
          by (subst readAll.simps) (simp add: got Read_def tookData_def)
        then show ?thesis using step p Inl by simp
      next
        case (Inr c3)
        then show ?thesis using step p got by (auto intro!: exI [of _ "Suc i"])
      qed
    next
      case False
      have got: "gotData cr p c = tookData p c"
        using False by (simp add: gotData_def tookData_def)
      let ?c = "tookData p c"
      have "length (ch_br ?c) < length (ch_br c)"
        using gotData_br [of p c cr] \<open>p \<noteq> []\<close> got by (auto simp: p_def)
      moreover have "0 < ch_remaining ?c" using False ple [OF refl] by (simp add: tookData_def)
      ultimately obtain j where IH: "readAll cr ks (Suc i) ?c =
        (if int (length (ch_br ?c)) < ch_remaining ?c then (ch_br ?c, Some TruncatedData, ch_trailer ?c)
         else let p = take (nat (ch_remaining ?c)) (ch_br ?c) in
           case finishChunk cr (tookData p ?c) of
             Inl e \<Rightarrow> (p, Some e, ch_trailer ?c)
           | Inr c3 \<Rightarrow> (case readAll cr ks j c3 of (q, res) \<Rightarrow> (p @ q, res)))"
        using less.hyps [of ?c "Suc i"] less.prems by (auto simp: tookData_def)
      have br: "ch_br c = p @ ch_br ?c" and tr: "ch_trailer ?c = ch_trailer c"
        and rem: "ch_remaining ?c = ch_remaining c - int (length p)"
        by (simp_all add: tookData_def p_def min_def)
      have pq: "p @ take (nat (ch_remaining ?c)) (ch_br ?c) = take ?r (ch_br c)"
        using ple [OF refl] by (simp add: br rem nat_diff_distrib)
      have cnd: "int (length (ch_br ?c)) < ch_remaining ?c \<longleftrightarrow> int (length (ch_br c)) < ch_remaining c"
        using arg_cong [OF br, of length] by (simp add: rem) linarith
      show ?thesis
        unfolding step got IH Let_def tookData_tookData pq cnd tr
        by (rule exI [of _ j]) (simp add: br [symmetric] pq [symmetric] split: sum.split prod.split)
    qed
  qed
qed

lemma readAll_decode:
  assumes "ch_err c = None" and "\<not> ch_done c" and "ch_remaining c = 0"
  shows "readAll cr ks i c = decodeChunks cr c"
  using assms
proof (induction cr c arbitrary: i rule: decodeChunks.induct)
  case (1 cr c)
  show ?case
  proof (cases "advance cr c")
    case (Inl e)
    then show ?thesis
      using "1.prems" by (subst readAll.simps, subst decodeChunks.simps) (simp add: Read_def)
  next
    case (Inr c1)
    note next1 = advance_next [OF Inr]
    show ?thesis
    proof (cases "ch_done c1")
      case True
      then show ?thesis
        using "1.prems" Inr by (subst readAll.simps, subst decodeChunks.simps) (simp add: Read_def)
    next
      case False
      have same: "Read cr k c = Read cr k c1" for k
        using "1.prems" Inr False next1 by (simp add: Read_def)
      have "readAll cr ks i c = readAll cr ks i c1"
        by (subst (1 2) readAll.simps) (simp add: same)
      moreover obtain j where "readAll cr ks i c1 =
        (if int (length (ch_br c1)) < ch_remaining c1 then (ch_br c1, Some TruncatedData, ch_trailer c1)
         else let p = take (nat (ch_remaining c1)) (ch_br c1) in
           case finishChunk cr (tookData p c1) of
             Inl e \<Rightarrow> (p, Some e, ch_trailer c1)
           | Inr c3 \<Rightarrow> (case readAll cr ks j c3 of (q, res) \<Rightarrow> (p @ q, res)))"
        using readAll_data [of c1 cr ks i] next1 False "1.prems" by auto
      ultimately have eq: "readAll cr ks i c =
        (if int (length (ch_br c1)) < ch_remaining c1 then (ch_br c1, Some TruncatedData, ch_trailer c1)
         else let p = take (nat (ch_remaining c1)) (ch_br c1) in
           case finishChunk cr (tookData p c1) of
             Inl e \<Rightarrow> (p, Some e, ch_trailer c1)
           | Inr c3 \<Rightarrow> (case readAll cr ks j c3 of (q, res) \<Rightarrow> (p @ q, res)))" by simp
      show ?thesis
      proof (cases "int (length (ch_br c1)) < ch_remaining c1")
        case True
        then show ?thesis unfolding eq by (subst decodeChunks.simps) (simp add: Inr False)
      next
        case long: False
        let ?p = "take (nat (ch_remaining c1)) (ch_br c1)"
        have t: "ch_err (tookData ?p c1) = None" "\<not> ch_done (tookData ?p c1)" "ch_remaining (tookData ?p c1) = 0"
          "ch_trailer (tookData ?p c1) = ch_trailer c1"
          using False next1 "1.prems" long by (auto simp: tookData_def)
        show ?thesis
        proof (cases "finishChunk cr (tookData ?p c1)")
          case (Inl e)
          then show ?thesis
            unfolding eq using long next1 False t by (subst decodeChunks.simps) (simp add: Inr Let_def)
        next
          case (Inr c3)
          have "readAll cr ks j c3 = decodeChunks cr c3"
            by (rule "1.IH" [OF \<open>advance cr c = Inr c1\<close> False _ refl refl Inr])
              (use long next1 False t finishChunk_fields [OF Inr] in auto)
          then show ?thesis
            unfolding eq using long next1 False Inr
            by (subst decodeChunks.simps) (simp add: \<open>advance cr c = Inr c1\<close> Let_def)
        qed
      qed
    qed
  qed
qed

section \<open>The encoder\<close>

text \<open>
  What a client sends: each chunk with its size in hexadecimal and, when the payload is
  signed, its signature; an empty chunk; the trailing headers, signed when the payload type
  says so; an empty line.
\<close>

fun show_hex :: "nat \<Rightarrow> string" where
  "show_hex n = (if n < 16 then [hex_digit n] else show_hex (n div 16) @ [hex_digit (n mod 16)])"

declare show_hex.simps [simp del]

definition crlf :: string where "crlf = [CR, LF]"

definition chunkHeader :: "nat \<Rightarrow> string option \<Rightarrow> string" where
  "chunkHeader n sig = show_hex n @ (case sig of None \<Rightarrow> [] | Some g \<Rightarrow> '';chunk-signature='' @ g) @ crlf"

definition signChunk :: "crypto \<Rightarrow> StreamContext option \<Rightarrow> string \<Rightarrow> string option" where
  "signChunk cr sc payloadSHA = map_option (\<lambda>s. chunkSignature cr s payloadSHA) sc"

definition nextContext :: "crypto \<Rightarrow> StreamContext option \<Rightarrow> string \<Rightarrow> StreamContext option" where
  "nextContext cr sc payloadSHA = map_option (\<lambda>s. s\<lparr>sc_prevSig := chunkSignature cr s payloadSHA\<rparr>) sc"

definition hexSHA :: "crypto \<Rightarrow> string \<Rightarrow> string" where
  "hexSHA cr d = hex_EncodeToString (sha256_Sum256 cr d)"

definition trailerLine :: "string \<times> string \<Rightarrow> string" where
  "trailerLine t = fst t @ '':'' @ snd t"

definition canonicalTrailer :: "(string \<times> string) list \<Rightarrow> string" where
  "canonicalTrailer ts = concat (map (\<lambda>t. trailerLine t @ nl) ts)"

definition encodeTrailer :: "crypto \<Rightarrow> StreamContext option \<Rightarrow> (string \<times> string) list \<Rightarrow> string" where
  "encodeTrailer cr sc ts =
     concat (map (\<lambda>t. trailerLine t @ crlf) ts) @
     (case sc of
        Some s \<Rightarrow> if sc_trailerSigned s
                  then ''x-amz-trailer-signature:'' @ trailerSignature cr s (hexSHA cr (canonicalTrailer ts)) @ crlf
                  else []
      | None \<Rightarrow> []) @ crlf"

fun encodeBody :: "crypto \<Rightarrow> StreamContext option \<Rightarrow> string list \<Rightarrow> (string \<times> string) list \<Rightarrow> string" where
  "encodeBody cr sc [] ts =
     chunkHeader 0 (signChunk cr sc emptySHA256) @ encodeTrailer cr (nextContext cr sc emptySHA256) ts"
| "encodeBody cr sc (d # ds) ts =
     chunkHeader (length d) (signChunk cr sc (hexSHA cr d)) @ d @ crlf @
     encodeBody cr (nextContext cr sc (hexSHA cr d)) ds ts"

text \<open>The trailers a header line can carry: trimmed, a lower-case name without a colon, no line ends.\<close>

definition plainTrailer :: "string \<times> string \<Rightarrow> bool" where
  "plainTrailer t \<longleftrightarrow> strings_ToLower (strings_TrimSpace (fst t)) = fst t \<and> strings_TrimSpace (snd t) = snd t \<and>
     set (fst t) \<inter> {CR, LF, CHR '':''} = {} \<and> set (snd t) \<inter> {CR, LF} = {} \<and> fst t \<noteq> ''x-amz-trailer-signature''"

lemma readLine_line:
  assumes "set line \<inter> {CR, LF} = {}" and "ch_br c = line @ crlf @ rest"
  shows "readLine c = (line, None, c\<lparr>ch_br := rest\<rparr>)"
proof -
  have "LF \<noteq> CR" by (simp add: CR_def LF_def)
  have nl: "\<And>x. x \<in> set (line @ [CR]) \<Longrightarrow> x \<noteq> LF" using assms(1) \<open>LF \<noteq> CR\<close> by auto
  have br: "ch_br c = (line @ [CR]) @ LF # rest" by (simp add: assms(2) crlf_def)
  have "bufio_ReadString (ch_br c) = (line @ [CR] @ [LF], True, rest)"
    unfolding bufio_ReadString_def br Let_def
    by (subst takeWhile_append2, use nl in blast, subst dropWhile_append2, use nl in blast) simp
  moreover have "trimCRLF (line @ [CR] @ [LF]) = line"
    using assms(1) by (cases line rule: rev_cases) (auto simp: trimCRLF_def)
  ultimately show ?thesis by (simp add: readLine_def)
qed

lemma show_hex_not_Nil [simp]: "show_hex n \<noteq> []"
  by (subst show_hex.simps) simp

definition is_hex :: "char \<Rightarrow> bool" where
  "is_hex c \<longleftrightarrow> (let n = of_char c :: nat in 48 \<le> n \<and> n \<le> 57 \<or> 97 \<le> n \<and> n \<le> 102)"

lemma is_hex_digit [simp]: "d < 16 \<Longrightarrow> is_hex (hex_digit d)"
  by (auto simp: is_hex_def hex_digit_def Let_def)

lemma not_hex [simp]:
  "\<not> is_hex CR" "\<not> is_hex LF" "\<not> is_hex CHR '';''" "\<not> is_hex CHR ''+''" "\<not> is_hex CHR ''-''" "\<not> is_hex CHR '' ''"
  by (simp_all add: is_hex_def CR_def LF_def)

lemma show_hex_chars: "list_all is_hex (show_hex n)"
proof (induction n rule: show_hex.induct)
  case (1 n)
  then show ?case by (subst show_hex.simps) (auto simp: list_all_append)
qed

lemma hex_Encode_hex: "list_all is_hex (hex_EncodeToString s)"
  by (induction s) (auto simp: Let_def byte_bounds)

lemma list_all_not_in: "list_all P xs \<Longrightarrow> \<not> P c \<Longrightarrow> c \<notin> set xs"
  by (auto simp: list_all_iff)

lemma parse_digits_show_hex: "parse_digits 16 0 (show_hex n) = Some (int n)"
proof (induction n rule: show_hex.induct)
  case (1 n)
  show ?case
  proof (cases "n < 16")
    case True
    then show ?thesis by (simp add: show_hex.simps [of n] digit_val_hex_digit)
  next
    case False
    then show ?thesis
      using "1.IH" div_mult_mod_eq [of "int n" 16]
      by (simp add: show_hex.simps [of n] parse_digits_append digit_val_hex_digit zdiv_int zmod_int)
  qed
qed

lemma ParseInt_show_hex: "n < 2 ^ 63 \<Longrightarrow> strconv_ParseInt 16 (show_hex n) = Some (int n)"
proof -
  assume "n < 2 ^ 63"
  moreover have "\<not> HasPrefix (show_hex n) ''-''" "\<not> HasPrefix (show_hex n) ''+''"
    using show_hex_chars [of n] by (cases "show_hex n"; auto simp: HasPrefix_def)+
  ultimately show ?thesis
    by (simp add: strconv_ParseInt_def parse_digits_show_hex in_int64_def)
qed

definition sigText :: "string option \<Rightarrow> string" where
  "sigText sig = (case sig of None \<Rightarrow> [] | Some g \<Rightarrow> g)"

lemma header_cut:
  "strings_Cut (show_hex n @ (case sig of None \<Rightarrow> [] | Some g \<Rightarrow> '';chunk-signature='' @ g)) '';'' =
     (show_hex n, case sig of None \<Rightarrow> [] | Some g \<Rightarrow> ''chunk-signature='' @ g, sig \<noteq> None)"
proof (cases sig)
  case None
  have "CHR '';'' \<notin> set (show_hex n)" using show_hex_chars by (rule list_all_not_in) simp
  then show ?thesis using None by (simp add: strings_Cut_def flip: strings_Index_char)
next
  case (Some g)
  have "CHR '';'' \<notin> set (show_hex n)" using show_hex_chars by (rule list_all_not_in) simp
  from strings_Cut_char_append [OF this, of "''chunk-signature='' @ g"] Some show ?thesis by simp
qed

lemma TrimPrefix_append [simp]: "strings_TrimPrefix (p @ s) p = s"
  by (simp add: strings_TrimPrefix_def HasPrefix_def)

lemma signChunk_hex: "signChunk cr sc h = Some g \<Longrightarrow> list_all is_hex g"
  by (auto simp: signChunk_def chunkSignature_def hex_Encode_hex)

lemma header_line:
  assumes "signChunk cr sc h = sig" and "ch_br c = chunkHeader n sig @ rest"
  shows "readLine c =
    (show_hex n @ (case sig of None \<Rightarrow> [] | Some g \<Rightarrow> '';chunk-signature='' @ g), None, c\<lparr>ch_br := rest\<rparr>)"
proof (rule readLine_line)
  show "ch_br c = (show_hex n @ (case sig of None \<Rightarrow> [] | Some g \<Rightarrow> '';chunk-signature='' @ g)) @ crlf @ rest"
    by (simp add: assms(2) chunkHeader_def)
  have "CR \<notin> set (show_hex n)" "LF \<notin> set (show_hex n)"
    using list_all_not_in [OF show_hex_chars] by simp_all
  moreover have "CR \<notin> set g \<and> LF \<notin> set g" if "sig = Some g" for g
    using list_all_not_in [OF signChunk_hex] assms(1) that by simp
  moreover have "CR \<notin> set '';chunk-signature=''" "LF \<notin> set '';chunk-signature=''" by (simp_all add: CR_def LF_def)
  ultimately show "set (show_hex n @ (case sig of None \<Rightarrow> [] | Some g \<Rightarrow> '';chunk-signature='' @ g)) \<inter> {CR, LF} = {}"
    by (cases sig) (simp_all add: CR_def LF_def)
qed

text \<open>
  A MAC is never empty: \<open>hmac.Sum\<close> of SHA-256 has 32 bytes. The reader refuses an empty
  chunk signature of a signed payload before it compares.
\<close>

definition mac_nonempty :: "crypto \<Rightarrow> bool" where
  "mac_nonempty cr \<longleftrightarrow> (\<forall>k m. hmacSHA256 cr k m \<noteq> [])"

lemma chunkSignature_not_Nil: "mac_nonempty cr \<Longrightarrow> chunkSignature cr s h \<noteq> []"
  using length_hex_Encode [of "hmacSHA256 cr (sc_signingKey s) _"]
  by (auto simp: mac_nonempty_def chunkSignature_def simp del: length_hex_Encode dest: arg_cong [of _ _ length])

lemma ToLower_chunkSignature: "strings_ToLower (chunkSignature cr s h) = chunkSignature cr s h"
  by (simp add: chunkSignature_def strings_ToLower_hex)

lemma advance_chunk:
  assumes "mac_nonempty cr" and "0 < n" and "n < 2 ^ 63"
    and br: "ch_br c = chunkHeader n (signChunk cr (ch_stream c) h) @ rest"
  shows "advance cr c = Inr (c\<lparr>ch_br := rest, ch_chunkSig := sigText (signChunk cr (ch_stream c) h),
    ch_remaining := int n, ch_chunkHash := (if ch_stream c = None then ch_chunkHash c else Some [])\<rparr>)"
  using assms(1-3) unfolding advance_def header_line [OF refl br] split_conv header_cut
  by (cases "ch_stream c")
    (simp_all add: ParseInt_show_hex sigText_def Let_def signChunk_def chunkSignature_not_Nil strings_TrimPrefix_def HasPrefix_def)

lemma advance_last:
  assumes "mac_nonempty cr" and br: "ch_br c = chunkHeader 0 (signChunk cr (ch_stream c) emptySHA256) @ rest"
  shows "advance cr c = readTrailer cr (c\<lparr>ch_br := rest, ch_chunkSig := sigText (signChunk cr (ch_stream c) emptySHA256),
    ch_stream := nextContext cr (ch_stream c) emptySHA256\<rparr>)"
proof (cases "ch_stream c")
  case None
  then have "c\<lparr>ch_br := rest, ch_chunkSig := [], ch_stream := None\<rparr> = c\<lparr>ch_br := rest, ch_chunkSig := []\<rparr>"
    by (cases c) simp
  then have same: "readTrailer cr (c\<lparr>ch_br := rest, ch_chunkSig := [], ch_stream := None\<rparr>) =
      readTrailer cr (c\<lparr>ch_br := rest, ch_chunkSig := []\<rparr>)" by (rule arg_cong)
  show ?thesis
    unfolding advance_def header_line [OF refl br] split_conv header_cut
    by (simp add: None ParseInt_show_hex sigText_def Let_def signChunk_def nextContext_def
        strings_TrimPrefix_def HasPrefix_def same)
next
  case (Some s)
  with assms(1) show ?thesis
    unfolding advance_def header_line [OF refl br] split_conv header_cut
    by (simp add: ParseInt_show_hex sigText_def Let_def signChunk_def nextContext_def verifyChunk_def
      chunkSignature_not_Nil ToLower_chunkSignature strings_TrimPrefix_def HasPrefix_def)
qed

lemma finish_encoded:
  assumes "ch_br c = crlf @ rest" and "ch_chunkSig c = sigText (signChunk cr (ch_stream c) (hexSHA cr d))"
    and "ch_stream c \<noteq> None \<longrightarrow> ch_chunkHash c = Some d"
  shows "finishChunk cr c = Inr (c\<lparr>ch_br := rest, ch_stream := nextContext cr (ch_stream c) (hexSHA cr d),
    ch_chunkHash := (if ch_stream c = None then ch_chunkHash c else None)\<rparr>)"
  using assms readLine_line [of "[]" c rest]
  by (auto simp: finishChunk_def expectCRLF_def verifyChunk_def sigText_def signChunk_def nextContext_def hexSHA_def
      chunkSignature_def strings_ToLower_hex split: option.splits)

definition setTrailers :: "(string \<times> string) list \<Rightarrow> http_header \<Rightarrow> http_header" where
  "setTrailers ts h = foldl (\<lambda>h t. Header_Set (fst t) (snd t) h) h ts"

lemma trailerLoop_line:
  assumes "set line \<inter> {CR, LF} = {}" and "line = name @ '':'' @ val" and "CHR '':'' \<notin> set name"
    and "ch_br c = line @ crlf @ rest"
  shows "trailerLoop c tr cn sg =
    (let name = strings_ToLower (strings_TrimSpace name); val = strings_TrimSpace val; c = c\<lparr>ch_br := rest\<rparr> in
     if name = ''x-amz-trailer-signature'' then trailerLoop c tr cn val
     else trailerLoop c (Header_Set name val tr) (cn @ name @ '':'' @ val @ nl) sg)"
proof -
  have "strings_Cut line '':'' = (name, val, True)"
    using strings_Cut_char_append [OF assms(3), of val] assms(2) by simp
  moreover have "line \<noteq> []" using assms(2) by simp
  ultimately show ?thesis
    by (subst trailerLoop.simps) (simp add: readLine_line [OF assms(1,4)] Let_def)
qed

lemma trailerLoop_encoded:
  "list_all plainTrailer ts \<Longrightarrow> ch_br c = concat (map (\<lambda>t. trailerLine t @ crlf) ts) @ rest \<Longrightarrow>
   trailerLoop c tr cn sg = trailerLoop (c\<lparr>ch_br := rest\<rparr>) (setTrailers ts tr) (cn @ canonicalTrailer ts) sg"
proof (induction ts arbitrary: c tr cn)
  case Nil
  have c: "c\<lparr>ch_br := rest\<rparr> = c" using Nil(2) by (cases c) simp
  show ?case unfolding c by (simp add: setTrailers_def canonicalTrailer_def)
next
  case (Cons t ts)
  let ?rest = "concat (map (\<lambda>t. trailerLine t @ crlf) ts) @ rest"
  from Cons.prems(1) have t: "plainTrailer t" and ts: "list_all plainTrailer ts" by simp_all
  have plain: "set (trailerLine t) \<inter> {CR, LF} = {}"
    using t by (auto simp: plainTrailer_def trailerLine_def CR_def LF_def)
  have "CHR '':'' \<notin> set (fst t)" using t by (auto simp: plainTrailer_def)
  from trailerLoop_line [OF plain trailerLine_def this, of c ?rest tr cn sg] Cons.prems(2) t
  have "trailerLoop c tr cn sg =
      trailerLoop (c\<lparr>ch_br := ?rest\<rparr>) (Header_Set (fst t) (snd t) tr) (cn @ trailerLine t @ nl) sg"
    by (simp add: plainTrailer_def Let_def trailerLine_def)
  also have "\<dots> = trailerLoop (c\<lparr>ch_br := rest\<rparr>) (setTrailers (t # ts) tr) (cn @ canonicalTrailer (t # ts)) sg"
    using Cons.IH [OF ts, of "c\<lparr>ch_br := ?rest\<rparr>"] by (simp add: setTrailers_def canonicalTrailer_def)
  finally show ?case .
qed

lemma trailerLoop_blank:
  "ch_br c = crlf \<Longrightarrow> trailerLoop c tr cn sg = Inr (tr, cn, sg, c\<lparr>ch_br := []\<rparr>)"
  using readLine_line [of "[]" c "[]"] by (subst trailerLoop.simps) simp

lemma ToLower_trailerSignature: "strings_ToLower (trailerSignature cr s h) = trailerSignature cr s h"
  by (simp add: trailerSignature_def strings_ToLower_hex)

lemma trailerSignature_trim: "strings_TrimSpace (trailerSignature cr s h) = trailerSignature cr s h"
proof (cases "trailerSignature cr s h = []")
  case False
  have "\<not> go_space c" if "c \<in> set (trailerSignature cr s h)" for c
    using that hex_Encode_chars by (auto simp: trailerSignature_def)
  with False show ?thesis by (intro TrimSpace_id) simp_all
qed (simp add: strings_TrimSpace_def strings_TrimFunc_def)

lemma readTrailer_encoded:
  assumes ts: "list_all plainTrailer ts" and br: "ch_br c = encodeTrailer cr (ch_stream c) ts"
  shows "\<exists>c'. readTrailer cr c = Inr c' \<and> ch_done c' \<and> ch_trailer c' = setTrailers ts []"
proof (cases "\<exists>s. ch_stream c = Some s \<and> sc_trailerSigned s")
  case True
  then obtain s where s: "ch_stream c = Some s" "sc_trailerSigned s" by blast
  let ?sig = "trailerSignature cr s (hexSHA cr (canonicalTrailer ts))"
  let ?line = "''x-amz-trailer-signature'' @ '':'' @ ?sig"
  have sig: "set ?sig \<inter> {CR, LF} = {}"
    using list_all_not_in [OF hex_Encode_hex] by (simp add: trailerSignature_def)
  have plain: "set ?line \<inter> {CR, LF} = {}" using sig by (simp add: CR_def LF_def)
  have name: "strings_ToLower (strings_TrimSpace ''x-amz-trailer-signature'') = ''x-amz-trailer-signature''"
    "CHR '':'' \<notin> set ''x-amz-trailer-signature''"
    by (simp_all add: strings_TrimSpace_def strings_TrimFunc_def go_space_def strings_ToLower_def char_ToLower_def)
  have "trailerLoop c [] [] [] =
      trailerLoop (c\<lparr>ch_br := ?line @ crlf @ crlf\<rparr>) (setTrailers ts []) (canonicalTrailer ts) []"
    using trailerLoop_encoded [OF ts, of c "?line @ crlf @ crlf"] br s by (simp add: encodeTrailer_def)
  also have "\<dots> = trailerLoop (c\<lparr>ch_br := crlf\<rparr>) (setTrailers ts []) (canonicalTrailer ts) ?sig"
    by (subst trailerLoop_line [OF plain refl name(2), of _ crlf])
      (simp, simp only: Let_def name(1) trailerSignature_trim simp_thms if_True, simp)
  also have "\<dots> = Inr (setTrailers ts [], canonicalTrailer ts, ?sig, c\<lparr>ch_br := []\<rparr>)"
    by (subst trailerLoop_blank) simp_all
  finally show ?thesis
    using s by (simp add: readTrailer_def hexSHA_def ToLower_trailerSignature)
next
  case False
  then have "trailerLoop c [] [] [] = Inr (setTrailers ts [], canonicalTrailer ts, [], c\<lparr>ch_br := []\<rparr>)"
    using trailerLoop_encoded [OF ts, of c crlf] br
    by (simp add: encodeTrailer_def trailerLoop_blank split: option.splits)
  with False show ?thesis
    by (auto simp: readTrailer_def split: option.splits)
qed

text \<open>Decoding what the encoder wrote, chunk by chunk.\<close>

lemma decodeChunks_encoded:
  assumes "mac_nonempty cr" and "list_all plainTrailer ts" and "\<forall>d \<in> set ds. d \<noteq> [] \<and> length d < 2 ^ 63"
    and "ch_br c = encodeBody cr (ch_stream c) ds ts" and "\<not> ch_done c"
  shows "decodeChunks cr c = (concat ds, None, setTrailers ts [])"
  using assms
proof (induction ds arbitrary: c)
  case Nil
  let ?c = "c\<lparr>ch_br := encodeTrailer cr (nextContext cr (ch_stream c) emptySHA256) ts,
    ch_chunkSig := sigText (signChunk cr (ch_stream c) emptySHA256), ch_stream := nextContext cr (ch_stream c) emptySHA256\<rparr>"
  have "advance cr c = readTrailer cr ?c"
    using advance_last [OF Nil.prems(1), of c] Nil.prems(4) by simp
  moreover obtain c' where "readTrailer cr ?c = Inr c'" "ch_done c'" "ch_trailer c' = setTrailers ts []"
    using readTrailer_encoded [OF Nil.prems(2), of ?c] by auto
  ultimately show ?case by (subst decodeChunks.simps) simp
next
  case (Cons d ds)
  let ?rest = "encodeBody cr (nextContext cr (ch_stream c) (hexSHA cr d)) ds ts"
  from Cons.prems(3) have d: "d \<noteq> []" "0 < length d" "length d < 2 ^ 63" by simp_all
  define c1 where "c1 = c\<lparr>ch_br := d @ crlf @ ?rest, ch_chunkSig := sigText (signChunk cr (ch_stream c) (hexSHA cr d)),
    ch_remaining := int (length d), ch_chunkHash := (if ch_stream c = None then ch_chunkHash c else Some [])\<rparr>"
  have adv: "advance cr c = Inr c1"
    using advance_chunk [OF Cons.prems(1) d(2,3), of c "hexSHA cr d" "d @ crlf @ ?rest"] Cons.prems(4)
    by (simp add: c1_def)
  let ?c2 = "tookData d c1"
  define c3 where "c3 = ?c2\<lparr>ch_br := ?rest, ch_stream := nextContext cr (ch_stream ?c2) (hexSHA cr d),
    ch_chunkHash := (if ch_stream ?c2 = None then ch_chunkHash ?c2 else None)\<rparr>"
  have fin: "finishChunk cr ?c2 = Inr c3"
    unfolding c3_def by (rule finish_encoded) (simp_all add: tookData_def c1_def)
  have "decodeChunks cr c3 = (concat ds, None, setTrailers ts [])"
    by (rule Cons.IH) (use Cons.prems in \<open>auto simp: c3_def tookData_def c1_def\<close>)
  moreover have "take (nat (ch_remaining c1)) (ch_br c1) = d" "\<not> ch_done c1"
    "\<not> (ch_remaining c1 \<le> 0 \<or> int (length (ch_br c1)) < ch_remaining c1)"
    using d Cons.prems(5) by (simp_all add: c1_def)
  ultimately show ?case
    using adv fin by (subst decodeChunks.simps) (simp add: Let_def)
qed

text \<open>C22. Decoding inverts encoding: a body framed by a client, signed or not, with any trailing
  headers, drained in pieces of any size, yields the client's payload, no error and the
  trailers. A MAC is assumed not to be empty.
\<close>

theorem chunked_roundtrip:
  assumes "mac_nonempty cr" and "list_all plainTrailer ts" and "\<forall>d \<in> set ds. d \<noteq> [] \<and> length d < 2 ^ 63"
  shows "readAll cr ks i (NewChunkedReader (encodeBody cr sc ds ts) srcErr sc) = (concat ds, None, setTrailers ts [])"
proof -
  let ?c = "NewChunkedReader (encodeBody cr sc ds ts) srcErr sc"
  have "readAll cr ks i ?c = decodeChunks cr ?c" by (rule readAll_decode) (simp_all add: NewChunkedReader_def)
  also have "\<dots> = (concat ds, None, setTrailers ts [])"
    by (rule decodeChunks_encoded [OF assms]) (simp_all add: NewChunkedReader_def)
  finally show ?thesis .
qed

definition demoStream :: StreamContext where
  "demoStream = \<lparr>sc_signingKey = ''k'', sc_scope = ''s'', sc_amzDate = ''d'', sc_prevSig = ''00'', sc_trailerSigned = True\<rparr>"

lemma demo_mac: "mac_nonempty demoCrypto"
  by (simp add: mac_nonempty_def demoCrypto_def)

theorem chunked_roundtrip_witness:
  "readAll demoCrypto (\<lambda>_. 2) 0 (NewChunkedReader
      (encodeBody demoCrypto (Some demoStream) [''hello'', ''s3''] [(''x-amz-checksum-crc32'', ''AA=='')]) [] (Some demoStream)) =
   (''hellos3'', None, [(''x-amz-checksum-crc32'', [''AA==''])])"
proof -
  have "list_all plainTrailer [(''x-amz-checksum-crc32'', ''AA=='')]"
    by (simp add: plainTrailer_def) code_simp
  moreover have "setTrailers [(''x-amz-checksum-crc32'', ''AA=='')] [] = [(''x-amz-checksum-crc32'', [''AA==''])]"
    by code_simp
  ultimately show ?thesis
    using chunked_roundtrip [OF demo_mac, of "[(''x-amz-checksum-crc32'', ''AA=='')]" "[''hello'', ''s3'']" "\<lambda>_. 2" 0 "Some demoStream" "[]"]
    by simp
qed

section \<open>Soundness of the signature chain\<close>

definition headerSize :: "string \<Rightarrow> int option" where
  "headerSize h = strconv_ParseInt 16 (fst (strings_Cut (trimCRLF h) '';''))"

definition headerSignature :: "string \<Rightarrow> string" where
  "headerSignature h = strings_TrimPrefix (fst (snd (strings_Cut (trimCRLF h) '';''))) ''chunk-signature=''"

text \<open>The signatures the chunks of a payload must carry, the empty last chunk included.\<close>

fun chainSignatures :: "crypto \<Rightarrow> StreamContext \<Rightarrow> string list \<Rightarrow> string list" where
  "chainSignatures cr sc [] = [chunkSignature cr sc emptySHA256]"
| "chainSignatures cr sc (d # ds) =
     (let g = chunkSignature cr sc (hexSHA cr d) in g # chainSignatures cr (sc\<lparr>sc_prevSig := g\<rparr>) ds)"

text \<open>A body made of frames (header line, data, line end), a last header and a rest.\<close>

definition frameBytes :: "string \<times> string \<times> string \<Rightarrow> string" where
  "frameBytes f = fst f @ fst (snd f) @ snd (snd f)"

definition frame_ok :: "string \<times> string \<times> string \<Rightarrow> bool" where
  "frame_ok f \<longleftrightarrow> fst (snd f) \<noteq> [] \<and> headerSize (fst f) = Some (int (length (fst (snd f)))) \<and> trimCRLF (snd (snd f)) = []"

definition signedFrames :: "crypto \<Rightarrow> StreamContext \<Rightarrow> string \<Rightarrow> (string \<times> string \<times> string) list \<Rightarrow> string \<Rightarrow> string \<Rightarrow> bool" where
  "signedFrames cr sc body fs hdr rest \<longleftrightarrow>
     body = concat (map frameBytes fs) @ hdr @ rest \<and> list_all frame_ok fs \<and> headerSize hdr = Some 0 \<and>
     map (\<lambda>h. strings_ToLower (headerSignature h)) (map fst fs @ [hdr]) =
       chainSignatures cr sc (map (\<lambda>f. fst (snd f)) fs)"

lemma readLine_split:
  assumes "readLine c = (line, err, c')"
  shows "\<exists>h. ch_br c = h @ ch_br c' \<and> line = trimCRLF h"
proof -
  obtain l f r where l: "bufio_ReadString (ch_br c) = (l, f, r)" by (cases "bufio_ReadString (ch_br c)") auto
  have "ch_br c = l @ r"
  proof (cases "dropWhile (\<lambda>c. c \<noteq> LF) (ch_br c)")
    case Nil
    with l takeWhile_dropWhile_id [of "\<lambda>c. c \<noteq> LF" "ch_br c"] show ?thesis
      unfolding bufio_ReadString_def Let_def Nil by simp
  next
    case (Cons x xs)
    with l takeWhile_dropWhile_id [of "\<lambda>c. c \<noteq> LF" "ch_br c"] show ?thesis
      unfolding bufio_ReadString_def Let_def Cons by auto
  qed
  moreover from assms l have "line = trimCRLF l" "ch_br c' = r" by (auto simp: readLine_def)
  ultimately show ?thesis by blast
qed

lemma advance_signed:
  assumes adv: "advance cr c = Inr c1" and sc: "ch_stream c = Some sc"
  obtains (chunk) h sz where "ch_br c = h @ ch_br c1" "headerSize h = Some sz" "0 < sz" "ch_remaining c1 = sz"
      "ch_chunkSig c1 = headerSignature h" "ch_stream c1 = Some sc" "ch_chunkHash c1 = Some []" "ch_done c1 = ch_done c"
    | (final) h rest where "ch_br c = h @ rest" "headerSize h = Some 0" "ch_done c1"
      "strings_ToLower (headerSignature h) = chunkSignature cr sc emptySHA256"
proof -
  obtain line err c0 where rl: "readLine c = (line, err, c0)" by (cases "readLine c") auto
  obtain sizeStr sig f where cut: "strings_Cut line '';'' = (sizeStr, sig, f)" by (cases "strings_Cut line '';''") auto
  obtain h where h: "ch_br c = h @ ch_br c0" "line = trimCRLF h" using readLine_split [OF rl] by blast
  obtain b where c0: "c0 = c\<lparr>ch_br := b\<rparr>" using readLine_fields [OF rl] by metis
  have sig: "headerSignature h = strings_TrimPrefix sig ''chunk-signature=''" by (simp add: headerSignature_def flip: h(2)) (simp add: cut)
  obtain sz where sz: "strconv_ParseInt 16 sizeStr = Some sz" "0 \<le> sz"
    using adv by (auto simp: advance_def rl cut split: if_splits option.splits)
  have hsz: "headerSize h = Some sz" using sz(1) by (simp add: headerSize_def flip: h(2)) (simp add: cut)
  let ?c = "c0\<lparr>ch_chunkSig := headerSignature h\<rparr>"
  show thesis
  proof (cases "sz = 0")
    case True
    have "\<exists>sc'. verifyChunk cr sc (headerSignature h) emptySHA256 = Inr sc' \<and> readTrailer cr (?c\<lparr>ch_stream := Some sc'\<rparr>) = Inr c1"
      using adv sz True sc unfolding advance_def rl cut split_conv sig c0 by (auto simp: Let_def split: if_splits sum.splits)
    then have "ch_done c1" "strings_ToLower (headerSignature h) = chunkSignature cr sc emptySHA256"
      by (auto simp: verifyChunk_def Let_def dest: readTrailer_fields split: if_splits)
    with True final [of h "ch_br c0"] h(1) hsz show thesis by simp
  next
    case False
    have "c1 = ?c\<lparr>ch_remaining := sz, ch_chunkHash := Some []\<rparr>"
      using adv sz False sc unfolding advance_def rl cut split_conv sig c0 by (auto simp: Let_def split: if_splits)
    with False chunk [of h sz] h(1) hsz sz(2) sc c0 show thesis by simp
  qed
qed

lemma finishChunk_signed:
  assumes fin: "finishChunk cr c = Inr c'" and sc: "ch_stream c = Some sc" and d: "ch_chunkHash c = Some d"
  shows "\<exists>t. ch_br c = t @ ch_br c' \<and> trimCRLF t = [] \<and>
    strings_ToLower (ch_chunkSig c) = chunkSignature cr sc (hexSHA cr d) \<and>
    ch_stream c' = Some (sc\<lparr>sc_prevSig := chunkSignature cr sc (hexSHA cr d)\<rparr>) \<and> ch_done c' = ch_done c"
proof -
  obtain line err c0 where rl: "readLine c = (line, err, c0)" by (cases "readLine c") auto
  obtain t where t: "ch_br c = t @ ch_br c0" "line = trimCRLF t" using readLine_split [OF rl] by blast
  obtain b where c0: "c0 = c\<lparr>ch_br := b\<rparr>" using readLine_fields [OF rl] by metis
  from fin have l: "err = None" "line = []" by (auto simp: finishChunk_def expectCRLF_def rl split: if_splits)
  obtain sc' where v: "verifyChunk cr sc (ch_chunkSig c) (hexSHA cr d) = Inr sc'"
      and c': "c' = c0\<lparr>ch_stream := Some sc', ch_chunkHash := None\<rparr>"
    using fin sc d by (auto simp: finishChunk_def expectCRLF_def rl l c0 hexSHA_def split: sum.splits)
  from v have "strings_ToLower (ch_chunkSig c) = chunkSignature cr sc (hexSHA cr d)"
    "sc' = sc\<lparr>sc_prevSig := chunkSignature cr sc (hexSHA cr d)\<rparr>"
    by (auto simp: verifyChunk_def Let_def split: if_splits)
  with t l c' c0 show ?thesis by auto
qed

lemma decodeChunks_signed:
  assumes "decodeChunks cr c = (payload, None, tr)" and "ch_stream c = Some sc" and "\<not> ch_done c"
  shows "\<exists>fs hdr rest. signedFrames cr sc (ch_br c) fs hdr rest \<and> payload = concat (map (\<lambda>f. fst (snd f)) fs)"
  using assms
proof (induction cr c arbitrary: payload sc rule: decodeChunks.induct)
  case (1 cr c)
  obtain c1 where adv: "advance cr c = Inr c1"
    using "1.prems"(1) by (subst (asm) decodeChunks.simps) (auto split: sum.splits)
  from adv "1.prems"(2) show ?case
  proof (cases rule: advance_signed)
    case (final h rest)
    with "1.prems"(1) adv have "payload = []" by (subst (asm) decodeChunks.simps) simp
    moreover have "signedFrames cr sc (ch_br c) [] h rest" using final by (simp add: signedFrames_def)
    ultimately show ?thesis by fastforce
  next
    case (chunk h sz)
    let ?p = "take (nat (ch_remaining c1)) (ch_br c1)"
    let ?c2 = "tookData ?p c1"
    have nd: "\<not> ch_done c1" using chunk "1.prems"(3) by simp
    have long: "\<not> (ch_remaining c1 \<le> 0 \<or> int (length (ch_br c1)) < ch_remaining c1)"
      using "1.prems"(1) nd adv by (subst (asm) decodeChunks.simps) (auto split: if_splits)
    obtain c3 where fin: "finishChunk cr ?c2 = Inr c3"
      using "1.prems"(1) nd adv long by (subst (asm) decodeChunks.simps) (auto simp: Let_def split: sum.splits)
    obtain q where q: "decodeChunks cr c3 = (q, None, tr)" "payload = ?p @ q"
      using "1.prems"(1) nd adv long fin by (subst (asm) decodeChunks.simps) (auto simp: Let_def split: prod.splits)
    let ?g = "chunkSignature cr sc (hexSHA cr ?p)"
    obtain t where t: "ch_br ?c2 = t @ ch_br c3" "trimCRLF t = []" "strings_ToLower (headerSignature h) = ?g"
        "ch_stream c3 = Some (sc\<lparr>sc_prevSig := ?g\<rparr>)" "\<not> ch_done c3"
      using finishChunk_signed [OF fin, of sc ?p] chunk nd by (auto simp: tookData_def)
    obtain fs hdr rest where IH: "signedFrames cr (sc\<lparr>sc_prevSig := ?g\<rparr>) (ch_br c3) fs hdr rest"
        "q = concat (map (\<lambda>f. fst (snd f)) fs)"
      using "1.IH" [OF adv nd long refl refl fin q(1) t(4,5)] by blast
    have "ch_br c1 = ?p @ ch_br ?c2" using long by (simp add: tookData_def min_def)
    moreover have "length ?p = nat sz" "?p \<noteq> []" using long chunk by auto
    ultimately have "signedFrames cr sc (ch_br c) ((h, ?p, t) # fs) hdr rest"
      using IH(1) chunk t by (simp add: signedFrames_def frameBytes_def frame_ok_def Let_def)
    with IH(2) q(2) show ?thesis by (intro exI [of _ "(h, ?p, t) # fs"]) auto
  qed
qed

text \<open>C21. A signed body is only accepted when it is a sequence of frames whose signatures are
  those of the chain that starts at the request's own signature: each is the MAC, under the
  signing key, of the signature before it and of the hash of the chunk's data, and so is the
  one of the empty last chunk. The payload delivered is the data of these frames.
\<close>

theorem chunked_sound:
  assumes "readAll cr ks i (NewChunkedReader body srcErr (Some sc)) = (payload, None, tr)"
  shows "\<exists>fs hdr rest. signedFrames cr sc body fs hdr rest \<and> payload = concat (map (\<lambda>f. fst (snd f)) fs)"
proof -
  let ?c = "NewChunkedReader body srcErr (Some sc)"
  have "readAll cr ks i ?c = decodeChunks cr ?c" by (rule readAll_decode) (simp_all add: NewChunkedReader_def)
  with assms have "decodeChunks cr ?c = (payload, None, tr)" by simp
  from decodeChunks_signed [OF this, of sc] show ?thesis by (simp add: NewChunkedReader_def)
qed

theorem chunked_sound_witness:
  "\<exists>fs hdr rest. signedFrames demoCrypto demoStream (encodeBody demoCrypto (Some demoStream) [''ab'', ''c''] []) fs hdr rest \<and>
     ''abc'' = concat (map (\<lambda>f. fst (snd f)) fs)"
proof -
  have "decodeChunks demoCrypto (NewChunkedReader (encodeBody demoCrypto (Some demoStream) [''ab'', ''c''] []) [] (Some demoStream)) =
      (''abc'', None, [])"
    using decodeChunks_encoded [OF demo_mac, of "[]" "[''ab'', ''c'']"
        "NewChunkedReader (encodeBody demoCrypto (Some demoStream) [''ab'', ''c''] []) [] (Some demoStream)"]
    by (simp add: NewChunkedReader_def setTrailers_def)
  then have "readAll demoCrypto (\<lambda>_. 1) 0 (NewChunkedReader (encodeBody demoCrypto (Some demoStream) [''ab'', ''c''] []) [] (Some demoStream)) =
      (''abc'', None, [])"
    using readAll_decode [of "NewChunkedReader (encodeBody demoCrypto (Some demoStream) [''ab'', ''c''] []) [] (Some demoStream)"]
    by (simp add: NewChunkedReader_def)
  then show ?thesis by (rule chunked_sound)
qed

end
