(* ===== verification/Bee_Client.thy ===== *)
theory Bee_Client
  imports Chunked Complex_Main
begin

text \<open>
  The client of the Bee node, file internal/bee/client.go: every call builds a request, hands
  it to the transport and maps the answer to a value or an error. Transport and JSON codec
  are parameters, the fields of the record \<open>Client\<close>.
\<close>

section \<open>HTTP\<close>

text \<open>
  A request of the client and the answer of the node. The body of a request is what its
  reader delivers; \<open>hr_BodyErr\<close> says that the reader failed before its end. The body of an
  answer is followed by a read error when \<open>hp_Broken\<close> holds. The transport
  (\<open>http.Client.Do\<close>, with the parsing of the URL) is a parameter: it answers or fails with
  an error text.
\<close>

record http_req =
  hr_Method :: string
  hr_URL :: string
  hr_Header :: http_header
  hr_Body :: string
  hr_BodyErr :: bool
  hr_ContentLength :: int

record http_resp =
  hp_Status :: int
  hp_StatusText :: string
  hp_Header :: http_header
  hp_Body :: string
  hp_Broken :: bool

type_synonym transport = "http_req \<Rightarrow> (string, http_resp) result"

definition newRequest :: "string \<Rightarrow> string \<Rightarrow> string \<Rightarrow> http_req" where
  "newRequest mth url body = \<lparr>hr_Method = mth, hr_URL = url, hr_Header = [], hr_Body = body, hr_BodyErr = False,
     hr_ContentLength = int (length body)\<rparr>"

definition setReqHeader :: "string \<Rightarrow> string \<Rightarrow> http_req \<Rightarrow> http_req" where
  "setReqHeader k v req = req\<lparr>hr_Header := Header_Set k v (hr_Header req)\<rparr>"

text \<open>Headers set in order, each under its condition.\<close>

fun addHeaders :: "(bool \<times> string \<times> string) list \<Rightarrow> http_req \<Rightarrow> http_req" where
  "addHeaders [] req = req"
| "addHeaders ((cond, k, v) # hs) req = addHeaders hs (if cond then setReqHeader k v req else req)"

record Stamp =
  st_BatchID :: string
  st_Exists :: bool
  st_Usable :: bool
  st_Utilization :: int
  st_UtilizationRatio :: rat
  st_Depth :: int
  st_BucketDepth :: int
  st_Amount :: string
  st_BatchTTL :: int
  st_ImmutableFlag :: bool
  st_Label :: string

record GranteesResult =
  gr_Ref :: string
  gr_History :: string

text \<open>
  The JSON the client reads and writes: decoders of the answers (an error text, or the
  value) and encoders of the two request bodies of the grantee calls. A float of an answer
  is a rational number.
\<close>

record bee_json =
  js_message :: "string \<Rightarrow> string option"
  js_reference :: "string \<Rightarrow> (string, string) result"
  js_stamp :: "string \<Rightarrow> (string, Stamp) result"
  js_stamps :: "string \<Rightarrow> (string, Stamp list) result"
  js_currentPrice :: "string \<Rightarrow> (string, int) result"
  js_chequebook :: "string \<Rightarrow> (string, int \<times> int) result"
  js_wallet :: "string \<Rightarrow> (string, int \<times> int) result"
  js_grantees :: "string \<Rightarrow> (string, GranteesResult) result"
  js_keys :: "string \<Rightarrow> (string, string list) result"
  js_wrappedKeys :: "string \<Rightarrow> (string, string list) result"
  js_publicKey :: "string \<Rightarrow> (string, string) result"
  js_encGrantees :: "string list \<Rightarrow> string"
  js_encPatch :: "string list \<Rightarrow> string list \<Rightarrow> string"

record Client =
  cl_base :: string
  cl_do :: transport
  cl_json :: bee_json

section \<open>Calls\<close>

definition newStatusError :: "Client \<Rightarrow> http_resp \<Rightarrow> bee_error" where
  "newStatusError cl resp =
     (let body = take (4 * 1024) (hp_Body resp); msg = strings_TrimSpace body;
          msg = (case js_message (cl_json cl) body of Some m \<Rightarrow> if m \<noteq> [] then m else msg | None \<Rightarrow> msg);
          msg = (if msg = [] then hp_StatusText resp else msg)
      in StatusError (hp_Status resp) msg)"

text \<open>
  What every call shares: send the request, turn a transport failure and a status that is
  not among the expected ones into an error.
\<close>

definition call :: "Client \<Rightarrow> int list \<Rightarrow> http_req \<Rightarrow> (bee_error, http_resp) result" where
  "call cl oks req =
     (case cl_do cl req of
        Inl msg \<Rightarrow> Inl (OtherError msg)
      | Inr resp \<Rightarrow> if hp_Status resp \<in> set oks then Inr resp else Inl (newStatusError cl resp))"

definition decoded :: "string \<Rightarrow> (string, 'a) result \<Rightarrow> (bee_error, 'a) result" where
  "decoded what res = (case res of Inl msg \<Rightarrow> Inl (OtherError (what @ '': '' @ msg)) | Inr x \<Rightarrow> Inr x)"

record UploadOptions =
  uo_BatchID :: string
  uo_Encrypt :: bool
  uo_RedundancyLevel :: int
  uo_Deferred :: bool
  uo_ContentLength :: int
  uo_Act :: bool
  uo_ActHistory :: string

definition FormatBool :: "bool \<Rightarrow> string" where
  "FormatBool b = (if b then ''true'' else ''false'')"

text \<open>The header of an upload; the body of the caller's reader is passed on.\<close>

definition uploadRequest :: "Client \<Rightarrow> string \<Rightarrow> bool \<Rightarrow> UploadOptions \<Rightarrow> http_req" where
  "uploadRequest cl body bodyErr opts =
     addHeaders
       [(True, ''Content-Type'', ''application/octet-stream''),
        (uo_BatchID opts \<noteq> [], ''swarm-postage-batch-id'', uo_BatchID opts),
        (True, ''swarm-deferred-upload'', FormatBool (uo_Deferred opts)),
        (uo_Encrypt opts, ''swarm-encrypt'', ''true''),
        (0 < uo_RedundancyLevel opts, ''swarm-redundancy-level'', strconv_Itoa (uo_RedundancyLevel opts)),
        (uo_Act opts, ''swarm-act'', ''true''),
        (uo_Act opts \<and> uo_ActHistory opts \<noteq> [], ''swarm-act-history-address'', uo_ActHistory opts)]
       ((newRequest ''POST'' (cl_base cl @ ''/bytes'') body)
          \<lparr>hr_BodyErr := bodyErr, hr_ContentLength := (if 0 \<le> uo_ContentLength opts then uo_ContentLength opts else - 1)\<rparr>)"

definition UploadBytes :: "Client \<Rightarrow> string \<Rightarrow> bool \<Rightarrow> UploadOptions \<Rightarrow> (bee_error, string \<times> string) result" where
  "UploadBytes cl body bodyErr opts =
     rbind (call cl [201, 200] (uploadRequest cl body bodyErr opts)) (\<lambda>resp.
     rbind (decoded ''bee: decoding upload response'' (js_reference (cl_json cl) (hp_Body resp))) (\<lambda>ref.
     if ref = [] then Inl (OtherError ''bee: upload response contained no reference'')
     else Inr (ref, Header_Get (hp_Header resp) ''swarm-act-history-address'')))"

definition downloadRequest :: "Client \<Rightarrow> string \<Rightarrow> DownloadOptions \<Rightarrow> http_req" where
  "downloadRequest cl ref opts =
     addHeaders
       [(do_Range opts \<noteq> [], ''Range'', do_Range opts),
        (do_Strategy opts \<noteq> [], ''swarm-redundancy-strategy'', do_Strategy opts),
        (do_FallbackMode opts \<noteq> [], ''swarm-redundancy-fallback-mode'', do_FallbackMode opts),
        (do_ActHistory opts \<noteq> [], ''swarm-act-history-address'', do_ActHistory opts),
        (do_ActHistory opts \<noteq> [], ''swarm-act-publisher'', do_ActPublisher opts),
        (do_ActHistory opts \<noteq> [] \<and> 0 < do_ActTimestamp opts, ''swarm-act-timestamp'', strconv_Itoa (do_ActTimestamp opts))]
       (newRequest ''GET'' (cl_base cl @ ''/bytes/'' @ ref) [])"

definition DownloadBytes :: "Client \<Rightarrow> string \<Rightarrow> DownloadOptions \<Rightarrow> (bee_error, http_resp) result" where
  "DownloadBytes cl ref opts = call cl [200, 206] (downloadRequest cl ref opts)"

definition Client_Stamp :: "Client \<Rightarrow> string \<Rightarrow> (bee_error, Stamp) result" where
  "Client_Stamp cl batchID =
     rbind (call cl [200] (newRequest ''GET'' (cl_base cl @ ''/stamps/'' @ batchID) [])) (\<lambda>resp.
     decoded ''bee: decoding stamp response'' (js_stamp (cl_json cl) (hp_Body resp)))"

definition ListStamps :: "Client \<Rightarrow> (bee_error, Stamp list) result" where
  "ListStamps cl =
     rbind (call cl [200] (newRequest ''GET'' (cl_base cl @ ''/stamps'') [])) (\<lambda>resp.
     decoded ''bee: decoding stamps list'' (js_stamps (cl_json cl) (hp_Body resp)))"

definition patchStamps :: "Client \<Rightarrow> string \<Rightarrow> (bee_error, unit) result" where
  "patchStamps cl url = rbind (call cl [202, 200] (newRequest ''PATCH'' url [])) (\<lambda>_. Inr ())"

definition TopupBatch :: "Client \<Rightarrow> string \<Rightarrow> int \<Rightarrow> (bee_error, unit) result" where
  "TopupBatch cl batchID amount =
     patchStamps cl (cl_base cl @ ''/stamps/topup/'' @ batchID @ ''/'' @ strconv_Itoa amount)"

definition DiluteBatch :: "Client \<Rightarrow> string \<Rightarrow> int \<Rightarrow> (bee_error, unit) result" where
  "DiluteBatch cl batchID newDepth =
     patchStamps cl (cl_base cl @ ''/stamps/dilute/'' @ batchID @ ''/'' @ strconv_Itoa newDepth)"

definition ChainState :: "Client \<Rightarrow> (bee_error, int) result" where
  "ChainState cl =
     rbind (call cl [200] (newRequest ''GET'' (cl_base cl @ ''/chainstate'') [])) (\<lambda>resp.
     decoded ''bee: decoding chainstate'' (js_currentPrice (cl_json cl) (hp_Body resp)))"

text \<open>The total and the available balance of the chequebook.\<close>

definition ChequebookBalance :: "Client \<Rightarrow> (bee_error, int \<times> int) result" where
  "ChequebookBalance cl =
     rbind (call cl [200] (newRequest ''GET'' (cl_base cl @ ''/chequebook/balance'') [])) (\<lambda>resp.
     decoded ''bee: decoding chequebook balance'' (js_chequebook (cl_json cl) (hp_Body resp)))"

text \<open>The wallet's balances of xBZZ and of the native token.\<close>

definition WalletBalance :: "Client \<Rightarrow> (bee_error, int \<times> int) result" where
  "WalletBalance cl =
     rbind (call cl [200] (newRequest ''GET'' (cl_base cl @ ''/wallet'') [])) (\<lambda>resp.
     decoded ''bee: decoding wallet balance'' (js_wallet (cl_json cl) (hp_Body resp)))"

definition ChequebookDeposit :: "Client \<Rightarrow> int \<Rightarrow> (bee_error, unit) result" where
  "ChequebookDeposit cl amount =
     rbind (call cl [200, 201] (newRequest ''POST'' (cl_base cl @ ''/chequebook/deposit?amount='' @ strconv_Itoa amount) []))
       (\<lambda>_. Inr ())"

definition CreateGrantees :: "Client \<Rightarrow> string \<Rightarrow> string \<Rightarrow> string list \<Rightarrow> (bee_error, GranteesResult) result" where
  "CreateGrantees cl batchID history grantees =
     (let req = newRequest ''POST'' (cl_base cl @ ''/grantee'') (js_encGrantees (cl_json cl) grantees);
          req = setReqHeader ''Content-Type'' ''application/json'' req;
          req = setReqHeader ''swarm-postage-batch-id'' batchID req;
          req = (if history \<noteq> [] then setReqHeader ''swarm-act-history-address'' history req else req) in
      rbind (call cl [201, 200] req) (\<lambda>resp.
      decoded ''bee: decoding grantee response'' (js_grantees (cl_json cl) (hp_Body resp))))"

definition PatchGrantees ::
  "Client \<Rightarrow> string \<Rightarrow> string \<Rightarrow> string \<Rightarrow> string list \<Rightarrow> string list \<Rightarrow> (bee_error, GranteesResult) result" where
  "PatchGrantees cl granteesRef history batchID add revoke =
     (let req = newRequest ''PATCH'' (cl_base cl @ ''/grantee/'' @ granteesRef) (js_encPatch (cl_json cl) add revoke);
          req = setReqHeader ''Content-Type'' ''application/json'' req;
          req = setReqHeader ''swarm-postage-batch-id'' batchID req;
          req = setReqHeader ''swarm-act-history-address'' history req in
      rbind (call cl [200, 201] req) (\<lambda>resp.
      decoded ''bee: decoding grantee response'' (js_grantees (cl_json cl) (hp_Body resp))))"

text \<open>The node answers with a bare array or an object, depending on its version.\<close>

definition Grantees :: "Client \<Rightarrow> string \<Rightarrow> (bee_error, string list) result" where
  "Grantees cl granteesRef =
     rbind (call cl [200] (newRequest ''GET'' (cl_base cl @ ''/grantee/'' @ granteesRef) [])) (\<lambda>resp.
     let limit = 1024 * 1024; data = take limit (hp_Body resp) in
     if hp_Broken resp \<and> length (hp_Body resp) < limit then Inl (OtherError ''read error'')
     else (case js_keys (cl_json cl) data of
             Inr keys \<Rightarrow> Inr keys
           | Inl _ \<Rightarrow> decoded ''bee: decoding grantee list'' (js_wrappedKeys (cl_json cl) data)))"

definition PublisherKey :: "Client \<Rightarrow> (bee_error, string) result" where
  "PublisherKey cl =
     rbind (call cl [200] (newRequest ''GET'' (cl_base cl @ ''/addresses'') [])) (\<lambda>resp.
     rbind (decoded ''bee: decoding addresses'' (js_publicKey (cl_json cl) (hp_Body resp))) (\<lambda>key.
     if key = [] then Inl (OtherError ''bee: addresses response contained no publicKey'') else Inr key))"

definition UploadSOC :: "Client \<Rightarrow> string \<Rightarrow> string \<Rightarrow> string \<Rightarrow> string \<Rightarrow> string \<Rightarrow> (bee_error, unit) result" where
  "UploadSOC cl owner ident signature data batchID =
     (let req = newRequest ''POST'' (cl_base cl @ ''/soc/'' @ owner @ ''/'' @ ident @ ''?sig='' @ signature) data;
          req = setReqHeader ''Content-Type'' ''application/octet-stream'' req;
          req = setReqHeader ''swarm-postage-batch-id'' batchID req in
      rbind (call cl [201, 200] req) (\<lambda>_. Inr ()))"

definition Pin :: "Client \<Rightarrow> string \<Rightarrow> (bee_error, unit) result" where
  "Pin cl ref = rbind (call cl [201, 200] (newRequest ''POST'' (cl_base cl @ ''/pins/'' @ ref) [])) (\<lambda>_. Inr ())"

definition Health :: "Client \<Rightarrow> (bee_error, unit) result" where
  "Health cl = rbind (call cl [200] (newRequest ''GET'' (cl_base cl @ ''/health'') [])) (\<lambda>_. Inr ())"

section \<open>What a request carries\<close>

lemma Header_Get_Set:
  "Header_Get (Header_Set k v h) k' = (if strings_ToLower k = strings_ToLower k' then v else Header_Get h k')"
  by (simp add: Header_Get_def Header_Values_def Header_Set_def gomap_simps)

lemma Header_Get_Nil [simp]: "Header_Get [] k = []"
  by (simp add: Header_Get_def Header_Values_def)

lemma setReqHeader_sel [simp]:
  "hr_Method (setReqHeader k v req) = hr_Method req" "hr_URL (setReqHeader k v req) = hr_URL req"
  "hr_Body (setReqHeader k v req) = hr_Body req" "hr_BodyErr (setReqHeader k v req) = hr_BodyErr req"
  "hr_ContentLength (setReqHeader k v req) = hr_ContentLength req"
  "hr_Header (setReqHeader k v req) = Header_Set k v (hr_Header req)"
  by (simp_all add: setReqHeader_def)

lemma addHeaders_sel [simp]:
  "hr_Method (addHeaders hs req) = hr_Method req" "hr_URL (addHeaders hs req) = hr_URL req"
  "hr_Body (addHeaders hs req) = hr_Body req" "hr_BodyErr (addHeaders hs req) = hr_BodyErr req"
  "hr_ContentLength (addHeaders hs req) = hr_ContentLength req"
  by (induction hs req rule: addHeaders.induct) simp_all

text \<open>The last header set under a name wins.\<close>

lemma addHeaders_Get:
  "Header_Get (hr_Header (addHeaders hs req)) k =
     (case rev (filter (\<lambda>(cond, k', v). cond \<and> strings_ToLower k' = strings_ToLower k) hs) of
        [] \<Rightarrow> Header_Get (hr_Header req) k | (_, _, v) # _ \<Rightarrow> v)"
  by (induction hs req rule: addHeaders.induct) (auto simp: Header_Get_Set split: list.splits)

declare addHeaders.simps [simp del]

lemma uploadRequest_sel [simp]:
  "hr_Method (uploadRequest cl body bodyErr opts) = ''POST''" "hr_URL (uploadRequest cl body bodyErr opts) = cl_base cl @ ''/bytes''"
  "hr_Body (uploadRequest cl body bodyErr opts) = body" "hr_BodyErr (uploadRequest cl body bodyErr opts) = bodyErr"
  "hr_ContentLength (uploadRequest cl body bodyErr opts) = (if 0 \<le> uo_ContentLength opts then uo_ContentLength opts else - 1)"
  unfolding uploadRequest_def newRequest_def by simp_all

lemma Header_names:
  "strings_ToLower ''Range'' = ''range''" "strings_ToLower ''swarm-redundancy-strategy'' = ''swarm-redundancy-strategy''"
  "strings_ToLower ''swarm-redundancy-fallback-mode'' = ''swarm-redundancy-fallback-mode''"
  "strings_ToLower ''swarm-act-history-address'' = ''swarm-act-history-address''"
  "strings_ToLower ''swarm-act-publisher'' = ''swarm-act-publisher''" "strings_ToLower ''swarm-act-timestamp'' = ''swarm-act-timestamp''"
  by code_simp+

lemma downloadRequest_sel [simp]:
  "hr_Method (downloadRequest cl ref opts) = ''GET''" "hr_URL (downloadRequest cl ref opts) = cl_base cl @ ''/bytes/'' @ ref"
  "Header_Get (hr_Header (downloadRequest cl ref opts)) ''Range'' = do_Range opts"
  unfolding downloadRequest_def newRequest_def by (simp_all add: addHeaders_Get Header_names)

end
