(* ===== verification/Go_Floats.thy ===== *)
theory Go_Floats
  imports Complex_Main
begin

text \<open>
  Go's \<open>float64\<close>: a finite value is a rational number (the two zeros are one), with the infinities and the value
  that is no number. Comparisons are those of IEEE 754: every comparison with NaN is false. Rounding is a parameter of
  the operations that need it.
\<close>

datatype float64 = Finite rat | PosInf | NegInf | NaN

fun fl_lt :: "float64 \<Rightarrow> float64 \<Rightarrow> bool" where
  "fl_lt (Finite x) (Finite y) = (x < y)"
| "fl_lt NaN y = False"
| "fl_lt x NaN = False"
| "fl_lt PosInf y = False"
| "fl_lt x NegInf = False"
| "fl_lt NegInf y = True"
| "fl_lt x PosInf = True"

definition fl_le :: "float64 \<Rightarrow> float64 \<Rightarrow> bool" where
  "fl_le x y \<longleftrightarrow> fl_lt x y \<or> (x = y \<and> x \<noteq> NaN)"

lemma fl_le_Finite [simp]: "fl_le (Finite x) (Finite y) \<longleftrightarrow> x \<le> y"
  by (auto simp: fl_le_def)

lemma fl_le_not_lt: "x \<noteq> NaN \<Longrightarrow> y \<noteq> NaN \<Longrightarrow> fl_le x y \<longleftrightarrow> \<not> fl_lt y x"
  by (cases x; cases y) (auto simp: fl_le_def)

text \<open>
  The operations: multiplication, rounded to the nearest value, and the conversion to \<open>int64\<close>, which cuts the
  fraction off and is undefined outside the range.
\<close>

record float_ops =
  fo_mul :: "float64 \<Rightarrow> float64 \<Rightarrow> float64"
  fo_int64 :: "float64 \<Rightarrow> int"

text \<open>
  What the language says of them, as far as the program relies on it: the product of finite values in the range of the
  integers is the exact product rounded by a monotone function that keeps integers below \<open>2 ^ 53\<close>, and the conversion is exact
  on the range.
\<close>

definition truncRat :: "rat \<Rightarrow> int" where
  "truncRat x = (if 0 \<le> x then \<lfloor>x\<rfloor> else \<lceil>x\<rceil>)"

definition float_ops_ok :: "float_ops \<Rightarrow> (rat \<Rightarrow> rat) \<Rightarrow> bool" where
  "float_ops_ok F rnd \<longleftrightarrow>
     mono rnd \<and> (\<forall>n. \<bar>n\<bar> \<le> 2 ^ 53 \<longrightarrow> rnd (of_int n) = of_int n) \<and> rnd (2 ^ 62) = 2 ^ 62 \<and>
     (\<forall>x y. \<bar>x * y\<bar> \<le> 2 ^ 63 \<longrightarrow> fo_mul F (Finite x) (Finite y) = Finite (rnd (x * y))) \<and>
     (\<forall>x. - (2 ^ 63) \<le> x \<and> x < 2 ^ 63 \<longrightarrow> fo_int64 F (Finite x) = truncRat x)"

end
