(* ===== verification/Stamps.thy ===== *)
theory Stamps
  imports Bee_Client Go_Floats
begin

text \<open>
  Postage batches, package internal/stamp: the cached manager with the check before an upload
  (manager.go), the autopilot (autopilot.go) and the keeper of the chequebook
  (chequebook.go). The keepers return the transactions they send; logging and metrics are
  left out.
\<close>

section \<open>Batches\<close>

text \<open>
  \<open>stamp.Info\<close> is the state of a batch with the time it was observed. A duration is an
  \<open>int64\<close> of nanoseconds whose arithmetic wraps around.
\<close>

record Info =
  in_Stamp :: Stamp
  in_FetchedAt :: gotime

definition TTLRemaining :: "Info \<Rightarrow> gotime \<Rightarrow> int" where
  "TTLRemaining i now =
     (if st_BatchTTL (in_Stamp i) < 0 then 2 ^ 62 - 1
      else wrap64 (wrap64 (st_BatchTTL (in_Stamp i) * second) - time_Sub now (in_FetchedAt i)))"

text \<open>
  The fill ratio. The capacity \<open>1 << (Depth - BucketDepth)\<close> is a power of two, so the
  quotient of the source's floats is exact; the node keeps the difference below 64.
\<close>

definition Ratio :: "Info \<Rightarrow> rat" where
  "Ratio i =
     (let s = in_Stamp i in
      if 0 < st_UtilizationRatio s then st_UtilizationRatio s
      else if st_Depth s \<le> st_BucketDepth s then 0
      else of_int (st_Utilization s) / 2 ^ nat (st_Depth s - st_BucketDepth s))"

definition DefaultRefreshInterval :: int where "DefaultRefreshInterval = 5 * 60 * second"
definition warnUtilizationRatio :: rat where "warnUtilizationRatio = 8 / 10"
definition warnTTL :: int where "warnTTL = 30 * 24 * 3600 * second"

section \<open>The manager\<close>

text \<open>
  The manager is its cache. A call reads the clock several times: \<open>clock i\<close> is the
  i-th reading.
\<close>

type_synonym stamp_cache = "(string, Info) gomap"

definition fetch :: "Client \<Rightarrow> gotime \<Rightarrow> stamp_cache \<Rightarrow> string \<Rightarrow> (bee_error, Info) result \<times> stamp_cache" where
  "fetch cl now cache batchID =
     (case Client_Stamp cl batchID of
        Inl e \<Rightarrow> (Inl e, cache)
      | Inr st \<Rightarrow> (let info = \<lparr>in_Stamp = st, in_FetchedAt = now\<rparr> in (Inr info, gm_put batchID info cache)))"

definition Manager_Get :: "Client \<Rightarrow> (nat \<Rightarrow> gotime) \<Rightarrow> stamp_cache \<Rightarrow> string \<Rightarrow> (bee_error, Info) result \<times> stamp_cache" where
  "Manager_Get cl clock cache batchID =
     (let cached = gm_get cache batchID;
          refresh = (case fetch cl (clock 1) cache batchID of
             (Inr info, cache) \<Rightarrow> (Inr info, cache)
           | (Inl e, cache) \<Rightarrow> (case cached of Some info \<Rightarrow> (Inr info, cache) | None \<Rightarrow> (Inl e, cache))) in
      case cached of
        Some info \<Rightarrow> if time_Sub (clock 0) (in_FetchedAt info) < DefaultRefreshInterval then (Inr info, cache) else refresh
      | None \<Rightarrow> refresh)"

record BatchError =
  be_BatchID :: string
  be_Reason :: string

definition BatchError_Error :: "BatchError \<Rightarrow> string" where
  "BatchError_Error e = ''postage batch '' @ be_BatchID e @ '': '' @ be_Reason e"

definition checkInfo :: "string \<Rightarrow> gotime \<Rightarrow> Info \<Rightarrow> BatchError option" where
  "checkInfo batchID now info =
     (let err = (\<lambda>reason. Some \<lparr>be_BatchID = batchID, be_Reason = reason\<rparr>); s = in_Stamp info in
      if \<not> st_Exists s then err ''batch does not exist''
      else if \<not> st_Usable s then err ''batch is not usable (yet)''
      else if st_ImmutableFlag s \<and> 1 \<le> Ratio info then err ''immutable batch is out of capacity''
      else if TTLRemaining info now \<le> 0 then err ''batch has expired''
      else None)"

definition Check :: "Client \<Rightarrow> (nat \<Rightarrow> gotime) \<Rightarrow> stamp_cache \<Rightarrow> string \<Rightarrow> BatchError option \<times> stamp_cache" where
  "Check cl clock cache batchID =
     (case Manager_Get cl clock cache batchID of
        (Inl (StatusError code _), cache) \<Rightarrow>
          (if code = 404 then Some \<lparr>be_BatchID = batchID, be_Reason = ''batch not found on the node''\<rparr> else None, cache)
      | (Inl (OtherError _), cache) \<Rightarrow> (None, cache)
      | (Inr info, cache) \<Rightarrow> (checkInfo batchID (clock 2) info, cache))"

text \<open>
  A sweep refreshes every batch of the cache in turn and reports the batches near capacity
  or expiry; \<open>clock\<close> gives the readings per batch.
\<close>

datatype stamp_warning =
    RefreshFailed string bee_error
  | ApproachingCapacity string rat bool
  | ExpiringSoon string int

definition sweepOne :: "Client \<Rightarrow> (nat \<Rightarrow> gotime) \<Rightarrow> string \<Rightarrow> stamp_cache \<Rightarrow> stamp_warning list \<times> stamp_cache" where
  "sweepOne cl clock batchID cache =
     (case fetch cl (clock 0) cache batchID of
        (Inl e, cache) \<Rightarrow> ([RefreshFailed batchID e], cache)
      | (Inr info, cache) \<Rightarrow>
          ((if warnUtilizationRatio \<le> Ratio info
            then [ApproachingCapacity batchID (Ratio info) (st_ImmutableFlag (in_Stamp info))] else []) @
           (if TTLRemaining info (clock 1) < warnTTL then [ExpiringSoon batchID (TTLRemaining info (clock 1))] else []), cache))"

fun sweepLoop :: "Client \<Rightarrow> (string \<Rightarrow> nat \<Rightarrow> gotime) \<Rightarrow> string list \<Rightarrow> stamp_cache \<Rightarrow> stamp_warning list \<times> stamp_cache" where
  "sweepLoop cl clock [] cache = ([], cache)"
| "sweepLoop cl clock (batchID # ids) cache =
     (case sweepOne cl (clock batchID) batchID cache of (ws, cache) \<Rightarrow>
      case sweepLoop cl clock ids cache of (ws', cache) \<Rightarrow> (ws @ ws', cache))"

definition sweep :: "Client \<Rightarrow> (string \<Rightarrow> nat \<Rightarrow> gotime) \<Rightarrow> stamp_cache \<Rightarrow> stamp_warning list \<times> stamp_cache" where
  "sweep cl clock cache = sweepLoop cl clock (map fst cache) cache"

section \<open>The autopilot\<close>

definition truncDiv :: "int \<Rightarrow> int \<Rightarrow> int" where
  "truncDiv a b = (if 0 \<le> a then a div b else - ((- a) div b))"

definition gnosisBlockTime :: int where "gnosisBlockTime = 5 * second"

record Autopilot =
  ap_minTTL :: int
  ap_targetTTL :: int
  ap_diluteAt :: float64

text \<open>The transaction a call of \<open>evaluate\<close> sends, if any; failures are only logged.\<close>

datatype transaction = Dilute string int | Topup string int

definition topupAmount :: "Autopilot \<Rightarrow> int \<Rightarrow> int \<Rightarrow> int" where
  "topupAmount a ttl price = (wrap64 (truncDiv (wrap64 (ap_targetTTL a - ttl)) gnosisBlockTime + 1)) * price"

definition evaluate :: "Client \<Rightarrow> gotime \<Rightarrow> Autopilot \<Rightarrow> string \<Rightarrow> Info \<Rightarrow> transaction option" where
  "evaluate cl now a batchID info =
     (if fl_le (ap_diluteAt a) (Finite (Ratio info)) \<and> \<not> st_ImmutableFlag (in_Stamp info) then
        Some (Dilute batchID ((st_Depth (in_Stamp info) + 1) mod 256))
      else
      (let ttl = TTLRemaining info now in
       if ap_minTTL a \<le> ttl then None
       else
       (case ChainState cl of
          Inl _ \<Rightarrow> None
        | Inr price \<Rightarrow>
            if price \<le> 0 then None
            else
            (let amount = topupAmount a ttl price; cost = amount * 2 ^ nat (st_Depth (in_Stamp info)) in
             case WalletBalance cl of
               Inl _ \<Rightarrow> None
             | Inr (walletBZZ, native) \<Rightarrow>
                 if native \<le> 0 then None
                 else if walletBZZ < cost then None
                 else Some (Topup batchID amount)))))"

text \<open>
  One pass over the batches of the cache that the node issued: the transactions sent and
  the cache after the lookups.
\<close>

fun passLoop ::
  "Client \<Rightarrow> (string \<Rightarrow> nat \<Rightarrow> gotime) \<Rightarrow> Autopilot \<Rightarrow> string list \<Rightarrow> string list \<Rightarrow> stamp_cache \<Rightarrow> transaction list \<times> stamp_cache" where
  "passLoop cl clock a mine [] cache = ([], cache)"
| "passLoop cl clock a mine (batchID # ids) cache =
     (if batchID \<notin> set mine then passLoop cl clock a mine ids cache
      else
      (case Manager_Get cl (clock batchID) cache batchID of
         (Inl _, cache) \<Rightarrow> passLoop cl clock a mine ids cache
       | (Inr info, cache) \<Rightarrow>
           if \<not> st_Exists (in_Stamp info) \<or> \<not> st_Usable (in_Stamp info) then passLoop cl clock a mine ids cache
           else
           (case passLoop cl clock a mine ids cache of (txs, cache) \<Rightarrow>
              ((case evaluate cl (clock batchID 2) a batchID info of Some t \<Rightarrow> [t] | None \<Rightarrow> []) @ txs, cache))))"

definition pass :: "Client \<Rightarrow> (string \<Rightarrow> nat \<Rightarrow> gotime) \<Rightarrow> Autopilot \<Rightarrow> stamp_cache \<Rightarrow> transaction list \<times> stamp_cache" where
  "pass cl clock a cache =
     (case ListStamps cl of
        Inl _ \<Rightarrow> ([], cache)
      | Inr own \<Rightarrow> passLoop cl clock a (map st_BatchID own) (map fst cache) cache)"

section \<open>The chequebook\<close>

text \<open>The thresholds in PLUR. The result is the deposit sent, if any.\<close>

record Chequebook =
  cb_min :: int
  cb_target :: int
  cb_reserve :: int

definition chequebook_check :: "Client \<Rightarrow> Chequebook \<Rightarrow> int option" where
  "chequebook_check cl c =
     (case ChequebookBalance cl of
        Inl _ \<Rightarrow> None
      | Inr (_, available) \<Rightarrow>
          if cb_min c \<le> available then None
          else
          (case WalletBalance cl of
             Inl _ \<Rightarrow> None
           | Inr (walletBZZ, native) \<Rightarrow>
               if native \<le> 0 then None
               else
               (let need = cb_target c - available; depositable = walletBZZ - cb_reserve c;
                    need = (if depositable < need then depositable else need) in
                if need \<le> 0 then None else Some need)))"

section \<open>Properties\<close>

lemma time_Sub_exact: "u \<le> t \<Longrightarrow> t - u < 2 ^ 63 \<Longrightarrow> time_Sub t u = t - u"
  by (simp add: time_Sub_def)

lemma wrap64_minus: "wrap64 (x - 2 ^ 64) = wrap64 x"
proof -
  have "x - 2 ^ 64 + 2 ^ 63 = (x + 2 ^ 63) - 2 ^ 64" by (simp only: diff_add_eq)
  then show ?thesis by (simp only: wrap64_def minus_mod_self2)
qed

lemma TTLRemaining_exact:
  assumes "0 \<le> st_BatchTTL (in_Stamp i)" and "st_BatchTTL (in_Stamp i) \<le> 9223372036"
    and "in_FetchedAt i \<le> now" and "now - in_FetchedAt i < 2 ^ 63"
  shows "TTLRemaining i now = st_BatchTTL (in_Stamp i) * second - (now - in_FetchedAt i)"
proof -
  have "in_int64 (st_BatchTTL (in_Stamp i) * second)"
    and "in_int64 (st_BatchTTL (in_Stamp i) * second - (now - in_FetchedAt i))"
    using assms by (auto simp: in_int64_def)
  then show ?thesis using assms by (simp add: TTLRemaining_def time_Sub_exact wrap64_id)
qed

text \<open>C30.
  The check before an upload is exact for every batch the node reports with a lifetime below
  292 years: when the state of the batch is known, the upload is let through if and only if
  the batch exists, is usable, is not an immutable batch that is full, and the time since the
  state was observed has not used up its lifetime.
\<close>

theorem stamp_check_exact:
  assumes get: "Manager_Get cl clock cache batchID = (Inr info, cache')"
    and "0 \<le> st_BatchTTL (in_Stamp info)" and "st_BatchTTL (in_Stamp info) \<le> 9223372036"
    and "in_FetchedAt info \<le> clock 2" and "clock 2 - in_FetchedAt info < 2 ^ 63"
  shows "fst (Check cl clock cache batchID) = None \<longleftrightarrow>
    st_Exists (in_Stamp info) \<and> st_Usable (in_Stamp info) \<and> \<not> (st_ImmutableFlag (in_Stamp info) \<and> 1 \<le> Ratio info) \<and>
    clock 2 < in_FetchedAt info + st_BatchTTL (in_Stamp info) * second"
  using TTLRemaining_exact [OF assms(2-5)] by (auto simp: Check_def get checkInfo_def Let_def)

text \<open>C40.
  The lifetime is multiplied by a second in 64 bits: for a batch with 317 to 584 years of life
  left the product wraps around, and the check refuses the upload because the batch
  \<open>has expired\<close>.
\<close>

theorem stamp_ttl_overflow:
  assumes get: "Manager_Get cl clock cache batchID = (Inr info, cache')"
    and ok: "st_Exists (in_Stamp info)" "st_Usable (in_Stamp info)" "\<not> st_ImmutableFlag (in_Stamp info)"
    and ttl: "10000000000 \<le> st_BatchTTL (in_Stamp info)" "st_BatchTTL (in_Stamp info) \<le> 18446744073"
    and age: "in_FetchedAt info \<le> clock 2" "clock 2 - in_FetchedAt info \<le> DefaultRefreshInterval"
  shows "fst (Check cl clock cache batchID) = Some \<lparr>be_BatchID = batchID, be_Reason = ''batch has expired''\<rparr>"
proof -
  let ?v = "st_BatchTTL (in_Stamp info) * second"
  have "wrap64 ?v = wrap64 (?v - 2 ^ 64)" by (simp only: wrap64_minus)
  also have "\<dots> = ?v - 2 ^ 64" using ttl by (intro wrap64_id) (simp add: in_int64_def)
  finally have w: "wrap64 ?v = ?v - 2 ^ 64" .
  have sub: "time_Sub (clock 2) (in_FetchedAt info) = clock 2 - in_FetchedAt info"
    using age by (intro time_Sub_exact) (simp_all add: DefaultRefreshInterval_def)
  have "in_int64 (?v - 2 ^ 64 - (clock 2 - in_FetchedAt info))"
    using ttl age by (simp add: in_int64_def DefaultRefreshInterval_def)
  then have "TTLRemaining info (clock 2) = ?v - 2 ^ 64 - (clock 2 - in_FetchedAt info)"
    using ttl by (simp add: TTLRemaining_def w sub wrap64_id)
  then have "TTLRemaining info (clock 2) \<le> 0" using ttl age by simp
  with get ok show ?thesis by (simp add: Check_def checkInfo_def Let_def)
qed

lemma truncDiv_pos: "0 < a \<Longrightarrow> 0 < b \<Longrightarrow> a < (truncDiv a b + 1) * b \<and> 0 \<le> truncDiv a b"
proof -
  assume a: "0 < a" and b: "0 < b"
  have "a mod b < b" using b by simp
  then have "a < a div b * b + b" using div_mult_mod_eq [of a b] by linarith
  with a b show ?thesis by (simp add: truncDiv_def algebra_simps pos_imp_zdiv_nonneg_iff)
qed

lemma evaluate_Topup:
  assumes "evaluate cl now a batchID info = Some (Topup b amount)"
  shows "\<exists>price bzz native. ChainState cl = Inr price \<and> 0 < price \<and> WalletBalance cl = Inr (bzz, native) \<and> 0 < native \<and>
    amount * 2 ^ nat (st_Depth (in_Stamp info)) \<le> bzz \<and> b = batchID \<and> TTLRemaining info now < ap_minTTL a \<and>
    amount = topupAmount a (TTLRemaining info now) price"
  using assms by (auto simp: evaluate_def Let_def split: if_splits sum.splits prod.splits)

lemma topupAmount_enough:
  assumes "ttl < ap_targetTTL a" and "ap_targetTTL a - ttl < 2 ^ 63" and "0 < price"
  shows "(ap_targetTTL a - ttl) * price < topupAmount a ttl price * gnosisBlockTime" and "0 < topupAmount a ttl price"
proof -
  let ?m = "ap_targetTTL a - ttl"
  have m: "wrap64 ?m = ?m" using assms by (intro wrap64_id) (simp add: in_int64_def)
  have bt: "0 < gnosisBlockTime" "1 < gnosisBlockTime" by (simp_all add: gnosisBlockTime_def)
  have td: "?m < (truncDiv ?m gnosisBlockTime + 1) * gnosisBlockTime" "0 \<le> truncDiv ?m gnosisBlockTime"
    using truncDiv_pos [OF _ bt(1), of ?m] assms by simp_all
  have "truncDiv ?m gnosisBlockTime < 2 ^ 63 - 1" using assms by (simp add: truncDiv_def gnosisBlockTime_def)
  then have "topupAmount a ttl price = (truncDiv ?m gnosisBlockTime + 1) * price"
    using td by (simp add: topupAmount_def m wrap64_id in_int64_def)
  moreover have "?m * price < ((truncDiv ?m gnosisBlockTime + 1) * gnosisBlockTime) * price"
    using td(1) assms(3) by (rule mult_strict_right_mono)
  moreover have "0 < (truncDiv ?m gnosisBlockTime + 1) * price"
    using td(2) assms(3) by (intro mult_pos_pos) simp_all
  ultimately show "?m * price < topupAmount a ttl price * gnosisBlockTime" and "0 < topupAmount a ttl price"
    by (simp_all add: algebra_simps)
qed

lemma passLoop_tx:
  assumes "t \<in> set (fst (passLoop cl clock a mine ids cache))"
  shows "\<exists>batchID info. batchID \<in> set ids \<inter> set mine \<and> st_Exists (in_Stamp info) \<and> st_Usable (in_Stamp info) \<and>
    evaluate cl (clock batchID 2) a batchID info = Some t"
  using assms
  by (induction cl clock a mine ids cache rule: passLoop.induct)
    (fastforce split: if_splits prod.splits sum.splits option.splits)+


text \<open>C29.
  A deposit into the chequebook is never taken from the reserve that pays for postage: after
  it the wallet still holds the reserve, and the chequebook, which was below its minimum, does
  not exceed its target.
\<close>

theorem chequebook_keeps_reserve:
  assumes "chequebook_check cl c = Some need"
  shows "\<exists>total available bzz native. ChequebookBalance cl = Inr (total, available) \<and> WalletBalance cl = Inr (bzz, native) \<and>
    available < cb_min c \<and> 0 < native \<and> 0 < need \<and> cb_reserve c \<le> bzz - need \<and> available + need \<le> cb_target c"
  using assms by (auto simp: chequebook_check_def Let_def split: if_splits sum.splits prod.splits)

text \<open>A node for the examples: it answers the calls of the keepers with fixed values.\<close>

definition demoStamp :: "int \<Rightarrow> Stamp" where
  "demoStamp ttl = \<lparr>st_BatchID = ''b1'', st_Exists = True, st_Usable = True, st_Utilization = 1, st_UtilizationRatio = 0,
     st_Depth = 20, st_BucketDepth = 16, st_Amount = ''1'', st_BatchTTL = ttl, st_ImmutableFlag = False, st_Label = []\<rparr>"

definition demoJSON :: "int \<Rightarrow> bee_json" where
  "demoJSON ttl = \<lparr>js_message = (\<lambda>_. None), js_reference = Inr, js_stamp = (\<lambda>_. Inr (demoStamp ttl)),
     js_stamps = (\<lambda>_. Inr [demoStamp ttl]), js_currentPrice = (\<lambda>_. Inr 2), js_chequebook = (\<lambda>_. Inr (10, 5)),
     js_wallet = (\<lambda>_. Inr (10 ^ 30, 1)), js_grantees = (\<lambda>s. Inr \<lparr>gr_Ref = s, gr_History = s\<rparr>), js_keys = (\<lambda>_. Inr []),
     js_wrappedKeys = (\<lambda>_. Inr []), js_publicKey = Inr, js_encGrantees = concat, js_encPatch = (\<lambda>a r. concat a @ concat r)\<rparr>"

definition demoClient :: "int \<Rightarrow> Client" where
  "demoClient ttl = \<lparr>cl_base = ''http://bee'',
     cl_do = (\<lambda>req. Inr \<lparr>hp_Status = 200, hp_StatusText = ''OK'', hp_Header = [], hp_Body = hr_Body req, hp_Broken = False\<rparr>),
     cl_json = demoJSON ttl\<rparr>"

lemma demo_call [simp]:
  "Client_Stamp (demoClient ttl) b = Inr (demoStamp ttl)" "ListStamps (demoClient ttl) = Inr [demoStamp ttl]"
  "ChainState (demoClient ttl) = Inr 2" "WalletBalance (demoClient ttl) = Inr (10 ^ 30, 1)"
  "ChequebookBalance (demoClient ttl) = Inr (10, 5)"
  by (simp_all add: Client_Stamp_def ListStamps_def ChainState_def WalletBalance_def ChequebookBalance_def call_def
      decoded_def rbind_def demoClient_def demoJSON_def)

lemma demo_get:
  "Manager_Get (demoClient ttl) (\<lambda>_. 0) [] ''b1'' =
    (Inr \<lparr>in_Stamp = demoStamp ttl, in_FetchedAt = 0\<rparr>, [(''b1'', \<lparr>in_Stamp = demoStamp ttl, in_FetchedAt = 0\<rparr>)])"
  by (simp add: Manager_Get_def fetch_def Let_def)

theorem stamp_check_exact_witness:
  "fst (Check (demoClient 60) (\<lambda>_. 0) [] ''b1'') = None \<longleftrightarrow> (0::int) < 60 * second"
  using stamp_check_exact [OF demo_get [of 60]] by (simp add: demoStamp_def)

theorem stamp_ttl_overflow_witness:
  "fst (Check (demoClient 10000000000) (\<lambda>_. 0) [] ''b1'') = Some \<lparr>be_BatchID = ''b1'', be_Reason = ''batch has expired''\<rparr>"
  by (rule stamp_ttl_overflow [OF demo_get]) (simp_all add: demoStamp_def DefaultRefreshInterval_def)

definition demoPilot :: Autopilot where
  "demoPilot = \<lparr>ap_minTTL = 100 * second, ap_targetTTL = 200 * second, ap_diluteAt = Finite (1 / 2)\<rparr>"


theorem chequebook_keeps_reserve_witness:
  "\<exists>total available bzz native. chequebook_check (demoClient 0) \<lparr>cb_min = 6, cb_target = 9, cb_reserve = 100\<rparr> = Some 4 \<and>
     ChequebookBalance (demoClient 0) = Inr (total, available) \<and> WalletBalance (demoClient 0) = Inr (bzz, native) \<and>
     100 \<le> bzz - 4 \<and> available + 4 \<le> 9"
proof -
  have "chequebook_check (demoClient 0) \<lparr>cb_min = 6, cb_target = 9, cb_reserve = 100\<rparr> = Some 4"
    by (simp add: chequebook_check_def Let_def)
  from chequebook_keeps_reserve [OF this] this show ?thesis by auto
qed

end
