(* ===== verification/Manifest.thy ===== *)
theory Manifest
  imports Stamps
begin

text \<open>
  Commit documents, files internal/manifest/manifest.go and internal/recovery/recovery.go: the
  wire form of a bucket with its key-bearing references sealed, the manifest that carries it
  and the way back. The age library, the mantaray manifest, the JSON codec and the node are
  parameters (record \<open>manifest_lib\<close>).
\<close>

section \<open>Sealing references\<close>

text \<open>
  The age library: recipients and identities are the texts they were parsed from; opening
  fails at once (the wrong identity) or while the plaintext is read.
\<close>

record age =
  age_ParseRecipient :: "string \<Rightarrow> (string, string) result"
  age_ParseIdentity :: "string \<Rightarrow> (string, string) result"
  age_Encrypt :: "string \<Rightarrow> string \<Rightarrow> (string, string) result"
  age_Decrypt :: "string \<Rightarrow> string \<Rightarrow> (string, (string, string) result) result"

datatype recovery_error = ErrDecrypt string | ReadError string

definition ParseRecipient :: "age \<Rightarrow> string \<Rightarrow> (string, string) result" where
  "ParseRecipient ag s =
     (case age_ParseRecipient ag s of
        Inl e \<Rightarrow> Inl (''recovery recipient must be an age X25519 recipient (age1...): '' @ e)
      | Inr r \<Rightarrow> Inr r)"

definition ParseIdentity :: "age \<Rightarrow> string \<Rightarrow> (string, string) result" where
  "ParseIdentity ag s =
     (case age_ParseIdentity ag (strings_TrimSpace s) of
        Inl e \<Rightarrow> Inl (''recovery identity must be an age X25519 identity (AGE-SECRET-KEY-1...): '' @ e)
      | Inr i \<Rightarrow> Inr i)"

definition recovery_Encrypt :: "age \<Rightarrow> string \<Rightarrow> string \<Rightarrow> (string, string) result" where
  "recovery_Encrypt ag recipient ref =
     (if ref = [] then Inr []
      else case age_Encrypt ag recipient ref of
             Inl e \<Rightarrow> Inl e
           | Inr buf \<Rightarrow> Inr (base64_EncodeToString StdEncoding buf))"

definition recovery_Decrypt :: "age \<Rightarrow> string \<Rightarrow> string \<Rightarrow> (recovery_error, string) result" where
  "recovery_Decrypt ag identity sealed =
     (if sealed = [] then Inr []
      else case base64_DecodeString StdEncoding sealed of
             None \<Rightarrow> Inl (ErrDecrypt ''not base64'')
           | Some raw \<Rightarrow>
               (case age_Decrypt ag identity raw of
                  Inl e \<Rightarrow> Inl (ErrDecrypt e)
                | Inr (Inl e) \<Rightarrow> Inl (ReadError e)
                | Inr (Inr out) \<Rightarrow> Inr out))"

section \<open>Key-bearing references\<close>

definition encRefHexLen :: nat where "encRefHexLen = 128"

definition keyBearing :: "string \<Rightarrow> bool" where
  "keyBearing ref \<longleftrightarrow> length ref = encRefHexLen \<and> hex_DecodeString ref \<noteq> None"

definition HasKeyBearingRefs :: "Object \<Rightarrow> bool" where
  "HasKeyBearingRefs ob \<longleftrightarrow> keyBearing (obj_SwarmRef ob) \<or> (\<exists>p \<in> set (obj_Parts ob). keyBearing (part_SwarmRef p))"

section \<open>Commit documents\<close>

definition CommitPath :: string where "CommitPath = ''.s3warm/commit''"
definition CommitVersion :: int where "CommitVersion = 2"

record Commit =
  cm_Version :: int
  cm_Bucket :: string
  cm_Seq :: int
  cm_Parent :: string
  cm_Timestamp :: gotime
  cm_Objects :: "Object list"
  cm_sealed :: int

record SealedPart =
  sp_PartNumber :: int
  sp_SwarmRef :: string
  sp_SealedRef :: string
  sp_Size :: int

record SSEDescriptor =
  sse_Kind :: string
  sse_SealedRef :: string
  sse_SealedParts :: "SealedPart list"

record wirePart =
  wp_PartNumber :: int
  wp_SwarmRef :: string
  wp_SealedRef :: string
  wp_Size :: int
  wp_ETag :: string
  wp_LastModified :: gotime
  wp_ActAt :: int
  wp_ActHistory :: string

record wireObject =
  wo_Bucket :: string
  wo_Key :: string
  wo_SwarmRef :: string
  wo_SealedRef :: string
  wo_BatchID :: string
  wo_Size :: int
  wo_ETag :: string
  wo_ContentType :: string
  wo_ContentEncoding :: string
  wo_StorageClass :: string
  wo_UserMetadata :: "(string, string) gomap"
  wo_LastModified :: gotime
  wo_ChecksumAlgorithm :: string
  wo_Checksum :: string
  wo_Encrypted :: bool
  wo_Tags :: string
  wo_ActAt :: int
  wo_ActHistory :: string
  wo_VersionID :: string
  wo_VSeq :: int
  wo_IsLatest :: bool
  wo_DeleteMarker :: bool
  wo_Parts :: "wirePart list"

record wireCommit =
  wc_Version :: int
  wc_Bucket :: string
  wc_Seq :: int
  wc_Parent :: string
  wc_Timestamp :: gotime
  wc_Objects :: "wireObject list"

fun mapM_result :: "('a \<Rightarrow> ('e, 'b) result) \<Rightarrow> 'a list \<Rightarrow> ('e, 'b list) result" where
  "mapM_result f [] = Inr []"
| "mapM_result f (x # xs) = rbind (f x) (\<lambda>y. rbind (mapM_result f xs) (\<lambda>ys. Inr (y # ys)))"

text \<open>
  \<open>seal\<close>: the reference of a key-bearing part or object is replaced by its sealed form.
  \<open>sealRef\<close> gives the pair (SwarmRef, SealedRef). A nil recipient, which the caller rules
  out, would make the age library panic; \<open>rec\<close> is then the empty text.
\<close>

definition sealRef :: "age \<Rightarrow> string \<Rightarrow> string \<Rightarrow> (string, string \<times> string) result" where
  "sealRef ag rec ref =
     (if keyBearing ref then rbind (recovery_Encrypt ag rec ref) (\<lambda>sealed. Inr ([], sealed)) else Inr (ref, []))"

definition sealPart :: "age \<Rightarrow> string \<Rightarrow> Part \<Rightarrow> (string, wirePart) result" where
  "sealPart ag rec p =
     rbind (sealRef ag rec (part_SwarmRef p)) (\<lambda>(ref, sealed).
     Inr \<lparr>wp_PartNumber = part_PartNumber p, wp_SwarmRef = ref, wp_SealedRef = sealed, wp_Size = part_Size p,
          wp_ETag = part_ETag p, wp_LastModified = part_LastModified p, wp_ActAt = part_ActAt p,
          wp_ActHistory = part_ActHistory p\<rparr>)"

definition seal :: "age \<Rightarrow> string \<Rightarrow> Object \<Rightarrow> (string, wireObject) result" where
  "seal ag rec ob =
     rbind (mapM_result (sealPart ag rec) (obj_Parts ob)) (\<lambda>parts.
     rbind (sealRef ag rec (obj_SwarmRef ob)) (\<lambda>(ref, sealed).
     Inr \<lparr>wo_Bucket = obj_Bucket ob, wo_Key = obj_Key ob, wo_SwarmRef = ref, wo_SealedRef = sealed,
          wo_BatchID = obj_BatchID ob, wo_Size = obj_Size ob, wo_ETag = obj_ETag ob, wo_ContentType = obj_ContentType ob,
          wo_ContentEncoding = obj_ContentEncoding ob, wo_StorageClass = obj_StorageClass ob,
          wo_UserMetadata = obj_UserMetadata ob, wo_LastModified = obj_LastModified ob,
          wo_ChecksumAlgorithm = obj_ChecksumAlgorithm ob, wo_Checksum = obj_Checksum ob, wo_Encrypted = obj_Encrypted ob,
          wo_Tags = obj_Tags ob, wo_ActAt = obj_ActAt ob, wo_ActHistory = obj_ActHistory ob,
          wo_VersionID = obj_VersionID ob, wo_VSeq = obj_VSeq ob, wo_IsLatest = obj_IsLatest ob,
          wo_DeleteMarker = obj_DeleteMarker ob, wo_Parts = parts\<rparr>))"

text \<open>
  \<open>open\<close>: without an identity a sealed reference stays empty and the row counts as sealed.
  \<open>openRef\<close> gives the reference and whether it stayed sealed.
\<close>

definition openRef :: "age \<Rightarrow> string option \<Rightarrow> string \<Rightarrow> string \<Rightarrow> (recovery_error, string \<times> bool) result" where
  "openRef ag ident ref sealed =
     (if sealed \<noteq> [] then
        (case ident of
           None \<Rightarrow> Inr (ref, True)
         | Some i \<Rightarrow> rbind (recovery_Decrypt ag i sealed) (\<lambda>ref. Inr (ref, False)))
      else Inr (ref, False))"

definition openPart :: "age \<Rightarrow> string option \<Rightarrow> wirePart \<Rightarrow> (recovery_error, Part \<times> bool) result" where
  "openPart ag ident wp =
     rbind (openRef ag ident (wp_SwarmRef wp) (wp_SealedRef wp)) (\<lambda>(ref, sealed).
     Inr (\<lparr>part_PartNumber = wp_PartNumber wp, part_SwarmRef = ref, part_Size = wp_Size wp, part_ETag = wp_ETag wp,
           part_LastModified = wp_LastModified wp, part_ActAt = wp_ActAt wp, part_ActHistory = wp_ActHistory wp\<rparr>, sealed))"

definition openObject :: "age \<Rightarrow> string option \<Rightarrow> wireObject \<Rightarrow> (recovery_error, Object \<times> bool) result" where
  "openObject ag ident w =
     rbind (mapM_result (openPart ag ident) (wo_Parts w)) (\<lambda>parts.
     rbind (openRef ag ident (wo_SwarmRef w) (wo_SealedRef w)) (\<lambda>(ref, sealed).
     Inr (\<lparr>obj_Bucket = wo_Bucket w, obj_Key = wo_Key w, obj_SwarmRef = ref, obj_BatchID = wo_BatchID w,
           obj_Size = wo_Size w, obj_ETag = wo_ETag w, obj_ContentType = wo_ContentType w,
           obj_ContentEncoding = wo_ContentEncoding w, obj_StorageClass = wo_StorageClass w,
           obj_UserMetadata = wo_UserMetadata w, obj_LastModified = wo_LastModified w,
           obj_ChecksumAlgorithm = wo_ChecksumAlgorithm w, obj_Checksum = wo_Checksum w, obj_Encrypted = wo_Encrypted w,
           obj_Tags = wo_Tags w, obj_ActAt = wo_ActAt w, obj_ActHistory = wo_ActHistory w, obj_VersionID = wo_VersionID w,
           obj_VSeq = wo_VSeq w, obj_IsLatest = wo_IsLatest w, obj_DeleteMarker = wo_DeleteMarker w,
           obj_Parts = map fst parts\<rparr>, sealed \<or> (\<exists>q \<in> set parts. snd q))))"

section \<open>The library below\<close>

text \<open>
  A mantaray manifest under construction is the list of its forks (path, entry, metadata) in
  the order they were added. Adding can fail, saving gives the root reference, and a lookup
  resolves a path under a root. JSON encodings can fail.
\<close>

type_synonym fork = "string \<times> string \<times> (string, string) gomap"

record manifest_lib =
  ml_age :: age
  ml_Add :: "fork list \<Rightarrow> fork \<Rightarrow> string option"
  ml_Save :: "fork list \<Rightarrow> (bee_error, string) result"
  ml_Lookup :: "string \<Rightarrow> string \<Rightarrow> (bee_error, string) result"
  ml_encCommit :: "wireCommit \<Rightarrow> (string, string) result"
  ml_decCommit :: "string \<Rightarrow> (string, wireCommit) result"
  ml_encSSE :: "SSEDescriptor \<Rightarrow> (string, string) result"
  ml_encComposite :: "Part list \<Rightarrow> (string, string) result"
  ml_bee :: Client

datatype manifest_error =
    ErrACTBucket
  | ErrNoRecoveryRecipient
  | ErrCommitVersion int
  | RecoveryError recovery_error
  | BeeError bee_error
  | StoreError store_error
  | CommitError string

record LoadSaver =
  ls_bee :: Client
  ls_batch :: string
  ls_deferred :: bool

definition LoadSaver_Save :: "LoadSaver \<Rightarrow> string \<Rightarrow> (manifest_error, string) result" where
  "LoadSaver_Save ls data =
     (case UploadBytes (ls_bee ls) data False
             \<lparr>uo_BatchID = ls_batch ls, uo_Encrypt = False, uo_RedundancyLevel = 0, uo_Deferred = ls_deferred ls,
              uo_ContentLength = int (length data), uo_Act = False, uo_ActHistory = []\<rparr> of
        Inl e \<Rightarrow> Inl (BeeError e)
      | Inr (ref, _) \<Rightarrow> (case hex_DecodeString ref of None \<Rightarrow> Inl (CommitError ''encoding/hex: invalid reference'') | Some b \<Rightarrow> Inr b))"

definition LoadSaver_Load :: "LoadSaver \<Rightarrow> string \<Rightarrow> (manifest_error, string) result" where
  "LoadSaver_Load ls ref =
     (case DownloadBytes (ls_bee ls) (hex_EncodeToString ref)
             \<lparr>do_Range = [], do_Strategy = [], do_FallbackMode = [], do_ActHistory = [], do_ActPublisher = [], do_ActTimestamp = 0\<rparr> of
        Inl e \<Rightarrow> Inl (BeeError e)
      | Inr resp \<Rightarrow> if hp_Broken resp then Inl (CommitError ''read error'') else Inr (hp_Body resp))"

section \<open>Building a manifest\<close>

text \<open>
  What a build hands to the node: the documents it saves and the forks of the manifest. The
  definitions below return the documents beside their result, in the order they are sent.
  The texts of errors are without the prefixes that name the object.
\<close>

datatype saved_doc = DocCommit wireCommit | DocSSE SSEDescriptor | DocComposite "Part list"

fun encodeDoc :: "manifest_lib \<Rightarrow> saved_doc \<Rightarrow> (string, string) result" where
  "encodeDoc lib (DocCommit w) = ml_encCommit lib w"
| "encodeDoc lib (DocSSE d) = ml_encSSE lib d"
| "encodeDoc lib (DocComposite ps) = ml_encComposite lib ps"

definition saveDoc :: "manifest_lib \<Rightarrow> LoadSaver \<Rightarrow> saved_doc \<Rightarrow> (manifest_error, string) result \<times> saved_doc list" where
  "saveDoc lib ls doc =
     (case encodeDoc lib doc of
        Inl e \<Rightarrow> (Inl (CommitError e), [])
      | Inr data \<Rightarrow> (LoadSaver_Save ls data, [doc]))"

definition liftErr :: "('e \<Rightarrow> 'f) \<Rightarrow> ('e, 'a) result \<Rightarrow> ('f, 'a) result" where
  "liftErr f r = (case r of Inl e \<Rightarrow> Inl (f e) | Inr x \<Rightarrow> Inr x)"

definition sealedPart :: "age \<Rightarrow> string \<Rightarrow> Part \<Rightarrow> (string, SealedPart) result" where
  "sealedPart ag rec p =
     rbind (sealRef ag rec (part_SwarmRef p)) (\<lambda>(ref, sealed).
     Inr \<lparr>sp_PartNumber = part_PartNumber p, sp_SwarmRef = ref, sp_SealedRef = sealed, sp_Size = part_Size p\<rparr>)"

definition sseDescriptor :: "age \<Rightarrow> string \<Rightarrow> Object \<Rightarrow> (string, SSEDescriptor) result" where
  "sseDescriptor ag rec ob =
     rbind (if keyBearing (obj_SwarmRef ob) then recovery_Encrypt ag rec (obj_SwarmRef ob) else Inr []) (\<lambda>sealed.
     rbind (mapM_result (sealedPart ag rec) (obj_Parts ob)) (\<lambda>parts.
     Inr \<lparr>sse_Kind = ''sse/1'', sse_SealedRef = sealed, sse_SealedParts = parts\<rparr>))"

text \<open>The entry and metadata of an object's fork; \<open>None\<close> for an object without bytes.\<close>

definition entryFor ::
  "manifest_lib \<Rightarrow> LoadSaver \<Rightarrow> Object \<Rightarrow> string \<Rightarrow>
     (manifest_error, (string \<times> (string, string) gomap) option) result \<times> saved_doc list" where
  "entryFor lib ls ob rec =
     (let meta = (if obj_ContentType ob \<noteq> [] then [(''Content-Type'', obj_ContentType ob)] else []) in
      if HasKeyBearingRefs ob then
        (case sseDescriptor (ml_age lib) rec ob of
           Inl e \<Rightarrow> (Inl (CommitError e), [])
         | Inr d \<Rightarrow>
             (case saveDoc lib ls (DocSSE d) of
                (Inl e, docs) \<Rightarrow> (Inl e, docs)
              | (Inr ref, docs) \<Rightarrow>
                  (Inr (Some (ref, gm_put ''s3warm-sse'' ''1'' (gm_put ''Content-Type'' ''application/json'' meta))), docs)))
      else if obj_Parts ob \<noteq> [] then
        (case saveDoc lib ls (DocComposite (obj_Parts ob)) of
           (Inl e, docs) \<Rightarrow> (Inl e, docs)
         | (Inr ref, docs) \<Rightarrow>
             (Inr (Some (ref, gm_put ''s3warm-composite'' ''1'' (gm_put ''Content-Type'' ''application/json'' meta))), docs))
      else if obj_SwarmRef ob = [] then (Inr None, [])
      else (case hex_DecodeString (obj_SwarmRef ob) of
              None \<Rightarrow> (Inl (CommitError ''encoding/hex: invalid reference''), [])
            | Some ref \<Rightarrow> (Inr (Some (ref, meta)), [])))"

fun addForks ::
  "manifest_lib \<Rightarrow> LoadSaver \<Rightarrow> string option \<Rightarrow> fork list \<Rightarrow> Object list \<Rightarrow>
     (manifest_error, fork list) result \<times> saved_doc list" where
  "addForks lib ls rec forks [] = (Inr forks, [])"
| "addForks lib ls rec forks (ob # obs) =
     (if HasKeyBearingRefs ob \<and> rec = None then (Inl ErrNoRecoveryRecipient, [])
      else
      (case entryFor lib ls ob (case rec of Some r \<Rightarrow> r | None \<Rightarrow> []) of
         (Inl e, docs) \<Rightarrow> (Inl e, docs)
       | (Inr None, docs) \<Rightarrow> (case addForks lib ls rec forks obs of (res, docs') \<Rightarrow> (res, docs @ docs'))
       | (Inr (Some (entry, meta)), docs) \<Rightarrow>
           (case ml_Add lib forks (obj_Key ob, entry, meta) of
              Some e \<Rightarrow> (Inl (CommitError e), docs)
            | None \<Rightarrow>
                (case addForks lib ls rec (forks @ [(obj_Key ob, entry, meta)]) obs of (res, docs') \<Rightarrow> (res, docs @ docs')))))"

record built =
  bu_Result :: "(manifest_error, string) result"
  bu_Docs :: "saved_doc list"
  bu_Forks :: "fork list"

text \<open>The commit document, its fork and the root.\<close>

definition commitFork :: "string \<Rightarrow> fork" where
  "commitFork docRef = (CommitPath, docRef, [(''Content-Type'', ''application/json''), (''s3warm'', ''commit/2'')])"

definition wireOf :: "Commit \<Rightarrow> wireObject list \<Rightarrow> wireCommit" where
  "wireOf c objects = \<lparr>wc_Version = cm_Version c, wc_Bucket = cm_Bucket c, wc_Seq = cm_Seq c, wc_Parent = cm_Parent c,
     wc_Timestamp = cm_Timestamp c, wc_Objects = objects\<rparr>"

definition Build :: "manifest_lib \<Rightarrow> LoadSaver \<Rightarrow> Commit \<Rightarrow> string option \<Rightarrow> built" where
  "Build lib ls c rec =
     (case addForks lib ls rec [] (cm_Objects c) of
        (Inl e, docs) \<Rightarrow> \<lparr>bu_Result = Inl e, bu_Docs = docs, bu_Forks = []\<rparr>
      | (Inr forks, docs) \<Rightarrow>
          (case mapM_result (seal (ml_age lib) (case rec of Some r \<Rightarrow> r | None \<Rightarrow> [])) (cm_Objects c) of
             Inl e \<Rightarrow> \<lparr>bu_Result = Inl (CommitError e), bu_Docs = docs, bu_Forks = []\<rparr>
           | Inr objects \<Rightarrow>
               (case saveDoc lib ls (DocCommit (wireOf c objects)) of
                  (Inl e, docs') \<Rightarrow> \<lparr>bu_Result = Inl e, bu_Docs = docs @ docs', bu_Forks = []\<rparr>
                | (Inr docRef, docs') \<Rightarrow>
                    (case ml_Add lib forks (commitFork docRef) of
                       Some e \<Rightarrow> \<lparr>bu_Result = Inl (CommitError e), bu_Docs = docs @ docs', bu_Forks = []\<rparr>
                     | None \<Rightarrow>
                         \<lparr>bu_Result = (case ml_Save lib (forks @ [commitFork docRef]) of
                            Inl e \<Rightarrow> Inl (BeeError e) | Inr rt \<Rightarrow> Inr (hex_EncodeToString rt)),
                          bu_Docs = docs @ docs', bu_Forks = forks @ [commitFork docRef]\<rparr>))))"

definition GetCommit :: "manifest_lib \<Rightarrow> LoadSaver \<Rightarrow> string \<Rightarrow> string option \<Rightarrow> (manifest_error, Commit) result" where
  "GetCommit lib ls rootHex ident =
     (case hex_DecodeString rootHex of
        None \<Rightarrow> Inl (CommitError ''malformed root'')
      | Some ref \<Rightarrow>
          rbind (liftErr BeeError (ml_Lookup lib ref CommitPath)) (\<lambda>entry.
          rbind (LoadSaver_Load ls entry) (\<lambda>data.
          rbind (liftErr CommitError (ml_decCommit lib data)) (\<lambda>w.
          if wc_Version w < 1 \<or> CommitVersion < wc_Version w then Inl (ErrCommitVersion (wc_Version w))
          else
          rbind (liftErr RecoveryError (mapM_result (openObject (ml_age lib) ident) (wc_Objects w))) (\<lambda>opened.
          Inr \<lparr>cm_Version = wc_Version w, cm_Bucket = wc_Bucket w, cm_Seq = wc_Seq w, cm_Parent = wc_Parent w,
               cm_Timestamp = wc_Timestamp w, cm_Objects = map fst opened,
               cm_sealed = int (length (filter snd opened))\<rparr>)))))"

definition SealedCount :: "Commit \<Rightarrow> int" where
  "SealedCount c = cm_sealed c"

section \<open>Properties\<close>

text \<open>The references a document shows in the clear.\<close>

fun docRefs :: "saved_doc \<Rightarrow> string set" where
  "docRefs (DocCommit w) =
     (\<Union>ob \<in> set (wc_Objects w). insert (wo_SwarmRef ob) (wp_SwarmRef ` set (wo_Parts ob)))"
| "docRefs (DocSSE d) = sp_SwarmRef ` set (sse_SealedParts d)"
| "docRefs (DocComposite ps) = part_SwarmRef ` set ps"

lemma mapM_result_set:
  "mapM_result f xs = Inr ys \<Longrightarrow> y \<in> set ys \<Longrightarrow> \<exists>x \<in> set xs. f x = Inr y"
  by (induction xs arbitrary: ys) (auto simp: rbind_Inr_iff)

lemma sealRef_clear: "sealRef ag rec ref = Inr (r, s) \<Longrightarrow> \<not> keyBearing r"
  by (auto simp: sealRef_def rbind_Inr_iff keyBearing_def encRefHexLen_def split: if_splits)

lemma seal_clear:
  assumes "seal ag rec ob = Inr w"
  shows "\<not> keyBearing (wo_SwarmRef w) \<and> (\<forall>p \<in> set (wo_Parts w). \<not> keyBearing (wp_SwarmRef p))"
  using assms
  by (fastforce simp: seal_def sealPart_def rbind_Inr_iff dest!: mapM_result_set dest: sealRef_clear split: prod.splits)

lemma sseDescriptor_clear:
  "sseDescriptor ag rec ob = Inr d \<Longrightarrow> p \<in> set (sse_SealedParts d) \<Longrightarrow> \<not> keyBearing (sp_SwarmRef p)"
  by (fastforce simp: sseDescriptor_def sealedPart_def rbind_Inr_iff dest!: mapM_result_set dest: sealRef_clear split: prod.splits)

lemma saveDoc_docs: "saveDoc lib ls doc = (res, docs) \<Longrightarrow> set docs \<subseteq> {doc}"
  by (auto simp: saveDoc_def split: sum.splits)

text \<open>A fork's entry is the reference of a document of the build or a reference that bears no key.\<close>

definition fork_ok :: "manifest_lib \<Rightarrow> LoadSaver \<Rightarrow> saved_doc list \<Rightarrow> fork \<Rightarrow> bool" where
  "fork_ok lib ls docs f \<longleftrightarrow>
     (\<exists>doc \<in> set docs. \<exists>data. encodeDoc lib doc = Inr data \<and> LoadSaver_Save ls data = Inr (fst (snd f))) \<or>
     \<not> keyBearing (hex_EncodeToString (fst (snd f)))"

lemma entryFor_clear:
  assumes "entryFor lib ls ob rec = (res, docs)"
  shows "(\<forall>doc \<in> set docs. \<forall>r \<in> docRefs doc. \<not> keyBearing r) \<and>
    (\<forall>e m k. res = Inr (Some (e, m)) \<longrightarrow> fork_ok lib ls docs (k, e, m))"
proof -
  have saved: "fork_ok lib ls ds (k, e, m)" if "saveDoc lib ls doc = (Inr e, ds)" for doc e ds k m
    using that by (auto simp: saveDoc_def fork_ok_def split: sum.splits)
  consider (sse) d where "HasKeyBearingRefs ob" "sseDescriptor (ml_age lib) rec ob = Inr d"
    | (fail) e where "HasKeyBearingRefs ob" "sseDescriptor (ml_age lib) rec ob = Inl e"
    | (composite) "\<not> HasKeyBearingRefs ob" "obj_Parts ob \<noteq> []"
    | (plain) "\<not> HasKeyBearingRefs ob" "obj_Parts ob = []"
    by (cases "sseDescriptor (ml_age lib) rec ob") auto
  then show ?thesis
  proof cases
    case sse
    obtain r ds where sd: "saveDoc lib ls (DocSSE d) = (r, ds)" by (cases "saveDoc lib ls (DocSSE d)") auto
    have "docs = ds" using assms sse sd by (auto simp: entryFor_def Let_def split: sum.splits)
    then have "doc = DocSSE d" if "doc \<in> set docs" for doc using saveDoc_docs [OF sd] that by auto
    then have "\<forall>doc \<in> set docs. \<forall>r \<in> docRefs doc. \<not> keyBearing r"
      using sseDescriptor_clear [OF sse(2)] by fastforce
    moreover have "r = Inr e" if "res = Inr (Some (e, m))" for e m
      using assms sse sd that by (auto simp: entryFor_def Let_def split: sum.splits)
    then have "fork_ok lib ls docs (k, e, m)" if "res = Inr (Some (e, m))" for e m k
      using saved [of _ e ds k m] sd \<open>docs = ds\<close> that by simp
    ultimately show ?thesis by simp
  next
    case fail
    with assms show ?thesis by (auto simp: entryFor_def Let_def)
  next
    case composite
    obtain r ds where sd: "saveDoc lib ls (DocComposite (obj_Parts ob)) = (r, ds)"
      by (cases "saveDoc lib ls (DocComposite (obj_Parts ob))") auto
    have "docs = ds" using assms composite sd by (auto simp: entryFor_def Let_def split: sum.splits)
    then have "doc = DocComposite (obj_Parts ob)" if "doc \<in> set docs" for doc using saveDoc_docs [OF sd] that by auto
    then have "\<forall>doc \<in> set docs. \<forall>r \<in> docRefs doc. \<not> keyBearing r"
      using composite(1) by (fastforce simp: HasKeyBearingRefs_def)
    moreover have "r = Inr e" if "res = Inr (Some (e, m))" for e m
      using assms composite sd that by (auto simp: entryFor_def Let_def split: sum.splits)
    then have "fork_ok lib ls docs (k, e, m)" if "res = Inr (Some (e, m))" for e m k
      using saved [of _ e ds k m] sd \<open>docs = ds\<close> that by simp
    ultimately show ?thesis by simp
  next
    case plain
    have "docs = []" using assms plain by (auto simp: entryFor_def Let_def split: if_splits option.splits)
    moreover have "\<not> keyBearing (hex_EncodeToString e)" if "res = Inr (Some (e, m))" for e m
    proof -
      have "hex_DecodeString (obj_SwarmRef ob) = Some e"
        using assms plain that by (auto simp: entryFor_def Let_def split: if_splits option.splits)
      with hex_Decode_length [OF this] plain(1) show ?thesis
        by (auto simp: HasKeyBearingRefs_def keyBearing_def)
    qed
    ultimately show ?thesis by (simp add: fork_ok_def)
  qed
qed

lemma fork_ok_mono: "fork_ok lib ls docs f \<Longrightarrow> set docs \<subseteq> set docs' \<Longrightarrow> fork_ok lib ls docs' f"
  by (auto simp: fork_ok_def)

lemma addForks_clear:
  assumes "addForks lib ls rec forks obs = (res, docs)" and "\<forall>f \<in> set forks. fork_ok lib ls ds0 f"
  shows "(\<forall>doc \<in> set docs. \<forall>r \<in> docRefs doc. \<not> keyBearing r) \<and>
    (\<forall>fs. res = Inr fs \<longrightarrow> (\<forall>f \<in> set fs. fork_ok lib ls (ds0 @ docs) f))"
  using assms
proof (induction lib ls rec forks obs arbitrary: res docs ds0 rule: addForks.induct)
  case (1 lib ls rec forks)
  then have "res = Inr forks" "docs = []" by simp_all
  with 1 show ?case by simp
next
  case (2 lib ls rec forks ob obs)
  let ?rec = "case rec of Some r \<Rightarrow> r | None \<Rightarrow> []"
  obtain eres edocs where ef: "entryFor lib ls ob ?rec = (eres, edocs)" by (cases "entryFor lib ls ob ?rec") auto
  note clear = conjunct1 [OF entryFor_clear [OF ef]] and entry_ok = conjunct2 [OF entryFor_clear [OF ef]]
  show ?case
  proof (cases "HasKeyBearingRefs ob \<and> rec = None")
    case True
    have "res = Inl ErrNoRecoveryRecipient" "docs = []"
      using "2.prems"(1) unfolding addForks.simps if_P [OF True] by simp_all
    then show ?thesis by simp
  next
    case False
    show ?thesis
    proof (cases eres)
      case (Inl e)
      have "res = Inl e" "docs = edocs"
        using "2.prems"(1) unfolding addForks.simps if_not_P [OF False] ef Inl by simp_all
      with clear show ?thesis by simp
    next
      case (Inr en)
      show ?thesis
      proof (cases en)
        case None
        obtain r d where rd: "addForks lib ls rec forks obs = (r, d)" by (cases "addForks lib ls rec forks obs") auto
        have eq: "res = r" "docs = edocs @ d"
          using "2.prems"(1) unfolding addForks.simps if_not_P [OF False] ef Inr None by (simp_all add: rd)
        have fk: "\<forall>f \<in> set forks. fork_ok lib ls (ds0 @ edocs) f"
          using "2.prems"(2) fork_ok_mono [of lib ls ds0 _ "ds0 @ edocs"] by simp
        from "2.IH"(1) [OF False ef [symmetric] Inr None rd fk] clear show ?thesis by (simp add: eq ball_Un)
      next
        case (Some em)
        obtain entry meta where em: "em = (entry, meta)" by (cases em)
        let ?f = "(obj_Key ob, entry, meta)"
        show ?thesis
        proof (cases "ml_Add lib forks ?f")
          case add: (Some e)
          have "res = Inl (CommitError e)" "docs = edocs"
            using "2.prems"(1) unfolding addForks.simps if_not_P [OF False] ef Inr Some em by (simp_all add: add)
          with clear show ?thesis by simp
        next
          case add: None
          obtain r d where rd: "addForks lib ls rec (forks @ [?f]) obs = (r, d)" by (cases "addForks lib ls rec (forks @ [?f]) obs") auto
          have eq: "res = r" "docs = edocs @ d"
            using "2.prems"(1) unfolding addForks.simps if_not_P [OF False] ef Inr Some em by (simp_all add: add rd)
          have fk: "\<forall>f \<in> set (forks @ [?f]). fork_ok lib ls (ds0 @ edocs) f"
          proof
            fix f assume "f \<in> set (forks @ [?f])"
            then consider "f \<in> set forks" | "f = ?f" by auto
            then show "fork_ok lib ls (ds0 @ edocs) f"
            proof cases
              case 1
              with "2.prems"(2) have "fork_ok lib ls ds0 f" by blast
              then show ?thesis by (rule fork_ok_mono) simp
            next
              case 2
              have "fork_ok lib ls edocs ?f" using entry_ok Inr Some em by simp
              then show ?thesis unfolding 2 by (rule fork_ok_mono) simp
            qed
          qed
          from "2.IH"(2) [OF False ef [symmetric] Inr Some em [symmetric] add rd fk] clear show ?thesis by (simp add: eq ball_Un)
        qed
      qed
    qed
  qed
qed

lemma addForks_no_recipient:
  "\<exists>ob \<in> set obs. HasKeyBearingRefs ob \<Longrightarrow> \<exists>e. fst (addForks lib ls None forks obs) = Inl e"
proof (induction obs arbitrary: forks)
  case (Cons ob obs)
  show ?case
  proof (cases "HasKeyBearingRefs ob")
    case False
    with Cons have IH: "\<exists>e. fst (addForks lib ls None fs obs) = Inl e" for fs by simp
    show ?thesis
      using False IH [of forks] IH [of "forks @ [_]"]
      by (auto split: prod.split sum.split option.split) (metis fst_conv)+
  qed simp
qed simp

text \<open>C13.
  A commit publishes no decryption key. Whatever happens during a build, no document it hands
  to the node shows a key-bearing reference in the clear, and every fork of the manifest it
  saves points to such a document or to a reference without a key. When the bucket holds a
  key-bearing reference and there is no recovery recipient, no manifest is saved at all.
\<close>

theorem build_publishes_no_keys:
  "(\<forall>doc \<in> set (bu_Docs (Build lib ls c rec)). \<forall>r \<in> docRefs doc. \<not> keyBearing r) \<and>
   (\<forall>f \<in> set (bu_Forks (Build lib ls c rec)). fork_ok lib ls (bu_Docs (Build lib ls c rec)) f) \<and>
   (rec = None \<and> (\<exists>ob \<in> set (cm_Objects c). HasKeyBearingRefs ob) \<longrightarrow>
      bu_Forks (Build lib ls c rec) = [] \<and> (\<exists>e. bu_Result (Build lib ls c rec) = Inl e))"
proof -
  let ?rec = "case rec of Some r \<Rightarrow> r | None \<Rightarrow> []"
  obtain r d where rd: "addForks lib ls rec [] (cm_Objects c) = (r, d)" by (cases "addForks lib ls rec [] (cm_Objects c)") auto
  have clear: "\<forall>doc \<in> set d. \<forall>r \<in> docRefs doc. \<not> keyBearing r"
    and forks: "\<And>fs f. r = Inr fs \<Longrightarrow> f \<in> set fs \<Longrightarrow> fork_ok lib ls d f"
    using addForks_clear [OF rd, of "[]"] by auto
  have nokey: "\<exists>e. r = Inl e" if "rec = None" "\<exists>ob \<in> set (cm_Objects c). HasKeyBearingRefs ob"
    using addForks_no_recipient [OF that(2), of lib ls "[]"] that(1) rd by (auto split: sum.splits)
  show ?thesis
  proof (cases r)
    case (Inl e)
    then have B: "Build lib ls c rec = \<lparr>bu_Result = Inl e, bu_Docs = d, bu_Forks = []\<rparr>" by (simp add: Build_def rd)
    show ?thesis unfolding B using clear by simp
  next
    case (Inr fs)
    show ?thesis
    proof (cases "mapM_result (seal (ml_age lib) ?rec) (cm_Objects c)")
      case (Inl e)
      then have B: "Build lib ls c rec = \<lparr>bu_Result = Inl (CommitError e), bu_Docs = d, bu_Forks = []\<rparr>"
        using \<open>r = Inr fs\<close> by (simp add: Build_def rd)
      show ?thesis unfolding B using clear by simp
    next
      case objs: (Inr objects)
      let ?doc = "DocCommit (wireOf c objects)"
      obtain sr sd where sd: "saveDoc lib ls ?doc = (sr, sd)" by (cases "saveDoc lib ls ?doc") auto
      have "\<not> keyBearing x" if "x \<in> docRefs ?doc" for x
        using that objs by (auto simp: wireOf_def dest!: mapM_result_set dest: seal_clear)
      then have docs: "\<forall>doc \<in> set (d @ sd). \<forall>r \<in> docRefs doc. \<not> keyBearing r"
        using clear saveDoc_docs [OF sd] by (auto simp del: docRefs.simps)
      have "fork_ok lib ls (d @ sd) f" if "f \<in> set fs" for f
        using forks [OF Inr that] by (rule fork_ok_mono) simp
      moreover have "fork_ok lib ls (d @ sd) (commitFork ref)" if "sr = Inr ref" for ref
        using sd that by (auto simp: saveDoc_def fork_ok_def commitFork_def split: sum.splits)
      ultimately show ?thesis
        using docs Inr objs nokey by (auto simp: Build_def rd sd split: sum.splits option.splits)
    qed
  qed
qed

section \<open>Reading a commit back\<close>

text \<open>
  What the round trip relies on: an identity opens what its recipient sealed, and a sealed
  text is not empty; JSON documents decode to what was encoded; the node returns the bytes
  it accepted under the hexadecimal reference it gave; a manifest resolves the path that was
  added last.
\<close>

definition age_opens :: "age \<Rightarrow> string \<Rightarrow> string \<Rightarrow> bool" where
  "age_opens ag rec ident \<longleftrightarrow>
     (\<forall>p buf. age_Encrypt ag rec p = Inr buf \<longrightarrow> buf \<noteq> [] \<and> age_Decrypt ag ident buf = Inr (Inr p))"

definition node_keeps :: "Client \<Rightarrow> bool" where
  "node_keeps cl \<longleftrightarrow>
     (\<forall>data opts ref hist. \<not> uo_Encrypt opts \<and> \<not> uo_Act opts \<and> UploadBytes cl data False opts = Inr (ref, hist) \<longrightarrow>
        (\<exists>b. ref = hex_EncodeToString b) \<and>
        (\<forall>dopts. do_Range dopts = [] \<longrightarrow> (\<exists>resp. DownloadBytes cl ref dopts = Inr resp \<and> hp_Body resp = data \<and> \<not> hp_Broken resp)))"

definition lib_ok :: "manifest_lib \<Rightarrow> bool" where
  "lib_ok lib \<longleftrightarrow>
     (\<forall>w data. ml_encCommit lib w = Inr data \<longrightarrow> ml_decCommit lib data = Inr w) \<and>
     (\<forall>fs p e m rt. ml_Save lib (fs @ [(p, e, m)]) = Inr rt \<longrightarrow> ml_Lookup lib rt p = Inr e)"

lemma Encode_not_Nil: "buf \<noteq> [] \<Longrightarrow> base64_EncodeToString StdEncoding buf \<noteq> []"
  using base64_Encode_Nil_iff by blast

lemma openRef_sealRef:
  assumes "keyBearing ref \<Longrightarrow> age_opens ag rec i" and "sealRef ag rec ref = Inr (r, s)"
  shows "openRef ag (Some i) r s = Inr (ref, False)"
proof (cases "keyBearing ref")
  case True
  then have ne: "ref \<noteq> []" by (auto simp: keyBearing_def encRefHexLen_def)
  obtain buf where buf: "age_Encrypt ag rec ref = Inr buf" "r = []" "s = base64_EncodeToString StdEncoding buf"
    using assms(2) True ne by (auto simp: sealRef_def recovery_Encrypt_def rbind_Inr_iff split: sum.splits)
  have "buf \<noteq> []" "age_Decrypt ag i buf = Inr (Inr ref)" using assms(1) [OF True] buf(1) by (auto simp: age_opens_def)
  then show ?thesis
    by (simp add: openRef_def recovery_Decrypt_def buf Encode_not_Nil base64_Decode_Encode rbind_def)
next
  case False
  then show ?thesis using assms(2) by (simp add: sealRef_def openRef_def)
qed

lemma openRef_sealRef_None:
  assumes "keyBearing ref \<Longrightarrow> age_opens ag rec i" and "sealRef ag rec ref = Inr (r, s)"
  shows "openRef ag None r s = Inr (if keyBearing ref then [] else ref, keyBearing ref)"
proof (cases "keyBearing ref")
  case True
  then have ne: "ref \<noteq> []" by (auto simp: keyBearing_def encRefHexLen_def)
  obtain buf where buf: "age_Encrypt ag rec ref = Inr buf" "r = []" "s = base64_EncodeToString StdEncoding buf"
    using assms(2) True ne by (auto simp: sealRef_def recovery_Encrypt_def rbind_Inr_iff split: sum.splits)
  then have "buf \<noteq> []" using assms(1) [OF True] by (auto simp: age_opens_def)
  then show ?thesis using True by (simp add: openRef_def buf Encode_not_Nil)
next
  case False
  then show ?thesis using assms(2) by (simp add: sealRef_def openRef_def)
qed

lemma openPart_sealPart:
  assumes "keyBearing (part_SwarmRef p) \<Longrightarrow> age_opens ag rec i" and "sealPart ag rec p = Inr w"
  shows "openPart ag (Some i) w = Inr (p, False)"
    and "openPart ag None w = Inr (p\<lparr>part_SwarmRef := if keyBearing (part_SwarmRef p) then [] else part_SwarmRef p\<rparr>,
           keyBearing (part_SwarmRef p))"
proof -
  obtain r s where rs: "sealRef ag rec (part_SwarmRef p) = Inr (r, s)"
    and w: "w = \<lparr>wp_PartNumber = part_PartNumber p, wp_SwarmRef = r, wp_SealedRef = s, wp_Size = part_Size p,
          wp_ETag = part_ETag p, wp_LastModified = part_LastModified p, wp_ActAt = part_ActAt p,
          wp_ActHistory = part_ActHistory p\<rparr>"
    using assms(2) by (auto simp: sealPart_def rbind_Inr_iff split: prod.splits)
  show "openPart ag (Some i) w = Inr (p, False)"
    using openRef_sealRef [OF assms(1) rs] by (simp add: w openPart_def rbind_def)
  show "openPart ag None w = Inr (p\<lparr>part_SwarmRef := if keyBearing (part_SwarmRef p) then [] else part_SwarmRef p\<rparr>,
           keyBearing (part_SwarmRef p))"
    using openRef_sealRef_None [OF assms(1) rs] by (simp add: w openPart_def rbind_def)
qed

lemma mapM_result_compose:
  assumes "mapM_result f xs = Inr ys" and "\<And>x y. x \<in> set xs \<Longrightarrow> f x = Inr y \<Longrightarrow> g y = Inr (h x)"
  shows "mapM_result g ys = Inr (map h xs)"
  using assms by (induction xs arbitrary: ys) (auto simp: rbind_Inr_iff)

text \<open>An object without its key-bearing references.\<close>

definition blankRefs :: "Object \<Rightarrow> Object" where
  "blankRefs ob = ob\<lparr>obj_SwarmRef := (if keyBearing (obj_SwarmRef ob) then [] else obj_SwarmRef ob),
     obj_Parts := map (\<lambda>p. p\<lparr>part_SwarmRef := if keyBearing (part_SwarmRef p) then [] else part_SwarmRef p\<rparr>) (obj_Parts ob)\<rparr>"

lemma openObject_seal:
  assumes opens: "HasKeyBearingRefs ob \<Longrightarrow> age_opens ag rec i" and "seal ag rec ob = Inr w"
  shows "openObject ag (Some i) w = Inr (ob, False)"
    and "openObject ag None w = Inr (blankRefs ob, HasKeyBearingRefs ob)"
proof -
  obtain parts r s where parts: "mapM_result (sealPart ag rec) (obj_Parts ob) = Inr parts"
    and rs: "sealRef ag rec (obj_SwarmRef ob) = Inr (r, s)" and wp: "wo_Parts w = parts" "wo_SwarmRef w = r" "wo_SealedRef w = s"
    using assms(2) by (auto simp: seal_def rbind_Inr_iff split: prod.splits)
  have kb: "keyBearing (obj_SwarmRef ob) \<Longrightarrow> age_opens ag rec i" using opens by (simp add: HasKeyBearingRefs_def)
  have p1: "mapM_result (openPart ag (Some i)) parts = Inr (map (\<lambda>p. (p, False)) (obj_Parts ob))"
    by (rule mapM_result_compose [OF parts], rule openPart_sealPart(1)) (use opens in \<open>auto simp: HasKeyBearingRefs_def\<close>)
  have p2: "mapM_result (openPart ag None) parts =
      Inr (map (\<lambda>p. (p\<lparr>part_SwarmRef := if keyBearing (part_SwarmRef p) then [] else part_SwarmRef p\<rparr>,
           keyBearing (part_SwarmRef p))) (obj_Parts ob))"
    by (rule mapM_result_compose [OF parts], rule openPart_sealPart(2)) (use opens in \<open>auto simp: HasKeyBearingRefs_def\<close>)
  have w: "w = \<lparr>wo_Bucket = obj_Bucket ob, wo_Key = obj_Key ob, wo_SwarmRef = r, wo_SealedRef = s,
          wo_BatchID = obj_BatchID ob, wo_Size = obj_Size ob, wo_ETag = obj_ETag ob, wo_ContentType = obj_ContentType ob,
          wo_ContentEncoding = obj_ContentEncoding ob, wo_StorageClass = obj_StorageClass ob,
          wo_UserMetadata = obj_UserMetadata ob, wo_LastModified = obj_LastModified ob,
          wo_ChecksumAlgorithm = obj_ChecksumAlgorithm ob, wo_Checksum = obj_Checksum ob, wo_Encrypted = obj_Encrypted ob,
          wo_Tags = obj_Tags ob, wo_ActAt = obj_ActAt ob, wo_ActHistory = obj_ActHistory ob,
          wo_VersionID = obj_VersionID ob, wo_VSeq = obj_VSeq ob, wo_IsLatest = obj_IsLatest ob,
          wo_DeleteMarker = obj_DeleteMarker ob, wo_Parts = parts\<rparr>"
    using assms(2) parts rs by (simp add: seal_def rbind_def)
  show "openObject ag (Some i) w = Inr (ob, False)"
    using openRef_sealRef [OF kb rs] p1 by (simp add: w openObject_def rbind_def comp_def HasKeyBearingRefs_def)
  show "openObject ag None w = Inr (blankRefs ob, HasKeyBearingRefs ob)"
    using openRef_sealRef_None [OF kb rs] p2
    by (simp add: w openObject_def rbind_def comp_def blankRefs_def HasKeyBearingRefs_def) 
qed

lemma Load_Save:
  assumes "node_keeps (ls_bee ls)" and "LoadSaver_Save ls data = Inr ref" and "ls_bee ls' = ls_bee ls"
  shows "LoadSaver_Load ls' ref = Inr data"
proof -
  let ?opts = "\<lparr>uo_BatchID = ls_batch ls, uo_Encrypt = False, uo_RedundancyLevel = 0, uo_Deferred = ls_deferred ls,
              uo_ContentLength = int (length data), uo_Act = False, uo_ActHistory = []\<rparr>"
  obtain r h where up: "UploadBytes (ls_bee ls) data False ?opts = Inr (r, h)" and dec: "hex_DecodeString r = Some ref"
    using assms(2) by (auto simp: LoadSaver_Save_def split: sum.splits option.splits)
  obtain b where b: "r = hex_EncodeToString b"
    and get: "\<And>dopts. do_Range dopts = [] \<Longrightarrow> \<exists>resp. DownloadBytes (ls_bee ls) r dopts = Inr resp \<and> hp_Body resp = data \<and> \<not> hp_Broken resp"
    using assms(1) [unfolded node_keeps_def, rule_format, of ?opts data r h] up by auto
  have "hex_EncodeToString ref = r" using dec by (simp add: b hex_Decode_Encode)
  moreover obtain resp where "DownloadBytes (ls_bee ls) r \<lparr>do_Range = [], do_Strategy = [], do_FallbackMode = [],
      do_ActHistory = [], do_ActPublisher = [], do_ActTimestamp = 0\<rparr> = Inr resp" "hp_Body resp = data" "\<not> hp_Broken resp"
    using get [of "\<lparr>do_Range = [], do_Strategy = [], do_FallbackMode = [], do_ActHistory = [], do_ActPublisher = [], do_ActTimestamp = 0\<rparr>"]
    by auto
  ultimately show ?thesis by (simp add: LoadSaver_Load_def assms(3))
qed

text \<open>A build that succeeds without a recipient met no key-bearing reference.\<close>

lemma Build_no_recipient:
  "bu_Result (Build lib ls c None) = Inr rt \<Longrightarrow> ob \<in> set (cm_Objects c) \<Longrightarrow> \<not> HasKeyBearingRefs ob"
  using addForks_no_recipient [of "cm_Objects c" lib ls "[]"]
  by (cases "addForks lib ls None [] (cm_Objects c)") (fastforce simp: Build_def)

lemma Build_GetCommit:
  assumes "lib_ok lib" and "node_keeps (ls_bee ls)" and "ls_bee ls' = ls_bee ls"
    and opens: "\<And>r. rec = Some r \<Longrightarrow> age_opens (ml_age lib) r ident"
    and "cm_Version c = CommitVersion" and "cm_sealed c = 0" and built: "bu_Result (Build lib ls c rec) = Inr rt"
  shows "GetCommit lib ls' rt (Some ident) = Inr c"
    and "GetCommit lib ls' rt None = Inr (c\<lparr>cm_Objects := map blankRefs (cm_Objects c),
      cm_sealed := int (length (filter HasKeyBearingRefs (cm_Objects c)))\<rparr>)"
proof -
  let ?rec = "case rec of Some r \<Rightarrow> r | None \<Rightarrow> []"
  from built obtain forks d where af: "addForks lib ls rec [] (cm_Objects c) = (Inr forks, d)"
    by (cases "addForks lib ls rec [] (cm_Objects c)") (auto simp: Build_def split: sum.splits)
  from built af obtain objects where objs: "mapM_result (seal (ml_age lib) ?rec) (cm_Objects c) = Inr objects"
    by (auto simp: Build_def split: sum.splits)
  from built af objs obtain docRef d' where sd: "saveDoc lib ls (DocCommit (wireOf c objects)) = (Inr docRef, d')"
    by (cases "saveDoc lib ls (DocCommit (wireOf c objects))") (auto simp: Build_def split: sum.splits)
  obtain root' where sv: "ml_Save lib (forks @ [commitFork docRef]) = Inr root'" "rt = hex_EncodeToString root'"
    using built af objs sd by (auto simp: Build_def split: sum.splits option.splits)
  obtain data where enc: "ml_encCommit lib (wireOf c objects) = Inr data" and save: "LoadSaver_Save ls data = Inr docRef"
    using sd by (auto simp: saveDoc_def split: sum.splits)
  have look: "ml_Lookup lib root' CommitPath = Inr docRef"
    using assms(1) sv(1) by (auto simp: lib_ok_def commitFork_def)
  have load: "LoadSaver_Load ls' docRef = Inr data" by (rule Load_Save [OF assms(2) save assms(3)])
  have dec: "ml_decCommit lib data = Inr (wireOf c objects)" using assms(1) enc by (auto simp: lib_ok_def)
  have op: "age_opens (ml_age lib) ?rec ident" if "ob \<in> set (cm_Objects c)" "HasKeyBearingRefs ob" for ob
    using Build_no_recipient [of lib ls c rt ob] opens built that by (cases rec) auto
  have o1: "mapM_result (openObject (ml_age lib) (Some ident)) objects = Inr (map (\<lambda>ob. (ob, False)) (cm_Objects c))"
    by (rule mapM_result_compose [OF objs], rule openObject_seal(1)) (use op in auto)
  have o2: "mapM_result (openObject (ml_age lib) None) objects = Inr (map (\<lambda>ob. (blankRefs ob, HasKeyBearingRefs ob)) (cm_Objects c))"
    by (rule mapM_result_compose [OF objs], rule openObject_seal(2)) (use op in auto)
  note simps = GetCommit_def sv(2) hex_Decode_Encode look load dec rbind_def liftErr_def wireOf_def assms(5) CommitVersion_def
  show "GetCommit lib ls' rt (Some ident) = Inr c"
    using o1 assms(6) by (simp add: simps comp_def)
  show "GetCommit lib ls' rt None = Inr (c\<lparr>cm_Objects := map blankRefs (cm_Objects c),
      cm_sealed := int (length (filter HasKeyBearingRefs (cm_Objects c)))\<rparr>)"
    using o2 by (simp add: simps comp_def filter_map)
qed

text \<open>C23.
  A commit can be read back exactly. The commit document under the root a build returns gives,
  with the identity of the recovery recipient, the same bucket, sequence number, parent and
  objects, field by field; without an identity the same objects with their key-bearing
  references blanked, and the number of objects that are still sealed.
\<close>

theorem commit_roundtrip:
  assumes "lib_ok lib" and "node_keeps (ls_bee ls)" and "ls_bee ls' = ls_bee ls" and "age_opens (ml_age lib) rec ident"
    and "cm_Version c = CommitVersion" and "cm_sealed c = 0"
    and "bu_Result (Build lib ls c (Some rec)) = Inr rt"
  shows "GetCommit lib ls' rt (Some ident) = Inr c \<and>
    GetCommit lib ls' rt None = Inr (c\<lparr>cm_Objects := map blankRefs (cm_Objects c),
      cm_sealed := int (length (filter HasKeyBearingRefs (cm_Objects c)))\<rparr>)"
  using Build_GetCommit [OF assms(1-3) _ assms(5,6,7)] assms(4) by simp

end
