(* ===== verification/Committer.thy ===== *)
theory Committer
  imports Manifest
begin

text \<open>
The committer of \<open>manifest/committer.go\<close>, which writes the state of a bucket to Swarm as a chain
  of commits, and the feed publisher of \<open>manifest/feed.go\<close>. The bee client, the feed libraries and
  the clock are parameters; the commit loop is a tick with a time. The theorems show that a commit
  extends the chain by one and can be restored, and that every due bucket is attempted.
\<close>

section \<open>Listing a bucket page by page\<close>

text \<open>
  The loop \<open>for\<close> of \<open>CommitNow\<close> and of \<open>bucketHasKeyBearingRefs\<close>: pages of 1000 objects
  until one is short. The fuel bounds the number of pages; \<open>None\<close> is a loop that did not end.
\<close>

fun listAll ::
  "('s \<Rightarrow> string \<Rightarrow> string \<Rightarrow> string \<Rightarrow> int \<Rightarrow> (store_error, Object list) result) \<Rightarrow> 's \<Rightarrow> string \<Rightarrow> nat \<Rightarrow> string \<Rightarrow>
     (store_error, Object list) result option" where
  "listAll lo s bucket 0 after = None"
| "listAll lo s bucket (Suc fuel) after =
     (case lo s bucket [] after 1000 of
        Inl e \<Rightarrow> Some (Inl e)
      | Inr page \<Rightarrow>
          if length page < 1000 then Some (Inr page)
          else (case listAll lo s bucket fuel (obj_Key (last page)) of
                  None \<Rightarrow> None
                | Some (Inl e) \<Rightarrow> Some (Inl e)
                | Some (Inr rest) \<Rightarrow> Some (Inr (page @ rest))))"

context object_listing
begin

text \<open>One page more than the number of objects behind the cursor is fuel enough.\<close>

lemma listAll_total:
  assumes "inv s" and "live s n = Some obs" and "length (filter (\<lambda>ob. a < obj_Key ob) obs) < fuel"
  shows "listAll lo s n fuel a = Some (Inr (filter (\<lambda>ob. a < obj_Key ob) obs))"
  using assms(3)
proof (induction fuel arbitrary: a)
  case (Suc fuel)
  define R where "R = filter (\<lambda>ob. HasPrefix (obj_Key ob) [] \<and> a < obj_Key ob) obs"
  have R: "R = filter (\<lambda>ob. a < obj_Key ob) obs" by (simp add: R_def HasPrefix_def)
  have page: "lo s n [] a 1000 = Inr (take 1000 R)"
    using lo_some [OF assms(1,2), of "[]" a 1000] by (simp add: R_def takeLimit_def)
  show ?case
  proof (cases "length R < 1000")
    case True
    then show ?thesis using page by (simp flip: R)
  next
    case False
    then have lst: "last (take 1000 R) = R ! 999" by (subst last_conv_nth) auto
    have "filter (\<lambda>ob. HasPrefix (obj_Key ob) [] \<and> obj_Key (R ! 999) < obj_Key ob) obs = drop (Suc 999) R"
      using False by (intro rest_behind [OF assms(1,2) R_def]) simp
    then have rest: "filter (\<lambda>ob. obj_Key (R ! 999) < obj_Key ob) obs = drop 1000 R" by (simp add: HasPrefix_def)
    have "listAll lo s n fuel (obj_Key (R ! 999)) = Some (Inr (drop 1000 R))"
      using Suc.IH [of "obj_Key (R ! 999)"] Suc.prems False by (simp add: rest flip: R)
    then show ?thesis using page False lst by (simp flip: R)
  qed
qed simp

end

section \<open>The feed\<close>

text \<open>
  \<open>FeedPublisher\<close>: hash, content-addressed chunk and signature of the Bee library are
  parameters; \<open>fp_cac\<close> gives the data of the chunk that wraps a payload, \<open>fp_sign\<close> the
  signature of a single-owner chunk.
\<close>

record FeedPublisher =
  fp_owner :: string
  fp_keccak :: "string \<Rightarrow> string"
  fp_cac :: "string \<Rightarrow> (string, string) result"
  fp_sign :: "string \<Rightarrow> string \<Rightarrow> (string, string) result"
  fp_bee :: Client

definition Topic :: "FeedPublisher \<Rightarrow> string \<Rightarrow> string" where
  "Topic f bucket = hex_EncodeToString (fp_keccak f (''s3warm/1/'' @ bucket))"

definition Owner :: "FeedPublisher \<Rightarrow> string" where
  "Owner f = hex_EncodeToString (fp_owner f)"

text \<open>\<open>binary.BigEndian.PutUint64\<close> of a 64-bit integer.\<close>

definition bigEndian64 :: "int \<Rightarrow> string" where
  "bigEndian64 x = map (\<lambda>i. char_of (nat (x mod 2 ^ 64) div 256 ^ i mod 256)) [7, 6, 5, 4, 3, 2, 1, 0]"

definition Publish :: "FeedPublisher \<Rightarrow> string \<Rightarrow> string \<Rightarrow> int \<Rightarrow> string \<Rightarrow> (bee_error, unit) result" where
  "Publish f bucket rootHex seq batch =
     (let topic = fp_keccak f (''s3warm/1/'' @ bucket);
          ident = fp_keccak f (topic @ bigEndian64 (seq - 1)) in
      case hex_DecodeString rootHex of
        None \<Rightarrow> Inl (OtherError ''encoding/hex: invalid root'')
      | Some payload \<Rightarrow>
          (case fp_cac f payload of
             Inl e \<Rightarrow> Inl (OtherError e)
           | Inr data \<Rightarrow>
               (case fp_sign f ident data of
                  Inl e \<Rightarrow> Inl (OtherError e)
                | Inr sig \<Rightarrow> UploadSOC (fp_bee f) (Owner f) (hex_EncodeToString ident) (hex_EncodeToString sig) data batch)))"

section \<open>The committer\<close>

record Committer =
  co_batch :: string
  co_deferred :: bool
  co_feed :: "FeedPublisher option"
  co_dirty :: "(string, gotime) gomap"

definition DefaultDebounce :: int where "DefaultDebounce = 3 * second"

definition Notify :: "gotime \<Rightarrow> string \<Rightarrow> Committer option \<Rightarrow> Committer option" where
  "Notify now bucket c = map_option (\<lambda>c. c\<lparr>co_dirty := gm_put bucket now (co_dirty c)\<rparr>) c"

text \<open>The buckets a tick of the commit loop finds due.\<close>

definition dueBuckets :: "Committer \<Rightarrow> gotime \<Rightarrow> string list" where
  "dueBuckets c now = map fst (filter (\<lambda>(b, t). DefaultDebounce \<le> time_Sub now t) (co_dirty c))"

record commit_outcome =
  oc_Result :: "(manifest_error, string \<times> int) result"
  oc_Committer :: Committer
  oc_Store :: Memory
  oc_Built :: "built option"
  oc_Feed :: "(bee_error, unit) result option"

text \<open>
  \<open>CommitNow\<close>. The outcome carries what the build sent to the node and how the feed
  update went, whose failure is only logged. Fuel: one page more than
  the bucket has keys.
\<close>

definition pageFuel :: "Memory \<Rightarrow> string \<Rightarrow> nat" where
  "pageFuel m bucket = (case getBucket m bucket of Inl _ \<Rightarrow> 1 | Inr b \<Rightarrow> Suc (length (mb_objects b)))"

definition commitBatch :: "Committer \<Rightarrow> Bucket \<Rightarrow> string" where
  "commitBatch c b = (if bkt_BatchID b = [] then co_batch c else bkt_BatchID b)"

definition commitRecipient :: "manifest_lib \<Rightarrow> Bucket \<Rightarrow> (manifest_error, string option) result" where
  "commitRecipient lib b =
     (if bkt_RecoveryRecipient b = [] then Inr None
      else case ParseRecipient (ml_age lib) (bkt_RecoveryRecipient b) of
             Inl e \<Rightarrow> Inl (CommitError e) | Inr r \<Rightarrow> Inr (Some r))"

definition newCommit :: "Bucket \<Rightarrow> string \<Rightarrow> gotime \<Rightarrow> Object list \<Rightarrow> Commit" where
  "newCommit b bucket now objects =
     \<lparr>cm_Version = CommitVersion, cm_Bucket = bucket, cm_Seq = wrap64 (bkt_CommitSeq b + 1), cm_Parent = bkt_HeadRoot b,
      cm_Timestamp = now, cm_Objects = objects, cm_sealed = 0\<rparr>"

definition commitFailed :: "Committer \<Rightarrow> Memory \<Rightarrow> built option \<Rightarrow> manifest_error \<Rightarrow> commit_outcome" where
  "commitFailed c m bu e = \<lparr>oc_Result = Inl e, oc_Committer = c, oc_Store = m, oc_Built = bu, oc_Feed = None\<rparr>"

definition recordCommit :: "manifest_lib \<Rightarrow> Committer \<Rightarrow> Memory \<Rightarrow> string \<Rightarrow> string \<Rightarrow> Commit \<Rightarrow> string option \<Rightarrow> commit_outcome" where
  "recordCommit lib c m bucket batch commit rec =
     (let bu = Build lib \<lparr>ls_bee = ml_bee lib, ls_batch = batch, ls_deferred = co_deferred c\<rparr> commit rec in
      case bu_Result bu of
        Inl e \<Rightarrow> commitFailed c m (Some bu) e
      | Inr rt \<Rightarrow>
          (case SetBucketHead m bucket rt (cm_Seq commit) of
             Inl e \<Rightarrow> commitFailed c m (Some bu) (StoreError e)
           | Inr m' \<Rightarrow>
               \<lparr>oc_Result = Inr (rt, cm_Seq commit), oc_Committer = c, oc_Store = m', oc_Built = Some bu,
                oc_Feed = map_option (\<lambda>f. Publish f bucket rt (cm_Seq commit) batch) (co_feed c)\<rparr>))"

definition CommitNow :: "manifest_lib \<Rightarrow> gotime \<Rightarrow> Committer \<Rightarrow> Memory \<Rightarrow> string \<Rightarrow> commit_outcome" where
  "CommitNow lib now c m bucket =
     (let c = c\<lparr>co_dirty := gm_del bucket (co_dirty c)\<rparr> in
      case GetBucket m bucket of
        Inl e \<Rightarrow> commitFailed c m None (StoreError e)
      | Inr b \<Rightarrow>
          if bkt_ACT b then commitFailed c m None ErrACTBucket
          else if commitBatch c b = [] then
            commitFailed c m None (CommitError ''no postage batch available for commit'')
          else
          (case listAll ListObjects m bucket (pageFuel m bucket) [] of
             None \<Rightarrow> commitFailed c m None (CommitError ''listing did not end'')
           | Some (Inl e) \<Rightarrow> commitFailed c m None (StoreError e)
           | Some (Inr objects) \<Rightarrow>
               (case commitRecipient lib b of
                  Inl e \<Rightarrow> commitFailed c m None e
                | Inr rec \<Rightarrow> recordCommit lib c m bucket (commitBatch c b) (newCommit b bucket now objects) rec)))"

text \<open>One tick of \<open>Run\<close>: a commit of every due bucket, failures only logged.\<close>

fun commitDue :: "manifest_lib \<Rightarrow> (string \<Rightarrow> gotime) \<Rightarrow> string list \<Rightarrow> Committer \<times> Memory \<Rightarrow> Committer \<times> Memory" where
  "commitDue lib now [] s = s"
| "commitDue lib now (b # bs) (c, m) =
     (let oc = CommitNow lib (now b) c m b in commitDue lib now bs (oc_Committer oc, oc_Store oc))"

definition commitTick :: "manifest_lib \<Rightarrow> gotime \<Rightarrow> (string \<Rightarrow> gotime) \<Rightarrow> Committer \<times> Memory \<Rightarrow> Committer \<times> Memory" where
  "commitTick lib tick now s = commitDue lib now (dueBuckets (fst s) tick) s"

section \<open>Properties of commits\<close>

lemma filter_nonempty_keys: "\<forall>ob \<in> set obs. obj_Key ob \<noteq> [] \<Longrightarrow> filter (\<lambda>ob. [] < obj_Key ob) obs = obs"
  by (rule filter_True) (auto simp: neq_Nil_conv)

text \<open>The listing loop ends with all live objects of the bucket.\<close>

lemma commit_listing:
  assumes "memory_wf m" and b: "getBucket m n = Inr b" and "\<forall>ob \<in> set (liveObjects b). obj_Key ob \<noteq> []"
  shows "listAll ListObjects m n (pageFuel m n) [] = Some (Inr (liveObjects b))"
proof -
  have live: "mem_live m n = Some (liveObjects b)" using b by (simp add: mem_live_def)
  have "length (liveObjects b) \<le> length (mb_objects b)"
    by (simp add: liveObjects_def liveKeys_def)
  then have "length (filter (\<lambda>ob. [] < obj_Key ob) (liveObjects b)) < pageFuel m n"
    by (auto simp: pageFuel_def b intro: le_less_trans [OF length_filter_le])
  from mem_listing.listAll_total [OF assms(1) live this] show ?thesis
    by (simp add: filter_nonempty_keys [OF assms(3)])
qed

text \<open>What a successful commit did: the recipient it used, the document it built, the head it set.\<close>

lemma CommitNow_success:
  assumes wf: "memory_wf m" and b: "getBucket m n = Inr b" and keys: "\<forall>ob \<in> set (liveObjects b). obj_Key ob \<noteq> []"
    and ok: "oc_Result (CommitNow lib now c m n) = Inr (rt, seq)"
  obtains rec batch where "\<not> bkt_ACT (mb_meta b)" "commitRecipient lib (mb_meta b) = Inr rec"
    "seq = cm_Seq (newCommit (mb_meta b) n now (liveObjects b))"
    "bu_Result (Build lib \<lparr>ls_bee = ml_bee lib, ls_batch = batch, ls_deferred = co_deferred c\<rparr>
       (newCommit (mb_meta b) n now (liveObjects b)) rec) = Inr rt"
    "SetBucketHead m n rt seq = Inr (oc_Store (CommitNow lib now c m n))"
proof -
  let ?c = "c\<lparr>co_dirty := gm_del n (co_dirty c)\<rparr>" and ?cm = "newCommit (mb_meta b) n now (liveObjects b)"
  have gb: "GetBucket m n = Inr (mb_meta b)" by (simp add: GetBucket_def b)
  have act: "\<not> bkt_ACT (mb_meta b)" using ok by (auto simp: CommitNow_def gb commitFailed_def Let_def)
  have bt: "commitBatch ?c (mb_meta b) \<noteq> []" using ok act by (auto simp: CommitNow_def gb commitFailed_def Let_def)
  obtain rec where rec: "commitRecipient lib (mb_meta b) = Inr rec"
    using ok act bt
    by (cases "commitRecipient lib (mb_meta b)") (simp_all add: CommitNow_def gb commit_listing [OF wf b keys] commitFailed_def Let_def)
  have cn: "CommitNow lib now c m n = recordCommit lib ?c m n (commitBatch ?c (mb_meta b)) ?cm rec"
    using act bt rec by (simp add: CommitNow_def gb commit_listing [OF wf b keys] Let_def)
  show thesis
    by (rule that [OF act rec, of "commitBatch ?c (mb_meta b)"])
      (use ok in \<open>auto simp: cn recordCommit_def commitFailed_def Let_def split: sum.splits\<close>)
qed

lemma SetBucketHead_effect:
  assumes "SetBucketHead m n rt seq = Inr m'" and "getBucket m n = Inr b"
  shows "getBucket m' k = (if k = n then Inr (b\<lparr>mb_meta := (mb_meta b)\<lparr>bkt_HeadRoot := rt, bkt_CommitSeq := seq\<rparr>\<rparr>) else getBucket m k)"
  using assms by (auto simp: SetBucketHead_def setMeta_def rbind_Inr_iff)

text \<open>Restoring a listing of live objects brings back exactly what \<open>GetObject\<close> showed.\<close>

lemma restored_live:
  assumes "memory_wf m" and b: "getBucket m n = Inr b" and r: "RestoreBucket m2 n (liveObjects b) rt seq = Inr m3"
  shows "GetObject m3 n k = (case GetObject m n k of
      Inr ob \<Rightarrow> if obj_DeleteMarker ob then Inl ErrObjectNotFound else Inr (restoredRow n ob)
    | Inl _ \<Rightarrow> Inl ErrObjectNotFound)"
proof -
  have "mem_live m n = Some (liveObjects b)" using b by (simp add: mem_live_def)
  then have "distinct (map obj_Key (liveObjects b))"
    using live_sorted_keys [OF assms(1)] by (auto simp: strict_sorted_iff)
  note rows = RestoreBucket_rows [OF r this]
  have b3: "\<exists>b3. getBucket m3 n = Inr b3" using r by (auto simp: RestoreBucket_eq rbind_Inr_iff)
  show ?thesis
  proof (cases "k \<in> obj_Key ` set (liveObjects b)")
    case True
    then obtain ob where ob: "ob \<in> set (liveObjects b)" "k = obj_Key ob" by blast
    then have "GetObject m n k = Inr ob" "\<not> obj_DeleteMarker ob"
      using GetObject_live [OF assms(1) b] by auto
    moreover have "GetObject m3 n k = Inr (restoredRow n ob)"
      using rows ob b3 by (auto simp: GetObject_eq)
    ultimately show ?thesis by simp
  next
    case False
    have "obj_DeleteMarker ob" if g: "GetObject m n k = Inr ob" for ob
    proof -
      have "k = obj_Key ob"
        using g b memory_wf_getBucket [OF assms(1) b] versionsOf_hd [of n b k]
        by (auto simp: GetObject_def split: list.splits)
      with False GetObject_live [OF assms(1) b, of ob] g show ?thesis by auto
    qed
    then show ?thesis using rows False by (auto split: sum.split)
  qed
qed

text \<open>C14.
  A commit extends the chain by one and can be restored. When \<open>CommitNow\<close> returns a root,
  the bucket's head is that root with the next sequence number and nothing else in the index
  has changed; the document under the root, read with the recovery identity, names the old
  head as its parent and has no sealed object; and restoring the bucket from it, in any later
  state, brings back exactly the objects that were live at the time of the commit.
\<close>

theorem commit_then_restore:
  assumes "memory_wf m" and b: "getBucket m n = Inr b" and keys: "\<forall>ob \<in> set (liveObjects b). obj_Key ob \<noteq> []"
    and ok: "oc_Result (CommitNow lib now c m n) = Inr (rt, seq)"
    and lib: "lib_ok lib" "node_keeps (ml_bee lib)" "ls_bee ls = ml_bee lib"
    and ident: "\<And>r. ParseRecipient (ml_age lib) (bkt_RecoveryRecipient (mb_meta b)) = Inr r \<Longrightarrow> age_opens (ml_age lib) r ident"
  shows "(\<forall>k. getBucket (oc_Store (CommitNow lib now c m n)) k =
        (if k = n then Inr (b\<lparr>mb_meta := (mb_meta b)\<lparr>bkt_HeadRoot := rt, bkt_CommitSeq := wrap64 (bkt_CommitSeq (mb_meta b) + 1)\<rparr>\<rparr>)
         else getBucket m k)) \<and>
    (\<exists>cm. GetCommit lib ls rt (Some ident) = Inr cm \<and> cm_Bucket cm = n \<and> cm_Seq cm = seq \<and> SealedCount cm = 0 \<and>
       cm_Parent cm = bkt_HeadRoot (mb_meta b) \<and>
       (\<forall>m2 m3 k. RestoreBucket m2 n (cm_Objects cm) rt seq = Inr m3 \<longrightarrow>
          GetObject m3 n k = (case GetObject m n k of
             Inr ob \<Rightarrow> if obj_DeleteMarker ob then Inl ErrObjectNotFound else Inr (restoredRow n ob)
           | Inl _ \<Rightarrow> Inl ErrObjectNotFound)))"
proof -
  let ?cm = "newCommit (mb_meta b) n now (liveObjects b)"
  obtain rec batch where act: "\<not> bkt_ACT (mb_meta b)" and rec: "commitRecipient lib (mb_meta b) = Inr rec"
    and seq: "seq = cm_Seq ?cm"
    and bu: "bu_Result (Build lib \<lparr>ls_bee = ml_bee lib, ls_batch = batch, ls_deferred = co_deferred c\<rparr> ?cm rec) = Inr rt"
    and sh: "SetBucketHead m n rt seq = Inr (oc_Store (CommitNow lib now c m n))"
    by (rule CommitNow_success [OF assms(1) b keys ok])
  have op: "age_opens (ml_age lib) r ident" if "rec = Some r" for r
    using rec that ident by (auto simp: commitRecipient_def split: if_splits sum.splits)
  have gc: "GetCommit lib ls rt (Some ident) = Inr ?cm"
    by (rule Build_GetCommit(1) [OF lib(1) _ _ _ _ _ bu]) (use lib op in \<open>simp_all add: newCommit_def\<close>)
  have "getBucket (oc_Store (CommitNow lib now c m n)) k =
        (if k = n then Inr (b\<lparr>mb_meta := (mb_meta b)\<lparr>bkt_HeadRoot := rt, bkt_CommitSeq := wrap64 (bkt_CommitSeq (mb_meta b) + 1)\<rparr>\<rparr>)
         else getBucket m k)" for k
    using SetBucketHead_effect [OF sh b, of k] by (simp add: seq newCommit_def)
  moreover have "cm_Objects ?cm = liveObjects b" "cm_Bucket ?cm = n" "SealedCount ?cm = 0" "cm_Parent ?cm = bkt_HeadRoot (mb_meta b)"
    by (simp_all add: newCommit_def SealedCount_def)
  ultimately show ?thesis using gc seq restored_live [OF assms(1) b]
    by (intro conjI allI exI [of _ ?cm] impI) simp_all
qed

text \<open>A failed commit leaves the index as it was; every commit clears the mark of its bucket only.\<close>

lemma CommitNow_failure: "oc_Result (CommitNow lib now c m n) = Inl e \<Longrightarrow> oc_Store (CommitNow lib now c m n) = m"
  by (auto simp: CommitNow_def recordCommit_def commitFailed_def Let_def split: sum.splits option.splits if_splits)

lemma CommitNow_dirty: "co_dirty (oc_Committer (CommitNow lib now c m n)) = gm_del n (co_dirty c)"
  by (auto simp: CommitNow_def recordCommit_def commitFailed_def Let_def split: sum.splits option.splits if_splits)

lemma commitDue_dirty:
  "gm_get (co_dirty (fst (commitDue lib now bs s))) k = (if k \<in> set bs then None else gm_get (co_dirty (fst s)) k)"
  by (induction lib now bs s rule: commitDue.induct) (auto simp: Let_def CommitNow_dirty gomap_simps)


section \<open>A node for the examples\<close>

text \<open>
  The node stores bytes under a reference that is their hexadecimal text, and answers
  ranged reads; the sealed form of a text is the text behind a mark.
\<close>

definition nodeBody :: "http_req \<Rightarrow> string" where
  "nodeBody req = (case hex_DecodeString (strings_TrimPrefix (hr_URL req) ''http://bee/bytes/'') of Some b \<Rightarrow> b | None \<Rightarrow> [])"

definition nodeRange :: "string \<Rightarrow> string \<Rightarrow> http_resp" where
  "nodeRange spec body =
     (case parseRangeSpec spec (int (length body)) of
        RangeOk st en \<Rightarrow> \<lparr>hp_Status = 206, hp_StatusText = [], hp_Header = [], hp_Body = take (nat (en - st + 1)) (drop (nat st) body), hp_Broken = False\<rparr>
      | _ \<Rightarrow> \<lparr>hp_Status = 200, hp_StatusText = [], hp_Header = [], hp_Body = body, hp_Broken = False\<rparr>)"

definition demoTransport :: transport where
  "demoTransport req =
     (if hr_Method req = ''POST'' then
        (if hr_BodyErr req \<or> hr_Body req = [] then Inl ''body''
         else Inr \<lparr>hp_Status = 201, hp_StatusText = [], hp_Header = [], hp_Body = hex_EncodeToString (hr_Body req), hp_Broken = False\<rparr>)
      else (let spec = Header_Get (hr_Header req) ''Range'' in
        Inr (if spec = [] then \<lparr>hp_Status = 200, hp_StatusText = [], hp_Header = [], hp_Body = nodeBody req, hp_Broken = False\<rparr>
             else nodeRange spec (nodeBody req))))"

definition demoNode :: Client where
  "demoNode = \<lparr>cl_base = ''http://bee'', cl_do = demoTransport, cl_json = demoJSON 60\<rparr>"

lemma demoNode_upload:
  "UploadBytes demoNode data False opts = Inr (ref, hist) \<Longrightarrow> ref = hex_EncodeToString data"
  by (auto simp: UploadBytes_def call_def demoNode_def demoTransport_def demoJSON_def decoded_def rbind_def split: if_splits)

lemma demoNode_keeps: "node_keeps demoNode"
proof -
  have "\<exists>resp. DownloadBytes demoNode (hex_EncodeToString data) dopts = Inr resp \<and> hp_Body resp = data \<and> \<not> hp_Broken resp"
    if "do_Range dopts = []" for data and dopts :: DownloadOptions
  proof -
    have "strings_TrimPrefix (''http://bee/bytes/'' @ hex_EncodeToString data) ''http://bee/bytes/'' = hex_EncodeToString data"
      by (rule TrimPrefix_append)
    then show ?thesis
      using that by (simp add: DownloadBytes_def call_def demoNode_def demoTransport_def nodeBody_def hex_Decode_Encode Let_def)
  qed
  then show ?thesis unfolding node_keeps_def using demoNode_upload by blast
qed

definition demoAge :: age where
  "demoAge = \<lparr>age_ParseRecipient = Inr, age_ParseIdentity = Inr, age_Encrypt = (\<lambda>r p. Inr (CHR ''S'' # p)),
     age_Decrypt = (\<lambda>i buf. if i = ''key'' then Inr (Inr (tl buf)) else Inl ''no identity matched'')\<rparr>"

lemma demoAge_opens: "age_opens demoAge r ''key''"
  by (simp add: age_opens_def demoAge_def)

text \<open>A bucket with a recovery recipient, a plain object and an encrypted one.\<close>

definition demoEncrypted :: Object where
  "demoEncrypted = (demoObject ''s'' ''v9'' 90)\<lparr>obj_SwarmRef := replicate 128 CHR ''a'', obj_Encrypted := True\<rparr>"

definition demo6 :: Memory where
  "demo6 = okOr NewMemory (SetBucketRecoveryRecipient (okOr NewMemory (PutObject demo3 demoEncrypted None)) ''bkt'' ''age1'')"

definition demoObjects :: "Object list" where
  "demoObjects = (case getBucket demo6 ''bkt'' of Inr b \<Rightarrow> liveObjects b | Inl _ \<Rightarrow> [])"

definition demoCommit :: Commit where
  "demoCommit = newCommit zeroBucket ''bkt'' 7 demoObjects"

definition demoWire :: wireCommit where
  "demoWire = wireOf demoCommit (okOr [] (mapM_result (seal demoAge ''age1'') demoObjects))"

text \<open>The codec of the examples knows this one document; a manifest is its last entry.\<close>

definition demoLib :: manifest_lib where
  "demoLib = \<lparr>ml_age = demoAge, ml_Add = (\<lambda>_ _. None), ml_Save = (\<lambda>fs. Inr (fst (snd (last fs)))), ml_Lookup = (\<lambda>rt p. Inr rt),
     ml_encCommit = (\<lambda>w. if w = demoWire then Inr ''doc'' else Inl ''unknown''), ml_decCommit = (\<lambda>_. Inr demoWire),
     ml_encSSE = (\<lambda>d. Inr ''sse''), ml_encComposite = (\<lambda>ps. Inr ''composite''), ml_bee = demoNode\<rparr>"

lemma demoLib_ok: "lib_ok demoLib"
  by (auto simp: lib_ok_def demoLib_def)

definition demoSaver :: LoadSaver where
  "demoSaver = \<lparr>ls_bee = demoNode, ls_batch = ''b1'', ls_deferred = False\<rparr>"

definition demoCommitter :: Committer where
  "demoCommitter = \<lparr>co_batch = ''b1'', co_deferred = False, co_feed = None, co_dirty = [(''bkt'', 0)]\<rparr>"

lemma demoObjects_eq: "demoObjects = [(demoObject ''a'' ''v2'' 20)\<lparr>obj_IsLatest := True\<rparr>, demoEncrypted\<lparr>obj_IsLatest := True\<rparr>]"
  by code_simp

lemma demo_seal: "\<not> isl (mapM_result (seal demoAge ''age1'') demoObjects)"
  unfolding demoObjects_eq
  by (simp add: seal_def sealRef_def recovery_Encrypt_def demoAge_def rbind_def demoEncrypted_def demoObject_def zeroObject_def)

lemma demo_save: "data \<noteq> [] \<Longrightarrow> LoadSaver_Save demoSaver data = Inr data"
proof -
  assume "data \<noteq> []"
  moreover from this have "hex_EncodeToString data \<noteq> []" by (cases data) (simp_all add: Let_def)
  ultimately show ?thesis
    by (simp add: LoadSaver_Save_def UploadBytes_def call_def demoSaver_def demoNode_def demoTransport_def demoJSON_def
        decoded_def rbind_def hex_Decode_Encode)
qed

lemma demo_keyBearing: "keyBearing (replicate 128 CHR ''a'')"
  by code_simp

lemma demo_forks: "\<exists>forks d. addForks demoLib demoSaver (Some ''age1'') [] demoObjects = (Inr forks, d)"
proof -
  let ?o1 = "(demoObject ''a'' ''v2'' 20)\<lparr>obj_IsLatest := True\<rparr>" and ?o2 = "demoEncrypted\<lparr>obj_IsLatest := True\<rparr>"
  have e1: "entryFor demoLib demoSaver ?o1 ''age1'' = (Inr None, [])"
    by (simp add: entryFor_def HasKeyBearingRefs_def keyBearing_def encRefHexLen_def demoObject_def zeroObject_def)
  have k2: "HasKeyBearingRefs ?o2" using demo_keyBearing by (simp add: HasKeyBearingRefs_def demoEncrypted_def)
  have "\<exists>desc. sseDescriptor demoAge ''age1'' ?o2 = Inr desc"
    by (simp add: sseDescriptor_def recovery_Encrypt_def demoAge_def rbind_def demoEncrypted_def demoObject_def zeroObject_def)
  then obtain desc where desc: "sseDescriptor demoAge ''age1'' ?o2 = Inr desc" by blast
  have "\<exists>e m d. entryFor demoLib demoSaver ?o2 ''age1'' = (Inr (Some (e, m)), d)"
    using k2 desc by (simp add: entryFor_def saveDoc_def demo_save demoLib_def Let_def)
  then obtain e m d where e2: "entryFor demoLib demoSaver ?o2 ''age1'' = (Inr (Some (e, m)), d)" by blast
  show ?thesis
    unfolding demoObjects_eq by (simp add: e1 e2) (simp add: demoLib_def)
qed

lemma demo_build: "bu_Result (Build demoLib demoSaver demoCommit (Some ''age1'')) = Inr (hex_EncodeToString ''doc'')"
proof -
  obtain forks d where fd: "addForks demoLib demoSaver (Some ''age1'') [] demoObjects = (Inr forks, d)" using demo_forks by blast
  obtain objects where objs: "mapM_result (seal demoAge ''age1'') demoObjects = Inr objects"
    using demo_seal by (cases "mapM_result (seal demoAge ''age1'') demoObjects") auto
  have "cm_Objects demoCommit = demoObjects" by (simp add: demoCommit_def newCommit_def)
  moreover have "demoWire = wireOf demoCommit objects" by (simp add: demoWire_def objs okOr_def)
  moreover have "ml_age demoLib = demoAge" "ml_Add demoLib fs f = None" "ml_Save demoLib fs = Inr (fst (snd (last fs)))"
    "encodeDoc demoLib (DocCommit demoWire) = Inr ''doc''" for fs f
    by (simp_all add: demoLib_def)
  ultimately show ?thesis
    using fd objs by (simp add: Build_def saveDoc_def demo_save commitFork_def)
qed

theorem commit_roundtrip_witness:
  "GetCommit demoLib demoSaver (hex_EncodeToString ''doc'') (Some ''key'') = Inr demoCommit \<and>
   (\<exists>cm. GetCommit demoLib demoSaver (hex_EncodeToString ''doc'') None = Inr cm \<and> cm_sealed cm = 1)"
proof -
  have "length (filter HasKeyBearingRefs demoObjects) = 1"
    unfolding demoObjects_eq using demo_keyBearing
    by (simp add: HasKeyBearingRefs_def keyBearing_def encRefHexLen_def demoEncrypted_def demoObject_def zeroObject_def)
  moreover have "cm_Objects demoCommit = demoObjects" "cm_Version demoCommit = CommitVersion" "cm_sealed demoCommit = 0"
    by (simp_all add: demoCommit_def newCommit_def)
  ultimately show ?thesis
    using commit_roundtrip [OF demoLib_ok, of demoSaver demoSaver "''age1''" "''key''" demoCommit] demoNode_keeps demoAge_opens demo_build
    by (simp add: demoSaver_def demoLib_def)
qed

text \<open>The plain object is published by its own reference, the encrypted one only as a sealed descriptor.\<close>

theorem build_publishes_no_keys_witness:
  "\<exists>e. bu_Result (Build demoLib demoSaver demoCommit None) = Inl e \<and> bu_Forks (Build demoLib demoSaver demoCommit None) = []"
proof -
  have "\<exists>ob \<in> set (cm_Objects demoCommit). HasKeyBearingRefs ob"
    using demo_keyBearing by (simp add: demoCommit_def newCommit_def demoObjects_eq HasKeyBearingRefs_def demoEncrypted_def)
  then show ?thesis using build_publishes_no_keys [of demoLib demoSaver demoCommit None] by simp
qed

lemma demo6_wf: "memory_wf demo6"
proof -
  define m where "m = okOr NewMemory (PutObject demo3 demoEncrypted None)"
  have "\<not> isl (PutObject demo3 demoEncrypted None)" by code_simp
  then have m: "PutObject demo3 demoEncrypted None = Inr m"
    by (cases "PutObject demo3 demoEncrypted None") (simp_all add: m_def okOr_def)
  have "\<not> isl (SetBucketRecoveryRecipient m ''bkt'' ''age1'')" unfolding m_def by code_simp
  then have "SetBucketRecoveryRecipient m ''bkt'' ''age1'' = Inr demo6"
    by (cases "SetBucketRecoveryRecipient m ''bkt'' ''age1''") (simp_all add: demo6_def okOr_def m_def)
  moreover have "memory_wf m" using mem_reachable_wf [OF demo_reachable(3)] m by (rule PutObject_wf)
  ultimately show ?thesis by (metis set_meta_wf)
qed

definition demo6b :: memBucket where
  "demo6b = (case getBucket demo6 ''bkt'' of Inr b \<Rightarrow> b | Inl _ \<Rightarrow> \<lparr>mb_meta = zeroBucket, mb_objects = [], mb_snapshots = []\<rparr>)"

lemma demo6_bucket: "getBucket demo6 ''bkt'' = Inr demo6b"
proof -
  have "\<not> isl (getBucket demo6 ''bkt'')" by code_simp
  then show ?thesis by (cases "getBucket demo6 ''bkt''") (simp_all add: demo6b_def)
qed

lemma demo6_meta: "mb_meta demo6b = demoBucket\<lparr>bkt_CreatedAt := 5, bkt_RecoveryRecipient := ''age1''\<rparr>"
  by code_simp

lemma demo6_live: "liveObjects demo6b = demoObjects"
  by (simp add: demoObjects_def demo6_bucket)

lemma demo6_keys: "\<forall>ob \<in> set (liveObjects demo6b). obj_Key ob \<noteq> []"
  by (simp add: demo6_live demoObjects_eq demoEncrypted_def demoObject_def zeroObject_def)

lemma demo6_commit: "oc_Result (CommitNow demoLib 7 demoCommitter demo6 ''bkt'') = Inr (hex_EncodeToString ''doc'', 1)"
proof -
  obtain m where "SetBucketHead demo6 ''bkt'' (hex_EncodeToString ''doc'') 1 = Inr m"
    by (simp add: SetBucketHead_def setMeta_def demo6_bucket)
  moreover have "newCommit (mb_meta demo6b) ''bkt'' 7 demoObjects = demoCommit"
    by (simp add: demoCommit_def newCommit_def demo6_meta demoBucket_def zeroBucket_def)
  moreover have "commitRecipient demoLib (mb_meta demo6b) = Inr (Some ''age1'')"
    by (simp add: commitRecipient_def demo6_meta ParseRecipient_def demoLib_def demoAge_def)
  moreover have "ml_bee demoLib = demoNode" "co_deferred demoCommitter = False" by (simp_all add: demoLib_def demoCommitter_def)
  moreover have "commitBatch (demoCommitter\<lparr>co_dirty := d\<rparr>) (mb_meta demo6b) = ''b1''" for d
    by (simp add: commitBatch_def demo6_meta demoBucket_def zeroBucket_def demoCommitter_def)
  moreover have "GetBucket demo6 ''bkt'' = Inr (mb_meta demo6b)" "\<not> bkt_ACT (mb_meta demo6b)"
    by (simp_all add: GetBucket_def demo6_bucket demo6_meta demoBucket_def zeroBucket_def)
  moreover have "cm_Seq demoCommit = 1" by (simp add: demoCommit_def newCommit_def zeroBucket_def wrap64_def)
  moreover note commit_listing [OF demo6_wf demo6_bucket demo6_keys] demo_build
  ultimately show ?thesis
    by (simp add: CommitNow_def recordCommit_def demo6_live demoSaver_def Let_def)
qed

theorem commit_then_restore_witness:
  "\<exists>cm. GetCommit demoLib demoSaver (hex_EncodeToString ''doc'') (Some ''key'') = Inr cm \<and> cm_Bucket cm = ''bkt'' \<and> cm_Seq cm = 1 \<and>
     SealedCount cm = 0"
proof -
  have lib: "node_keeps (ml_bee demoLib)" "ls_bee demoSaver = ml_bee demoLib"
    using demoNode_keeps by (simp_all add: demoLib_def demoSaver_def)
  have "age_opens (ml_age demoLib) r ''key''" for r using demoAge_opens by (simp add: demoLib_def)
  from commit_then_restore [OF demo6_wf demo6_bucket demo6_keys demo6_commit demoLib_ok lib this]
  show ?thesis by blast
qed


end
