(* ===== verification/Go_Http.thy ===== *)
theory Go_Http
  imports Committer
begin

text \<open>
  The functions of the Go packages net/url, net and net/http that the request handlers call, and the
  regular expressions of the handlers as predicates on strings (\<open>validBucketName\<close> of
  internal/api/bucket.go with the expression it compiles, and those of grants.go and snapshot.go).
\<close>

section \<open>Package net/url\<close>

text \<open>
  \<open>unescape\<close>: \<open>query\<close> is the query mode, in which a plus sign is a space. \<open>None\<close> is a malformed
  escape.
\<close>

fun url_unescape :: "bool \<Rightarrow> string \<Rightarrow> string option" where
  "url_unescape query [] = Some []"
| "url_unescape query (c # s) =
     (if c = CHR ''%'' then
        (case s of
           a # b # t \<Rightarrow>
             (case (digit_val a, digit_val b) of
                (Some x, Some y) \<Rightarrow>
                  map_option (Cons (char_of (16 * x + y))) (url_unescape query t)
              | _ \<Rightarrow> None)
         | _ \<Rightarrow> None)
      else map_option (Cons (if query \<and> c = CHR ''+'' then CHR '' '' else c)) (url_unescape query s))"

definition url_QueryUnescape :: "string \<Rightarrow> string option" where
  "url_QueryUnescape s = url_unescape True s"

definition url_PathUnescape :: "string \<Rightarrow> string option" where
  "url_PathUnescape s = url_unescape False s"

section \<open>Package net\<close>

text \<open>\<open>net.SplitHostPort\<close>: the host, or \<open>None\<close> for an error.\<close>

definition net_SplitHost :: "string \<Rightarrow> string option" where
  "net_SplitHost hostport =
     (if CHR '':'' \<notin> set hostport then None
      else
      let port = rev (takeWhile (\<lambda>c. c \<noteq> CHR '':'') (rev hostport));
          i = length hostport - length port - 1 in
      if hd hostport = CHR ''['' then
        (case strings_Index hostport '']'' of
           None \<Rightarrow> None
         | Some e \<Rightarrow>
             if e + 1 \<noteq> i then None
             else if CHR ''['' \<in> set (drop 1 hostport) \<or> CHR '']'' \<in> set (drop (e + 1) hostport) then None
             else Some (take (e - 1) (drop 1 hostport)))
      else
        let host = take i hostport in
        if CHR '':'' \<in> set host \<or> CHR ''['' \<in> set hostport \<or> CHR '']'' \<in> set hostport then None
        else Some host)"

text \<open>\<open>net.ParseIP\<close> of a text without a colon: four decimal octets without leading zeros.\<close>

definition ipv4_octet :: "string \<Rightarrow> bool" where
  "ipv4_octet s \<longleftrightarrow> s \<noteq> [] \<and> (\<forall>c \<in> set s. CHR ''0'' \<le> c \<and> c \<le> CHR ''9'') \<and> (hd s = CHR ''0'' \<longrightarrow> length s = 1) \<and>
     (case parse_digits 10 0 s of Some n \<Rightarrow> n \<le> 255 | None \<Rightarrow> False)"

definition net_ParseIPv4 :: "string \<Rightarrow> bool" where
  "net_ParseIPv4 s \<longleftrightarrow> (let fs = strings_Split s CHR ''.'' in length fs = 4 \<and> (\<forall>f \<in> set fs. ipv4_octet f))"

section \<open>Package net/http\<close>

text \<open>\<open>Format(http.TimeFormat)\<close>: Mon, 02 Jan 2006 15:04:05 GMT.\<close>

definition weekdays :: "string list" where
  "weekdays = [''Thu'', ''Fri'', ''Sat'', ''Sun'', ''Mon'', ''Tue'', ''Wed'']"

definition months :: "string list" where
  "months = [''Jan'', ''Feb'', ''Mar'', ''Apr'', ''May'', ''Jun'', ''Jul'', ''Aug'', ''Sep'', ''Oct'', ''Nov'', ''Dec'']"

definition time_FormatHTTP :: "gotime \<Rightarrow> string" where
  "time_FormatHTTP t =
     (let s = t div second; (y, mo, d) = civil_from_days (s div 86400); r = s mod 86400
      in weekdays ! nat (s div 86400 mod 7) @ '', '' @ show2 d @ '' '' @ months ! nat (mo - 1) @ '' '' @ show4 y @ '' '' @
         show2 (r div 3600) @ '':'' @ show2 (r mod 3600 div 60) @ '':'' @ show2 (r mod 60) @ '' GMT'')"

lemma http_examples:
  "url_QueryUnescape ''a%20b+c'' = Some ''a b c''" "url_PathUnescape ''a%2fb+c'' = Some ''a/b+c''" "url_PathUnescape ''a%2'' = None"
  "net_SplitHost ''h:80'' = Some ''h''" "net_SplitHost ''[::1]:80'' = Some ''::1''" "net_SplitHost ''h'' = None"
  "net_ParseIPv4 ''192.168.0.1''" "\<not> net_ParseIPv4 ''192.168.00.1''" "\<not> net_ParseIPv4 ''192.168.0.256''"
  "time_FormatHTTP (1369353600 * second) = ''Fri, 24 May 2013 00:00:00 GMT''"
  by code_simp+

section \<open>Names\<close>

definition lower_alnum :: "char \<Rightarrow> bool" where
  "lower_alnum c \<longleftrightarrow> (CHR ''a'' \<le> c \<and> c \<le> CHR ''z'') \<or> (CHR ''0'' \<le> c \<and> c \<le> CHR ''9'')"

text \<open>The expression \<open>bucketNameRE\<close>.\<close>

definition bucketNameRE :: "string \<Rightarrow> bool" where
  "bucketNameRE name \<longleftrightarrow> 3 \<le> length name \<and> length name \<le> 63 \<and> lower_alnum (hd name) \<and> lower_alnum (last name) \<and>
     (\<forall>c \<in> set (butlast (tl name)). lower_alnum c \<or> c = CHR ''.'' \<or> c = CHR ''-'')"

definition validBucketName :: "string \<Rightarrow> bool" where
  "validBucketName name =
     (if \<not> bucketNameRE name then False
      else if strings_Contains name ''..'' \<or> strings_Contains name ''.-'' \<or> strings_Contains name ''-.'' then False
      else \<not> net_ParseIPv4 name)"

definition isHexDigit :: "char \<Rightarrow> bool" where
  "isHexDigit c \<longleftrightarrow> digit_val c \<noteq> None"

definition granteeKeyRE :: "string \<Rightarrow> bool" where
  "granteeKeyRE k \<longleftrightarrow> length k = 66 \<and> k ! 0 = CHR ''0'' \<and> (k ! 1 = CHR ''2'' \<or> k ! 1 = CHR ''3'') \<and> (\<forall>c \<in> set (drop 2 k). isHexDigit c)"

definition snapshotLabelRE :: "string \<Rightarrow> bool" where
  "snapshotLabelRE l \<longleftrightarrow> 1 \<le> length l \<and> length l \<le> 64 \<and>
     (\<forall>c \<in> set l. lower_alnum c \<or> (CHR ''A'' \<le> c \<and> c \<le> CHR ''Z'') \<or> c = CHR ''.'' \<or> c = CHR ''_'' \<or> c = CHR ''-'')"

definition rootHexRE :: "string \<Rightarrow> bool" where
  "rootHexRE t \<longleftrightarrow> length t = 64 \<and> (\<forall>c \<in> set t. (CHR ''a'' \<le> c \<and> c \<le> CHR ''f'') \<or> (CHR ''0'' \<le> c \<and> c \<le> CHR ''9''))"

end
