(* ===== verification/Handlers.thy ===== *)
theory Handlers
  imports Go_Http
begin

text \<open>
  The frame of the request handlers of package internal/api: the documents of requests and responses
  (types.go and the structs of the other files), the server with what it is built on (\<open>Env\<close>) and what
  requests change (\<open>Srv\<close>), and the steps a handler is composed of. A handler is a state transformer that
  ends with a value or an S3 error; \<open>hbind\<close> and \<open>hthen\<close> compose it in the order of the source, and an
  early return is an error. Logging and metrics are left out.
\<close>

section \<open>Documents\<close>

text \<open>
  The bodies of requests and responses as the structs of types.go and its neighbours have
  them, without the XML names and the constant namespace. The codecs are parameters.
\<close>

record xmlOwner =
  ow_ID :: string
  ow_DisplayName :: string

record xmlBucket =
  xb_Name :: string
  xb_CreationDate :: string

record listAllMyBucketsResult =
  lb_Owner :: xmlOwner
  lb_Buckets :: "xmlBucket list"

record copyObjectResult =
  cor_LastModified :: string
  cor_ETag :: string

record initiateMultipartUploadResult =
  im_Bucket :: string
  im_Key :: string
  im_UploadID :: string

record completePart =
  cp_PartNumber :: int
  cp_ETag :: string

type_synonym completeMultipartUploadRequest = "completePart list"

record completeMultipartUploadResult =
  cmr_Location :: string
  cmr_Bucket :: string
  cmr_Key :: string
  cmr_ETag :: string

record copyPartResult =
  cpr_LastModified :: string
  cpr_ETag :: string

record xmlPart =
  xp_PartNumber :: int
  xp_LastModified :: string
  xp_ETag :: string
  xp_Size :: int

record listPartsResult =
  lp_Bucket :: string
  lp_Key :: string
  lp_UploadID :: string
  lp_PartNumberMarker :: int
  lp_NextPartNumberMarker :: int
  lp_MaxParts :: int
  lp_IsTruncated :: bool
  lp_Initiator :: xmlOwner
  lp_Owner :: xmlOwner
  lp_StorageClass :: string
  lp_Parts :: "xmlPart list"

record xmlUpload =
  xu_Key :: string
  xu_UploadID :: string
  xu_Initiator :: xmlOwner
  xu_Owner :: xmlOwner
  xu_StorageClass :: string
  xu_Initiated :: string

record listMultipartUploadsResult =
  lm_Bucket :: string
  lm_KeyMarker :: string
  lm_UploadIDMarker :: string
  lm_NextKeyMarker :: string
  lm_NextUploadIDMarker :: string
  lm_MaxUploads :: int
  lm_Prefix :: string
  lm_IsTruncated :: bool
  lm_Uploads :: "xmlUpload list"

record attrChecksum =
  ac_CRC32 :: string
  ac_CRC32C :: string
  ac_CRC64NVME :: string
  ac_SHA1 :: string
  ac_SHA256 :: string
  ac_Type :: string

record attrPart =
  ap_PartNumber :: int
  ap_Size :: int

record attrObjectParts =
  aop_IsTruncated :: bool
  aop_MaxParts :: int
  aop_NextPartNumberMarker :: int
  aop_PartNumberMarker :: int
  aop_TotalPartsCount :: int
  aop_Parts :: "attrPart list"

record objectAttributesResponse =
  oa_ETag :: string
  oa_Checksum :: "attrChecksum option"
  oa_ObjectParts :: "attrObjectParts option"
  oa_StorageClass :: string
  oa_ObjectSize :: "int option"

record sseDefault =
  sd_SSEAlgorithm :: string
  sd_KMSMasterKeyID :: string

type_synonym sseConfiguration = "sseDefault list"

record deleteObject =
  dob_Key :: string
  dob_VersionID :: string

record deleteRequest =
  dr_Quiet :: bool
  dr_Objects :: "deleteObject list"

record deletedEntry =
  de_Key :: string
  de_VersionID :: string
  de_DeleteMarker :: bool
  de_DeleteMarkerVersionID :: string

record deleteError =
  del_Key :: string
  del_Code :: string
  del_Message :: string

record deleteResult =
  dres_Deleted :: "deletedEntry list"
  dres_Errors :: "deleteError list"

record xmlTagEntry =
  tag_Key :: string
  tag_Value :: string

record corsRule =
  cors_AllowedOrigins :: "string list"
  cors_AllowedMethods :: "string list"
  cors_AllowedHeaders :: "string list"
  cors_ExposeHeaders :: "string list"
  cors_MaxAgeSeconds :: int

record grantsRequest =
  gq_Add :: "string list"
  gq_Revoke :: "string list"

record grantsResponse =
  gp_Bucket :: string
  gp_Publisher :: string
  gp_HistoryRef :: string
  gp_GranteesRef :: string
  gp_Grantees :: "string list"

record restoreResult =
  rr_Bucket :: string
  rr_Root :: string
  rr_Seq :: int
  rr_Objects :: int

record errorResponse =
  er_Code :: string
  er_Message :: string
  er_Resource :: string
  er_RequestID :: string

text \<open>
  A response body: nothing, bytes, an error document, or a document that is encoded as XML or
  JSON. \<open>Unanswered\<close> stands for a handler that panics or never returns: the client gets no response.
\<close>

datatype reply_body =
    NoBody
  | Bytes string
  | ErrorDoc errorResponse
  | DocBuckets listAllMyBucketsResult
  | DocList list_response
  | DocVersions listVersionsResult
  | DocCopy copyObjectResult
  | DocLocation string
  | DocVersioning string
  | DocInitiate initiateMultipartUploadResult
  | DocComplete completeMultipartUploadResult
  | DocCopyPart copyPartResult
  | DocParts listPartsResult
  | DocUploads listMultipartUploadsResult
  | DocAttributes objectAttributesResponse
  | DocEncryption sseConfiguration
  | DocDelete deleteResult
  | DocTagging "xmlTagEntry list"
  | DocCors "corsRule list"
  | DocGrants grantsResponse
  | DocSnapshot Snapshot
  | DocSnapshots string "Snapshot list"
  | DocRestore restoreResult
  | Unanswered

section \<open>The server\<close>

text \<open>The fields of \<open>config.Config\<close> that the handlers read.\<close>

record Config =
  cfg_BatchID :: string
  cfg_Region :: string
  cfg_AccessKey :: string
  cfg_SecretKey :: string
  cfg_CredentialsFile :: string
  cfg_RedundancyLevel :: int
  cfg_Encrypt :: bool
  cfg_Ack :: string
  cfg_Domain :: string
  cfg_FetchStrategy :: string

text \<open>
  What a server is built on and does not change: its configuration, the node, the manifest
  libraries, the verifier, and the functions of the libraries it calls. \<open>env_clock i\<close> is
  the i-th reading of the clock, \<open>env_random i\<close> the bytes of the i-th reading of the random source;
  \<open>env_reads\<close> are the sizes in which a request body is read; \<open>env_algs\<close> is the order in which the map of
  checksum algorithms is walked.
\<close>

record Env =
  env_cfg :: Config
  env_bee :: Client
  env_lib :: manifest_lib
  env_verifier :: Verifier
  env_crypto :: crypto
  env_md5 :: "string \<Rightarrow> string"
  env_checksum :: "string \<Rightarrow> string \<Rightarrow> string"
  env_clock :: "nat \<Rightarrow> gotime"
  env_random :: "nat \<Rightarrow> nat \<Rightarrow> char"
  env_reads :: "nat \<Rightarrow> nat"
  env_algs :: "string list"
  env_chunkErr :: "chunk_error \<Rightarrow> string"
  env_ParseTime :: "string \<Rightarrow> gotime option"
  env_encTags :: "xmlTagEntry list \<Rightarrow> (string, string) result"
  env_decTags :: "string \<Rightarrow> xmlTagEntry list"
  env_encCors :: "corsRule list \<Rightarrow> (string, string) result"
  env_decCors :: "string \<Rightarrow> (string, corsRule list) result"
  env_xmlTagging :: "string \<Rightarrow> xmlTagEntry list option"
  env_xmlCors :: "string \<Rightarrow> corsRule list option"
  env_xmlSSE :: "string \<Rightarrow> sseConfiguration option"
  env_xmlVersioning :: "string \<Rightarrow> string option"
  env_xmlDelete :: "string \<Rightarrow> deleteRequest option"
  env_xmlComplete :: "string \<Rightarrow> completeMultipartUploadRequest option"
  env_metrics :: string
  env_jsonGrants :: "string \<Rightarrow> grantsRequest option"

text \<open>
  What requests change: the index, the cache of the stamp manager, the marks of the
  committer (\<open>None\<close>: commits are off), the cached publisher key; and, for the request under
  way, the response header and the number of clock and random readings so far.
\<close>

record Srv =
  srv_store :: Memory
  srv_stamps :: stamp_cache
  srv_commits :: "Committer option"
  srv_actPub :: string
  srv_header :: http_header
  srv_tick :: nat

text \<open>
  A request with its body: the bytes the reader delivers, and the text of the error it ends
  with (empty for the end of the body); \<open>ca_TLS\<close> says that the connection is encrypted.
\<close>

record Call =
  ca_req :: Request
  ca_body :: string
  ca_bodyErr :: string
  ca_TLS :: bool
  ca_id :: "Identity option"

abbreviation ca_header :: "Call \<Rightarrow> http_header" where "ca_header c \<equiv> req_Header (ca_req c)"
abbreviation ca_query :: "Call \<Rightarrow> url_values" where "ca_query c \<equiv> req_Query (ca_req c)"

section \<open>Handlers\<close>

text \<open>
  A handler changes the server and ends with a value or with the error it writes
  (\<open>writeError\<close>); what it did to the state before an error stays.
\<close>

type_synonym 'a handler = "Srv \<Rightarrow> (apiError, 'a) result \<times> Srv"

definition hret :: "'a \<Rightarrow> 'a handler" where
  "hret x s = (Inr x, s)"

definition herr :: "apiError \<Rightarrow> 'a handler" where
  "herr e s = (Inl e, s)"

definition hbind :: "'a handler \<Rightarrow> ('a \<Rightarrow> 'b handler) \<Rightarrow> 'b handler" where
  "hbind h f s = (case h s of (Inl e, s) \<Rightarrow> (Inl e, s) | (Inr x, s) \<Rightarrow> f x s)"

text \<open>\<open>hthen\<close> runs two handlers in sequence, \<open>hcheck\<close> is an early return, \<open>hwhen\<close> a conditional step.\<close>

definition hthen :: "'a handler \<Rightarrow> 'b handler \<Rightarrow> 'b handler" where
  "hthen h g = hbind h (\<lambda>_. g)"

definition hcheck :: "bool \<Rightarrow> apiError \<Rightarrow> unit handler" where
  "hcheck failed e = (if failed then herr e else hret ())"

definition hwhen :: "bool \<Rightarrow> unit handler \<Rightarrow> unit handler" where
  "hwhen c h = (if c then h else hret ())"

definition hlift :: "(apiError, 'a) result \<Rightarrow> 'a handler" where
  "hlift r s = (r, s)"

definition hset :: "string \<Rightarrow> string \<Rightarrow> unit handler" where
  "hset k v s = (Inr (), s\<lparr>srv_header := Header_Set k v (srv_header s)\<rparr>)"

text \<open>
  Calls of the index: \<open>hstore\<close> reads and reports an error with \<open>storeError\<close>, \<open>hindex\<close> reads and
  hands the error to the caller, \<open>hupdate\<close> writes and hands the error to the caller.
\<close>

definition hindex :: "(Memory \<Rightarrow> (store_error, 'a) result) \<Rightarrow> (store_error, 'a) result handler" where
  "hindex f s = (Inr (f (srv_store s)), s)"

definition hstore :: "(Memory \<Rightarrow> (store_error, 'a) result) \<Rightarrow> 'a handler" where
  "hstore f = hbind (hindex f) (\<lambda>r. case r of Inl e \<Rightarrow> herr (storeError e) | Inr x \<Rightarrow> hret x)"

definition hupdate :: "(Memory \<Rightarrow> Memory mem_result) \<Rightarrow> (store_error, unit) result handler" where
  "hupdate f s = (case f (srv_store s) of Inl e \<Rightarrow> (Inr (Inl e), s) | Inr m \<Rightarrow> (Inr (Inr ()), s\<lparr>srv_store := m\<rparr>))"

definition hwrite :: "(Memory \<Rightarrow> Memory mem_result) \<Rightarrow> unit handler" where
  "hwrite f = hbind (hupdate f) (\<lambda>r. case r of Inl e \<Rightarrow> herr (storeError e) | Inr _ \<Rightarrow> hret ())"

definition hupdateWith :: "(Memory \<Rightarrow> ('a \<times> Memory) mem_result) \<Rightarrow> (store_error, 'a) result handler" where
  "hupdateWith f s = (case f (srv_store s) of Inl e \<Rightarrow> (Inr (Inl e), s) | Inr (x, m) \<Rightarrow> (Inr (Inr x), s\<lparr>srv_store := m\<rparr>))"

text \<open>\<open>htry\<close> hands the error of a handler to the caller.\<close>

definition htry :: "'a handler \<Rightarrow> (apiError, 'a) result handler" where
  "htry h s = (case h s of (r, s) \<Rightarrow> (Inr r, s))"

text \<open>\<open>time.Now\<close>, the random source, and \<open>Notify\<close> of the committer.\<close>

definition hnow :: "Env \<Rightarrow> gotime handler" where
  "hnow E s = (Inr (env_clock E (srv_tick s)), s\<lparr>srv_tick := Suc (srv_tick s)\<rparr>)"

definition hrandom :: "Env \<Rightarrow> nat \<Rightarrow> string handler" where
  "hrandom E n s = (Inr (map (env_random E (srv_tick s)) [0..<n]), s\<lparr>srv_tick := Suc (srv_tick s)\<rparr>)"

definition hnotify :: "Env \<Rightarrow> string \<Rightarrow> unit handler" where
  "hnotify E bucket s =
     (Inr (), s\<lparr>srv_commits := Notify (env_clock E (srv_tick s)) bucket (srv_commits s), srv_tick := Suc (srv_tick s)\<rparr>)"

type_synonym reply = "int \<times> reply_body"

definition writeXML :: "int \<Rightarrow> reply_body \<Rightarrow> reply handler" where
  "writeXML status doc = hthen (hset ''Content-Type'' ''application/xml'') (hret (status, doc))"

definition writeJSON :: "int \<Rightarrow> reply_body \<Rightarrow> reply handler" where
  "writeJSON status doc = hthen (hset ''Content-Type'' ''application/json'') (hret (status, doc))"

text \<open>\<open>io.ReadAll(io.LimitReader(r.Body, limit))\<close>: a read error is seen only behind a body shorter than the limit.\<close>

definition readLimited :: "Call \<Rightarrow> nat \<Rightarrow> string handler" where
  "readLimited c limit =
     (if ca_bodyErr c \<noteq> [] \<and> length (ca_body c) < limit then herr (withMessage errInternal (ca_bodyErr c))
      else hret (take limit (ca_body c)))"

end
