(* ===== verification/Buckets.thy ===== *)
theory Buckets
  imports Handlers
begin

text \<open>
  The handlers of buckets: tenancy and the publisher key (grants.go), postage and encryption settings
  of a request (object.go), tagging (tagging.go), versioning (versioning.go), creation, deletion and
  settings of buckets (bucket.go) and cross-origin requests (cors.go).
\<close>

section \<open>Tenancy and the publisher key (grants.go)\<close>

text \<open>\<open>authorizeBucket\<close>: a bucket that does not exist passes.\<close>

definition authorizeBucket :: "Call \<Rightarrow> string \<Rightarrow> unit handler" where
  "authorizeBucket c bucket =
     (if Identity_Root (ca_id c) then hret ()
      else hbind (hindex (\<lambda>m. GetBucket m bucket)) (\<lambda>r.
        case r of
          Inl _ \<Rightarrow> hret ()
        | Inr b \<Rightarrow> hcheck (ca_id c \<noteq> None \<and> bkt_Owner b \<noteq> id_Tenant (the (ca_id c))) errAccessDenied))"

definition publisherKey :: "Env \<Rightarrow> (bee_error, string) result handler" where
  "publisherKey E s =
     (if srv_actPub s \<noteq> [] then (Inr (Inr (srv_actPub s)), s)
      else case PublisherKey (env_bee E) of
             Inl e \<Rightarrow> (Inr (Inl e), s)
           | Inr pub \<Rightarrow> (Inr (Inr pub), s\<lparr>srv_actPub := pub\<rparr>))"

section \<open>Postage\<close>

text \<open>\<open>stamps.Check\<close> with its refusal as the handlers report it, and \<open>stamps.Get\<close>.\<close>

definition hcheckBatch :: "Env \<Rightarrow> string \<Rightarrow> unit handler" where
  "hcheckBatch E batch s =
     (case Check (env_bee E) (\<lambda>i. env_clock E (srv_tick s + i)) (srv_stamps s) batch of (err, cache) \<Rightarrow>
      ((case err of None \<Rightarrow> Inr () | Some e \<Rightarrow> Inl (withMessage errSwarmPostage (BatchError_Error e))),
       s\<lparr>srv_stamps := cache, srv_tick := srv_tick s + 3\<rparr>))"

definition hstampInfo :: "Env \<Rightarrow> string \<Rightarrow> (bee_error, Info) result handler" where
  "hstampInfo E batch s =
     (case Manager_Get (env_bee E) (\<lambda>i. env_clock E (srv_tick s + i)) (srv_stamps s) batch of (r, cache) \<Rightarrow>
      (Inr r, s\<lparr>srv_stamps := cache, srv_tick := srv_tick s + 2\<rparr>))"

text \<open>
  \<open>setBatchHeaders\<close>. The remaining life is shown in whole seconds; the source truncates a float,
  which for a life of years may round up in the last microsecond of a second.
\<close>

definition setBatchHeaders :: "Env \<Rightarrow> string \<Rightarrow> unit handler" where
  "setBatchHeaders E batch =
     hwhen (batch \<noteq> [])
       (hthen (hset ''x-swarm-postage-batch-id'' batch)
       (hbind (hstampInfo E batch) (\<lambda>r.
        case r of
          Inl _ \<Rightarrow> hret ()
        | Inr info \<Rightarrow> hbind (hnow E) (\<lambda>now. hset ''x-swarm-batch-ttl'' (strconv_Itoa (truncDiv (TTLRemaining info now) second))))))"

definition resolveBatch :: "Env \<Rightarrow> Call \<Rightarrow> Bucket \<Rightarrow> string" where
  "resolveBatch E c b =
     (let batch = Header_Get (ca_header c) ''x-swarm-postage-batch-id'' in
      if batch \<noteq> [] then batch else if bkt_BatchID b \<noteq> [] then bkt_BatchID b else cfg_BatchID (env_cfg E))"

definition resolveSSE :: "Env \<Rightarrow> Call \<Rightarrow> Bucket \<Rightarrow> bool handler" where
  "resolveSSE E c b =
     (let h = ca_header c; sse = Header_Get h ''x-amz-server-side-encryption'' in
      if Header_Get h ''x-amz-server-side-encryption-customer-algorithm'' \<noteq> [] \<or>
         Header_Get h ''x-amz-server-side-encryption-customer-key'' \<noteq> [] then
        herr (withMessage errNotImplemented ''SSE-C is not supported; use SSE-S3 (AES256)'')
      else if sse = ''AES256'' then hret True
      else if sse = [] then hret (cfg_Encrypt (env_cfg E) \<or> bkt_Encryption b = ''AES256'')
      else herr (withMessage errNotImplemented (''only SSE-S3 (AES256) is supported, got '' @ sse)))"

definition redundancyFor :: "Env \<Rightarrow> string \<Rightarrow> int" where
  "redundancyFor E storageClass =
     (let sc = strings_ToUpper storageClass in
      if sc = ''REDUCED_REDUNDANCY'' \<or> sc = ''SWARM_NONE'' then 0
      else if sc = ''SWARM_MEDIUM'' then 1
      else if sc = ''SWARM_STRONG'' then 2
      else if sc = ''SWARM_INSANE'' then 3
      else if sc = ''SWARM_PARANOID'' then 4
      else cfg_RedundancyLevel (env_cfg E))"

definition storageClassOf :: "string \<Rightarrow> string" where
  "storageClassOf header = (if header = [] then ''STANDARD'' else header)"

section \<open>Tagging (tagging.go)\<close>

definition errNoSuchTagSet :: apiError where
  "errNoSuchTagSet = \<lparr>err_Code = ''NoSuchTagSet'', err_Status = 404, err_Message = ''The TagSet does not exist''\<rparr>"

definition errInvalidTag :: apiError where
  "errInvalidTag = \<lparr>err_Code = ''InvalidTag'', err_Status = 400, err_Message = ''The TagSet contains an invalid Tag''\<rparr>"

definition maxObjectTags :: nat where "maxObjectTags = 10"
definition maxBucketTags :: nat where "maxBucketTags = 50"

text \<open>The loop of \<open>validateTags\<close>, with the keys seen so far.\<close>

fun checkTags :: "string list \<Rightarrow> xmlTagEntry list \<Rightarrow> apiError option" where
  "checkTags seen [] = None"
| "checkTags seen (t # ts) =
     (if tag_Key t = [] \<or> 128 < length (tag_Key t) then
        Some (withMessage errInvalidTag ''The TagKey you have provided is invalid'')
      else if 256 < length (tag_Value t) then
        Some (withMessage errInvalidTag ''The TagValue you have provided is invalid'')
      else if tag_Key t \<in> set seen then
        Some (withMessage errInvalidTag ''Cannot provide multiple Tags with the same key'')
      else checkTags (tag_Key t # seen) ts)"

definition validateTags :: "xmlTagEntry list \<Rightarrow> nat \<Rightarrow> apiError option" where
  "validateTags tags mx =
     (if mx < length tags then
        Some (withMessage errInvalidTag (''Tag sets cannot be greater than '' @ strconv_Itoa (int mx) @ '' tags''))
      else checkTags [] tags)"

definition tagsToJSON :: "Env \<Rightarrow> xmlTagEntry list \<Rightarrow> (apiError, string) result" where
  "tagsToJSON E tags =
     (if tags = [] then Inr []
      else case env_encTags E (sort_key tag_Key tags) of
             Inl e \<Rightarrow> Inl (withMessage errInternal e) | Inr js \<Rightarrow> Inr js)"

definition tagsFromJSON :: "Env \<Rightarrow> string \<Rightarrow> xmlTagEntry list" where
  "tagsFromJSON E js = (if js = [] then [] else env_decTags E js)"

definition parseTagPair :: "string \<Rightarrow> (apiError, xmlTagEntry) result" where
  "parseTagPair pair =
     (case strings_Cut pair ''='' of (k, v, _) \<Rightarrow>
      (case (url_QueryUnescape k, url_QueryUnescape v) of
         (Some key, Some val) \<Rightarrow> Inr \<lparr>tag_Key = key, tag_Value = val\<rparr>
       | _ \<Rightarrow> Inl (withMessage errInvalidTag ''malformed x-amz-tagging header'')))"

definition parseTaggingHeader :: "string \<Rightarrow> (apiError, xmlTagEntry list) result" where
  "parseTaggingHeader header =
     (if header = [] then Inr []
      else rbind (mapM_result parseTagPair (strings_Split header CHR ''&'')) (\<lambda>tags.
        case validateTags tags maxObjectTags of Some e \<Rightarrow> Inl e | None \<Rightarrow> Inr tags))"

definition headerTags :: "Env \<Rightarrow> Call \<Rightarrow> (apiError, string) result" where
  "headerTags E c = rbind (parseTaggingHeader (Header_Get (ca_header c) ''x-amz-tagging'')) (tagsToJSON E)"

definition readTaggingBody :: "Env \<Rightarrow> Call \<Rightarrow> nat \<Rightarrow> xmlTagEntry list handler" where
  "readTaggingBody E c mx =
     hbind (readLimited c (1024 * 1024)) (\<lambda>body.
     case env_xmlTagging E body of
       None \<Rightarrow> herr errMalformedXML
     | Some tags \<Rightarrow> (case validateTags tags mx of Some e \<Rightarrow> herr e | None \<Rightarrow> hret tags))"

definition handleGetBucketTagging :: "Env \<Rightarrow> string \<Rightarrow> reply handler" where
  "handleGetBucketTagging E bucket =
     hbind (hstore (\<lambda>m. GetBucket m bucket)) (\<lambda>b.
     hthen (hcheck (bkt_Tags b = []) errNoSuchTagSet)
     (writeXML 200 (DocTagging (tagsFromJSON E (bkt_Tags b)))))"

definition handlePutBucketTagging :: "Env \<Rightarrow> Call \<Rightarrow> string \<Rightarrow> reply handler" where
  "handlePutBucketTagging E c bucket =
     hbind (readTaggingBody E c maxBucketTags) (\<lambda>tags.
     hbind (hlift (tagsToJSON E tags)) (\<lambda>tagsJSON.
     hthen (hwrite (\<lambda>m. SetBucketTagging m bucket tagsJSON))
     (hret (204, NoBody))))"

definition handleDeleteBucketTagging :: "string \<Rightarrow> reply handler" where
  "handleDeleteBucketTagging bucket =
     hthen (hwrite (\<lambda>m. SetBucketTagging m bucket [])) (hret (204, NoBody))"

definition nullVersion :: string where "nullVersion = ''null''"

definition setVersionHeader :: "string \<Rightarrow> unit handler" where
  "setVersionHeader versionID = hwhen (versionID \<noteq> []) (hset ''x-amz-version-id'' versionID)"

text \<open>An object addressed by version, or the current one; an unknown version is \<open>NoSuchVersion\<close>.\<close>

definition lookupVersion :: "string \<Rightarrow> string \<Rightarrow> string \<Rightarrow> Object handler" where
  "lookupVersion bucket key versionID =
     (if versionID \<noteq> [] then
        hbind (hindex (\<lambda>m. GetObjectVersion m bucket key versionID)) (\<lambda>r.
        case r of
          Inl e \<Rightarrow> herr (if e = ErrObjectNotFound then errNoSuchVersion else storeError e)
        | Inr ob \<Rightarrow> hret ob)
      else hstore (\<lambda>m. GetObject m bucket key))"

definition taggedObject :: "Call \<Rightarrow> string \<Rightarrow> string \<Rightarrow> (Object \<times> string) handler" where
  "taggedObject c bucket key =
     (let versionID = Values_Get (ca_query c) ''versionId'' in
      hbind (lookupVersion bucket key versionID) (\<lambda>ob.
      hthen (hcheck (obj_DeleteMarker ob) errNoSuchKey)
      (hret (ob, versionID))))"

definition handleGetObjectTagging :: "Env \<Rightarrow> Call \<Rightarrow> string \<Rightarrow> string \<Rightarrow> reply handler" where
  "handleGetObjectTagging E c bucket key =
     hbind (taggedObject c bucket key) (\<lambda>(ob, _).
     hthen (hwhen (obj_VersionID ob \<noteq> nullVersion) (setVersionHeader (obj_VersionID ob)))
     (writeXML 200 (DocTagging (tagsFromJSON E (obj_Tags ob)))))"

definition handlePutObjectTagging :: "Env \<Rightarrow> Call \<Rightarrow> string \<Rightarrow> string \<Rightarrow> reply handler" where
  "handlePutObjectTagging E c bucket key =
     hbind (taggedObject c bucket key) (\<lambda>(ob, versionID).
     hbind (readTaggingBody E c maxObjectTags) (\<lambda>tags.
     hbind (hlift (tagsToJSON E tags)) (\<lambda>tagsJSON.
     hthen (hwrite (\<lambda>m. SetObjectTags m bucket key versionID tagsJSON))
     (hthen (hwhen (obj_VersionID ob \<noteq> nullVersion) (setVersionHeader (obj_VersionID ob)))
     (hthen (hnotify E bucket)
     (hret (200, NoBody)))))))"

definition handleDeleteObjectTagging :: "Env \<Rightarrow> Call \<Rightarrow> string \<Rightarrow> string \<Rightarrow> reply handler" where
  "handleDeleteObjectTagging E c bucket key =
     hbind (taggedObject c bucket key) (\<lambda>(ob, versionID).
     hthen (hwrite (\<lambda>m. SetObjectTags m bucket key versionID []))
     (hthen (hwhen (obj_VersionID ob \<noteq> nullVersion) (setVersionHeader (obj_VersionID ob)))
     (hthen (hnotify E bucket)
     (hret (204, NoBody)))))"

section \<open>Versioning (versioning.go)\<close>

text \<open>Six bytes of the milliseconds since the epoch and ten random bytes.\<close>

definition newVersionID :: "Env \<Rightarrow> string handler" where
  "newVersionID E =
     hbind (hnow E) (\<lambda>now.
     hbind (hrandom E 10) (\<lambda>rnd.
     hret (hex_EncodeToString (take 6 (bigEndian64 (now div 1000000 * 2 ^ 16)) @ rnd))))"

text \<open>\<open>stampVersion\<close>: the object with its version, and the version id to show (empty for none).\<close>

definition stampVersion :: "Env \<Rightarrow> Object \<Rightarrow> string \<Rightarrow> (Object \<times> string) handler" where
  "stampVersion E ob mode =
     hbind (hnow E) (\<lambda>now.
     let ob = ob\<lparr>obj_VSeq := now, obj_IsLatest := True, obj_VersionID := nullVersion\<rparr> in
     if mode = ''Enabled'' then hbind (newVersionID E) (\<lambda>vid. hret (ob\<lparr>obj_VersionID := vid\<rparr>, vid))
     else hret (ob, []))"

definition handlePutBucketVersioning :: "Env \<Rightarrow> Call \<Rightarrow> string \<Rightarrow> reply handler" where
  "handlePutBucketVersioning E c bucket =
     hbind (readLimited c (64 * 1024)) (\<lambda>body.
     case env_xmlVersioning E body of
       None \<Rightarrow> herr errMalformedXML
     | Some status \<Rightarrow>
         hthen (hcheck (status \<noteq> ''Enabled'' \<and> status \<noteq> ''Suspended'') errMalformedXML)
         (hthen (hwrite (\<lambda>m. SetBucketVersioning m bucket status))
         (hret (200, NoBody))))"

section \<open>Buckets (bucket.go)\<close>

definition defaultOwner :: xmlOwner where
  "defaultOwner = \<lparr>ow_ID = ''s3warm'', ow_DisplayName = ''s3warm''\<rparr>"

definition tenantOf :: "Call \<Rightarrow> string" where
  "tenantOf c = (case ca_id c of None \<Rightarrow> [] | Some i \<Rightarrow> id_Tenant i)"

definition handleListBuckets :: "Call \<Rightarrow> reply handler" where
  "handleListBuckets c =
     hbind (hstore (\<lambda>m. Inr (ListBuckets m))) (\<lambda>buckets.
     let rt = Identity_Root (ca_id c);
         owner = (if rt then defaultOwner else \<lparr>ow_ID = tenantOf c, ow_DisplayName = tenantOf c\<rparr>);
         seen = filter (\<lambda>b. rt \<or> bkt_Owner b = tenantOf c) buckets in
     writeXML 200 (DocBuckets \<lparr>lb_Owner = owner,
       lb_Buckets = map (\<lambda>b. \<lparr>xb_Name = bkt_Name b, xb_CreationDate = xmlTime (bkt_CreatedAt b)\<rparr>) seen\<rparr>))"

text \<open>
  \<open>createActHistory\<close> of grants.go uploads a marker under a fresh access-control history. Where an error
  text of the source has a dash outside ASCII, the model has a colon.
\<close>

definition createActHistory :: "Env \<Rightarrow> string \<Rightarrow> string \<Rightarrow> string handler" where
  "createActHistory E bucket batch =
     (let marker = ''s3warm act bucket '' @ bucket in
      case UploadBytes (env_bee E) marker False
             \<lparr>uo_BatchID = batch, uo_Encrypt = False, uo_RedundancyLevel = 0, uo_Deferred = (cfg_Ack (env_cfg E) \<noteq> ''network''),
              uo_ContentLength = int (length marker), uo_Act = True, uo_ActHistory = []\<rparr> of
        Inl e \<Rightarrow> herr (beeError e)
      | Inr (_, history) \<Rightarrow>
          hthen (hcheck (history = []) (withMessage errNotImplemented
            ''the Bee node did not return an ACT history address: ACT requires Bee >= 2.2''))
          (hret history))"

text \<open>The recovery recipient of a request header, checked.\<close>

definition requestRecipient :: "Env \<Rightarrow> Call \<Rightarrow> string handler" where
  "requestRecipient E c =
     (let rec = Header_Get (ca_header c) ''x-swarm-recovery-recipient'' in
      if rec = [] then hret []
      else case ParseRecipient (ml_age (env_lib E)) rec of
             Inl e \<Rightarrow> herr (withMessage errInvalidArgument e)
           | Inr _ \<Rightarrow> hret rec)"

definition handleCreateBucket :: "Env \<Rightarrow> Call \<Rightarrow> string \<Rightarrow> reply handler" where
  "handleCreateBucket E c bucket =
     hthen (hcheck (\<not> validBucketName bucket) errInvalidBucketName)
     (hbind (hnow E) (\<lambda>now.
      hbind (requestRecipient E c) (\<lambda>rec.
      let b = zeroBucket\<lparr>bkt_Name := bucket, bkt_CreatedAt := now,
            bkt_BatchID := Header_Get (ca_header c) ''x-swarm-postage-batch-id'',
            bkt_Owner := (if Identity_Root (ca_id c) then [] else tenantOf c), bkt_RecoveryRecipient := rec\<rparr> in
      hbind (if strings_EqualFold (Header_Get (ca_header c) ''x-swarm-act'') ''true'' then
               (let batch = resolveBatch E c b in
                hthen (hcheck (batch = []) (withMessage errSwarmPostage
                  ''an ACT bucket needs a postage batch: set x-swarm-postage-batch-id or -batch-id''))
                (hthen (hcheckBatch E batch)
                (hbind (createActHistory E bucket batch) (\<lambda>history.
                 hret (b\<lparr>bkt_ACT := True, bkt_ActHistory := history\<rparr>)))))
             else hret b) (\<lambda>b.
      hbind (hupdate (\<lambda>m. CreateBucket m now b)) (\<lambda>r.
      hthen (case r of
               Inr _ \<Rightarrow> hret ()
             | Inl e \<Rightarrow>
                 if e = ErrBucketExists then
                   hbind (hstore (\<lambda>m. GetBucket m bucket)) (\<lambda>existing.
                   hthen (hcheck (bkt_Owner existing \<noteq> bkt_Owner b) (storeError e))
                   (hcheck (cfg_Region (env_cfg E) \<noteq> ''us-east-1'') (storeError e)))
                 else herr (storeError e))
      (hthen (hset ''Location'' (''/'' @ bucket))
      (hret (200, NoBody))))))))"

definition handleHeadBucket :: "Env \<Rightarrow> string \<Rightarrow> reply handler" where
  "handleHeadBucket E bucket =
     hbind (hstore (\<lambda>m. GetBucket m bucket)) (\<lambda>b.
     hthen (hwhen (bkt_HeadRoot b \<noteq> [])
       (hthen (hset ''x-swarm-bucket-root'' (bkt_HeadRoot b)) (hset ''x-swarm-commit-seq'' (strconv_Itoa (bkt_CommitSeq b)))))
     (hthen (hwhen (bkt_RecoveryRecipient b \<noteq> []) (hset ''x-swarm-recovery-recipient'' (bkt_RecoveryRecipient b)))
     (hthen (hwhen (bkt_ACT b)
       (hthen (hset ''x-swarm-act-history'' (bkt_ActHistory b))
       (hbind (publisherKey E) (\<lambda>r. case r of Inl _ \<Rightarrow> hret () | Inr pub \<Rightarrow> hset ''x-swarm-act-publisher'' pub))))
     (hret (200, NoBody)))))"

definition handleDeleteBucket :: "string \<Rightarrow> reply handler" where
  "handleDeleteBucket bucket = hthen (hwrite (\<lambda>m. DeleteBucket m bucket)) (hret (204, NoBody))"

definition handleGetBucketLocation :: "Env \<Rightarrow> string \<Rightarrow> reply handler" where
  "handleGetBucketLocation E bucket =
     hthen (hstore (\<lambda>m. GetBucket m bucket))
     (let loc = cfg_Region (env_cfg E) in writeXML 200 (DocLocation (if loc = ''us-east-1'' then [] else loc)))"

definition handleGetBucketEncryption :: "string \<Rightarrow> reply handler" where
  "handleGetBucketEncryption bucket =
     hbind (hstore (\<lambda>m. GetBucket m bucket)) (\<lambda>b.
     hthen (hcheck (bkt_Encryption b = []) errNoSSEConfig)
     (writeXML 200 (DocEncryption [\<lparr>sd_SSEAlgorithm = bkt_Encryption b, sd_KMSMasterKeyID = []\<rparr>])))"

definition handlePutBucketEncryption :: "Env \<Rightarrow> Call \<Rightarrow> string \<Rightarrow> reply handler" where
  "handlePutBucketEncryption E c bucket =
     hbind (readLimited c (64 * 1024)) (\<lambda>body.
     case env_xmlSSE E body of
       None \<Rightarrow> herr errMalformedXML
     | Some [] \<Rightarrow> herr errMalformedXML
     | Some (rule # _) \<Rightarrow>
         let alg = sd_SSEAlgorithm rule in
         hthen (hcheck (alg \<noteq> ''AES256'') (withMessage errNotImplemented (''only SSE-S3 (AES256) is supported, got '' @ alg)))
         (hthen (hwrite (\<lambda>m. SetBucketEncryption m bucket ''AES256''))
         (hret (200, NoBody))))"

definition handleDeleteBucketEncryption :: "string \<Rightarrow> reply handler" where
  "handleDeleteBucketEncryption bucket =
     hthen (hwrite (\<lambda>m. SetBucketEncryption m bucket [])) (hret (204, NoBody))"

definition handleGetBucketVersioning :: "string \<Rightarrow> reply handler" where
  "handleGetBucketVersioning bucket =
     hbind (hstore (\<lambda>m. GetBucket m bucket)) (\<lambda>b. writeXML 200 (DocVersioning (bkt_Versioning b)))"

text \<open>
  \<open>bucketHasKeyBearingRefs\<close> looks through the bucket page by page and stops at the first hit. The fuel
  bounds the pages; one page more than the bucket has keys is enough.
\<close>

fun anyKeyBearing :: "Memory \<Rightarrow> string \<Rightarrow> nat \<Rightarrow> string \<Rightarrow> (store_error, bool) result option" where
  "anyKeyBearing m bucket 0 after = None"
| "anyKeyBearing m bucket (Suc fuel) after =
     (case ListObjects m bucket [] after 1000 of
        Inl e \<Rightarrow> Some (Inl e)
      | Inr page \<Rightarrow>
          if \<exists>ob \<in> set page. HasKeyBearingRefs ob then Some (Inr True)
          else if length page < 1000 then Some (Inr False)
          else anyKeyBearing m bucket fuel (obj_Key (last page)))"

definition bucketHasKeyBearingRefs :: "string \<Rightarrow> bool handler" where
  "bucketHasKeyBearingRefs bucket =
     hstore (\<lambda>m. case anyKeyBearing m bucket (pageFuel m bucket) [] of None \<Rightarrow> Inl ErrBucketNotFound | Some r \<Rightarrow> r)"

text \<open>The search sees what the listing of all pages sees; so the fuel is enough, and the answer is exact.\<close>

lemma anyKeyBearing_listAll:
  "listAll ListObjects m n fuel a = Some (Inr obs) \<Longrightarrow> anyKeyBearing m n fuel a = Some (Inr (\<exists>ob \<in> set obs. HasKeyBearingRefs ob))"
proof (induction fuel arbitrary: a obs)
  case (Suc fuel)
  then obtain page where page: "ListObjects m n [] a 1000 = Inr page"
    and rest: "(if length page < 1000 then obs = page
      else \<exists>more. listAll ListObjects m n fuel (obj_Key (last page)) = Some (Inr more) \<and> obs = page @ more)"
    by (auto split: sum.splits if_splits option.splits)
  then show ?case using Suc.IH by (auto split: if_splits)
qed simp

lemma bucketHasKeyBearingRefs_exact:
  assumes "memory_wf (srv_store s)" "getBucket (srv_store s) n = Inr b" "\<forall>ob \<in> set (liveObjects b). obj_Key ob \<noteq> []"
  shows "bucketHasKeyBearingRefs n s = (Inr (\<exists>ob \<in> set (liveObjects b). HasKeyBearingRefs ob), s)"
proof -
  have "anyKeyBearing (srv_store s) n (pageFuel (srv_store s) n) [] = Some (Inr (\<exists>ob \<in> set (liveObjects b). HasKeyBearingRefs ob))"
    by (rule anyKeyBearing_listAll) (rule commit_listing [OF assms])
  then show ?thesis by (simp add: bucketHasKeyBearingRefs_def hstore_def hindex_def hbind_def hret_def)
qed

definition handlePutBucketRecoveryRecipient :: "Env \<Rightarrow> Call \<Rightarrow> string \<Rightarrow> reply handler" where
  "handlePutBucketRecoveryRecipient E c bucket =
     hthen (hstore (\<lambda>m. GetBucket m bucket))
     (hbind (requestRecipient E c) (\<lambda>rec.
      hthen (if rec = [] then
               hbind (bucketHasKeyBearingRefs bucket) (\<lambda>has.
               hbind (\<lambda>s. (Inr (srv_commits s \<noteq> None), s)) (\<lambda>commits.
               hcheck (has \<and> commits) (withMessage errInvalidRequest
                 (''this bucket holds encrypted objects, so clearing its recovery recipient '' @
                  ''would stop its commit chain: delete those objects first, or set a different recipient''))))
             else hret ())
      (hthen (hwrite (\<lambda>m. SetBucketRecoveryRecipient m bucket rec))
      (hthen (hwhen (rec \<noteq> []) (hnotify E bucket))
      (hret (200, NoBody))))))"

section \<open>Cross-origin requests (cors.go)\<close>

definition errNoCORSConfig :: apiError where
  "errNoCORSConfig = \<lparr>err_Code = ''NoSuchCORSConfiguration'', err_Status = 404,
     err_Message = ''The CORS configuration does not exist''\<rparr>"

definition handleGetBucketCors :: "Env \<Rightarrow> string \<Rightarrow> reply handler" where
  "handleGetBucketCors E bucket =
     hbind (hstore (\<lambda>m. GetBucket m bucket)) (\<lambda>b.
     hthen (hcheck (bkt_CORS b = []) errNoCORSConfig)
     (case env_decCors E (bkt_CORS b) of
        Inl e \<Rightarrow> herr (withMessage errInternal e)
      | Inr rules \<Rightarrow> writeXML 200 (DocCors rules)))"

definition checkOrigin :: "string \<Rightarrow> apiError option" where
  "checkOrigin orig =
     (if 1 < length (filter (\<lambda>c. c = CHR ''*'') orig)
      then Some (withMessage errInvalidRequest (''AllowedOrigin '' @ orig @ '' can not have more than one wildcard''))
      else None)"

fun checkCorsRules :: "corsRule list \<Rightarrow> apiError option" where
  "checkCorsRules [] = None"
| "checkCorsRules (rule # rules) =
     (if cors_AllowedOrigins rule = [] \<or> cors_AllowedMethods rule = [] then Some errMalformedXML
      else case List.find (\<lambda>x. x \<noteq> None) (map checkOrigin (cors_AllowedOrigins rule)) of
             Some e \<Rightarrow> e
           | None \<Rightarrow> checkCorsRules rules)"

definition handlePutBucketCors :: "Env \<Rightarrow> Call \<Rightarrow> string \<Rightarrow> reply handler" where
  "handlePutBucketCors E c bucket =
     hbind (readLimited c (64 * 1024)) (\<lambda>body.
     case env_xmlCors E body of
       None \<Rightarrow> herr errMalformedXML
     | Some rules \<Rightarrow>
         hthen (hcheck (rules = [] \<or> 100 < length rules) errMalformedXML)
         (case checkCorsRules rules of
            Some e \<Rightarrow> herr e
          | None \<Rightarrow>
              (case env_encCors E rules of
                 Inl e \<Rightarrow> herr (withMessage errInternal e)
               | Inr js \<Rightarrow> hthen (hwrite (\<lambda>m. SetBucketCORS m bucket js)) (hret (200, NoBody)))))"

definition handleDeleteBucketCors :: "string \<Rightarrow> reply handler" where
  "handleDeleteBucketCors bucket =
     hthen (hwrite (\<lambda>m. SetBucketCORS m bucket [])) (hret (204, NoBody))"

text \<open>A bucket's rules; empty when there are none.\<close>

definition bucketCORSRules :: "Env \<Rightarrow> string \<Rightarrow> corsRule list handler" where
  "bucketCORSRules E bucket =
     (if bucket = [] then hret []
      else hbind (hindex (\<lambda>m. GetBucket m bucket)) (\<lambda>r.
        case r of
          Inl _ \<Rightarrow> hret []
        | Inr b \<Rightarrow> if bkt_CORS b = [] then hret []
                   else hret (case env_decCors E (bkt_CORS b) of Inl _ \<Rightarrow> [] | Inr rules \<Rightarrow> rules)))"

definition originMatches :: "string \<Rightarrow> string \<Rightarrow> bool" where
  "originMatches pattern orig =
     (if pattern = ''*'' then True
      else case strings_Index pattern ''*'' of
             Some i \<Rightarrow>
               (let pre = take i pattern; suf = drop (i + 1) pattern in
                length pre + length suf \<le> length orig \<and> HasPrefix orig pre \<and> HasSuffix orig suf)
           | None \<Rightarrow> pattern = orig)"

fun corsMatch :: "corsRule list \<Rightarrow> string \<Rightarrow> string \<Rightarrow> (corsRule \<times> string) option" where
  "corsMatch [] orig mth = None"
| "corsMatch (rule # rules) orig mth =
     (if \<exists>m \<in> set (cors_AllowedMethods rule). strings_EqualFold m mth then
        (case List.find (\<lambda>p. originMatches p orig) (cors_AllowedOrigins rule) of
           Some p \<Rightarrow> Some (rule, p)
         | None \<Rightarrow> corsMatch rules orig mth)
      else corsMatch rules orig mth)"

definition headerAdd :: "string \<Rightarrow> string \<Rightarrow> unit handler" where
  "headerAdd k v s =
     (Inr (), s\<lparr>srv_header := gm_put (strings_ToLower k) (Header_Values (srv_header s) k @ [v]) (srv_header s)\<rparr>)"

definition applyCORS :: "corsRule \<Rightarrow> string \<Rightarrow> string \<Rightarrow> unit handler" where
  "applyCORS rule pattern orig =
     (let allowOrigin = (if pattern = ''*'' then ''*'' else orig) in
      hthen (hset ''Access-Control-Allow-Origin'' allowOrigin)
      (hthen (hset ''Access-Control-Allow-Methods'' (strings_Join (cors_AllowedMethods rule) '', ''))
      (hthen (hwhen (cors_ExposeHeaders rule \<noteq> []) (hset ''Access-Control-Expose-Headers'' (strings_Join (cors_ExposeHeaders rule) '', '')))
      (hwhen (allowOrigin \<noteq> ''*'')
        (hthen (hset ''Access-Control-Allow-Credentials'' ''true'') (headerAdd ''Vary'' ''Origin''))))))"

definition decorateCORS :: "Env \<Rightarrow> Call \<Rightarrow> string \<Rightarrow> unit handler" where
  "decorateCORS E c bucket =
     (let orig = Header_Get (ca_header c) ''Origin''; rm = Header_Get (ca_header c) ''Access-Control-Request-Method'';
          mth = (if rm = [] then req_Method (ca_req c) else rm) in
      hwhen (orig \<noteq> [])
        (hbind (bucketCORSRules E bucket) (\<lambda>rules.
         case corsMatch rules orig mth of None \<Rightarrow> hret () | Some (rule, pattern) \<Rightarrow> applyCORS rule pattern orig)))"

definition headerAllowed :: "string list \<Rightarrow> string \<Rightarrow> bool" where
  "headerAllowed allowed name \<longleftrightarrow>
     (\<exists>a \<in> set allowed. a = ''*'' \<or> strings_EqualFold a name \<or>
        (case strings_Index a ''*'' of
           Some i \<Rightarrow>
             (let la = strings_ToLower a; ln = strings_ToLower name; pre = take i la; suf = drop (i + 1) la in
              length pre + length suf \<le> length ln \<and> HasPrefix ln pre \<and> HasSuffix ln suf)
         | None \<Rightarrow> False))"

definition resolveTarget :: "Env \<Rightarrow> Request \<Rightarrow> string \<times> string" where
  "resolveTarget E r =
     (let host = (case net_SplitHost (req_Host r) of Some h \<Rightarrow> h | None \<Rightarrow> req_Host r); d = cfg_Domain (env_cfg E) in
      if d \<noteq> [] \<and> host \<noteq> d \<and> HasSuffix host (''.'' @ d) then
        (strings_TrimSuffix host (''.'' @ d), strings_TrimPrefix (req_Path r) ''/'')
      else (case strings_Cut (strings_TrimPrefix (req_Path r) ''/'') ''/'' of (bucket, key, _) \<Rightarrow> (bucket, key)))"

definition accessForbidden :: apiError where
  "accessForbidden = \<lparr>err_Code = ''AccessForbidden'', err_Status = 403,
     err_Message = ''CORSResponse: This CORS request is not allowed. Check your policy and try again.''\<rparr>"

definition handlePreflight :: "Env \<Rightarrow> Call \<Rightarrow> reply handler" where
  "handlePreflight E c =
     (let h = ca_header c; orig = Header_Get h ''Origin''; mth = Header_Get h ''Access-Control-Request-Method'';
          reqHeaders = Header_Get h ''Access-Control-Request-Headers'' in
      hthen (hcheck (orig = [] \<or> mth = []) \<lparr>err_Code = ''BadRequest'', err_Status = 400,
        err_Message = ''Insufficient information. Origin request header needed.''\<rparr>)
      (hbind (bucketCORSRules E (fst (resolveTarget E (ca_req c)))) (\<lambda>rules.
       case corsMatch rules orig mth of
         None \<Rightarrow> herr accessForbidden
       | Some (rule, pattern) \<Rightarrow>
           hthen (hwhen (reqHeaders \<noteq> [])
             (hthen (hcheck (\<exists>name \<in> set (strings_Split reqHeaders CHR '',''). \<not> headerAllowed (cors_AllowedHeaders rule) (strings_TrimSpace name))
                accessForbidden)
             (hset ''Access-Control-Allow-Headers'' reqHeaders)))
           (hthen (applyCORS rule pattern orig)
           (hthen (hwhen (0 < cors_MaxAgeSeconds rule) (hset ''Access-Control-Max-Age'' (strconv_Itoa (cors_MaxAgeSeconds rule))))
           (hret (200, NoBody)))))))"

end
