(* ===== verification/Snapshots.thy ===== *)
theory Snapshots
  imports Buckets
begin

text \<open>
  Grants on access-controlled buckets (grants.go), snapshots of buckets and the restore of a bucket from
  a commit (snapshot.go).
\<close>

section \<open>Grants (grants.go)\<close>

definition actBucket :: "string \<Rightarrow> Bucket handler" where
  "actBucket bucket =
     hbind (hstore (\<lambda>m. GetBucket m bucket)) (\<lambda>b.
     hthen (hcheck (\<not> bkt_ACT b) (withMessage errInvalidRequest
       ''bucket is not ACT-protected; create it with the x-swarm-act: true header to use grants''))
     (hret b))"

text \<open>A call of the node: its failure as the handlers report it.\<close>

definition hbee :: "(bee_error, 'a) result \<Rightarrow> 'a handler" where
  "hbee r = (case r of Inl e \<Rightarrow> herr (beeError e) | Inr x \<Rightarrow> hret x)"

definition handleGetGrants :: "Env \<Rightarrow> string \<Rightarrow> reply handler" where
  "handleGetGrants E bucket =
     hbind (actBucket bucket) (\<lambda>b.
     hbind (hbind (publisherKey E) hbee) (\<lambda>pub.
     hbind (if bkt_ActGrantees b \<noteq> [] then hbee (Grantees (env_bee E) (bkt_ActGrantees b)) else hret []) (\<lambda>grantees.
     writeJSON 200 (DocGrants \<lparr>gp_Bucket = bucket, gp_Publisher = pub, gp_HistoryRef = bkt_ActHistory b,
       gp_GranteesRef = bkt_ActGrantees b, gp_Grantees = grantees\<rparr>))))"

definition grantsBodyText :: string where
  "grantsBodyText = ''grants body must be JSON: {'' @ [CHR 0x22] @ ''add'' @ [CHR 0x22] @ '': [pubkey...], '' @
     [CHR 0x22] @ ''revoke'' @ [CHR 0x22] @ '': [pubkey...]}''"

definition handlePutGrants :: "Env \<Rightarrow> Call \<Rightarrow> string \<Rightarrow> reply handler" where
  "handlePutGrants E c bucket =
     hbind (actBucket bucket) (\<lambda>b.
     hbind (readLimited c (1024 * 1024)) (\<lambda>body.
     case env_jsonGrants E body of
       None \<Rightarrow> herr (withMessage errInvalidRequest grantsBodyText)
     | Some req \<Rightarrow>
         let batch = resolveBatch E c b in
         hthen (hcheck (gq_Add req = [] \<and> gq_Revoke req = []) (withMessage errInvalidRequest ''grants request adds or revokes nothing''))
         (hthen (case List.find (\<lambda>k. \<not> granteeKeyRE k) (gq_Add req @ gq_Revoke req) of
                   Some k \<Rightarrow> herr (withMessage errInvalidArgument
                     (''grantee must be a compressed secp256k1 public key (66 hex chars, 02/03 prefix): '' @ k))
                 | None \<Rightarrow> hret ())
         (hthen (hcheck (batch = []) (withMessage errSwarmPostage
           ''grant mutations need a postage batch: set x-swarm-postage-batch-id or -batch-id''))
         (hthen (hcheckBatch E batch)
         (hthen (hcheck (bkt_ActGrantees b = [] \<and> gq_Revoke req \<noteq> []) (withMessage errInvalidRequest ''bucket has no grantee list to revoke from''))
         (hbind (hbee (if bkt_ActGrantees b = [] then CreateGrantees (env_bee E) batch (bkt_ActHistory b) (gq_Add req)
                       else PatchGrantees (env_bee E) (bkt_ActGrantees b) (bkt_ActHistory b) batch (gq_Add req) (gq_Revoke req))) (\<lambda>res.
         hthen (hwrite (\<lambda>m. SetBucketACT m bucket (gr_History res) (gr_Ref res)))
         (hbind (publisherKey E) (\<lambda>pub.
         writeJSON 200 (DocGrants \<lparr>gp_Bucket = bucket, gp_Publisher = (case pub of Inl _ \<Rightarrow> [] | Inr p \<Rightarrow> p),
           gp_HistoryRef = gr_History res, gp_GranteesRef = gr_Ref res,
           gp_Grantees = (case Grantees (env_bee E) (gr_Ref res) of Inl _ \<Rightarrow> [] | Inr gs \<Rightarrow> gs)\<rparr>)))))))))))"

section \<open>Snapshots and restore (snapshot.go)\<close>

fun bee_error_Error :: "bee_error \<Rightarrow> string" where
  "bee_error_Error (StatusError code msg) = ''bee: '' @ strconv_Itoa code @ '' '' @ msg"
| "bee_error_Error (OtherError msg) = msg"

text \<open>
  \<open>commitError\<close>. The texts of an error that is none of the node's status errors are abbreviated
  as in the model of the committer.
\<close>

fun manifest_error_Error :: "manifest_error \<Rightarrow> string" where
  "manifest_error_Error ErrACTBucket = ''commit chain is disabled for ACT-protected buckets''"
| "manifest_error_Error ErrNoRecoveryRecipient =
     ''commit chain needs a recovery recipient before it can carry this bucket's encrypted objects: '' @
     ''set one with PUT /{bucket}?x-swarm-recovery-recipient '' @
     ''(header x-swarm-recovery-recipient: an age X25519 recipient). '' @
     ''Existing objects are kept and sealed on the next commit''"
| "manifest_error_Error (ErrCommitVersion v) = ''unsupported commit document version: document is version '' @ strconv_Itoa v @
     '', this gateway understands 1..'' @ strconv_Itoa CommitVersion"
| "manifest_error_Error (RecoveryError (ErrDecrypt e)) = ''cannot decrypt sealed reference: '' @ e"
| "manifest_error_Error (RecoveryError (ReadError e)) = e"
| "manifest_error_Error (BeeError e) = bee_error_Error e"
| "manifest_error_Error (StoreError e) = store_error_Error e"
| "manifest_error_Error (CommitError msg) = msg"

definition beeErrorOf :: "manifest_error \<Rightarrow> apiError" where
  "beeErrorOf e = (case e of BeeError be \<Rightarrow> beeError be | _ \<Rightarrow> beeError (OtherError (manifest_error_Error e)))"

definition commitError :: "manifest_error \<Rightarrow> apiError" where
  "commitError e =
     (case e of
        ErrACTBucket \<Rightarrow> withMessage errInvalidRequest (manifest_error_Error e)
      | ErrNoRecoveryRecipient \<Rightarrow> withMessage errInvalidRequest (manifest_error_Error e)
      | StoreError se \<Rightarrow> if err_Code (storeError se) \<noteq> err_Code errInternal then storeError se else beeErrorOf e
      | _ \<Rightarrow> beeErrorOf e)"

text \<open>\<open>commits.CommitNow\<close> inside a request. The pin of a snapshot's root, whose outcome is only logged, is left out.\<close>

definition hcommit :: "Env \<Rightarrow> string \<Rightarrow> (string \<times> int) handler" where
  "hcommit E bucket s =
     (case srv_commits s of
        None \<Rightarrow> (Inl (withMessage errNotImplemented ''commits are disabled (-commit off)''), s)
      | Some co \<Rightarrow>
          (let oc = CommitNow (env_lib E) (env_clock E (srv_tick s)) co (srv_store s) bucket;
               s = s\<lparr>srv_commits := Some (oc_Committer oc), srv_store := oc_Store oc, srv_tick := Suc (srv_tick s)\<rparr> in
           ((case oc_Result oc of Inl e \<Rightarrow> Inl (commitError e) | Inr x \<Rightarrow> Inr x), s)))"

definition handleCreateSnapshot :: "Env \<Rightarrow> Call \<Rightarrow> string \<Rightarrow> reply handler" where
  "handleCreateSnapshot E c bucket =
     (let label = Values_Get (ca_query c) ''x-swarm-snapshot'' in
      hthen (hcheck (\<not> snapshotLabelRE label) (withMessage errInvalidArgument ''snapshot label must match [A-Za-z0-9._-]{1,64}''))
      (hbind (hcommit E bucket) (\<lambda>(rt, seq).
       hbind (hnow E) (\<lambda>now.
       let snap = \<lparr>snap_Bucket = bucket, snap_Label = label, snap_Root = rt, snap_Seq = seq, snap_CreatedAt = now\<rparr> in
       hthen (hwrite (\<lambda>m. PutSnapshot m now snap))
       (hthen (hset ''x-swarm-bucket-root'' rt)
       (writeJSON 200 (DocSnapshot snap)))))))"

definition handleListSnapshots :: "string \<Rightarrow> reply handler" where
  "handleListSnapshots bucket =
     hbind (hstore (\<lambda>m. ListSnapshots m bucket)) (\<lambda>snaps. writeJSON 200 (DocSnapshots bucket snaps))"

text \<open>The root a restore addresses: a snapshot label, else a root in hexadecimal.\<close>

definition restoreRoot :: "string \<Rightarrow> string \<Rightarrow> string handler" where
  "restoreRoot bucket target =
     hbind (hindex (\<lambda>m. GetSnapshot m bucket target)) (\<lambda>r.
     case r of
       Inr snap \<Rightarrow> hret (snap_Root snap)
     | Inl _ \<Rightarrow> if rootHexRE target then hret target
                else herr (withMessage errInvalidArgument ''x-swarm-restore must be a snapshot label or a 64-hex commit root''))"

definition restoreIdentity :: "Env \<Rightarrow> Call \<Rightarrow> string option handler" where
  "restoreIdentity E c =
     (let raw = Header_Get (ca_header c) ''x-swarm-recovery-identity'' in
      if raw = [] then hret None
      else case ParseIdentity (ml_age (env_lib E)) raw of
             Inl e \<Rightarrow> herr (withMessage errInvalidArgument e) | Inr i \<Rightarrow> hret (Some i))"

definition getCommitError :: "manifest_error \<Rightarrow> apiError" where
  "getCommitError e =
     (case e of
        RecoveryError (ErrDecrypt _) \<Rightarrow> withMessage errInvalidRequest (manifest_error_Error e)
      | ErrCommitVersion _ \<Rightarrow> withMessage errInvalidRequest (manifest_error_Error e)
      | _ \<Rightarrow> beeErrorOf e)"

definition restoreSaver :: "Env \<Rightarrow> LoadSaver" where
  "restoreSaver E = \<lparr>ls_bee = env_bee E, ls_batch = [], ls_deferred = True\<rparr>"

definition handleRestoreBucket :: "Env \<Rightarrow> Call \<Rightarrow> string \<Rightarrow> reply handler" where
  "handleRestoreBucket E c bucket =
     hthen (hstore (\<lambda>m. GetBucket m bucket))
     (hbind (restoreRoot bucket (Values_Get (ca_query c) ''x-swarm-restore'')) (\<lambda>rt.
      hbind (restoreIdentity E c) (\<lambda>ident.
      case GetCommit (env_lib E) (restoreSaver E) rt ident of
        Inl e \<Rightarrow> herr (getCommitError e)
      | Inr commit \<Rightarrow>
          hthen (hcheck (cm_Bucket commit \<noteq> bucket) (withMessage errInvalidRequest
            (''commit '' @ rt @ '' belongs to bucket '' @ cm_Bucket commit)))
          (hthen (hcheck (0 < SealedCount commit) (withMessage errInvalidRequest
            (strconv_Itoa (SealedCount commit) @ '' of '' @ strconv_Itoa (int (length (cm_Objects commit))) @
             '' objects have sealed references: supply the bucket's recovery identity '' @
             ''in x-swarm-recovery-identity to restore them'')))
          (hthen (hwrite (\<lambda>m. RestoreBucket m bucket (cm_Objects commit) rt (cm_Seq commit)))
          (hthen (hset ''x-swarm-bucket-root'' rt)
          (writeJSON 200 (DocRestore \<lparr>rr_Bucket = bucket, rr_Root = rt, rr_Seq = cm_Seq commit,
             rr_Objects = int (length (cm_Objects commit))\<rparr>))))))))"

end
