(* ===== verification/Objects.thy ===== *)
theory Objects
  imports Snapshots
begin

text \<open>
  The handlers of objects, file internal/api/object.go: the upload of a body with its digests and the
  flexible checksums of checksum.go, put, get, delete, copy (with the copy source of multipart.go) and
  the attributes of an object.
\<close>

section \<open>Checksums (checksum.go)\<close>

definition checksumAlgorithms :: "string list" where
  "checksumAlgorithms = [''crc32'', ''crc32c'', ''crc64nvme'', ''sha1'', ''sha256'']"

record checksumRequest =
  ck_alg :: string
  ck_expected :: string
  ck_inTrailer :: bool

definition parseChecksumRequest :: "Env \<Rightarrow> http_header \<Rightarrow> (apiError, checksumRequest option) result" where
  "parseChecksumRequest E h =
     (case List.find (\<lambda>alg. Header_Get h (''x-amz-checksum-'' @ alg) \<noteq> []) (env_algs E) of
        Some alg \<Rightarrow> Inr (Some \<lparr>ck_alg = alg, ck_expected = Header_Get h (''x-amz-checksum-'' @ alg), ck_inTrailer = False\<rparr>)
      | None \<Rightarrow>
          (let t = strings_ToLower (Header_Get h ''x-amz-trailer'');
               a = strings_ToLower (Header_Get h ''x-amz-sdk-checksum-algorithm'') in
           if t \<noteq> [] then
             (case strings_CutPrefix t ''x-amz-checksum-'' of (alg, ok) \<Rightarrow>
              if \<not> ok \<or> alg \<notin> set checksumAlgorithms then Inl (withMessage errInvalidRequest (''unsupported x-amz-trailer: '' @ t))
              else Inr (Some \<lparr>ck_alg = alg, ck_expected = [], ck_inTrailer = True\<rparr>))
           else if a \<noteq> [] then
             (if a \<notin> set checksumAlgorithms then Inl (withMessage errInvalidRequest (''unsupported checksum algorithm: '' @ a))
              else Inr (Some \<lparr>ck_alg = a, ck_expected = [], ck_inTrailer = False\<rparr>))
           else Inr None))"

section \<open>Uploading a body (object.go)\<close>

record uploadResult =
  ur_Ref :: string
  ur_Size :: int
  ur_ETag :: string
  ur_ChecksumAlgorithm :: string
  ur_Checksum :: string
  ur_ActHistory :: string

definition isAwsChunked :: "Call \<Rightarrow> bool" where
  "isAwsChunked c \<longleftrightarrow> HasPrefix (Header_Get (ca_header c) ''X-Amz-Content-Sha256'') ''STREAMING-''"

text \<open>
  What the reader of a request body delivers when it is drained: the payload, the error it
  ends with, the trailers, and the length announced to the node. An upload that returns has
  drained the reader; a failed one is taken to have drained it too.
\<close>

record body_read =
  rd_data :: string
  rd_failed :: bool
  rd_err :: "chunk_error option"
  rd_trailer :: http_header
  rd_length :: int

definition readBody :: "Env \<Rightarrow> Call \<Rightarrow> (apiError, body_read) result" where
  "readBody E c =
     (if isAwsChunked c then
        (let stream = (case ca_id c of None \<Rightarrow> None | Some i \<Rightarrow> id_Stream i);
             dcl = Header_Get (ca_header c) ''x-amz-decoded-content-length'';
             len = (if dcl = [] then - 1 else case strconv_ParseInt 10 dcl of None \<Rightarrow> - 1 | Some n \<Rightarrow> n) in
         if HasPrefix (Header_Get (ca_header c) ''X-Amz-Content-Sha256'') ''STREAMING-AWS4-HMAC-SHA256'' \<and> stream = None then
           Inl (withMessage errInvalidRequest ''signed streaming payload requires SigV4 authentication'')
         else
         (case readAll (env_crypto E) (env_reads E) 0 (NewChunkedReader (ca_body c) (ca_bodyErr c) stream) of
            (data, err, trailer) \<Rightarrow>
              Inr \<lparr>rd_data = data, rd_failed = (err \<noteq> None), rd_err = err, rd_trailer = trailer, rd_length = len\<rparr>))
      else Inr \<lparr>rd_data = ca_body c, rd_failed = (ca_bodyErr c \<noteq> []), rd_err = None, rd_trailer = [],
                rd_length = req_ContentLength (ca_req c)\<rparr>)"

definition chunkedErr :: "Env \<Rightarrow> chunk_error \<Rightarrow> apiError" where
  "chunkedErr E e =
     (if isChunkSignature e then \<lparr>err_Code = ''SignatureDoesNotMatch'', err_Status = 403, err_Message = env_chunkErr E e\<rparr>
      else withMessage errInvalidRequest (env_chunkErr E e))"

definition uploadOptions :: "Env \<Rightarrow> string \<Rightarrow> string \<Rightarrow> bool \<Rightarrow> int \<Rightarrow> UploadOptions" where
  "uploadOptions E batch storageClass encrypt contentLength =
     \<lparr>uo_BatchID = batch, uo_Encrypt = encrypt, uo_RedundancyLevel = redundancyFor E storageClass,
      uo_Deferred = (cfg_Ack (env_cfg E) \<noteq> ''network''), uo_ContentLength = contentLength, uo_Act = False, uo_ActHistory = []\<rparr>"

text \<open>The upload itself: the reference and the history the bytes were written under.\<close>

definition sendBody :: "Env \<Rightarrow> Bucket \<Rightarrow> string \<Rightarrow> string \<Rightarrow> bool \<Rightarrow> body_read \<Rightarrow> (string \<times> string) handler" where
  "sendBody E b batch storageClass encrypt rd =
     (let opts = uploadOptions E batch storageClass encrypt (rd_length rd);
          opts = (if bkt_ACT b then opts\<lparr>uo_Act := True, uo_ActHistory := bkt_ActHistory b\<rparr> else opts) in
      case UploadBytes (env_bee E) (rd_data rd) (rd_failed rd) opts of
        Inl e \<Rightarrow> herr (case rd_err rd of Some ce \<Rightarrow> chunkedErr E ce | None \<Rightarrow> beeError e)
      | Inr (ref, history) \<Rightarrow>
          if bkt_ACT b \<and> history \<noteq> [] then
            hthen (if history \<noteq> bkt_ActHistory b then
                     hthen (hupdate (\<lambda>m. SetBucketACT m (bkt_Name b) history (bkt_ActGrantees b))) (hret ())
                   else hret ())
            (hret (ref, history))
          else hret (ref, if bkt_ACT b then bkt_ActHistory b else []))"

text \<open>The checks on the digests of what was read.\<close>

definition checkDigests :: "Env \<Rightarrow> Call \<Rightarrow> string \<Rightarrow> (apiError, unit) result" where
  "checkDigests E c data =
     (let expectedSHA = strings_ToLower (Header_Get (ca_header c) ''X-Amz-Content-Sha256'');
          cmd5 = Header_Get (ca_header c) ''Content-MD5'' in
      if length expectedSHA = 64 \<and> hex_EncodeToString (sha256_Sum256 (env_crypto E) data) \<noteq> expectedSHA then Inl errSHA256Mismatch
      else if cmd5 \<noteq> [] \<and> base64_DecodeString StdEncoding cmd5 \<noteq> Some (env_md5 E data) then Inl errBadDigest
      else Inr ())"

definition flexibleChecksum ::
  "Env \<Rightarrow> Call \<Rightarrow> checksumRequest option \<Rightarrow> body_read \<Rightarrow> string \<Rightarrow> (apiError, string \<times> string) result" where
  "flexibleChecksum E c ck rd data =
     (case ck of
        None \<Rightarrow> Inr ([], [])
      | Some ck \<Rightarrow>
          (let digest = base64_EncodeToString StdEncoding (env_checksum E (ck_alg ck) data);
               expected = (if ck_inTrailer ck \<and> isAwsChunked c then Header_Get (rd_trailer rd) (''x-amz-checksum-'' @ ck_alg ck)
                           else ck_expected ck) in
           if expected \<noteq> [] \<and> expected \<noteq> digest then
             Inl (withMessage errBadDigest (''The '' @ strings_ToUpper (ck_alg ck) @
               '' you specified did not match the calculated checksum.''))
           else Inr (strings_ToUpper (ck_alg ck), digest)))"

definition uploadBody :: "Env \<Rightarrow> Call \<Rightarrow> Bucket \<Rightarrow> string \<Rightarrow> string \<Rightarrow> bool \<Rightarrow> uploadResult handler" where
  "uploadBody E c b batch storageClass encrypt =
     hbind (hlift (parseChecksumRequest E (ca_header c))) (\<lambda>ck.
     hbind (hlift (readBody E c)) (\<lambda>rd.
     hbind (if rd_length rd \<noteq> 0 then sendBody E b batch storageClass encrypt rd
            else case rd_err rd of
                   Some ce \<Rightarrow> herr (chunkedErr E ce)
                 | None \<Rightarrow> hret ([], if bkt_ACT b then bkt_ActHistory b else [])) (\<lambda>(ref, actHistory).
     let data = (if rd_length rd = 0 \<and> \<not> isAwsChunked c then [] else rd_data rd) in
     hthen (hlift (checkDigests E c data))
     (hbind (hlift (flexibleChecksum E c ck rd data)) (\<lambda>(alg, digest).
     hret \<lparr>ur_Ref = ref, ur_Size = int (length data), ur_ETag = hex_EncodeToString (env_md5 E data),
           ur_ChecksumAlgorithm = alg, ur_Checksum = digest,
           ur_ActHistory = (if bkt_ACT b \<and> ref \<noteq> [] then actHistory else [])\<rparr>)))))"

section \<open>Put\<close>

definition storedContentEncoding :: "string \<Rightarrow> string" where
  "storedContentEncoding header =
     (if header = [] then []
      else strings_Join (filter (\<lambda>e. e \<noteq> [] \<and> \<not> strings_EqualFold e ''aws-chunked'')
             (map strings_TrimSpace (strings_Split header CHR '',''))) '', '')"

definition userMetadata :: "http_header \<Rightarrow> (string, string) gomap" where
  "userMetadata h =
     foldl (\<lambda>m (name, vals). case strings_CutPrefix (strings_ToLower name) ''x-amz-meta-'' of (suffix, ok) \<Rightarrow>
        if ok \<and> vals \<noteq> [] then gm_put suffix (hd vals) m else m) [] h"

definition requestCondition :: "Call \<Rightarrow> PutCondition option" where
  "requestCondition c =
     (let im = Header_Get (ca_header c) ''If-Match''; inm = Header_Get (ca_header c) ''If-None-Match'' in
      if im \<noteq> [] \<or> inm \<noteq> [] then Some \<lparr>IfMatch = trimETag im, IfNoneMatch = trimETag inm\<rparr> else None)"

text \<open>The early check of a conditional put; the index checks again when it writes.\<close>

definition earlyCondition :: "string \<Rightarrow> string \<Rightarrow> PutCondition option \<Rightarrow> unit handler" where
  "earlyCondition bucket key cond =
     (case cond of
        None \<Rightarrow> hret ()
      | Some pc \<Rightarrow>
          hbind (hindex (\<lambda>m. GetObject m bucket key)) (\<lambda>cur.
          let exists = (case cur of Inr ob \<Rightarrow> \<not> obj_DeleteMarker ob | Inl _ \<Rightarrow> False);
              curETag = (case cur of Inr ob \<Rightarrow> if exists then obj_ETag ob else [] | Inl _ \<Rightarrow> []) in
          hthen (hcheck (\<not> exists \<and> IfMatch pc \<noteq> []) errNoSuchKey)
          (hcheck (\<not> PutCondition_Ok cond exists curETag) errPreconditionFailed)))"

text \<open>The row of a put, and what follows its upload.\<close>

definition putRow :: "Call \<Rightarrow> string \<Rightarrow> string \<Rightarrow> Bucket \<Rightarrow> string \<Rightarrow> bool \<Rightarrow> uploadResult \<Rightarrow> string \<Rightarrow> gotime \<Rightarrow> Object" where
  "putRow c bucket key b batch encrypt res tagsJSON now =
     (let h = ca_header c in
      zeroObject\<lparr>obj_Bucket := bucket, obj_Key := key, obj_SwarmRef := ur_Ref res, obj_Tags := tagsJSON,
        obj_BatchID := batch, obj_Size := ur_Size res, obj_ETag := ur_ETag res,
        obj_ContentType := Header_Get h ''Content-Type'',
        obj_ContentEncoding := storedContentEncoding (Header_Get h ''Content-Encoding''),
        obj_StorageClass := storageClassOf (Header_Get h ''x-amz-storage-class''),
        obj_UserMetadata := userMetadata h, obj_LastModified := now,
        obj_ChecksumAlgorithm := ur_ChecksumAlgorithm res, obj_Checksum := ur_Checksum res, obj_Encrypted := encrypt,
        obj_ActAt := (if bkt_ACT b then time_Unix now else 0),
        obj_ActHistory := (if bkt_ACT b then ur_ActHistory res else [])\<rparr>)"

definition storePut :: "Env \<Rightarrow> string \<Rightarrow> Bucket \<Rightarrow> PutCondition option \<Rightarrow> string \<Rightarrow> bool \<Rightarrow> uploadResult \<Rightarrow> Object \<Rightarrow> reply handler" where
  "storePut E bucket b cond batch encrypt res ob =
     hbind (stampVersion E ob (bkt_Versioning b)) (\<lambda>(ob, versionHeader).
     hthen (hwrite (\<lambda>m. PutObject m ob cond))
     (hthen (setVersionHeader versionHeader)
     (hthen (hwhen (ur_Ref res \<noteq> [] \<and> \<not> encrypt) (hset ''x-swarm-reference'' (ur_Ref res)))
     (hthen (hwhen encrypt (hset ''x-amz-server-side-encryption'' ''AES256''))
     (hthen (setBatchHeaders E batch)
     (hthen (hwhen (ur_Checksum res \<noteq> [])
       (hset (''x-amz-checksum-'' @ strings_ToLower (ur_ChecksumAlgorithm res)) (ur_Checksum res)))
     (hthen (hset ''ETag'' (quoted (ur_ETag res)))
     (hthen (hnotify E bucket)
     (hret (200, NoBody))))))))))"

definition handlePutObject :: "Env \<Rightarrow> Call \<Rightarrow> string \<Rightarrow> string \<Rightarrow> reply handler" where
  "handlePutObject E c bucket key =
     hbind (hstore (\<lambda>m. GetBucket m bucket)) (\<lambda>b.
     let cond = requestCondition c; batch = resolveBatch E c b; h = ca_header c in
     hthen (earlyCondition bucket key cond)
     (hthen (hwhen (batch \<noteq> [] \<and> req_ContentLength (ca_req c) \<noteq> 0) (hcheckBatch E batch))
     (hbind (resolveSSE E c b) (\<lambda>encrypt.
      hbind (uploadBody E c b batch (Header_Get h ''x-amz-storage-class'') encrypt) (\<lambda>res.
      hbind (hlift (headerTags E c)) (\<lambda>tagsJSON.
      hbind (hnow E) (\<lambda>now.
      storePut E bucket b cond batch encrypt res (putRow c bucket key b batch encrypt res tagsJSON now))))))))"

section \<open>Get\<close>

definition hsetRaw :: "string \<Rightarrow> string \<Rightarrow> unit handler" where
  "hsetRaw k v s = (Inr (), s\<lparr>srv_header := gm_put k [v] (srv_header s)\<rparr>)"

fun hsetAll :: "(string \<times> string) list \<Rightarrow> unit handler" where
  "hsetAll [] = hret ()"
| "hsetAll ((k, v) # kvs) = hthen (hwhen (v \<noteq> []) (hset k v)) (hsetAll kvs)"

text \<open>The query parameters that replace response headers.\<close>

definition responseOverrides :: "(string \<times> string) list" where
  "responseOverrides =
     [(''response-content-type'', ''Content-Type''), (''response-content-language'', ''Content-Language''),
      (''response-expires'', ''Expires''), (''response-cache-control'', ''Cache-Control''),
      (''response-content-disposition'', ''Content-Disposition''), (''response-content-encoding'', ''Content-Encoding'')]"

fun hmetadata :: "(string \<times> string) list \<Rightarrow> unit handler" where
  "hmetadata [] = hret ()"
| "hmetadata ((k, v) # kvs) = hthen (hsetRaw (''x-amz-meta-'' @ k) v) (hmetadata kvs)"

text \<open>The object a read addresses, with the headers that go with a delete marker.\<close>

definition readTarget :: "Call \<Rightarrow> string \<Rightarrow> string \<Rightarrow> Object handler" where
  "readTarget c bucket key =
     (let vid = Values_Get (ca_query c) ''versionId'' in
      if vid \<noteq> [] then
        hbind (lookupVersion bucket key vid) (\<lambda>ob.
        if obj_DeleteMarker ob then
          hthen (hset ''x-amz-delete-marker'' ''true'')
          (hthen (setVersionHeader (obj_VersionID ob)) (herr errMethodNotAllowed))
        else hret ob)
      else
        hbind (hindex (\<lambda>m. GetObject m bucket key)) (\<lambda>r.
        case r of
          Inl e \<Rightarrow> hthen (hwhen (e = ErrObjectNotFound) (hset ''x-amz-delete-marker'' ''false'')) (herr (storeError e))
        | Inr ob \<Rightarrow>
            if obj_DeleteMarker ob then
              hthen (hset ''x-amz-delete-marker'' ''true'')
              (hthen (setVersionHeader (obj_VersionID ob)) (herr errNoSuchKey))
            else hret ob))"

definition publisherOr :: "Env \<Rightarrow> Bucket \<Rightarrow> string handler" where
  "publisherOr E b =
     (if bkt_ACT b then hbind (publisherKey E) (\<lambda>r. hret (case r of Inl _ \<Rightarrow> [] | Inr pub \<Rightarrow> pub)) else hret [])"

text \<open>The headers that describe an object.\<close>

definition objectHeaders :: "Env \<Rightarrow> Call \<Rightarrow> Bucket \<Rightarrow> Object \<Rightarrow> unit handler" where
  "objectHeaders E c b ob =
     hthen (hset ''Accept-Ranges'' ''bytes'')
     (hthen (hset ''Content-Type'' (if obj_ContentType ob = [] then ''application/octet-stream'' else obj_ContentType ob))
     (hthen (hwhen (obj_ContentEncoding ob \<noteq> []) (hset ''Content-Encoding'' (obj_ContentEncoding ob)))
     (hthen (hsetAll (map (\<lambda>(param, hdr). (hdr, Values_Get (ca_query c) param)) responseOverrides))
     (hthen (hset ''x-amz-storage-class'' (obj_StorageClass ob))
     (hthen (hmetadata (obj_UserMetadata ob))
     (hthen (hwhen (obj_SwarmRef ob \<noteq> [] \<and> \<not> obj_Encrypted ob) (hset ''x-swarm-reference'' (obj_SwarmRef ob)))
     (hthen (hwhen (bkt_ACT b)
       (hthen (hset ''x-swarm-act-history'' (actHistoryFor (obj_ActHistory ob) b))
       (hbind (publisherKey E) (\<lambda>r. case r of Inl _ \<Rightarrow> hret () | Inr pub \<Rightarrow> hset ''x-swarm-act-publisher'' pub))))
     (hthen (hwhen (obj_Encrypted ob) (hset ''x-amz-server-side-encryption'' ''AES256''))
     (hthen (let n = length (tagsFromJSON E (obj_Tags ob)) in
       hwhen (0 < n) (hset ''x-amz-tagging-count'' (strconv_Itoa (int n))))
     (hthen (hwhen (obj_Checksum ob \<noteq> [] \<and> strings_EqualFold (Header_Get (ca_header c) ''x-amz-checksum-mode'') ''ENABLED'' \<and>
         Header_Get (ca_header c) ''Range'' = [] \<and> Values_Get (ca_query c) ''partNumber'' = [])
       (hset (''x-amz-checksum-'' @ strings_ToLower (obj_ChecksumAlgorithm ob)) (obj_Checksum ob)))
     (setBatchHeaders E (obj_BatchID ob))))))))))))"

definition beeDownload :: "Client \<Rightarrow> bee_download" where
  "beeDownload cl ref opts =
     (case DownloadBytes cl ref opts of Inl e \<Rightarrow> Inl e | Inr resp \<Rightarrow> Inr (hp_Body resp, hp_Broken resp))"

text \<open>\<open>preparePartRequest\<close> on the request header, with the response header in the state.\<close>

definition hpart :: "Call \<Rightarrow> Object \<Rightarrow> http_header handler" where
  "hpart c ob s =
     (let pn = Values_Get (ca_query c) ''partNumber'' in
      if pn = [] then (Inr (ca_header c), s)
      else case preparePartRequest (ca_header c) (srv_header s) ob pn of
             Inl e \<Rightarrow> (Inl e, s)
           | Inr (rh, h) \<Rightarrow> (Inr rh, s\<lparr>srv_header := h\<rparr>))"

definition serveObject :: "Env \<Rightarrow> Bucket \<Rightarrow> Object \<Rightarrow> http_header \<Rightarrow> bool \<Rightarrow> reply handler" where
  "serveObject E b ob rh withBody =
     (if withBody \<and> obj_Parts ob \<noteq> [] then
        hbind (publisherOr E b) (\<lambda>pub.
        hbind (hlift (serveComposite (beeDownload (env_bee E)) (cfg_FetchStrategy (env_cfg E)) pub rh ob (Some b))) (\<lambda>cr.
        hthen (hwhen (cr_ContentRange cr \<noteq> []) (hset ''Content-Range'' (cr_ContentRange cr)))
        (hthen (hset ''Content-Length'' (strconv_Itoa (cr_ContentLength cr)))
        (hret (cr_Status cr, Bytes (cr_Body cr))))))
      else if \<not> withBody \<or> obj_SwarmRef ob = [] then
        hthen (hset ''Content-Length'' (strconv_Itoa (obj_Size ob))) (hret (200, NoBody))
      else
        hbind (publisherOr E b) (\<lambda>pub.
        hbind (hbee (DownloadBytes (env_bee E) (obj_SwarmRef ob)
          (downloadOptions (cfg_FetchStrategy (env_cfg E)) pub rh (Header_Get rh ''Range'') (Some b) (obj_ActHistory ob)
            (actWriteTime (obj_ActAt ob) (obj_LastModified ob))))) (\<lambda>resp.
        hthen (hsetAll [(''Content-Length'', Header_Get (hp_Header resp) ''Content-Length''),
          (''Content-Range'', Header_Get (hp_Header resp) ''Content-Range'')])
        (hret (hp_Status resp, Bytes (hp_Body resp))))))"

definition handleGetObject :: "Env \<Rightarrow> Call \<Rightarrow> string \<Rightarrow> string \<Rightarrow> bool \<Rightarrow> reply handler" where
  "handleGetObject E c bucket key withBody =
     hbind (hstore (\<lambda>m. GetBucket m bucket)) (\<lambda>b.
     hbind (readTarget c bucket key) (\<lambda>ob.
     hthen (hwhen (obj_VersionID ob \<noteq> nullVersion) (setVersionHeader (obj_VersionID ob)))
     (hthen (hset ''ETag'' (quoted (obj_ETag ob)))
     (hthen (hset ''Last-Modified'' (time_FormatHTTP (obj_LastModified ob)))
     (case checkConditionals (env_ParseTime E) (ca_header c) ob of
        Some code \<Rightarrow> if code = 304 then hret (304, NoBody) else herr errPreconditionFailed
      | None \<Rightarrow>
          hthen (objectHeaders E c b ob)
          (hbind (hpart c ob) (\<lambda>rh. serveObject E b ob rh withBody)))))))"

section \<open>Delete\<close>

text \<open>\<open>deleteOne\<close>: whether a delete marker was involved, and the version id to show.\<close>

definition deleteOne :: "Env \<Rightarrow> Bucket \<Rightarrow> string \<Rightarrow> string \<Rightarrow> (bool \<times> string) handler" where
  "deleteOne E b key versionID =
     (if versionID \<noteq> [] then
        hbind (hupdateWith (\<lambda>m. DeleteVersion m (bkt_Name b) key versionID)) (\<lambda>r.
        case r of
          Inl e \<Rightarrow> if e = ErrObjectNotFound then hret (False, versionID) else herr (storeError e)
        | Inr removed \<Rightarrow> hret (obj_DeleteMarker removed, versionID))
      else if bkt_Versioning b = ''Enabled'' \<or> bkt_Versioning b = ''Suspended'' then
        hbind (hnow E) (\<lambda>now.
        hbind (stampVersion E (zeroObject\<lparr>obj_Bucket := bkt_Name b, obj_Key := key, obj_DeleteMarker := True, obj_LastModified := now\<rparr>)
          (bkt_Versioning b)) (\<lambda>(dm, _).
        hthen (hwrite (\<lambda>m. PutObject m dm None))
        (hret (True, obj_VersionID dm))))
      else
        hbind (hupdate (\<lambda>m. DeleteObject m (bkt_Name b) key)) (\<lambda>r.
        case r of
          Inl e \<Rightarrow> if e = ErrObjectNotFound then hret (False, []) else herr (storeError e)
        | Inr _ \<Rightarrow> hret (False, [])))"

definition handleDeleteObject :: "Env \<Rightarrow> Call \<Rightarrow> string \<Rightarrow> string \<Rightarrow> reply handler" where
  "handleDeleteObject E c bucket key =
     hbind (hstore (\<lambda>m. GetBucket m bucket)) (\<lambda>b.
     hbind (deleteOne E b key (Values_Get (ca_query c) ''versionId'')) (\<lambda>(marker, versionID).
     hthen (hwhen marker (hset ''x-amz-delete-marker'' ''true''))
     (hthen (setVersionHeader versionID)
     (hthen (hnotify E bucket)
     (hret (204, NoBody))))))"

text \<open>The loop of \<open>handleDeleteObjects\<close>: an error concerns one entry of the answer.\<close>

fun deleteLoop :: "Env \<Rightarrow> Bucket \<Rightarrow> bool \<Rightarrow> deleteObject list \<Rightarrow> deleteResult \<Rightarrow> deleteResult handler" where
  "deleteLoop E b quiet [] res = hret res"
| "deleteLoop E b quiet (d # ds) res =
     hbind (htry (deleteOne E b (dob_Key d) (dob_VersionID d))) (\<lambda>r.
     deleteLoop E b quiet ds
       (case r of
          Inl e \<Rightarrow> res\<lparr>dres_Errors := dres_Errors res @ [\<lparr>del_Key = dob_Key d, del_Code = err_Code e, del_Message = err_Message e\<rparr>]\<rparr>
        | Inr (marker, versionID) \<Rightarrow>
            if quiet then res
            else res\<lparr>dres_Deleted := dres_Deleted res @ [\<lparr>de_Key = dob_Key d, de_VersionID = dob_VersionID d,
                   de_DeleteMarker = marker, de_DeleteMarkerVersionID = (if marker then versionID else [])\<rparr>]\<rparr>))"

definition handleDeleteObjects :: "Env \<Rightarrow> Call \<Rightarrow> string \<Rightarrow> reply handler" where
  "handleDeleteObjects E c bucket =
     hbind (hstore (\<lambda>m. GetBucket m bucket)) (\<lambda>b.
     hbind (readLimited c (1024 * 1024)) (\<lambda>body.
     case env_xmlDelete E body of
       None \<Rightarrow> herr errMalformedXML
     | Some req \<Rightarrow>
         hthen (hcheck (dr_Objects req = []) errMalformedXML)
         (hthen (hcheck (1000 < length (dr_Objects req)) (withMessage errInvalidArgument
           ''the batch delete request contains more than 1000 keys''))
         (hbind (deleteLoop E b (dr_Quiet req) (dr_Objects req) \<lparr>dres_Deleted = [], dres_Errors = []\<rparr>) (\<lambda>res.
          hthen (hnotify E bucket)
          (writeXML 200 (DocDelete res)))))))"

section \<open>Copy\<close>

definition parseCopySource :: "Call \<Rightarrow> (apiError, string \<times> string \<times> string) result" where
  "parseCopySource c =
     (case strings_Cut (Header_Get (ca_header c) ''x-amz-copy-source'') ''?versionId='' of (src, versionID, _) \<Rightarrow>
      (case url_PathUnescape src of
         None \<Rightarrow> Inl (withMessage errInvalidArgument ''invalid x-amz-copy-source'')
       | Some un \<Rightarrow>
           (case strings_Cut (strings_TrimPrefix un ''/'') ''/'' of (srcBucket, srcKey, ok) \<Rightarrow>
            if \<not> ok \<or> srcKey = [] then Inl (withMessage errInvalidArgument ''x-amz-copy-source must be of the form bucket/key'')
            else Inr (srcBucket, srcKey, versionID))))"

definition getCopySource :: "Call \<Rightarrow> (Object \<times> Bucket) handler" where
  "getCopySource c =
     hbind (hlift (parseCopySource c)) (\<lambda>(srcBucket, srcKey, versionID).
     hthen (authorizeBucket c srcBucket)
     (hbind (hstore (\<lambda>m. GetBucket m srcBucket)) (\<lambda>srcB.
      hbind (lookupVersion srcBucket srcKey versionID) (\<lambda>ob.
      hthen (hcheck (obj_DeleteMarker ob) errNoSuchKey)
      (hret (ob, srcB))))))"

definition actCopyBoundary :: "Bucket \<Rightarrow> Bucket \<Rightarrow> unit handler" where
  "actCopyBoundary srcB dstB =
     hcheck (\<not> (bkt_Name srcB = bkt_Name dstB \<or> (\<not> bkt_ACT srcB \<and> \<not> bkt_ACT dstB))) (withMessage errInvalidRequest
       ''copies across an ACT-protected bucket boundary are not supported; download and re-upload instead'')"

text \<open>The row of the copy, before its tags and version.\<close>

definition copiedObject :: "Call \<Rightarrow> string \<Rightarrow> string \<Rightarrow> string \<Rightarrow> gotime \<Rightarrow> Bucket \<Rightarrow> Object \<Rightarrow> Bucket \<Rightarrow> Object" where
  "copiedObject c bucket key directive now b src srcB =
     (let h = ca_header c; sc = Header_Get h ''x-amz-storage-class'';
          ob = src\<lparr>obj_Bucket := bucket, obj_Key := key, obj_LastModified := now\<rparr>;
          ob = (if bkt_ACT b then
                  ob\<lparr>obj_ActAt := (if obj_ActAt ob = 0 then time_Unix (obj_LastModified src) else obj_ActAt ob),
                     obj_ActHistory := (if obj_ActHistory ob = [] then bkt_ActHistory srcB else obj_ActHistory ob)\<rparr>
                else ob) in
      if directive = ''REPLACE'' then
        ob\<lparr>obj_ContentType := Header_Get h ''Content-Type'', obj_UserMetadata := userMetadata h,
           obj_StorageClass := (if sc \<noteq> [] then storageClassOf sc else obj_StorageClass ob)\<rparr>
      else ob)"

definition handleCopyObject :: "Env \<Rightarrow> Call \<Rightarrow> string \<Rightarrow> string \<Rightarrow> reply handler" where
  "handleCopyObject E c bucket key =
     hbind (hstore (\<lambda>m. GetBucket m bucket)) (\<lambda>b.
     hbind (getCopySource c) (\<lambda>(src, srcB).
     hthen (actCopyBoundary srcB b)
     (hthen (hcheck (\<not> copySourceConditionals (env_ParseTime E) (ca_header c) src) errPreconditionFailed)
     (let d = strings_ToUpper (Header_Get (ca_header c) ''x-amz-metadata-directive'');
          directive = (if d = [] then ''COPY'' else d) in
      hthen (hcheck (obj_Bucket src = bucket \<and> obj_Key src = key \<and> directive \<noteq> ''REPLACE'' \<and> bkt_Versioning b \<noteq> ''Enabled'')
        (withMessage errInvalidRequest
          (''this copy request is illegal because it is trying to copy an object to itself without changing the object's metadata'')))
      (hbind (hnow E) (\<lambda>now.
       hbind (if strings_ToUpper (Header_Get (ca_header c) ''x-amz-tagging-directive'') = ''REPLACE'' then
                hbind (hlift (headerTags E c)) (\<lambda>tags. hret ((copiedObject c bucket key directive now b src srcB)\<lparr>obj_Tags := tags\<rparr>))
              else hret (copiedObject c bucket key directive now b src srcB)) (\<lambda>ob.
       hbind (stampVersion E ob (bkt_Versioning b)) (\<lambda>(ob, versionHeader).
       hthen (hwrite (\<lambda>m. PutObject m ob None))
       (hthen (hwhen (obj_VersionID src \<noteq> nullVersion) (hset ''x-amz-copy-source-version-id'' (obj_VersionID src)))
       (hthen (setVersionHeader versionHeader)
       (hthen (hnotify E bucket)
       (writeXML 200 (DocCopy \<lparr>cor_LastModified = xmlTime (obj_LastModified ob), cor_ETag = quoted (obj_ETag ob)\<rparr>)))))))))))))"

section \<open>Attributes\<close>

text \<open>
  The loop over the parts. \<open>None\<close> is the panic of the source: with a limit of zero it takes the last
  of no parts.
\<close>

fun attrParts :: "int \<Rightarrow> int \<Rightarrow> attrPart list \<Rightarrow> Part list \<Rightarrow> (attrPart list \<times> bool \<times> int) option" where
  "attrParts marker maxParts out [] = Some (out, False, 0)"
| "attrParts marker maxParts out (p # ps) =
     (if part_PartNumber p \<le> marker then attrParts marker maxParts out ps
      else if int (length out) = maxParts then
        (if out = [] then None else Some (out, True, ap_PartNumber (last out)))
      else attrParts marker maxParts (out @ [\<lparr>ap_PartNumber = part_PartNumber p, ap_Size = part_Size p\<rparr>]) ps)"

definition headerNumber :: "http_header \<Rightarrow> string \<Rightarrow> int \<Rightarrow> int handler" where
  "headerNumber h name dflt =
     (let m = Header_Get h name in
      if m = [] then hret dflt
      else case strconv_Atoi m of
             None \<Rightarrow> herr (withMessage errInvalidArgument (''invalid '' @ name))
           | Some n \<Rightarrow> hthen (hcheck (n < 0) (withMessage errInvalidArgument (''invalid '' @ name))) (hret n))"

definition attrChecksumOf :: "Object \<Rightarrow> attrChecksum" where
  "attrChecksumOf ob =
     (let v = (\<lambda>alg. if obj_ChecksumAlgorithm ob = alg then obj_Checksum ob else []) in
      \<lparr>ac_CRC32 = v ''CRC32'', ac_CRC32C = v ''CRC32C'', ac_CRC64NVME = v ''CRC64NVME'', ac_SHA1 = v ''SHA1'',
       ac_SHA256 = v ''SHA256'', ac_Type = ''FULL_OBJECT''\<rparr>)"

definition handleGetObjectAttributes :: "Env \<Rightarrow> Call \<Rightarrow> string \<Rightarrow> string \<Rightarrow> reply handler" where
  "handleGetObjectAttributes E c bucket key =
     hthen (hstore (\<lambda>m. GetBucket m bucket))
     (hbind (lookupVersion bucket key (Values_Get (ca_query c) ''versionId'')) (\<lambda>ob.
      if obj_DeleteMarker ob then
        hthen (hset ''x-amz-delete-marker'' ''true'') (hthen (setVersionHeader (obj_VersionID ob)) (herr errNoSuchKey))
      else
      hthen (hwhen (obj_VersionID ob \<noteq> nullVersion) (setVersionHeader (obj_VersionID ob)))
      (let vals = Header_Values (ca_header c) ''x-amz-object-attributes'';
           requested = concat (map (\<lambda>v. map strings_TrimSpace (strings_Split v CHR '','')) vals);
           has = (\<lambda>a. a \<in> set requested);
           answer = (\<lambda>parts. DocAttributes
             \<lparr>oa_ETag = (if has ''ETag'' then obj_ETag ob else []),
              oa_Checksum = (if has ''Checksum'' \<and> obj_Checksum ob \<noteq> [] then Some (attrChecksumOf ob) else None),
              oa_ObjectParts = parts,
              oa_StorageClass = (if has ''StorageClass'' then obj_StorageClass ob else []),
              oa_ObjectSize = (if has ''ObjectSize'' then Some (obj_Size ob) else None)\<rparr>);
           finish = (\<lambda>parts. hthen (hset ''Last-Modified'' (time_FormatHTTP (obj_LastModified ob))) (writeXML 200 (answer parts))) in
       hthen (hcheck (requested = []) (withMessage errInvalidRequest
         ''the x-amz-object-attributes header specifying the attributes to be retrieved is required''))
       (if has ''ObjectParts'' \<and> obj_Parts ob \<noteq> [] then
          hbind (headerNumber (ca_header c) ''x-amz-part-number-marker'' 0) (\<lambda>marker.
          hbind (headerNumber (ca_header c) ''x-amz-max-parts'' 1000) (\<lambda>n.
          let maxParts = min n 1000 in
          case attrParts marker maxParts [] (obj_Parts ob) of
            None \<Rightarrow> hret (0, Unanswered)
          | Some (parts, truncated, nxt) \<Rightarrow>
              finish (Some \<lparr>aop_IsTruncated = truncated, aop_MaxParts = maxParts, aop_NextPartNumberMarker = nxt,
                aop_PartNumberMarker = marker, aop_TotalPartsCount = int (length (obj_Parts ob)), aop_Parts = parts\<rparr>)))
        else finish None))))"

end
