(* ===== verification/Multipart.thy ===== *)
theory Multipart
  imports Objects
begin

text \<open>
  Multipart uploads, file internal/api/multipart.go: creation, parts, parts copied from objects,
  completion, abortion and the listings.
\<close>

section \<open>Multipart uploads (multipart.go)\<close>

definition minPartSize :: int where "minPartSize = 5 * 1024 * 1024"

definition handleCreateMultipartUpload :: "Env \<Rightarrow> Call \<Rightarrow> string \<Rightarrow> string \<Rightarrow> reply handler" where
  "handleCreateMultipartUpload E c bucket key =
     hbind (hstore (\<lambda>m. GetBucket m bucket)) (\<lambda>b.
     let batch = resolveBatch E c b; h = ca_header c in
     hthen (hwhen (batch \<noteq> []) (hcheckBatch E batch))
     (hbind (resolveSSE E c b) (\<lambda>encrypt.
      hbind (hlift (headerTags E c)) (\<lambda>tagsJSON.
      hbind (hrandom E 16) (\<lambda>rnd.
      hbind (hnow E) (\<lambda>now.
      let upload = \<lparr>up_UploadID = hex_EncodeToString rnd, up_Bucket = bucket, up_Key = key, up_Initiated = now,
            up_ContentType = Header_Get h ''Content-Type'', up_StorageClass = storageClassOf (Header_Get h ''x-amz-storage-class''),
            up_UserMetadata = userMetadata h, up_BatchID = batch, up_Encrypted = encrypt, up_Tags = tagsJSON\<rparr> in
      hthen (hwrite (\<lambda>m. CreateMultipartUpload m now upload))
      (hthen (hwhen encrypt (hset ''x-amz-server-side-encryption'' ''AES256''))
      (writeXML 200 (DocInitiate \<lparr>im_Bucket = bucket, im_Key = key, im_UploadID = up_UploadID upload\<rparr>)))))))))"

definition parsePartNumber :: "Call \<Rightarrow> int handler" where
  "parsePartNumber c =
     (let e = withMessage errInvalidArgument (''part number must be an integer between 1 and '' @ strconv_Itoa maxPartNumber) in
      case strconv_Atoi (Values_Get (ca_query c) ''partNumber'') of
        None \<Rightarrow> herr e
      | Some n \<Rightarrow> hthen (hcheck (n < 1 \<or> maxPartNumber < n) e) (hret n))"

definition requestUpload :: "Call \<Rightarrow> string \<Rightarrow> string \<Rightarrow> MultipartUpload handler" where
  "requestUpload c bucket key = hstore (\<lambda>m. GetMultipartUpload m bucket key (Values_Get (ca_query c) ''uploadId''))"

definition handleUploadPart :: "Env \<Rightarrow> Call \<Rightarrow> string \<Rightarrow> string \<Rightarrow> reply handler" where
  "handleUploadPart E c bucket key =
     hbind (parsePartNumber c) (\<lambda>partNumber.
     hbind (requestUpload c bucket key) (\<lambda>upload.
     hbind (hstore (\<lambda>m. GetBucket m bucket)) (\<lambda>b.
     hbind (uploadBody E c b (up_BatchID upload) (up_StorageClass upload) (up_Encrypted upload)) (\<lambda>res.
     hbind (hnow E) (\<lambda>now.
     let part = \<lparr>part_PartNumber = partNumber, part_SwarmRef = ur_Ref res, part_Size = ur_Size res, part_ETag = ur_ETag res,
           part_LastModified = now, part_ActAt = (if bkt_ACT b then time_Unix now else 0),
           part_ActHistory = (if bkt_ACT b then ur_ActHistory res else [])\<rparr> in
     hthen (hwrite (\<lambda>m. PutPart m (up_UploadID upload) part))
     (hthen (hwhen (up_Encrypted upload) (hset ''x-amz-server-side-encryption'' ''AES256''))
     (hthen (hset ''ETag'' (quoted (ur_ETag res)))
     (hret (200, NoBody)))))))))"

text \<open>
  \<open>x-amz-copy-source-range\<close>: \<open>Sscanf\<close> followed by the comparison with the printed form, that is, the
  printed form of two numbers; \<open>None\<close> is a refused range.
\<close>

definition copySourceRange :: "string \<Rightarrow> int \<Rightarrow> (int \<times> int) option" where
  "copySourceRange spec sz =
     (let v = strings_TrimPrefix spec ''bytes='';
          neg = HasPrefix v ''-'';
          (first, lst, _) = strings_Cut (if neg then tl v else v) ''-'' in
      case (strconv_ParseInt 10 (if neg then CHR ''-'' # first else first), strconv_ParseInt 10 lst) of
        (Some st, Some en) \<Rightarrow> if rangeSpec st en \<noteq> spec \<or> en < st \<or> sz \<le> en then None else Some (st, en)
      | _ \<Rightarrow> None)"

text \<open>A part that reuses the reference of its source, and one that is streamed through the gateway.\<close>

definition reusedPart :: "Object \<Rightarrow> Bucket \<Rightarrow> Part \<Rightarrow> Part" where
  "reusedPart src srcB part =
     part\<lparr>part_SwarmRef := obj_SwarmRef src, part_Size := obj_Size src, part_ETag := obj_ETag src,
          part_ActAt := (if bkt_ACT srcB then actWriteTime (obj_ActAt src) (obj_LastModified src) else part_ActAt part),
          part_ActHistory := (if bkt_ACT srcB then actHistoryFor (obj_ActHistory src) srcB else part_ActHistory part)\<rparr>"

definition streamedPart ::
  "Env \<Rightarrow> Call \<Rightarrow> MultipartUpload \<Rightarrow> Object \<Rightarrow> Bucket \<Rightarrow> Bucket \<Rightarrow> int \<Rightarrow> int \<Rightarrow> Part \<Rightarrow> Part handler" where
  "streamedPart E c upload src srcB dstB st en part =
     hbind (publisherOr E srcB) (\<lambda>pub.
     let dopts = (downloadOptions (cfg_FetchStrategy (env_cfg E)) pub (ca_header c) (rangeSpec st en) (Some srcB) (obj_ActHistory src)
           (actWriteTime (obj_ActAt src) (obj_LastModified src)))\<lparr>do_FallbackMode := []\<rparr>;
         uopts = uploadOptions E (up_BatchID upload) (up_StorageClass upload) (up_Encrypted upload) (en - st + 1);
         uopts = (if bkt_ACT dstB then uopts\<lparr>uo_Act := True, uo_ActHistory := bkt_ActHistory dstB\<rparr> else uopts) in
     hbind (hbee (DownloadBytes (env_bee E) (obj_SwarmRef src) dopts)) (\<lambda>resp.
     hbind (hbee (UploadBytes (env_bee E) (hp_Body resp) (hp_Broken resp) uopts)) (\<lambda>(ref, hist).
     hbind (if bkt_ACT dstB then hbind (hnow E) (\<lambda>now. hret (time_Unix now, actHistoryFor hist dstB))
            else hret (part_ActAt part, part_ActHistory part)) (\<lambda>(actAt, actHistory).
     hret (part\<lparr>part_SwarmRef := ref, part_Size := en - st + 1, part_ETag := hex_EncodeToString (env_md5 E (hp_Body resp)),
                part_ActAt := actAt, part_ActHistory := actHistory\<rparr>)))))"

definition handleUploadPartCopy :: "Env \<Rightarrow> Call \<Rightarrow> string \<Rightarrow> string \<Rightarrow> reply handler" where
  "handleUploadPartCopy E c bucket key =
     hbind (parsePartNumber c) (\<lambda>partNumber.
     hbind (requestUpload c bucket key) (\<lambda>upload.
     hbind (getCopySource c) (\<lambda>(src, srcB).
     hbind (hstore (\<lambda>m. GetBucket m bucket)) (\<lambda>dstB.
     hthen (actCopyBoundary srcB dstB)
     (hthen (hcheck (\<not> copySourceConditionals (env_ParseTime E) (ca_header c) src) errPreconditionFailed)
     (hthen (hcheck (obj_Parts src \<noteq> []) (withMessage errNotImplemented
       (''not implemented yet: UploadPartCopy from a composite (multipart) source (see docs/API-COMPATIBILITY.md)'')))
     (hbind (hnow E) (\<lambda>now.
      let part = zeroPart\<lparr>part_PartNumber := partNumber, part_LastModified := now\<rparr>;
          spec = Header_Get (ca_header c) ''x-amz-copy-source-range'';
          crossesSSE = (obj_Encrypted src \<noteq> up_Encrypted upload) in
      hbind (if obj_SwarmRef src = [] \<or> (spec = [] \<and> \<not> crossesSSE) then hret (reusedPart src srcB part)
             else
             case (if spec = [] then Some (0, obj_Size src - 1) else copySourceRange spec (obj_Size src)) of
               None \<Rightarrow> herr errInvalidRange
             | Some (st, en) \<Rightarrow> streamedPart E c upload src srcB dstB st en part) (\<lambda>part.
      hthen (hwrite (\<lambda>m. PutPart m (up_UploadID upload) part))
      (writeXML 200 (DocCopyPart \<lparr>cpr_LastModified = xmlTime (part_LastModified part), cpr_ETag = quoted (part_ETag part)\<rparr>)))))))))))"

section \<open>Completion\<close>

text \<open>The binary digest of an entity tag; what the decoder read before a bad digit counts.\<close>

fun hexPrefix :: "string \<Rightarrow> string" where
  "hexPrefix (a # b # s) =
     (case (digit_val a, digit_val b) of (Some x, Some y) \<Rightarrow> char_of (16 * x + y) # hexPrefix s | _ \<Rightarrow> [])"
| "hexPrefix _ = []"

definition multipartETag :: "Env \<Rightarrow> Part list \<Rightarrow> string" where
  "multipartETag E parts =
     hex_EncodeToString (env_md5 E (concat (map (hexPrefix \<circ> part_ETag) parts))) @ ''-'' @ strconv_Itoa (int (length parts))"

definition alreadyCompleted :: "Env \<Rightarrow> string \<Rightarrow> string \<Rightarrow> completeMultipartUploadRequest \<Rightarrow> string option handler" where
  "alreadyCompleted E bucket key req =
     (case those (map (hex_DecodeString \<circ> trimETag \<circ> cp_ETag) req) of
        None \<Rightarrow> hret None
      | Some bs \<Rightarrow>
          (let expected = hex_EncodeToString (env_md5 E (concat bs)) @ ''-'' @ strconv_Itoa (int (length req)) in
           hbind (hindex (\<lambda>m. GetObject m bucket key)) (\<lambda>r.
           hret (case r of Inl _ \<Rightarrow> None | Inr ob \<Rightarrow> if obj_ETag ob \<noteq> expected then None else Some expected))))"

definition writeCompleteResult :: "Call \<Rightarrow> string \<Rightarrow> string \<Rightarrow> string \<Rightarrow> reply handler" where
  "writeCompleteResult c bucket key etag =
     writeXML 200 (DocComplete \<lparr>cmr_Location = (if ca_TLS c then ''https'' else ''http'') @ ''://'' @ req_Host (ca_req c) @ ''/'' @ bucket @ ''/'' @ key,
       cmr_Bucket = bucket, cmr_Key = key, cmr_ETag = quoted etag\<rparr>)"

text \<open>The two loops over the requested parts: ascending numbers, then the stored part of each.\<close>

fun ascending :: "int \<Rightarrow> completeMultipartUploadRequest \<Rightarrow> bool" where
  "ascending prev [] = True"
| "ascending prev (w # ws) = (prev < cp_PartNumber w \<and> ascending (cp_PartNumber w) ws)"

fun pickParts :: "Part list \<Rightarrow> completeMultipartUploadRequest \<Rightarrow> (apiError, Part list) result" where
  "pickParts stored [] = Inr []"
| "pickParts stored (w # ws) =
     (case List.find (\<lambda>p. part_PartNumber p = cp_PartNumber w) stored of
        None \<Rightarrow> Inl errInvalidPart
      | Some p \<Rightarrow>
          if part_ETag p \<noteq> trimETag (cp_ETag w) then Inl errInvalidPart
          else if ws \<noteq> [] \<and> part_Size p < minPartSize then Inl errEntityTooSmall
          else rbind (pickParts stored ws) (\<lambda>ps. Inr (p # ps)))"

definition completedObject :: "Env \<Rightarrow> string \<Rightarrow> string \<Rightarrow> gotime \<Rightarrow> MultipartUpload \<Rightarrow> Part list \<Rightarrow> Object" where
  "completedObject E bucket key now upload parts =
     zeroObject\<lparr>obj_Bucket := bucket, obj_Key := key, obj_BatchID := up_BatchID upload,
       obj_Size := foldl (\<lambda>n p. wrap64 (n + part_Size p)) 0 parts,
       obj_ETag := multipartETag E parts, obj_ContentType := up_ContentType upload, obj_StorageClass := up_StorageClass upload,
       obj_UserMetadata := up_UserMetadata upload, obj_LastModified := now, obj_Parts := parts,
       obj_Encrypted := up_Encrypted upload, obj_Tags := up_Tags upload\<rparr>"

definition completeUpload ::
  "Env \<Rightarrow> Call \<Rightarrow> string \<Rightarrow> string \<Rightarrow> Bucket \<Rightarrow> completeMultipartUploadRequest \<Rightarrow> MultipartUpload \<Rightarrow> reply handler" where
  "completeUpload E c bucket key b req upload =
     hbind (hstore (\<lambda>m. ListParts m (up_UploadID upload) 0 (- 1))) (\<lambda>stored.
     hthen (hcheck (\<not> ascending 0 req) errInvalidPartOrder)
     (hbind (hlift (pickParts stored req)) (\<lambda>parts.
      hbind (hnow E) (\<lambda>now.
      hbind (stampVersion E (completedObject E bucket key now upload parts) (bkt_Versioning b)) (\<lambda>(ob, versionHeader).
      hthen (hwrite (\<lambda>m. PutObject m ob (requestCondition c)))
      (hthen (setVersionHeader versionHeader)
      (hthen (hupdate (\<lambda>m. DeleteMultipartUpload m (up_UploadID upload)))
      (hthen (hwhen (up_Encrypted upload) (hset ''x-amz-server-side-encryption'' ''AES256''))
      (hthen (hnotify E bucket)
      (writeCompleteResult c bucket key (obj_ETag ob)))))))))))"

definition handleCompleteMultipartUpload :: "Env \<Rightarrow> Call \<Rightarrow> string \<Rightarrow> string \<Rightarrow> reply handler" where
  "handleCompleteMultipartUpload E c bucket key =
     hbind (hstore (\<lambda>m. GetBucket m bucket)) (\<lambda>b.
     hbind (readLimited c (4 * 1024 * 1024)) (\<lambda>body.
     case env_xmlComplete E body of
       None \<Rightarrow> herr errMalformedXML
     | Some req \<Rightarrow>
         hthen (hcheck (req = []) errMalformedXML)
         (hbind (hindex (\<lambda>m. GetMultipartUpload m bucket key (Values_Get (ca_query c) ''uploadId''))) (\<lambda>r.
          case r of
            Inr upload \<Rightarrow> completeUpload E c bucket key b req upload
          | Inl e \<Rightarrow>
              hbind (if e = ErrUploadNotFound then alreadyCompleted E bucket key req else hret None) (\<lambda>done.
              case done of
                Some etag \<Rightarrow> writeCompleteResult c bucket key etag
              | None \<Rightarrow> herr (storeError e))))))"

definition handleAbortMultipartUpload :: "Call \<Rightarrow> string \<Rightarrow> string \<Rightarrow> reply handler" where
  "handleAbortMultipartUpload c bucket key =
     hbind (requestUpload c bucket key) (\<lambda>upload.
     hthen (hwrite (\<lambda>m. DeleteMultipartUpload m (up_UploadID upload)))
     (hret (204, NoBody)))"

section \<open>Listing parts and uploads\<close>

definition queryNumber :: "url_values \<Rightarrow> string \<Rightarrow> int \<Rightarrow> int handler" where
  "queryNumber q name dflt =
     (let m = Values_Get q name in
      if m = [] then hret dflt
      else case strconv_Atoi m of
             None \<Rightarrow> herr (withMessage errInvalidArgument (''invalid '' @ name))
           | Some n \<Rightarrow> hthen (hcheck (n < 0) (withMessage errInvalidArgument (''invalid '' @ name))) (hret n))"

definition handleListParts :: "Call \<Rightarrow> string \<Rightarrow> string \<Rightarrow> reply handler" where
  "handleListParts c bucket key =
     hbind (requestUpload c bucket key) (\<lambda>upload.
     hbind (queryNumber (ca_query c) ''part-number-marker'' 0) (\<lambda>marker.
     hbind (queryNumber (ca_query c) ''max-parts'' 1000) (\<lambda>n.
     let maxParts = min n 1000 in
     hbind (hstore (\<lambda>m. ListParts m (up_UploadID upload) marker (maxParts + 1))) (\<lambda>parts.
     let truncated = maxParts < int (length parts);
         parts = (if truncated then take (nat maxParts) parts else parts) in
     writeXML 200 (DocParts \<lparr>lp_Bucket = bucket, lp_Key = key, lp_UploadID = up_UploadID upload, lp_PartNumberMarker = marker,
       lp_NextPartNumberMarker = (if truncated \<and> parts \<noteq> [] then part_PartNumber (last parts) else 0), lp_MaxParts = maxParts,
       lp_IsTruncated = truncated, lp_Initiator = defaultOwner, lp_Owner = defaultOwner, lp_StorageClass = up_StorageClass upload,
       lp_Parts = map (\<lambda>p. \<lparr>xp_PartNumber = part_PartNumber p, xp_LastModified = xmlTime (part_LastModified p),
         xp_ETag = quoted (part_ETag p), xp_Size = part_Size p\<rparr>) parts\<rparr>)))))"

definition handleListMultipartUploads :: "Call \<Rightarrow> string \<Rightarrow> reply handler" where
  "handleListMultipartUploads c bucket =
     (let pre = Values_Get (ca_query c) ''prefix'' in
      hbind (hstore (\<lambda>m. ListMultipartUploads m bucket pre)) (\<lambda>uploads.
      writeXML 200 (DocUploads \<lparr>lm_Bucket = bucket, lm_KeyMarker = [], lm_UploadIDMarker = [], lm_NextKeyMarker = [],
        lm_NextUploadIDMarker = [], lm_MaxUploads = 1000, lm_Prefix = pre, lm_IsTruncated = False,
        lm_Uploads = map (\<lambda>u. \<lparr>xu_Key = up_Key u, xu_UploadID = up_UploadID u, xu_Initiator = defaultOwner, xu_Owner = defaultOwner,
          xu_StorageClass = up_StorageClass u, xu_Initiated = xmlTime (up_Initiated u)\<rparr>) uploads\<rparr>)))"

end
