(* ===== verification/Server.thy ===== *)
theory Server
  imports Multipart
begin

text \<open>
  The server, file internal/api/server.go: the dispatch of a request to its handler, authentication, the
  response, and the credentials a server starts with (credentials.go).
\<close>

section \<open>Dispatch (server.go)\<close>

definition notImplemented :: "string \<Rightarrow> reply handler" where
  "notImplemented what =
     herr (withMessage errNotImplemented (''not implemented yet: '' @ what @ '' (see docs/API-COMPATIBILITY.md)''))"

definition anySubresource :: "url_values \<Rightarrow> string list \<Rightarrow> bool" where
  "anySubresource q names \<longleftrightarrow> (\<exists>n \<in> set names. Values_Has q n)"

text \<open>The listings of the other theory inside a handler; a scan that does not end is unanswered.\<close>

definition hlisting :: "(Memory \<Rightarrow> (apiError, 'a) result option) \<Rightarrow> ('a \<Rightarrow> reply_body) \<Rightarrow> reply handler" where
  "hlisting f doc s =
     (case f (srv_store s) of
        None \<Rightarrow> (Inr (0, Unanswered), s)
      | Some (Inl e) \<Rightarrow> (Inl e, s)
      | Some (Inr x) \<Rightarrow> writeXML 200 (doc x) s)"

definition bucketSubresources :: "string list" where
  "bucketSubresources = [''acl'', ''policy'', ''lifecycle'', ''website'', ''object-lock'', ''replication'', ''logging'',
     ''notification'', ''requestPayment'', ''accelerate'', ''intelligent-tiering'', ''inventory'', ''metrics'', ''analytics'',
     ''ownershipControls'', ''publicAccessBlock'', ''policyStatus'']"

definition dispatchBucketGet :: "Env \<Rightarrow> Call \<Rightarrow> string \<Rightarrow> reply handler" where
  "dispatchBucketGet E c bucket =
     (let q = ca_query c in
      if Values_Has q ''location'' then handleGetBucketLocation E bucket
      else if Values_Has q ''versioning'' then handleGetBucketVersioning bucket
      else if Values_Has q ''versions'' then hlisting (\<lambda>m. handleListObjectVersions m (ca_req c) bucket) DocVersions
      else if Values_Has q ''uploads'' then handleListMultipartUploads c bucket
      else if Values_Has q ''encryption'' then handleGetBucketEncryption bucket
      else if Values_Has q ''x-swarm-snapshot'' then handleListSnapshots bucket
      else if Values_Has q ''cors'' then handleGetBucketCors E bucket
      else if Values_Has q ''tagging'' then handleGetBucketTagging E bucket
      else if Values_Has q ''x-swarm-grants'' then handleGetGrants E bucket
      else if anySubresource q bucketSubresources then notImplemented ''bucket subresource''
      else if Values_Get q ''list-type'' = ''2'' then hlisting (\<lambda>m. handleListObjects m (ca_req c) bucket 2) DocList
      else if Values_Has q ''list-type'' then herr (withMessage errInvalidArgument ''unsupported list-type'')
      else hlisting (\<lambda>m. handleListObjects m (ca_req c) bucket 1) DocList)"

definition dispatchBucketPut :: "Env \<Rightarrow> Call \<Rightarrow> string \<Rightarrow> reply handler" where
  "dispatchBucketPut E c bucket =
     (let q = ca_query c in
      if Values_Has q ''versioning'' then handlePutBucketVersioning E c bucket
      else if Values_Has q ''encryption'' then handlePutBucketEncryption E c bucket
      else if Values_Has q ''x-swarm-recovery-recipient'' then handlePutBucketRecoveryRecipient E c bucket
      else if Values_Has q ''cors'' then handlePutBucketCors E c bucket
      else if Values_Has q ''tagging'' then handlePutBucketTagging E c bucket
      else if Values_Has q ''x-swarm-snapshot'' then handleCreateSnapshot E c bucket
      else if Values_Has q ''x-swarm-grants'' then handlePutGrants E c bucket
      else if q \<noteq> [] then notImplemented ''bucket subresource''
      else handleCreateBucket E c bucket)"

definition dispatchBucketDelete :: "Call \<Rightarrow> string \<Rightarrow> reply handler" where
  "dispatchBucketDelete c bucket =
     (let q = ca_query c in
      if Values_Has q ''encryption'' then handleDeleteBucketEncryption bucket
      else if Values_Has q ''cors'' then handleDeleteBucketCors bucket
      else if Values_Has q ''tagging'' then handleDeleteBucketTagging bucket
      else if q \<noteq> [] then notImplemented ''bucket subresource''
      else handleDeleteBucket bucket)"

definition dispatchBucket :: "Env \<Rightarrow> Call \<Rightarrow> string \<Rightarrow> reply handler" where
  "dispatchBucket E c bucket =
     (let q = ca_query c; mth = req_Method (ca_req c) in
      hthen (if mth = ''PUT'' \<and> q = [] then hret () else authorizeBucket c bucket)
      (if mth = ''GET'' then dispatchBucketGet E c bucket
       else if mth = ''PUT'' then dispatchBucketPut E c bucket
       else if mth = ''HEAD'' then handleHeadBucket E bucket
       else if mth = ''DELETE'' then dispatchBucketDelete c bucket
       else if mth = ''POST'' then
         (if Values_Has q ''delete'' then handleDeleteObjects E c bucket
          else if Values_Has q ''x-swarm-restore'' then handleRestoreBucket E c bucket
          else notImplemented ''bucket POST'')
       else herr errMethodNotAllowed))"

definition dispatchObjectPut :: "Env \<Rightarrow> Call \<Rightarrow> string \<Rightarrow> string \<Rightarrow> reply handler" where
  "dispatchObjectPut E c bucket key =
     (let q = ca_query c; copy = (Header_Get (ca_header c) ''x-amz-copy-source'' \<noteq> []) in
      if Values_Has q ''uploadId'' then
        (if copy then handleUploadPartCopy E c bucket key else handleUploadPart E c bucket key)
      else if Values_Has q ''tagging'' then handlePutObjectTagging E c bucket key
      else if anySubresource q [''acl'', ''legal-hold'', ''retention''] then notImplemented ''object subresource''
      else if copy then handleCopyObject E c bucket key
      else handlePutObject E c bucket key)"

definition dispatchObject :: "Env \<Rightarrow> Call \<Rightarrow> string \<Rightarrow> string \<Rightarrow> reply handler" where
  "dispatchObject E c bucket key =
     (let q = ca_query c; mth = req_Method (ca_req c) in
      hthen (authorizeBucket c bucket)
      (if mth = ''GET'' then
         (if Values_Has q ''uploadId'' then handleListParts c bucket key
          else if Values_Has q ''attributes'' then handleGetObjectAttributes E c bucket key
          else if Values_Has q ''tagging'' then handleGetObjectTagging E c bucket key
          else if anySubresource q [''acl'', ''legal-hold'', ''retention'', ''torrent''] then notImplemented ''object subresource''
          else handleGetObject E c bucket key True)
       else if mth = ''HEAD'' then handleGetObject E c bucket key False
       else if mth = ''PUT'' then dispatchObjectPut E c bucket key
       else if mth = ''DELETE'' then
         (if Values_Has q ''uploadId'' then handleAbortMultipartUpload c bucket key
          else if Values_Has q ''tagging'' then handleDeleteObjectTagging E c bucket key
          else handleDeleteObject E c bucket key)
       else if mth = ''POST'' then
         (if Values_Has q ''uploads'' then handleCreateMultipartUpload E c bucket key
          else if Values_Has q ''uploadId'' then handleCompleteMultipartUpload E c bucket key
          else notImplemented ''object POST'')
       else herr errMethodNotAllowed))"

section \<open>Serving a request\<close>

record response =
  rs_Status :: int
  rs_Header :: http_header
  rs_Body :: reply_body

text \<open>\<open>writeError\<close>: a HEAD request gets no error document.\<close>

definition writeError :: "Call \<Rightarrow> apiError \<Rightarrow> Srv \<Rightarrow> response" where
  "writeError c e s =
     \<lparr>rs_Status = err_Status e, rs_Header = Header_Set ''Content-Type'' ''application/xml'' (srv_header s),
      rs_Body = (if req_Method (ca_req c) = ''HEAD'' then NoBody
        else ErrorDoc \<lparr>er_Code = err_Code e, er_Message = err_Message e, er_Resource = req_Path (ca_req c),
               er_RequestID = Header_Get (srv_header s) ''x-amz-request-id''\<rparr>)\<rparr>"

definition respond :: "Call \<Rightarrow> reply handler \<Rightarrow> Srv \<Rightarrow> response \<times> Srv" where
  "respond c h s =
     (case h s of
        (Inl e, s) \<Rightarrow> (writeError c e s, s)
      | (Inr (status, body), s) \<Rightarrow> (\<lparr>rs_Status = status, rs_Header = srv_header s, rs_Body = body\<rparr>, s))"

definition newRequestID :: "Env \<Rightarrow> string handler" where
  "newRequestID E = hbind (hrandom E 8) (\<lambda>b. hret (strings_ToUpper (hex_EncodeToString b)))"

text \<open>The request with its identity.\<close>

definition authenticated :: "Env \<Rightarrow> Call \<Rightarrow> Call handler" where
  "authenticated E c =
     hbind (hnow E) (\<lambda>now.
     case Verify (env_crypto E) (env_ParseTime E) (env_verifier E) now (ca_req c) of
       Inl ae \<Rightarrow> herr (authError (Some ae))
     | Inr ident \<Rightarrow> hret (c\<lparr>ca_id := Some ident\<rparr>))"

definition serveS3 :: "Env \<Rightarrow> Call \<Rightarrow> reply handler" where
  "serveS3 E c =
     (case resolveTarget E (ca_req c) of (bucket, key) \<Rightarrow>
      hthen (decorateCORS E c bucket)
      (hbind (authenticated E c) (\<lambda>c.
       if bucket = [] then
         (if req_Method (ca_req c) = ''GET'' then handleListBuckets c else herr errMethodNotAllowed)
       else if key = [] then dispatchBucket E c bucket
       else dispatchObject E c bucket key)))"

definition serveRequest :: "Env \<Rightarrow> Call \<Rightarrow> reply handler" where
  "serveRequest E c =
     (let path = req_Path (ca_req c) in
      if path = ''/_s3warm/health'' then hret (200, Bytes (''ok'' @ nl))
      else if path = ''/_s3warm/ready'' then
        (case Health (env_bee E) of
           Inl e \<Rightarrow> hthen (hset ''Content-Type'' ''text/plain; charset=utf-8'')
                    (hthen (hset ''X-Content-Type-Options'' ''nosniff'')
                    (hret (503, Bytes (''bee unreachable: '' @ bee_error_Error e @ nl))))
         | Inr _ \<Rightarrow> hret (200, Bytes (''ready'' @ nl)))
      else if path = ''/_s3warm/metrics'' then hret (200, Bytes (env_metrics E))
      else if req_Method (ca_req c) = ''OPTIONS'' then handlePreflight E c
      else serveS3 E c)"

definition ServeHTTP :: "Env \<Rightarrow> Call \<Rightarrow> Srv \<Rightarrow> response \<times> Srv" where
  "ServeHTTP E c s =
     respond c (hbind (newRequestID E) (\<lambda>rid. hthen (hset ''x-amz-request-id'' rid) (serveRequest E c)))
       (s\<lparr>srv_header := []\<rparr>)"

section \<open>Credentials\<close>

record credentialsFileEntry =
  ce_AccessKey :: string
  ce_SecretKey :: string
  ce_Tenant :: string

text \<open>
  \<open>LoadCredentialsFile\<close> adds the entries of a file to a credential set. The file is a parameter: its
  entries, or \<open>None\<close> when it cannot be read or is no JSON array. The entries before a bad one
  stay in the set. The second component says whether an error was returned.
\<close>

fun loadEntries :: "credentialsFileEntry list \<Rightarrow> StaticCredentials \<Rightarrow> StaticCredentials \<times> bool" where
  "loadEntries [] into = (into, False)"
| "loadEntries (e # es) into =
     (if ce_AccessKey e = [] \<or> ce_SecretKey e = [] then (into, True)
      else if gm_get into (ce_AccessKey e) \<noteq> None then (into, True)
      else loadEntries es (gm_put (ce_AccessKey e)
        \<lparr>cred_Secret = ce_SecretKey e, cred_Tenant = (if strings_EqualFold (ce_Tenant e) ''root'' then [] else ce_Tenant e)\<rparr> into))"

definition LoadCredentialsFile :: "credentialsFileEntry list option \<Rightarrow> StaticCredentials \<Rightarrow> StaticCredentials \<times> bool" where
  "LoadCredentialsFile file into = (case file of None \<Rightarrow> (into, True) | Some es \<Rightarrow> loadEntries es into)"

text \<open>The verifier that \<open>New\<close> builds; an error of the credentials file is only logged.\<close>

definition newVerifier :: "Config \<Rightarrow> (string \<Rightarrow> credentialsFileEntry list option) \<Rightarrow> Verifier" where
  "newVerifier cfg readFile =
     (let creds = (if cfg_AccessKey cfg \<noteq> [] then [(cfg_AccessKey cfg, \<lparr>cred_Secret = cfg_SecretKey cfg, cred_Tenant = []\<rparr>)] else []);
          creds = (if cfg_CredentialsFile cfg \<noteq> [] then fst (LoadCredentialsFile (readFile (cfg_CredentialsFile cfg)) creds) else creds) in
      \<lparr>ver_Creds = creds, ver_AllowAnonymous = (creds = []), ver_MaxSkew = 0\<rparr>)"

end
