(* ===== verification/Server_Props.thy ===== *)
theory Server_Props
  imports Server
begin

text \<open>
  Properties of the whole server. A property of the index that every operation keeps is kept by every handler (\<open>keeps\<close>,
  and the locale \<open>bucket_property\<close>, the contract of the index towards the handlers of one bucket), hence by every request
  and by every step of the server. The contract is interpreted on the well-formedness of the index and
  on the ranges of its values; the third instance is the frame of a tenant, which gives the isolation of tenants.
\<close>

named_theorems keeps_intros \<open>a handler keeps a property of the index\<close>

section \<open>Properties of the index that handlers keep\<close>

definition keeps :: "(Memory \<Rightarrow> bool) \<Rightarrow> 'a handler \<Rightarrow> bool" where
  "keeps P h \<longleftrightarrow> (\<forall>s. P (srv_store s) \<longrightarrow> P (srv_store (snd (h s))))"

lemma keeps_bind [keeps_intros]: "keeps P h \<Longrightarrow> (\<And>x. keeps P (f x)) \<Longrightarrow> keeps P (hbind h f)"
  by (auto simp: keeps_def hbind_def split: prod.split sum.split)

lemma keeps_then [keeps_intros]: "keeps P h \<Longrightarrow> keeps P g \<Longrightarrow> keeps P (hthen h g)"
  unfolding hthen_def by (rule keeps_bind)

lemma keeps_basic [keeps_intros]:
  "keeps P (hret x)" "keeps P (herr e)" "keeps P (hcheck b e)" "keeps P (hlift r)" "keeps P (hset k v)" "keeps P (hindex g)"
  "keeps P (hnow E)" "keeps P (hrandom E n)" "keeps P (hnotify E bucket)" "keeps P (publisherKey E)"
  "keeps P (hcheckBatch E batch)" "keeps P (hstampInfo E batch)" "keeps P (headerAdd k v)" "keeps P (hsetRaw k v)"
  "keeps P (readLimited c limit)" "keeps P (hbee res)" "keeps P (hpart c ob)" "keeps P (hlisting l d)"
  by (auto simp: keeps_def hret_def herr_def hcheck_def hlift_def hset_def hindex_def hnow_def hrandom_def hnotify_def
      publisherKey_def hcheckBatch_def hstampInfo_def headerAdd_def hsetRaw_def readLimited_def hbee_def hpart_def
      hlisting_def writeXML_def hthen_def hbind_def Let_def split: prod.split sum.split option.split)

lemma keeps_if [keeps_intros]: "(b \<Longrightarrow> keeps P h) \<Longrightarrow> (\<not> b \<Longrightarrow> keeps P g) \<Longrightarrow> keeps P (if b then h else g)"
  by simp

lemma keeps_when [keeps_intros]: "keeps P h \<Longrightarrow> keeps P (hwhen b h)"
  by (simp add: hwhen_def keeps_basic)

lemma keeps_Let [keeps_intros]: "(\<And>x. x = a \<Longrightarrow> keeps P (f x)) \<Longrightarrow> keeps P (Let a f)"
  by simp

lemma keeps_case_sum [keeps_intros]:
  "(\<And>a. x = Inl a \<Longrightarrow> keeps P (f a)) \<Longrightarrow> (\<And>b. x = Inr b \<Longrightarrow> keeps P (g b)) \<Longrightarrow> keeps P (case x of Inl a \<Rightarrow> f a | Inr b \<Rightarrow> g b)"
  by (cases x) simp_all

lemma keeps_case_option [keeps_intros]:
  "keeps P f \<Longrightarrow> (\<And>a. x = Some a \<Longrightarrow> keeps P (g a)) \<Longrightarrow> keeps P (case x of None \<Rightarrow> f | Some a \<Rightarrow> g a)"
  by (cases x) simp_all

lemma keeps_case_list [keeps_intros]:
  "keeps P f \<Longrightarrow> (\<And>a b. keeps P (g a b)) \<Longrightarrow> keeps P (case x of [] \<Rightarrow> f | a # b \<Rightarrow> g a b)"
  by (cases x) simp_all

lemma keeps_case_prod [keeps_intros]: "(\<And>a b. x = (a, b) \<Longrightarrow> keeps P (f a b)) \<Longrightarrow> keeps P (case x of (a, b) \<Rightarrow> f a b)"
  by (cases x) simp

lemma keeps_store [keeps_intros]: "keeps P (hstore g)"
  unfolding hstore_def by (intro keeps_intros)

lemma keeps_update: "(\<And>m m'. P m \<Longrightarrow> g m = Inr m' \<Longrightarrow> P m') \<Longrightarrow> keeps P (hupdate g)"
  by (auto simp: keeps_def hupdate_def split: sum.split)

lemma keeps_updateWith: "(\<And>m x m'. P m \<Longrightarrow> g m = Inr (x, m') \<Longrightarrow> P m') \<Longrightarrow> keeps P (hupdateWith g)"
  by (auto simp: keeps_def hupdateWith_def split: sum.split)

lemma keeps_write: "(\<And>m m'. P m \<Longrightarrow> g m = Inr m' \<Longrightarrow> P m') \<Longrightarrow> keeps P (hwrite g)"
  unfolding hwrite_def by (intro keeps_intros keeps_update)

lemma keeps_try [keeps_intros]: "keeps P h \<Longrightarrow> keeps P (htry h)"
  by (auto simp: keeps_def htry_def split: prod.split)

text \<open>What a read returned is known to the rest of the handler.\<close>

lemma keeps_store_bind:
  "(\<And>m x. P m \<Longrightarrow> g m = Inr x \<Longrightarrow> keeps P (f x)) \<Longrightarrow> keeps P (hbind (hstore g) f)"
  by (auto simp: keeps_def hstore_def hbind_def hindex_def herr_def hret_def split: sum.split)

lemma keeps_index_bind:
  "(\<And>m. P m \<Longrightarrow> keeps P (f (g m))) \<Longrightarrow> keeps P (hbind (hindex g) f)"
  by (auto simp: keeps_def hbind_def hindex_def)

lemma keeps_stamp:
  "(\<And>ob' v. obj_Bucket ob' = obj_Bucket ob \<Longrightarrow> keeps P (f (ob', v))) \<Longrightarrow> keeps P (hbind (stampVersion E ob mode) f)"
  by (auto simp: keeps_def stampVersion_def newVersionID_def hbind_def hnow_def hrandom_def hret_def Let_def split: prod.split sum.split)

lemma keeps_replies [keeps_intros]: "keeps P (writeXML st d)" "keeps P (writeJSON st d)"
  unfolding writeXML_def writeJSON_def by (intro keeps_intros)+

section \<open>Handlers that only read the index\<close>

lemma keeps_reads [keeps_intros]:
  "keeps P (setVersionHeader v)" "keeps P (lookupVersion bucket key v)" "keeps P (taggedObject c bucket key)"
  "keeps P (readTaggingBody E c mx)" "keeps P (authorizeBucket c bucket)" "keeps P (setBatchHeaders E batch)"
  "keeps P (resolveSSE E c b)" "keeps P (newVersionID E)" "keeps P (stampVersion E ob mode)" "keeps P (requestRecipient E c)"
  "keeps P (createActHistory E bucket batch)" "keeps P (bucketHasKeyBearingRefs bucket)" "keeps P (actBucket bucket)"
  "keeps P (publisherOr E b)" "keeps P (bucketCORSRules E bucket)" "keeps P (applyCORS rule pattern orig)"
  unfolding setVersionHeader_def lookupVersion_def taggedObject_def readTaggingBody_def authorizeBucket_def setBatchHeaders_def
    resolveSSE_def newVersionID_def stampVersion_def requestRecipient_def createActHistory_def bucketHasKeyBearingRefs_def
    actBucket_def publisherOr_def bucketCORSRules_def applyCORS_def
  by (intro keeps_intros; simp)+

lemma keeps_more_reads [keeps_intros]:
  "keeps P (readTarget c bucket key)" "keeps P (hsetAll kvs)" "keeps P (hmetadata kvs)" "keeps P (earlyCondition bucket key cond)"
  "keeps P (parsePartNumber c)" "keeps P (requestUpload c bucket key)" "keeps P (headerNumber h name d)" "keeps P (queryNumber q name d)"
  "keeps P (getCopySource c)" "keeps P (actCopyBoundary b b')" "keeps P (alreadyCompleted E bucket key req)"
  "keeps P (writeCompleteResult c bucket key etag)" "keeps P (restoreRoot bucket target)" "keeps P (restoreIdentity E c)"
  "keeps P (notImplemented what)" "keeps P (decorateCORS E c bucket)" "keeps P (newRequestID E)" "keeps P (authenticated E c)"
proof -
  show "keeps P (hsetAll kvs)" "keeps P (hmetadata kvs)"
    by (induction kvs) (auto intro!: keeps_intros)
qed (unfold readTarget_def earlyCondition_def parsePartNumber_def requestUpload_def headerNumber_def queryNumber_def
    getCopySource_def actCopyBoundary_def alreadyCompleted_def writeCompleteResult_def restoreRoot_def restoreIdentity_def
    notImplemented_def decorateCORS_def newRequestID_def authenticated_def; intro keeps_intros)+

lemma keeps_objectHeaders [keeps_intros]: "keeps P (objectHeaders E c b ob)"
  unfolding objectHeaders_def by (intro keeps_intros)

lemma keeps_serveObject [keeps_intros]: "keeps P (serveObject E b ob rh withBody)"
  unfolding serveObject_def by (intro keeps_intros)

lemma keeps_streamedPart [keeps_intros]: "keeps P (streamedPart E c upload src srcB dstB st en part)"
  unfolding streamedPart_def by (intro keeps_intros)

lemma keeps_read_handlers [keeps_intros]:
  "keeps P (handleListBuckets c)" "keeps P (handleHeadBucket E bucket)" "keeps P (handleGetBucketLocation E bucket)"
  "keeps P (handleGetBucketEncryption bucket)" "keeps P (handleGetBucketVersioning bucket)" "keeps P (handleGetBucketCors E bucket)"
  "keeps P (handlePreflight E c)" "keeps P (handleGetBucketTagging E bucket)" "keeps P (handleGetObjectTagging E c bucket key)"
  "keeps P (handleGetGrants E bucket)" "keeps P (handleListSnapshots bucket)" "keeps P (handleGetObject E c bucket key withBody)"
  "keeps P (handleListParts c bucket key)" "keeps P (handleListMultipartUploads c bucket)"
  unfolding handleListBuckets_def handleHeadBucket_def handleGetBucketLocation_def handleGetBucketEncryption_def
    handleGetBucketVersioning_def handleGetBucketCors_def handlePreflight_def handleGetBucketTagging_def handleGetObjectTagging_def
    handleGetGrants_def handleListSnapshots_def handleGetObject_def handleListParts_def handleListMultipartUploads_def
  by (intro keeps_intros)+

lemma keeps_attributes [keeps_intros]: "keeps P (handleGetObjectAttributes E c bucket key)"
  unfolding handleGetObjectAttributes_def by (intro keeps_intros; simp add: keeps_intros)

text \<open>Behind an early return its condition is false.\<close>

lemma keeps_check: "(\<not> b \<Longrightarrow> keeps P h) \<Longrightarrow> keeps P (hthen (hcheck b e) h)"
  by (cases b) (simp_all add: keeps_def hthen_def hbind_def hcheck_def herr_def hret_def)

section \<open>The contract of the index for one bucket\<close>

text \<open>
  What a handler for the bucket \<open>n\<close> may rely on: a property \<open>P\<close> of the index that every operation
  on that bucket keeps, and on the uploads \<open>mine\<close>, to which its uploads belong; a restore installs the
  \<open>rows\<close> it may. Creating a bucket needs only the first law.
\<close>

definition fresh_bucket :: "string \<Rightarrow> Bucket \<Rightarrow> bool" where
  "fresh_bucket n b \<longleftrightarrow> bkt_Name b = n \<and> validBucketName n \<and> bkt_Versioning b = [] \<and> bkt_Encryption b = []"

definition meta_update :: "(Bucket \<Rightarrow> Bucket) \<Rightarrow> bool" where
  "meta_update f \<longleftrightarrow> (\<forall>b. bkt_Name (f b) = bkt_Name b \<and> bkt_Owner (f b) = bkt_Owner b \<and>
     (bkt_Versioning (f b) = bkt_Versioning b \<or> bkt_Versioning (f b) \<in> {''Enabled'', ''Suspended''}) \<and>
     (bkt_Encryption (f b) = bkt_Encryption b \<or> bkt_Encryption (f b) \<in> {[], ''AES256''}))"

definition part_number :: "int \<Rightarrow> bool" where
  "part_number i \<longleftrightarrow> 1 \<le> i \<and> i \<le> maxPartNumber"

locale bucket_creation =
  fixes P :: "Memory \<Rightarrow> bool" and n :: string
  assumes create: "P m \<Longrightarrow> fresh_bucket n b \<Longrightarrow> CreateBucket m now b = Inr m' \<Longrightarrow> P m'"

locale bucket_property = bucket_creation P n for P n +
  fixes mine :: "string set" and rows :: "Object list \<Rightarrow> bool"
  assumes meta: "P m \<Longrightarrow> setMeta m n f = Inr m' \<Longrightarrow> meta_update f \<Longrightarrow> P m'"
    and delete: "P m \<Longrightarrow> DeleteBucket m n = Inr m' \<Longrightarrow> P m'"
    and put: "P m \<Longrightarrow> obj_Bucket ob = n \<Longrightarrow> PutObject m ob cond = Inr m' \<Longrightarrow> P m'"
    and remove: "P m \<Longrightarrow> DeleteObject m n k = Inr m' \<Longrightarrow> P m'"
    and remove_version: "P m \<Longrightarrow> DeleteVersion m n k v = Inr (ob, m') \<Longrightarrow> P m'"
    and tags: "P m \<Longrightarrow> SetObjectTags m n k v js = Inr m' \<Longrightarrow> P m'"
    and snapshot: "P m \<Longrightarrow> snap_Bucket sn = n \<Longrightarrow> snapshotLabelRE (snap_Label sn) \<Longrightarrow> PutSnapshot m now sn = Inr m' \<Longrightarrow> P m'"
    and restore: "P m \<Longrightarrow> rows objects \<Longrightarrow> RestoreBucket m n objects rt seq = Inr m' \<Longrightarrow> P m'"
    and named: "P m \<Longrightarrow> GetBucket m n = Inr b \<Longrightarrow> bkt_Name b = n"
    and upload: "P m \<Longrightarrow> GetMultipartUpload m n k uid = Inr u \<Longrightarrow> up_UploadID u \<in> mine"
    and create_upload: "P m \<Longrightarrow> up_Bucket u = n \<Longrightarrow> up_UploadID u \<in> mine \<Longrightarrow> CreateMultipartUpload m now u = Inr m' \<Longrightarrow> P m'"
    and put_part: "P m \<Longrightarrow> uid \<in> mine \<Longrightarrow> part_number (part_PartNumber p) \<Longrightarrow> PutPart m uid p = Inr m' \<Longrightarrow> P m'"
    and delete_upload: "P m \<Longrightarrow> uid \<in> mine \<Longrightarrow> DeleteMultipartUpload m uid = Inr m' \<Longrightarrow> P m'"
begin

lemma set_metas:
  "P m \<Longrightarrow> SetBucketRecoveryRecipient m n s = Inr m' \<Longrightarrow> P m'" "P m \<Longrightarrow> SetBucketCORS m n s = Inr m' \<Longrightarrow> P m'"
  "P m \<Longrightarrow> SetBucketTagging m n s = Inr m' \<Longrightarrow> P m'" "P m \<Longrightarrow> SetBucketACT m n s t = Inr m' \<Longrightarrow> P m'"
  "P m \<Longrightarrow> SetBucketHead m n s q = Inr m' \<Longrightarrow> P m'"
  unfolding set_meta_defs by (erule (1) meta, simp add: meta_update_def)+

lemma write_settings:
  "s \<in> {''Enabled'', ''Suspended''} \<Longrightarrow> keeps P (hwrite (\<lambda>m. SetBucketVersioning m n s))"
  "s \<in> {[], ''AES256''} \<Longrightarrow> keeps P (hwrite (\<lambda>m. SetBucketEncryption m n s))"
  unfolding SetBucketVersioning_def SetBucketEncryption_def
  by (rule keeps_write, erule (1) meta, simp add: meta_update_def)+

lemma writes:
  "keeps P (hwrite (\<lambda>m. SetBucketRecoveryRecipient m n s))" "keeps P (hwrite (\<lambda>m. SetBucketCORS m n s))"
  "keeps P (hwrite (\<lambda>m. SetBucketTagging m n s))" "keeps P (hwrite (\<lambda>m. SetBucketACT m n s t))"
  "keeps P (hwrite (\<lambda>m. DeleteBucket m n))" "keeps P (hwrite (\<lambda>m. SetObjectTags m n k v s))"
  "keeps P (hupdate (\<lambda>m. SetBucketACT m n s t))" "keeps P (hupdate (\<lambda>m. DeleteObject m n k))"
  "keeps P (hupdateWith (\<lambda>m. DeleteVersion m n k v))"
  by (rule keeps_write keeps_update keeps_updateWith, erule (1) set_metas delete tags remove remove_version)+

lemma write_object: "obj_Bucket ob = n \<Longrightarrow> keeps P (hwrite (\<lambda>m. PutObject m ob cond))"
  by (rule keeps_write) (rule put)

lemma write_upload:
  "uid \<in> mine \<Longrightarrow> keeps P (hwrite (\<lambda>m. DeleteMultipartUpload m uid))"
  "uid \<in> mine \<Longrightarrow> keeps P (hupdate (\<lambda>m. DeleteMultipartUpload m uid))"
  by (rule keeps_write keeps_update, erule (2) delete_upload)+

lemma write_part: "uid \<in> mine \<Longrightarrow> part_number (part_PartNumber p) \<Longrightarrow> keeps P (hwrite (\<lambda>m. PutPart m uid p))"
  by (rule keeps_write, erule (3) put_part)

text \<open>What a handler knows of the bucket and of the upload it has read.\<close>

lemma got_bucket: "(\<And>b. bkt_Name b = n \<Longrightarrow> keeps P (f b)) \<Longrightarrow> keeps P (hbind (hstore (\<lambda>m. GetBucket m n)) f)"
  by (rule keeps_store_bind) (simp add: named)

lemma got_upload: "(\<And>u. up_UploadID u \<in> mine \<Longrightarrow> keeps P (f u)) \<Longrightarrow> keeps P (hbind (requestUpload c n key) f)"
  unfolding requestUpload_def by (rule keeps_store_bind) (simp add: upload)

lemma settings_keep:
  "keeps P (handlePutBucketTagging E c n)" "keeps P (handleDeleteBucketTagging n)" "keeps P (handlePutObjectTagging E c n key)"
  "keeps P (handleDeleteObjectTagging E c n key)" "keeps P (handlePutBucketVersioning E c n)" "keeps P (handleDeleteBucket n)"
  "keeps P (handlePutBucketEncryption E c n)" "keeps P (handleDeleteBucketEncryption n)" "keeps P (handlePutBucketRecoveryRecipient E c n)"
  "keeps P (handlePutBucketCors E c n)" "keeps P (handleDeleteBucketCors n)" "keeps P (handlePutGrants E c n)"
proof -
  have [keeps_intros]: "keeps P (\<lambda>s. (Inr (srv_commits s \<noteq> None), s))" by (simp add: keeps_def)
  show "keeps P (handlePutBucketRecoveryRecipient E c n)"
    unfolding handlePutBucketRecoveryRecipient_def by (intro keeps_intros writes)
  show "keeps P (handlePutBucketVersioning E c n)" "keeps P (handlePutBucketEncryption E c n)" "keeps P (handleDeleteBucketEncryption n)"
    unfolding handlePutBucketVersioning_def handlePutBucketEncryption_def handleDeleteBucketEncryption_def
    by (intro keeps_intros keeps_check write_settings; simp)+
qed (unfold handlePutBucketTagging_def handleDeleteBucketTagging_def handlePutObjectTagging_def handleDeleteObjectTagging_def
    handleDeleteBucket_def
    handlePutBucketCors_def handleDeleteBucketCors_def handlePutGrants_def; intro keeps_intros writes)+

end

lemma commit_store:
  "oc_Store (CommitNow lib now co m n) = m \<or> (\<exists>rt seq. SetBucketHead m n rt seq = Inr (oc_Store (CommitNow lib now co m n)))"
  by (auto simp: CommitNow_def recordCommit_def commitFailed_def Let_def split: sum.splits option.splits if_splits)

text \<open>What a handler returns, when it returns.\<close>

definition yields :: "('a \<Rightarrow> bool) \<Rightarrow> 'a handler \<Rightarrow> bool" where
  "yields Q h \<longleftrightarrow> (\<forall>(s::Srv) x. fst (h s) = Inr x \<longrightarrow> Q x)"

lemma yields_rules:
  "Q x \<Longrightarrow> yields Q (hret x)" "(\<And>y. yields Q (f y)) \<Longrightarrow> yields Q (hbind k f)" "yields Q g \<Longrightarrow> yields Q (hthen u g)"
  "yields Q h \<Longrightarrow> yields Q g \<Longrightarrow> yields Q (if b then h else g)"
  by (auto simp: yields_def hret_def hbind_def hthen_def split: prod.splits sum.splits)

lemma keeps_bind_yields:
  assumes "keeps P h" "yields Q h" "\<And>x. Q x \<Longrightarrow> keeps P (f x)"
  shows "keeps P (hbind h f)"
  unfolding keeps_def
proof (intro allI impI)
  fix s :: Srv assume "P (srv_store s)"
  then have P: "P (srv_store (snd (h s)))" using assms(1) by (simp add: keeps_def)
  show "P (srv_store (snd (hbind h f s)))"
  proof (cases "fst (h s)")
    case (Inr x)
    with assms(2,3) have "keeps P (f x)" by (simp add: yields_def)
    with P Inr show ?thesis by (simp add: keeps_def hbind_def split_beta)
  qed (use P in \<open>simp add: hbind_def split_beta\<close>)
qed

lemma parsePartNumber_yields: "yields part_number (parsePartNumber c)"
  by (auto simp: yields_def parsePartNumber_def part_number_def Let_def hthen_def hbind_def hcheck_def herr_def hret_def
      split: option.splits if_splits)

text \<open>The part a copy stores has the number it was asked for.\<close>

lemma yields_more: "yields Q (herr e)" "(\<And>a. yields Q (g a)) \<Longrightarrow> yields Q f \<Longrightarrow> yields Q (case x of None \<Rightarrow> f | Some a \<Rightarrow> g a)"
  "(\<And>a b. yields Q (h a b)) \<Longrightarrow> yields Q (case y of (a, b) \<Rightarrow> h a b)"
  by (auto simp: yields_def herr_def split: option.splits prod.splits)

lemma streamedPart_yields:
  "yields (\<lambda>p. part_PartNumber p = part_PartNumber part) (streamedPart E c upload src srcB dstB st en part)"
  unfolding streamedPart_def Let_def by (intro yields_rules yields_more) simp

lemma keeps_copied_part:
  assumes "\<And>p. part_PartNumber p = part_PartNumber part \<Longrightarrow> keeps P (f p)"
  shows "keeps P (hbind (if b then hret (reusedPart src srcB part) else case x of None \<Rightarrow> herr e
    | Some (st, en) \<Rightarrow> streamedPart E c upload src srcB dstB st en part) f)"
  by (rule keeps_bind_yields [where Q = "\<lambda>p. part_PartNumber p = part_PartNumber part", OF _ _ assms])
    (intro keeps_intros, intro yields_rules(4) yields_rules(1) yields_more streamedPart_yields, simp add: reusedPart_def)

context bucket_creation
begin

lemma create_keeps: "keeps P (handleCreateBucket E c n)"
proof -
  have up: "keeps P (hupdate (\<lambda>m. CreateBucket m now b))" if "fresh_bucket n b" for now b
    by (rule keeps_update) (rule create [OF _ that])
  have bind: "keeps P (hbind (if act then hthen h (hthen g (hbind k (\<lambda>hist. hret (b\<lparr>bkt_ACT := True, bkt_ActHistory := hist\<rparr>)))) else hret b) f)"
    if "keeps P h" "keeps P g" "keeps P k" "fresh_bucket n b" "\<And>b'. fresh_bucket n b' \<Longrightarrow> keeps P (f b')"
    for act b f and h :: "unit handler" and g :: "unit handler" and k :: "string handler"
    by (rule keeps_bind_yields [where Q = "fresh_bucket n"])
      (use that in \<open>auto simp: fresh_bucket_def intro!: keeps_intros yields_rules\<close>)
  show ?thesis
    unfolding handleCreateBucket_def Let_def
    by (rule keeps_check, intro keeps_intros bind up) (simp_all add: fresh_bucket_def zeroBucket_def)
qed

end

context bucket_property
begin

lemma commit_keeps: "keeps P (hcommit E n)"
proof -
  have "P (oc_Store (CommitNow lib now co m n))" if "P m" for lib now co m
    using commit_store [of lib now co m n] that set_metas(5) by metis
  then show ?thesis by (auto simp: keeps_def hcommit_def Let_def split: option.split)
qed

lemma snapshot_keeps: "keeps P (handleCreateSnapshot E c n)"
proof -
  have "keeps P (hwrite (\<lambda>m. PutSnapshot m now sn))" if "snap_Bucket sn = n" "snapshotLabelRE (snap_Label sn)" for now sn
    by (rule keeps_write) (rule snapshot [OF _ that])
  then show ?thesis
    unfolding handleCreateSnapshot_def Let_def
    by (intro keeps_check, intro keeps_intros commit_keeps) simp_all
qed

lemma restore_keeps:
  assumes "\<And>rt ident cm. GetCommit (env_lib E) (restoreSaver E) rt ident = Inr cm \<Longrightarrow> rows (cm_Objects cm)"
  shows "keeps P (handleRestoreBucket E c n)"
proof -
  have "keeps P (hwrite (\<lambda>m. RestoreBucket m n objects rt seq))" if "rows objects" for objects rt seq
    by (rule keeps_write) (rule restore [OF _ that])
  then show ?thesis
    unfolding handleRestoreBucket_def using assms by (intro keeps_intros) blast+
qed

lemma uploadBody_keeps: "bkt_Name b = n \<Longrightarrow> keeps P (uploadBody E c b batch sc encrypt)"
  unfolding uploadBody_def sendBody_def by (intro keeps_intros writes) (simp_all add: writes)

lemma putObject_keeps: "keeps P (handlePutObject E c n key)"
  unfolding handlePutObject_def storePut_def putRow_def Let_def
  by (intro got_bucket keeps_stamp keeps_intros uploadBody_keeps write_object) simp_all

lemma deleteOne_keeps: "bkt_Name b = n \<Longrightarrow> keeps P (deleteOne E b key v)"
  unfolding deleteOne_def Let_def
  by (intro keeps_stamp keeps_intros write_object) (simp_all add: writes)

lemma deleteLoop_keeps: "bkt_Name b = n \<Longrightarrow> keeps P (deleteLoop E b quiet ds res)"
  by (induction ds arbitrary: res) (auto intro!: keeps_intros deleteOne_keeps)

lemma delete_keeps: "keeps P (handleDeleteObject E c n key)" "keeps P (handleDeleteObjects E c n)"
  unfolding handleDeleteObject_def handleDeleteObjects_def
  by (intro got_bucket keeps_intros deleteOne_keeps deleteLoop_keeps; assumption)+

lemma copy_keeps: "keeps P (handleCopyObject E c n key)"
proof -
  have dst: "obj_Bucket (copiedObject c n key d now b src srcB) = n" for d now b src srcB
    by (simp add: copiedObject_def Let_def)
  have bind: "keeps P (hbind (if t then hbind h (\<lambda>x. hret (ob\<lparr>obj_Tags := x\<rparr>)) else hret ob) f)"
    if "keeps P h" "\<And>ob'. obj_Bucket ob' = obj_Bucket ob \<Longrightarrow> keeps P (f ob')" for t h ob f
    by (rule keeps_bind_yields [where Q = "\<lambda>ob'. obj_Bucket ob' = obj_Bucket ob"])
      (auto intro!: keeps_intros yields_rules that)
  show ?thesis
    unfolding handleCopyObject_def
    by (intro keeps_intros bind keeps_stamp write_object) (simp_all add: dst)
qed

lemma createUpload_keeps:
  assumes "\<And>k. hex_EncodeToString (map (env_random E k) [0..<16]) \<in> mine"
  shows "keeps P (handleCreateMultipartUpload E c n key)"
proof -
  have w: "keeps P (hwrite (\<lambda>m. CreateMultipartUpload m now u))" if "up_Bucket u = n" "up_UploadID u \<in> mine" for now u
    by (rule keeps_write) (rule create_upload [OF _ that])
  have rnd: "keeps P (hbind (hrandom E 16) f)" if "\<And>x. hex_EncodeToString x \<in> mine \<Longrightarrow> keeps P (f x)" for f :: "string \<Rightarrow> reply handler"
    using that [OF assms] by (auto simp: keeps_def hbind_def hrandom_def)
  show ?thesis
    unfolding handleCreateMultipartUpload_def Let_def
    by (intro keeps_intros rnd w) simp_all
qed

lemma got_part_number: "(\<And>i. part_number i \<Longrightarrow> keeps P (f i)) \<Longrightarrow> keeps P (hbind (parsePartNumber c) f)"
  by (rule keeps_bind_yields [OF _ parsePartNumber_yields]) (auto intro: keeps_intros)

lemma uploadPart_keeps: "keeps P (handleUploadPart E c n key)"
  unfolding handleUploadPart_def Let_def
  by (intro got_part_number got_upload got_bucket keeps_intros write_part uploadBody_keeps) simp_all

lemma uploadPartCopy_keeps: "keeps P (handleUploadPartCopy E c n key)"
  unfolding handleUploadPartCopy_def Let_def
  by (intro got_part_number got_upload keeps_copied_part keeps_intros write_part) simp_all

lemma abort_keeps: "keeps P (handleAbortMultipartUpload c n key)"
  unfolding handleAbortMultipartUpload_def by (intro got_upload keeps_intros write_upload)

lemmas part_keeps = uploadPart_keeps uploadPartCopy_keeps abort_keeps

lemma complete_keeps: "keeps P (handleCompleteMultipartUpload E c n key)"
proof -
  have cu: "keeps P (completeUpload E c n key b req u)" if "up_UploadID u \<in> mine" for b req u
    unfolding completeUpload_def
    by (intro keeps_intros keeps_stamp write_object write_upload that) (simp add: completedObject_def)
  have got: "keeps P (hbind (hindex (\<lambda>m. GetMultipartUpload m n key uid)) f)"
    if "\<And>u. up_UploadID u \<in> mine \<Longrightarrow> keeps P (f (Inr u))" "\<And>e. keeps P (f (Inl e))" for uid f
  proof (rule keeps_index_bind)
    fix m assume "P m"
    then show "keeps P (f (GetMultipartUpload m n key uid))"
      using that upload [of m key uid] by (cases "GetMultipartUpload m n key uid") auto
  qed
  show ?thesis
    unfolding handleCompleteMultipartUpload_def
    by (intro keeps_intros got cu; simp add: cu keeps_intros)
qed

end

lemma keeps_listing_handlers [keeps_intros]:
  "keeps P (dispatchBucketGet E c bucket)"
  unfolding dispatchBucketGet_def by (intro keeps_intros)

text \<open>What a request may assume of its surroundings: the rows of the commits it reads, and the ids it draws.\<close>

definition draws :: "Env \<Rightarrow> string set \<Rightarrow> bool" where
  "draws E ids \<longleftrightarrow> (\<forall>k. hex_EncodeToString (map (env_random E k) [0..<16]) \<in> ids)"

definition restores :: "Env \<Rightarrow> (Object list \<Rightarrow> bool) \<Rightarrow> bool" where
  "restores E rows \<longleftrightarrow> (\<forall>rt ident cm. GetCommit (env_lib E) (restoreSaver E) rt ident = Inr cm \<longrightarrow> rows (cm_Objects cm))"

context bucket_property
begin

lemma dispatchBucketPut_keeps: "keeps P (dispatchBucketPut E c n)"
  unfolding dispatchBucketPut_def by (intro keeps_intros settings_keep snapshot_keeps create_keeps)

lemma dispatchBucketDelete_keeps: "keeps P (dispatchBucketDelete c n)"
  unfolding dispatchBucketDelete_def by (intro keeps_intros settings_keep)

lemma dispatchBucket_keeps: "restores E rows \<Longrightarrow> keeps P (dispatchBucket E c n)"
  unfolding dispatchBucket_def
  by (intro keeps_intros dispatchBucketPut_keeps dispatchBucketDelete_keeps delete_keeps restore_keeps) (simp add: restores_def)

lemma dispatchObjectPut_keeps: "keeps P (dispatchObjectPut E c n key)"
  unfolding dispatchObjectPut_def by (intro keeps_intros settings_keep part_keeps copy_keeps putObject_keeps)

lemma dispatchObject_keeps: "draws E mine \<Longrightarrow> keeps P (dispatchObject E c n key)"
  unfolding dispatchObject_def
  by (intro keeps_intros settings_keep dispatchObjectPut_keeps part_keeps delete_keeps createUpload_keeps complete_keeps)
    (simp add: draws_def)

end

text \<open>A server keeps a property of its index when the dispatch of the authenticated request does.\<close>

definition verified :: "Env \<Rightarrow> Call \<Rightarrow> Identity \<Rightarrow> bool" where
  "verified E c ident \<longleftrightarrow> (\<exists>now. Verify (env_crypto E) (env_ParseTime E) (env_verifier E) now (ca_req c) = Inr ident)"

lemma authenticated_yields: "yields (\<lambda>c'. \<exists>ident. c' = c\<lparr>ca_id := Some ident\<rparr> \<and> verified E c ident) (authenticated E c)"
  unfolding yields_def
proof (intro allI impI)
  fix s :: Srv and c' assume "fst (authenticated E c s) = Inr c'"
  then obtain ident where "Verify (env_crypto E) (env_ParseTime E) (env_verifier E) (env_clock E (srv_tick s)) (ca_req c) = Inr ident"
    and "c' = c\<lparr>ca_id := Some ident\<rparr>"
    by (simp add: authenticated_def hbind_def hnow_def herr_def hret_def split: sum.splits)
  then show "\<exists>ident. c' = c\<lparr>ca_id := Some ident\<rparr> \<and> verified E c ident" unfolding verified_def by metis
qed

lemma serveS3_keeps:
  assumes "\<And>ident. verified E c ident \<Longrightarrow> keeps P (dispatchBucket E (c\<lparr>ca_id := Some ident\<rparr>) (fst (resolveTarget E (ca_req c))))"
    and "\<And>ident. verified E c ident \<Longrightarrow>
           keeps P (dispatchObject E (c\<lparr>ca_id := Some ident\<rparr>) (fst (resolveTarget E (ca_req c))) (snd (resolveTarget E (ca_req c))))"
  shows "keeps P (serveS3 E c)"
proof -
  have auth: "keeps P (hbind (authenticated E c) f)"
    if "\<And>ident. verified E c ident \<Longrightarrow> keeps P (f (c\<lparr>ca_id := Some ident\<rparr>))" for f :: "Call \<Rightarrow> reply handler"
    by (rule keeps_bind_yields [OF _ authenticated_yields]) (use that in \<open>auto intro: keeps_intros\<close>)
  show ?thesis
    unfolding serveS3_def split_beta by (intro keeps_intros auth assms)
qed

lemma respond_state: "snd (respond c h s) = snd (h s)"
  by (simp add: respond_def split: prod.split sum.split)

lemma ServeHTTP_keeps:
  assumes "keeps P (serveS3 E c)" "P (srv_store s)"
  shows "P (srv_store (snd (ServeHTTP E c s)))"
proof -
  have "keeps P (serveRequest E c)"
    unfolding serveRequest_def by (intro keeps_intros assms(1))
  then have "keeps P (hbind (newRequestID E) (\<lambda>rid. hthen (hset ''x-amz-request-id'' rid) (serveRequest E c)))"
    by (intro keeps_intros)
  moreover have "P (srv_store (s\<lparr>srv_header := []\<rparr>))" using assms(2) by simp
  ultimately show ?thesis unfolding ServeHTTP_def respond_state keeps_def by blast
qed

section \<open>The states of a server\<close>

text \<open>A server steps by serving a request and by a tick of the commit loop.\<close>

inductive server_step :: "Env \<Rightarrow> Srv \<Rightarrow> Srv \<Rightarrow> bool" for E where
  request: "server_step E s (snd (ServeHTTP E c s))"
| tick: "srv_commits s = Some co \<Longrightarrow> commitTick (env_lib E) now clock (co, srv_store s) = (co', m') \<Longrightarrow>
         server_step E s (s\<lparr>srv_commits := Some co', srv_store := m'\<rparr>)"

inductive server_reachable :: "Env \<Rightarrow> Srv \<Rightarrow> bool" for E where
  start: "srv_store s = NewMemory \<Longrightarrow> server_reachable E s"
| step: "server_reachable E s \<Longrightarrow> server_step E s s' \<Longrightarrow> server_reachable E s'"

lemma commitDue_keeps:
  assumes "\<And>n. bucket_property P n UNIV (rows n)"
  shows "P (snd s) \<Longrightarrow> P (snd (commitDue lib now bs s))"
proof (induction lib now bs s rule: commitDue.induct)
  case (2 lib now b bs c m)
  have "P (oc_Store (CommitNow lib (now b) c m b))"
    using commit_store [of lib "now b" c m b] 2(2) bucket_property.set_metas(5) [OF assms] by (metis snd_conv)
  with 2 show ?case by (simp add: Let_def)
qed simp

text \<open>A property of the index that every operation keeps holds in every state of the server.\<close>

lemma server_keeps:
  assumes P: "\<And>n. bucket_property P n UNIV (rows n)" "P NewMemory" and E: "\<And>n. restores E (rows n)"
    and "server_reachable E s"
  shows "P (srv_store s)"
  using assms(4)
proof induction
  case (step s s')
  from step.hyps(2) show ?case
  proof cases
    case (request c)
    have "keeps P (serveS3 E c)"
      using bucket_property.dispatchBucket_keeps [OF P(1) E] bucket_property.dispatchObject_keeps [OF P(1), of E]
      by (intro serveS3_keeps) (simp_all add: draws_def)
    then show ?thesis unfolding request using step.IH by (rule ServeHTTP_keeps)
  next
    case (tick co now clock co' m')
    then show ?thesis
      using commitDue_keeps [OF P(1), of "(co, srv_store s)" "env_lib E" clock "dueBuckets co now"] step.IH
      by (simp add: commitTick_def)
  qed
qed (simp add: P(2))

section \<open>The invariant of the index\<close>

lemma memory_wf_named: "memory_wf m \<Longrightarrow> GetBucket m n = Inr b \<Longrightarrow> bkt_Name b = n"
  by (auto simp: GetBucket_def rbind_Inr_iff bucket_wf_def dest: memory_wf_getBucket)

interpretation wf: bucket_property memory_wf n UNIV "restorable n" for n
proof (unfold_locales, goal_cases)
  case (1 m b now m')
  then show ?case by (blast intro: CreateBucket_wf)
next
  case (2 m f m')
  then show ?case using setMeta_wf [of m n f m'] by (simp add: meta_update_def)
qed (erule (1) wf_intros memory_wf_named | erule (2) RestoreBucket_wf | simp; fail)+

text \<open>C1.
  The invariant of the index holds in every state of the server: after any sequence of requests (of any
  kind, well or badly formed, from any client) and ticks of the commit loop, every bucket is stored under its
  name, every key has a version, the versions of a key have distinct ids and are sorted newest first with the flag of
  the latest on the first alone, and every upload is stored under its id. It relies on the commit documents that
  a restore reads to name no key and version id twice.
\<close>

theorem server_invariant:
  assumes "\<And>n. restores E (restorable n)" and "server_reachable E s"
  shows "memory_wf (srv_store s)"
  using wf.bucket_property_axioms memory_wf_NewMemory assms by (rule server_keeps)

section \<open>The types of the index\<close>

text \<open>
  What the fields hold, whose types in the source are only strings and integers: the names and settings the
  handlers let through. The rules for bucket names are those of S3.
\<close>

definition bucket_name :: "string \<Rightarrow> bool" where
  "bucket_name n \<longleftrightarrow> 3 \<le> length n \<and> length n \<le> 63 \<and> (\<forall>c \<in> set n. lower_alnum c \<or> c = CHR ''.'' \<or> c = CHR ''-'') \<and>
     lower_alnum (n ! 0) \<and> lower_alnum (n ! (length n - 1)) \<and> \<not> net_ParseIPv4 n \<and>
     (\<forall>i \<in> {..<length n}. n ! i = CHR ''.'' \<longrightarrow> lower_alnum (n ! (i - 1)) \<and> lower_alnum (n ! (i + 1)))"

definition bucket_typed :: "string \<Rightarrow> memBucket \<Rightarrow> bool" where
  "bucket_typed n b \<longleftrightarrow> bkt_Name (mb_meta b) = n \<and> bucket_name n \<and>
     bkt_Versioning (mb_meta b) \<in> {[], ''Enabled'', ''Suspended''} \<and> bkt_Encryption (mb_meta b) \<in> {[], ''AES256''} \<and>
     gm_all (\<lambda>l _. snapshotLabelRE l) (mb_snapshots b)"

definition upload_typed :: "string \<Rightarrow> memUpload \<Rightarrow> bool" where
  "upload_typed uid u \<longleftrightarrow> gm_all (\<lambda>i _. 1 \<le> i \<and> i \<le> 10000) (mu_parts u)"

definition index_typed :: "Memory \<Rightarrow> bool" where
  "index_typed m \<longleftrightarrow> gm_all bucket_typed (mem_buckets m) \<and> gm_all upload_typed (mem_uploads m)"

lemma Contains_two: "\<not> strings_Contains s [a, b] \<Longrightarrow> Suc i < length s \<Longrightarrow> \<not> (s ! i = a \<and> s ! Suc i = b)"
proof (induction s arbitrary: i)
  case (Cons c s)
  then have c: "\<not> HasPrefix (c # s) [a, b]" "\<not> strings_Contains s [a, b]" by (auto simp: strings_Contains_def split: if_splits)
  show ?case
  proof (cases i)
    case 0
    with c(1) Cons.prems(2) show ?thesis by (cases s) (auto simp: HasPrefix_def)
  next
    case (Suc j)
    with Cons.IH [OF c(2), of j] Cons.prems(2) show ?thesis by simp
  qed
qed simp

lemma bucketNameRE_nth:
  assumes "bucketNameRE n" "i < length n"
  shows "lower_alnum (n ! i) \<or> (i \<noteq> 0 \<and> i \<noteq> length n - 1 \<and> (n ! i = CHR ''.'' \<or> n ! i = CHR ''-''))"
proof (cases "i = 0 \<or> i = length n - 1")
  case True
  moreover have "n \<noteq> []" using assms(2) by auto
  then have "hd n = n ! 0" "last n = n ! (length n - 1)" using hd_conv_nth last_conv_nth by blast+
  ultimately show ?thesis using assms(1) unfolding bucketNameRE_def by metis
next
  case False
  with assms(2) have "butlast (tl n) ! (i - 1) = n ! i" "i - 1 < length (butlast (tl n))" by (auto simp: nth_butlast nth_tl)
  then have "n ! i \<in> set (butlast (tl n))" by (metis nth_mem)
  with False assms(1) show ?thesis by (auto simp: bucketNameRE_def)
qed

lemma validBucketName_rules:
  assumes "validBucketName n"
  shows "bucket_name n"
proof -
  have re: "bucketNameRE n" and ip: "\<not> net_ParseIPv4 n" and no: "\<not> strings_Contains n ''..''" "\<not> strings_Contains n ''.-''" "\<not> strings_Contains n ''-.''"
    using assms by (auto simp: validBucketName_def split: if_splits)
  note nth = bucketNameRE_nth [OF re]
  have len: "3 \<le> length n" "length n \<le> 63" using re by (auto simp: bucketNameRE_def)
  have "lower_alnum (n ! (i - 1)) \<and> lower_alnum (n ! (i + 1))" if i: "i < length n" "n ! i = CHR ''.''" for i
  proof -
    have "\<not> lower_alnum (CHR ''.'')" by code_simp
    with nth [OF i(1)] i(2) have "i \<noteq> 0" "Suc i < length n" using i(1) by auto
    then show ?thesis
      using nth [of "i - 1"] nth [of "Suc i"] i Contains_two [OF no(1), of "i - 1"] Contains_two [OF no(3), of "i - 1"]
        Contains_two [OF no(1), of i] Contains_two [OF no(2), of i] by auto
  qed
  moreover have "\<forall>c \<in> set n. lower_alnum c \<or> c = CHR ''.'' \<or> c = CHR ''-''" using nth by (metis in_set_conv_nth)
  moreover have "lower_alnum (n ! 0)" "lower_alnum (n ! (length n - 1))" using nth [of 0] nth [of "length n - 1"] len by force+
  ultimately show ?thesis using len ip by (simp add: bucket_name_def)
qed

lemma index_typed_put: "index_typed m \<Longrightarrow> bucket_typed n b \<Longrightarrow> index_typed (putBucket m n b)"
  by (simp add: index_typed_def putBucket_def gm_all_put)

lemma index_typed_got: "index_typed m \<Longrightarrow> getBucket m n = Inr b \<Longrightarrow> bucket_typed n b"
  by (auto simp: index_typed_def getBucket_Inr_iff dest: gm_allD)

text \<open>The operations on the objects of a bucket leave what else it holds.\<close>

lemma index_typed_objects:
  assumes "index_typed m" "getBucket m n = Inr b" "mb_meta b' = mb_meta b" "mb_snapshots b' = mb_snapshots b"
  shows "index_typed (putBucket m n b')"
  using index_typed_got [OF assms(1,2)] assms by (intro index_typed_put) (simp_all add: bucket_typed_def)

lemma index_typed_meta:
  assumes "index_typed m" "setMeta m n f = Inr m'" "meta_update f"
  shows "index_typed m'"
proof -
  obtain b where b: "getBucket m n = Inr b" "m' = putBucket m n (b\<lparr>mb_meta := f (mb_meta b)\<rparr>)"
    using assms(2) by (auto simp: setMeta_def rbind_Inr_iff)
  have f: "bkt_Name (f x) = bkt_Name x"
    "bkt_Versioning (f x) = bkt_Versioning x \<or> bkt_Versioning (f x) \<in> {''Enabled'', ''Suspended''}"
    "bkt_Encryption (f x) = bkt_Encryption x \<or> bkt_Encryption (f x) \<in> {[], ''AES256''}" for x
    using assms(3) by (simp_all add: meta_update_def)
  have "bucket_typed n (b\<lparr>mb_meta := f (mb_meta b)\<rparr>)"
    using index_typed_got [OF assms(1) b(1)] f [of "mb_meta b"] unfolding bucket_typed_def by auto
  then show ?thesis unfolding b(2) using assms(1) by (rule index_typed_put [rotated])
qed

lemma index_typed_ops:
  "index_typed m \<Longrightarrow> PutObject m ob cond = Inr m' \<Longrightarrow> index_typed m'"
  "index_typed m \<Longrightarrow> DeleteObject m n k = Inr m' \<Longrightarrow> index_typed m'"
  "index_typed m \<Longrightarrow> SetObjectTags m n k v js = Inr m' \<Longrightarrow> index_typed m'"
  by (auto simp: PutObject_def DeleteObject_def SetObjectTags_def rbind_Inr_iff Let_def split: option.splits if_splits
      intro!: index_typed_objects)

lemma index_typed_deletes:
  "index_typed m \<Longrightarrow> DeleteVersion m n k v = Inr (old, m') \<Longrightarrow> index_typed m'"
  "index_typed m \<Longrightarrow> DeleteBucket m n = Inr m' \<Longrightarrow> index_typed m'"
  by (auto simp: DeleteVersion_def rbind_Inr_iff Let_def split: option.splits intro!: index_typed_objects)
    (auto simp: DeleteBucket_def rbind_Inr_iff index_typed_def split: if_splits intro: gm_all_del)

lemma index_typed_uploads:
  "index_typed m \<Longrightarrow> CreateMultipartUpload m now u = Inr m' \<Longrightarrow> index_typed m'"
  "index_typed m \<Longrightarrow> part_number (part_PartNumber p) \<Longrightarrow> PutPart m uid p = Inr m' \<Longrightarrow> index_typed m'"
  "index_typed m \<Longrightarrow> DeleteMultipartUpload m uid = Inr m' \<Longrightarrow> index_typed m'"
proof -
  assume m: "index_typed m" and p: "part_number (part_PartNumber p)" and "PutPart m uid p = Inr m'"
  then obtain u where u: "gm_get (mem_uploads m) uid = Some u"
    and m': "m' = m\<lparr>mem_uploads := gm_put uid (u\<lparr>mu_parts := gm_put (part_PartNumber p) p (mu_parts u)\<rparr>) (mem_uploads m)\<rparr>"
    by (auto simp: PutPart_def split: option.splits)
  have "upload_typed uid u" using m u by (auto simp: index_typed_def dest: gm_allD)
  then have "upload_typed uid (u\<lparr>mu_parts := gm_put (part_PartNumber p) p (mu_parts u)\<rparr>)"
    using p by (simp add: upload_typed_def part_number_def maxPartNumber_def gm_all_put)
  with m show "index_typed m'" by (simp add: m' index_typed_def gm_all_put)
qed (auto simp: CreateMultipartUpload_def DeleteMultipartUpload_def rbind_Inr_iff Let_def index_typed_def upload_typed_def
    split: option.splits intro!: gm_all_put gm_all_del)

interpretation typed: bucket_property index_typed n UNIV "\<lambda>_. True" for n
proof (unfold_locales, goal_cases)
  case (1 m b now m')
  then show ?case
    by (auto simp: CreateBucket_def Let_def fresh_bucket_def bucket_typed_def validBucketName_rules split: option.splits
        intro!: index_typed_put)
next
  case (8 m sn now m')
  then show ?case
    using index_typed_got [OF 8(1)] by (auto simp: PutSnapshot_def rbind_Inr_iff Let_def bucket_typed_def intro!: index_typed_put gm_all_put)
next
  case (9 m objects rt seq m')
  then show ?case
    using index_typed_got [OF 9(1)] by (auto simp: RestoreBucket_def rbind_Inr_iff Let_def bucket_typed_def intro!: index_typed_put)
next
  case (10 m b)
  then show ?case using index_typed_got by (auto simp: GetBucket_def rbind_Inr_iff bucket_typed_def)
qed (erule (1) index_typed_ops index_typed_deletes index_typed_uploads | erule (2) index_typed_meta | erule (1) index_typed_uploads, assumption | simp; fail)+

text \<open>C9.
  The values the source keeps in plain strings and integers are in their range in every state of the server:
  a bucket has a name the S3 rules admit (3 to 63 characters, lower case letters, digits, dots and dashes, a letter or
  digit at both ends and on both sides of every dot, not an IPv4 address), the versioning state is never set,
  enabled or suspended, the default encryption is none or AES256, a snapshot has an admissible label, and the
  parts of an upload have numbers from 1 to 10000.
\<close>

theorem server_types:
  assumes "server_reachable E s"
  shows "index_typed (srv_store s)"
  by (rule server_keeps [OF typed.bucket_property_axioms _ _ assms])
    (simp_all add: restores_def index_typed_def NewMemory_def)

section \<open>Tenants\<close>

text \<open>
  The buckets that are not the tenant's, and what they consist of: the bucket with its settings, objects and
  snapshots, and the uploads under way in it.
\<close>

definition foreign :: "Memory \<Rightarrow> string \<Rightarrow> string \<Rightarrow> bool" where
  "foreign m t n = (case GetBucket m n of Inl _ \<Rightarrow> False | Inr b \<Rightarrow> bkt_Owner b \<noteq> t)"

definition uploadsOf :: "Memory \<Rightarrow> string \<Rightarrow> (string \<times> memUpload) set" where
  "uploadsOf m n = {(uid, u). gm_get (mem_uploads m) uid = Some u \<and> up_Bucket (mu_meta u) = n}"

definition untouched :: "string \<Rightarrow> Memory \<Rightarrow> Memory \<Rightarrow> bool" where
  "untouched t m m' \<longleftrightarrow> (\<forall>n. foreign m t n \<longrightarrow> getBucket m' n = getBucket m n \<and> uploadsOf m' n = uploadsOf m n)"

definition stored_by_name :: "Memory \<Rightarrow> bool" where
  "stored_by_name m \<longleftrightarrow>
     (\<forall>n b. gm_get (mem_buckets m) n = Some b \<longrightarrow> bkt_Name (mb_meta b) = n) \<and>
     (\<forall>uid u. gm_get (mem_uploads m) uid = Some u \<longrightarrow> up_UploadID (mu_meta u) = uid)"

definition framed :: "string \<Rightarrow> Memory \<Rightarrow> Memory \<Rightarrow> bool" where
  "framed t m m' \<longleftrightarrow> stored_by_name m' \<and> untouched t m m'"

definition ownUploads :: "string \<Rightarrow> Memory \<Rightarrow> string set" where
  "ownUploads t m = {uid. \<forall>n. foreign m t n \<longrightarrow> uid \<notin> fst ` uploadsOf m n}"

lemma framed_bucket:
  assumes "framed t m0 m" "\<not> foreign m0 t n" "bkt_Name (mb_meta b) = n"
  shows "framed t m0 (putBucket m n b)"
proof -
  have "uploadsOf (putBucket m n b) k = uploadsOf m k" for k by (simp add: uploadsOf_def putBucket_def)
  with assms show ?thesis by (auto simp: framed_def untouched_def stored_by_name_def putBucket_def getBucket_def)
qed

lemma framed_del:
  assumes "framed t m0 m" "\<not> foreign m0 t n"
  shows "framed t m0 (m\<lparr>mem_buckets := gm_del n (mem_buckets m)\<rparr>)"
proof -
  have "uploadsOf (m\<lparr>mem_buckets := gm_del n (mem_buckets m)\<rparr>) k = uploadsOf m k" for k by (simp add: uploadsOf_def)
  with assms show ?thesis by (auto simp: framed_def untouched_def stored_by_name_def getBucket_def)
qed

lemma framed_uploads:
  assumes "framed t m0 m" "\<And>n. foreign m0 t n \<Longrightarrow> uploadsOf (m\<lparr>mem_uploads := us\<rparr>) n = uploadsOf m n"
    and "\<And>uid u. gm_get us uid = Some u \<Longrightarrow> up_UploadID (mu_meta u) = uid"
  shows "framed t m0 (m\<lparr>mem_uploads := us\<rparr>)"
  using assms by (auto simp: framed_def untouched_def stored_by_name_def getBucket_def)

lemma framed_own:
  assumes "framed t m0 m" "uid \<in> ownUploads t m0" "gm_get (mem_uploads m) uid = Some u"
  shows "\<not> foreign m0 t (up_Bucket (mu_meta u))"
proof
  assume f: "foreign m0 t (up_Bucket (mu_meta u))"
  with assms(1) have "uploadsOf m (up_Bucket (mu_meta u)) = uploadsOf m0 (up_Bucket (mu_meta u))"
    by (simp add: framed_def untouched_def)
  moreover have "(uid, u) \<in> uploadsOf m (up_Bucket (mu_meta u))" using assms(3) by (simp add: uploadsOf_def)
  ultimately show False using assms(2) f by (force simp: ownUploads_def)
qed

lemma framed_put_upload:
  assumes "framed t m0 m" "uid \<in> ownUploads t m0" "up_UploadID (mu_meta u) = uid" "\<not> foreign m0 t (up_Bucket (mu_meta u))"
  shows "framed t m0 (m\<lparr>mem_uploads := gm_put uid u (mem_uploads m)\<rparr>)"
proof (rule framed_uploads [OF assms(1)])
  fix n assume n: "foreign m0 t n"
  then show "uploadsOf (m\<lparr>mem_uploads := gm_put uid u (mem_uploads m)\<rparr>) n = uploadsOf m n"
    using assms(4) framed_own [OF assms(1,2)] by (auto simp: uploadsOf_def split: if_splits)
qed (use assms in \<open>auto simp: framed_def stored_by_name_def split: if_splits\<close>)

lemma framed_del_upload:
  assumes "framed t m0 m" "uid \<in> ownUploads t m0"
  shows "framed t m0 (m\<lparr>mem_uploads := gm_del uid (mem_uploads m)\<rparr>)"
proof (rule framed_uploads [OF assms(1)])
  fix n assume n: "foreign m0 t n"
  then show "uploadsOf (m\<lparr>mem_uploads := gm_del uid (mem_uploads m)\<rparr>) n = uploadsOf m n"
    using framed_own [OF assms(1,2)] by (auto simp: uploadsOf_def split: if_splits)
qed (use assms in \<open>auto simp: framed_def stored_by_name_def split: if_splits\<close>)

text \<open>The operations that rewrite one bucket and leave its name.\<close>

definition rebuilds :: "Memory \<Rightarrow> string \<Rightarrow> Memory \<Rightarrow> bool" where
  "rebuilds m n m' \<longleftrightarrow> (\<exists>b b'. getBucket m n = Inr b \<and> bkt_Name (mb_meta b') = bkt_Name (mb_meta b) \<and> m' = putBucket m n b')"

lemma rebuildsI: "getBucket m n = Inr b \<Longrightarrow> bkt_Name (mb_meta b') = bkt_Name (mb_meta b) \<Longrightarrow> rebuilds m n (putBucket m n b')"
  by (auto simp: rebuilds_def)

lemma rebuilds_ops:
  "setMeta m n f = Inr m' \<Longrightarrow> (\<And>b. bkt_Name (f b) = bkt_Name b) \<Longrightarrow> rebuilds m n m'"
  "PutObject m ob cond = Inr m' \<Longrightarrow> rebuilds m (obj_Bucket ob) m'"
  "DeleteObject m n k = Inr m' \<Longrightarrow> rebuilds m n m'"
  "SetObjectTags m n k v js = Inr m' \<Longrightarrow> rebuilds m n m'"
  "PutSnapshot m now sn = Inr m' \<Longrightarrow> rebuilds m (snap_Bucket sn) m'"
  "RestoreBucket m n objects rt seq = Inr m' \<Longrightarrow> rebuilds m n m'"
  by (auto simp: setMeta_def PutObject_def DeleteObject_def SetObjectTags_def PutSnapshot_def RestoreBucket_def
      rbind_Inr_iff Let_def split: if_splits option.splits intro!: rebuildsI)

lemma rebuilds_DeleteVersion: "DeleteVersion m n k v = Inr (old, m') \<Longrightarrow> rebuilds m n m'"
  by (auto simp: DeleteVersion_def rbind_Inr_iff Let_def split: option.splits intro!: rebuildsI)

lemma framed_got: "framed t m0 m \<Longrightarrow> getBucket m n = Inr b \<Longrightarrow> bkt_Name (mb_meta b) = n"
  by (simp add: framed_def stored_by_name_def getBucket_Inr_iff)

lemma framed_rebuilds: "framed t m0 m \<Longrightarrow> \<not> foreign m0 t n \<Longrightarrow> rebuilds m n m' \<Longrightarrow> framed t m0 m'"
  using framed_got by (auto simp: rebuilds_def intro!: framed_bucket)

lemma framed_owns:
  assumes "framed t m0 m" "\<not> foreign m0 t n" "gm_get (mem_uploads m) uid = Some u" "up_Bucket (mu_meta u) = n"
  shows "uid \<in> ownUploads t m0"
proof -
  have "uid \<notin> fst ` uploadsOf m0 k" if "foreign m0 t k" for k
  proof
    assume "uid \<in> fst ` uploadsOf m0 k"
    moreover have "uploadsOf m k = uploadsOf m0 k" using assms(1) that by (simp add: framed_def untouched_def)
    ultimately obtain w where "(uid, w) \<in> uploadsOf m k" by auto
    with assms(3,4) have "k = n" by (auto simp: uploadsOf_def)
    with that assms(2) show False by simp
  qed
  then show ?thesis by (simp add: ownUploads_def)
qed

text \<open>The contract of a bucket of the tenant, or of a name that is free.\<close>

lemma framed_property:
  assumes own: "\<not> foreign m0 t n"
  shows "bucket_property (framed t m0) n (ownUploads t m0) (\<lambda>_. True)"
proof (unfold_locales, goal_cases)
  case (1 m b now m')
  then show ?case
    using framed_bucket [OF _ own] by (auto simp: fresh_bucket_def CreateBucket_def Let_def split: option.splits)
next
  case (3 m m')
  then show ?case using framed_del [OF _ own] by (auto simp: DeleteBucket_def rbind_Inr_iff split: if_splits)
next
  case (10 m b)
  then show ?case using framed_got by (auto simp: GetBucket_def rbind_Inr_iff)
next
  case (11 m k uid u)
  then obtain w where w: "gm_get (mem_uploads m) uid = Some w" "u = mu_meta w" "up_Bucket u = n"
    by (auto simp: GetMultipartUpload_def split: option.splits if_splits)
  then have "up_UploadID u = uid" using 11 by (simp add: framed_def stored_by_name_def)
  with w show ?case using framed_owns [OF 11(1) own] by simp
next
  case (12 m u now m')
  then show ?case
    using own framed_put_upload [OF 12(1,3)] by (auto simp: CreateMultipartUpload_def rbind_Inr_iff Let_def split: if_splits)
next
  case (13 m uid p m')
  then obtain u where u: "gm_get (mem_uploads m) uid = Some u"
    and m': "m' = m\<lparr>mem_uploads := gm_put uid (u\<lparr>mu_parts := gm_put (part_PartNumber p) p (mu_parts u)\<rparr>) (mem_uploads m)\<rparr>"
    by (auto simp: PutPart_def split: option.splits)
  have "up_UploadID (mu_meta u) = uid" using 13(1) u by (simp add: framed_def stored_by_name_def)
  then show ?case unfolding m' using framed_own [OF 13(1,2) u] by (intro framed_put_upload [OF 13(1,2)]) simp_all
next
  case (14 m uid m')
  then show ?case using framed_del_upload [OF 14(1,2)] by (auto simp: DeleteMultipartUpload_def split: option.splits)
next
  case (2 m f m')
  then show ?case using framed_rebuilds [OF 2(1) own] rebuilds_ops(1) [of m n f m'] by (simp add: meta_update_def)
qed (metis framed_rebuilds own rebuilds_ops rebuilds_DeleteVersion)+

text \<open>Nobody creates a bucket in the place of an existing one.\<close>

lemma framed_create: "bucket_creation (framed t m0) n"
proof (unfold_locales, goal_cases)
  case (1 m b now m')
  show ?case
  proof (cases "foreign m0 t n")
    case True
    with 1 have "getBucket m n = getBucket m0 n" by (simp add: framed_def untouched_def)
    with True obtain x where "gm_get (mem_buckets m) n = Some x"
      by (auto simp: foreign_def GetBucket_def getBucket_def rbind_def split: option.splits)
    with 1 show ?thesis by (simp add: CreateBucket_def fresh_bucket_def)
  next
    case False
    with 1 show ?thesis using framed_property bucket_property.axioms(1) bucket_creation.create by blast
  qed
qed

lemma authorize_denies:
  assumes "foreign m0 t n" "ca_id c = Some ident" "id_Tenant ident = t" "t \<noteq> []"
  shows "keeps (framed t m0) (hthen (authorizeBucket c n) h)"
  unfolding keeps_def
proof (intro allI impI)
  fix s :: Srv assume s: "framed t m0 (srv_store s)"
  with assms(1) have "getBucket (srv_store s) n = getBucket m0 n" by (simp add: framed_def untouched_def)
  then obtain b where "GetBucket (srv_store s) n = Inr b" "bkt_Owner b \<noteq> t"
    using assms(1) by (auto simp: foreign_def GetBucket_def split: sum.splits)
  then show "framed t m0 (srv_store (snd (hthen (authorizeBucket c n) h s)))"
    using s assms(2-4)
    by (simp add: authorizeBucket_def hthen_def hbind_def hindex_def hcheck_def herr_def Identity_Root_def)
qed

lemma hthen_hret: "hthen (hret x) h = h"
  by (rule ext) (simp add: hthen_def hbind_def hret_def)

lemma tenant_dispatch:
  assumes "ca_id c = Some ident" "id_Tenant ident = t" "t \<noteq> []"
  shows "keeps (framed t m0) (dispatchBucket E c n)"
    and "draws E (ownUploads t m0) \<Longrightarrow> keeps (framed t m0) (dispatchObject E c n key)"
proof -
  note own = framed_property [THEN bucket_property.dispatchBucket_keeps] framed_property [THEN bucket_property.dispatchObject_keeps]
    and denied = authorize_denies [OF _ assms]
  have new: "dispatchBucketPut E c n = handleCreateBucket E c n" if "ca_query c = []"
    using that by (simp add: dispatchBucketPut_def Values_Has_def)
  have "keeps (framed t m0) (dispatchBucket E c n)" if n: "foreign m0 t n"
  proof (cases "req_Method (ca_req c) = ''PUT'' \<and> ca_query c = []")
    case True
    then have "dispatchBucket E c n = handleCreateBucket E c n" by (simp add: dispatchBucket_def new hthen_hret)
    then show ?thesis by (simp add: bucket_creation.create_keeps [OF framed_create])
  next
    case False
    show ?thesis unfolding dispatchBucket_def Let_def if_not_P [OF False] using n by (rule denied)
  qed
  then show "keeps (framed t m0) (dispatchBucket E c n)"
    using own(1) by (cases "foreign m0 t n") (simp_all add: restores_def)
  show "keeps (framed t m0) (dispatchObject E c n key)" if "draws E (ownUploads t m0)"
  proof (cases "foreign m0 t n")
    case True
    then show ?thesis unfolding dispatchObject_def Let_def by (rule denied)
  qed (rule own(2) [OF _ that])
qed

text \<open>C4.
  Tenants are isolated: a request that authenticates only as the tenant \<open>t\<close> leaves every bucket
  of another owner as it was, its settings, objects, versions, snapshots and uploads under way, whatever the request
  asks for and however it ends. It relies on the upload ids the server draws to be new.
\<close>

theorem tenant_isolation:
  assumes "memory_wf (srv_store s)" and "t \<noteq> []" and "\<And>ident. verified E c ident \<Longrightarrow> id_Tenant ident = t"
    and "\<And>k. gm_get (mem_uploads (srv_store s)) (hex_EncodeToString (map (env_random E k) [0..<16])) = None"
  shows "untouched t (srv_store s) (srv_store (snd (ServeHTTP E c s)))"
proof -
  let ?m = "srv_store s"
  have "stored_by_name ?m"
    using assms(1) by (auto simp: stored_by_name_def memory_wf_def bucket_wf_def upload_wf_def dest: gm_allD)
  then have "framed t ?m ?m" by (simp add: framed_def untouched_def)
  moreover have "draws E (ownUploads t ?m)"
    using assms(4) by (auto simp: draws_def ownUploads_def uploadsOf_def)
  ultimately have "framed t ?m (srv_store (snd (ServeHTTP E c s)))"
    using assms(2,3) by (intro ServeHTTP_keeps [where P = "framed t ?m"] serveS3_keeps tenant_dispatch) simp_all
  then show ?thesis by (simp add: framed_def)
qed

section \<open>A server for the examples\<close>

text \<open>
  The node and the manifest libraries are those of the commit examples; the digests are the text itself.
\<close>

definition demoConfig :: Config where
  "demoConfig = \<lparr>cfg_BatchID = ''b1'', cfg_Region = ''us-east-1'', cfg_AccessKey = [], cfg_SecretKey = [], cfg_CredentialsFile = [],
     cfg_RedundancyLevel = 0, cfg_Encrypt = False, cfg_Ack = ''fast'', cfg_Domain = [], cfg_FetchStrategy = []\<rparr>"

definition demoEnv :: Env where
  "demoEnv = \<lparr>env_cfg = demoConfig, env_bee = demoNode, env_lib = demoLib, env_verifier = demoVerifier, env_crypto = demoCrypto,
     env_md5 = (\<lambda>x. x), env_checksum = (\<lambda>alg x. x), env_clock = (\<lambda>_. demoNow), env_random = (\<lambda>_ _. CHR ''x''),
     env_reads = (\<lambda>_. 512), env_algs = [], env_chunkErr = (\<lambda>_. ''chunk''), env_ParseTime = (\<lambda>_. None),
     env_encTags = (\<lambda>_. Inr ''tags''), env_decTags = (\<lambda>_. []), env_encCors = (\<lambda>_. Inr ''cors''), env_decCors = (\<lambda>_. Inr []),
     env_xmlTagging = (\<lambda>_. None), env_xmlCors = (\<lambda>_. None), env_xmlSSE = (\<lambda>_. None), env_xmlVersioning = (\<lambda>_. None),
     env_xmlDelete = (\<lambda>_. None), env_xmlComplete = (\<lambda>_. None), env_metrics = [], env_jsonGrants = (\<lambda>_. None)\<rparr>"

definition demoSrv :: "Memory \<Rightarrow> Srv" where
  "demoSrv m = \<lparr>srv_store = m, srv_stamps = [], srv_commits = None, srv_actPub = [], srv_header = [], srv_tick = 0\<rparr>"

definition demoCall :: "Request \<Rightarrow> Call" where
  "demoCall r = \<lparr>ca_req = r, ca_body = ''hello'', ca_bodyErr = [], ca_TLS = False, ca_id = None\<rparr>"

text \<open>A commit names the keys and versions that its document names.\<close>

lemma openObject_row: "openObject ag i w = Inr (ob, x) \<Longrightarrow> obj_Key ob = wo_Key w \<and> obj_VersionID ob = wo_VersionID w"
  by (auto simp: openObject_def rbind_Inr_iff split: prod.splits)

lemma open_rows:
  "mapM_result (openObject ag i) ws = Inr obs \<Longrightarrow>
     map (\<lambda>ob. (obj_Key ob, obj_VersionID ob)) (map fst obs) = map (\<lambda>w. (wo_Key w, wo_VersionID w)) ws"
  by (induction ws arbitrary: obs) (auto simp: rbind_Inr_iff dest!: openObject_row)

lemma GetCommit_opened:
  assumes "GetCommit lib ls rt i = Inr cm"
  shows "\<exists>data w obs. ml_decCommit lib data = Inr w \<and> mapM_result (openObject (ml_age lib) i) (wc_Objects w) = Inr obs \<and>
    cm_Objects cm = map fst obs"
proof -
  from assms obtain data w where w: "liftErr CommitError (ml_decCommit lib data) = Inr w"
    and "rbind (liftErr RecoveryError (mapM_result (openObject (ml_age lib) i) (wc_Objects w))) (\<lambda>opened.
      Inr \<lparr>cm_Version = wc_Version w, cm_Bucket = wc_Bucket w, cm_Seq = wc_Seq w, cm_Parent = wc_Parent w,
           cm_Timestamp = wc_Timestamp w, cm_Objects = map fst opened, cm_sealed = int (length (filter snd opened))\<rparr>) = Inr cm"
    unfolding GetCommit_def by (auto simp only: rbind_Inr_iff split: option.splits if_splits)
  then obtain obs where "liftErr RecoveryError (mapM_result (openObject (ml_age lib) i) (wc_Objects w)) = Inr obs"
    and "cm_Objects cm = map fst obs"
    unfolding rbind_Inr_iff by auto
  with w show ?thesis by (auto simp: liftErr_def split: sum.splits)
qed

lemma demo_wire_rows: "map (\<lambda>w. (wo_Key w, wo_VersionID w)) (wc_Objects demoWire) = [(''a'', ''v2''), (''s'', ''v9'')]"
proof -
  obtain ws where ws: "mapM_result (seal demoAge ''age1'') demoObjects = Inr ws"
    using demo_seal by (cases "mapM_result (seal demoAge ''age1'') demoObjects") auto
  have "map (\<lambda>w. (wo_Key w, wo_VersionID w)) ws = map (\<lambda>ob. (obj_Key ob, obj_VersionID ob)) obs"
    if "mapM_result (seal demoAge ''age1'') obs = Inr ws" for obs ws
    using that by (induction obs arbitrary: ws) (auto simp: rbind_Inr_iff seal_def split: prod.splits)
  from this [OF ws] have "map (\<lambda>w. (wo_Key w, wo_VersionID w)) ws = [(''a'', ''v2''), (''s'', ''v9'')]"
    by (simp add: demoObjects_eq demoEncrypted_def demoObject_def)
  moreover have "wc_Objects demoWire = ws" by (simp add: demoWire_def ws okOr_def wireOf_def)
  ultimately show ?thesis by simp
qed

lemma demo_restores: "restores demoEnv (restorable n)"
  unfolding restores_def
proof (intro allI impI)
  fix rt ident cm assume "GetCommit (env_lib demoEnv) (restoreSaver demoEnv) rt ident = Inr cm"
  from GetCommit_opened [OF this] obtain obs where
    "mapM_result (openObject demoAge ident) (wc_Objects demoWire) = Inr obs" and cm: "cm_Objects cm = map fst obs"
    by (auto simp: demoEnv_def demoLib_def)
  then have rows: "map (\<lambda>ob. (obj_Key ob, obj_VersionID ob)) (cm_Objects cm) = [(''a'', ''v2''), (''s'', ''v9'')]"
    using open_rows [of demoAge ident "wc_Objects demoWire" obs] demo_wire_rows cm by simp
  have "map obj_Key (cm_Objects cm) = map fst (map (\<lambda>ob. (obj_Key ob, obj_VersionID ob)) (cm_Objects cm))" by (simp add: comp_def)
  also have "\<dots> = [''a'', ''s'']" unfolding rows by simp
  finally show "restorable n (cm_Objects cm)" by (intro restored_distinct) simp
qed

theorem server_invariant_witness:
  "memory_wf (srv_store (snd (ServeHTTP demoEnv (demoCall demoSigned) (demoSrv NewMemory))))"
proof (rule server_invariant [OF demo_restores])
  have "server_reachable demoEnv (demoSrv NewMemory)" by (rule server_reachable.start) (simp add: demoSrv_def)
  then show "server_reachable demoEnv (snd (ServeHTTP demoEnv (demoCall demoSigned) (demoSrv NewMemory)))"
    by (rule server_reachable.step) (rule server_step.request)
qed

text \<open>An identity is that of a registered key, unless the server admits anonymous requests.\<close>

lemma verified_tenant:
  assumes "verified E c ident" "\<not> ver_AllowAnonymous (env_verifier E)"
  shows "\<exists>cred. Credentials_Lookup (ver_Creds (env_verifier E)) (id_AccessKey ident) = Some cred \<and> id_Tenant ident = cred_Tenant cred"
proof -
  obtain now where v: "Verify (env_crypto E) (env_ParseTime E) (env_verifier E) now (ca_req c) = Inr ident"
    using assms(1) by (auto simp: verified_def)
  show ?thesis
  proof (cases "Header_Get (ca_header c) ''Authorization'' = []")
    case True
    with v assms(2) have "verifyPresigned (env_crypto E) (env_verifier E) now (ca_req c) = Inr ident"
      by (simp add: Verify_def Let_def split: if_splits)
    from verifyPresigned_accepts [OF this] show ?thesis by (auto simp: signedUnder_def)
  next
    case False
    from Verify_header_accepts [OF v False] show ?thesis by (auto simp: signedUnder_def)
  qed
qed

definition demoBob :: Memory where
  "demoBob = okOr NewMemory (CreateBucket NewMemory 5 (demoBucket\<lparr>bkt_Name := ''b'', bkt_Owner := ''bob''\<rparr>))"

lemma demoBob_step: "CreateBucket NewMemory 5 (demoBucket\<lparr>bkt_Name := ''b'', bkt_Owner := ''bob''\<rparr>) = Inr demoBob"
  by (simp add: demoBob_def okOr_def CreateBucket_def NewMemory_def)

lemma demo_alice: "verified demoEnv c ident \<Longrightarrow> id_Tenant ident = ''alice''"
  using verified_tenant [of demoEnv c ident]
  by (auto simp: demoEnv_def demoVerifier_def Credentials_Lookup_def split: if_splits)

theorem tenant_isolation_witness:
  "getBucket (srv_store (snd (ServeHTTP demoEnv (demoCall demoSigned) (demoSrv demoBob)))) ''b'' = getBucket demoBob ''b''"
proof -
  have "untouched ''alice'' (srv_store (demoSrv demoBob)) (srv_store (snd (ServeHTTP demoEnv (demoCall demoSigned) (demoSrv demoBob))))"
  proof (rule tenant_isolation)
    show "memory_wf (srv_store (demoSrv demoBob))"
      using CreateBucket_wf [OF memory_wf_NewMemory demoBob_step] by (simp add: demoSrv_def)
    have "mem_uploads demoBob = []" by code_simp
    then show "gm_get (mem_uploads (srv_store (demoSrv demoBob))) (hex_EncodeToString (map (env_random demoEnv k) [0..<16])) = None" for k
      by (simp add: demoSrv_def)
  qed (simp_all add: demo_alice)
  moreover have "foreign demoBob ''alice'' ''b''" by code_simp
  ultimately show ?thesis by (simp add: untouched_def demoSrv_def)
qed

theorem server_types_witness:
  "index_typed (srv_store (snd (ServeHTTP demoEnv (demoCall demoSigned) (demoSrv NewMemory))))"
proof (rule server_types)
  have "server_reachable demoEnv (demoSrv NewMemory)" by (rule server_reachable.start) (simp add: demoSrv_def)
  then show "server_reachable demoEnv (snd (ServeHTTP demoEnv (demoCall demoSigned) (demoSrv NewMemory)))"
    by (rule server_reachable.step) (rule server_step.request)
qed

section \<open>Access to foreign buckets\<close>

text \<open>Handlers that always go on, and those that end with a given error, from states whose index is \<open>m\<close>.\<close>

definition proceeds :: "'a handler \<Rightarrow> bool" where
  "proceeds h \<longleftrightarrow> (\<forall>s. \<exists>x s'. h s = (Inr x, s') \<and> srv_store s' = srv_store s)"

definition fails :: "Memory \<Rightarrow> 'a handler \<Rightarrow> apiError \<Rightarrow> bool" where
  "fails m h e \<longleftrightarrow> (\<forall>s. srv_store s = m \<longrightarrow> (\<exists>s'. h s = (Inl e, s') \<and> srv_store s' = m))"

lemma proceeds_rules:
  "proceeds (hret x)" "proceeds (hset k v)" "proceeds (headerAdd k v)" "proceeds (hindex g)" "proceeds (hrandom E n)"
  by (simp_all add: proceeds_def hret_def hset_def headerAdd_def hindex_def hrandom_def)

lemma proceeds_bind: "proceeds h \<Longrightarrow> (\<And>x. proceeds (f x)) \<Longrightarrow> proceeds (hbind h f)"
  unfolding proceeds_def hbind_def by (rule allI) (erule_tac x = s in allE, clarsimp, metis)

lemma proceeds_then: "proceeds h \<Longrightarrow> proceeds g \<Longrightarrow> proceeds (hthen h g)"
  unfolding hthen_def by (rule proceeds_bind)

lemma proceeds_when: "proceeds h \<Longrightarrow> proceeds (hwhen b h)"
  by (simp add: hwhen_def proceeds_rules)

lemma fails_bind:
  "fails m h e \<Longrightarrow> fails m (hbind h f) e"
  "proceeds h \<Longrightarrow> (\<And>x. fails m (g x) e) \<Longrightarrow> fails m (hbind h g) e"
  unfolding fails_def proceeds_def hbind_def by (fastforce, metis (no_types, lifting) old.prod.case old.sum.simps(6))

lemma fails_then: "fails m h e \<Longrightarrow> fails m (hthen h g) e" "proceeds u \<Longrightarrow> fails m g e \<Longrightarrow> fails m (hthen u g) e"
  unfolding hthen_def by (rule fails_bind; assumption)+

lemma decorateCORS_proceeds: "proceeds (decorateCORS E c bucket)"
proof -
  have "proceeds (bucketCORSRules E bucket)"
    unfolding bucketCORSRules_def by (auto intro!: proceeds_bind proceeds_rules split: sum.split)
  moreover have "proceeds (applyCORS rule pattern orig)" for rule pattern orig
    unfolding applyCORS_def Let_def by (intro proceeds_then proceeds_when proceeds_rules)
  ultimately show ?thesis
    unfolding decorateCORS_def Let_def
    by (intro proceeds_when proceeds_bind) (auto intro: proceeds_rules split: option.split)
qed

lemma authorize_fails:
  assumes "foreign m t n" "ca_id c = Some ident" "id_Tenant ident = t" "t \<noteq> []"
  shows "fails m (authorizeBucket c n) errAccessDenied"
proof -
  obtain b where "GetBucket m n = Inr b" "bkt_Owner b \<noteq> t" using assms(1) by (auto simp: foreign_def split: sum.splits)
  with assms(2-4) show ?thesis
    by (simp add: fails_def authorizeBucket_def hbind_def hindex_def hcheck_def herr_def Identity_Root_def)
qed

lemma dispatch_fails:
  assumes "foreign m t n" "ca_id c = Some ident" "id_Tenant ident = t" "t \<noteq> []"
    and "key = [] \<Longrightarrow> req_Method (ca_req c) \<noteq> ''PUT'' \<or> ca_query c \<noteq> []"
  shows "fails m (if key = [] then dispatchBucket E c n else dispatchObject E c n key) errAccessDenied"
proof (cases "key = []")
  case True
  with assms(5) have "\<not> (req_Method (ca_req c) = ''PUT'' \<and> ca_query c = [])" by blast
  then show ?thesis
    unfolding if_P [OF True] dispatchBucket_def Let_def if_not_P [OF \<open>\<not> (_ \<and> _)\<close>] by (intro fails_then(1) authorize_fails [OF assms(1-4)])
next
  case False
  then show ?thesis
    unfolding if_not_P [OF False] dispatchObject_def Let_def by (intro fails_then(1) authorize_fails [OF assms(1-4)])
qed

text \<open>The request authenticates as a tenant at every reading of the clock.\<close>

definition authenticates :: "Env \<Rightarrow> Call \<Rightarrow> string \<Rightarrow> bool" where
  "authenticates E c t \<longleftrightarrow>
     (\<forall>k. \<exists>ident. Verify (env_crypto E) (env_ParseTime E) (env_verifier E) (env_clock E k) (ca_req c) = Inr ident \<and> id_Tenant ident = t)"

lemma authenticated_fails:
  assumes "authenticates E c t" "\<And>ident. id_Tenant ident = t \<Longrightarrow> fails m (f (c\<lparr>ca_id := Some ident\<rparr>)) e"
  shows "fails m (hbind (authenticated E c) f) e"
  unfolding fails_def
proof (intro allI impI)
  fix s :: Srv assume s: "srv_store s = m"
  obtain ident where v: "Verify (env_crypto E) (env_ParseTime E) (env_verifier E) (env_clock E (srv_tick s)) (ca_req c) = Inr ident"
    and t: "id_Tenant ident = t" using assms(1) by (auto simp: authenticates_def)
  have "hbind (authenticated E c) f s = f (c\<lparr>ca_id := Some ident\<rparr>) (s\<lparr>srv_tick := Suc (srv_tick s)\<rparr>)"
    by (simp add: authenticated_def hbind_def hnow_def hret_def v)
  then show "\<exists>s'. hbind (authenticated E c) f s = (Inl e, s') \<and> srv_store s' = m"
    using assms(2) [OF t] s by (simp add: fails_def)
qed

text \<open>C7.
  A foreign bucket is closed to a tenant: a request that authenticates as a tenant and is addressed to a
  bucket of another owner (or to a key in it) is answered with AccessDenied, whatever operation it asks for,
  except for the creation of the bucket; the error is written before any handler runs, and the index stays as it was.
\<close>

theorem foreign_access_denied:
  assumes "authenticates E c t" "t \<noteq> []" and "resolveTarget E (ca_req c) = (n, key)" "foreign (srv_store s) t n" "n \<noteq> []"
    and "req_Path (ca_req c) \<notin> {''/_s3warm/health'', ''/_s3warm/ready'', ''/_s3warm/metrics''}" "req_Method (ca_req c) \<noteq> ''OPTIONS''"
    and "key = [] \<Longrightarrow> req_Method (ca_req c) \<noteq> ''PUT'' \<or> ca_query c \<noteq> []"
  shows "\<exists>s'. ServeHTTP E c s = (writeError c errAccessDenied s', s') \<and> srv_store s' = srv_store s"
proof -
  let ?m = "srv_store s"
  have "fails ?m (if key = [] then dispatchBucket E (c\<lparr>ca_id := Some ident\<rparr>) n
        else dispatchObject E (c\<lparr>ca_id := Some ident\<rparr>) n key) errAccessDenied" if "id_Tenant ident = t" for ident
    by (rule dispatch_fails [OF assms(4) _ that assms(2)]) (use assms(8) in auto)
  then have "fails ?m (serveS3 E c) errAccessDenied"
    unfolding serveS3_def assms(3) prod.case if_not_P [OF assms(5)]
    by (intro fails_then(2) decorateCORS_proceeds authenticated_fails [OF assms(1)])
  then have "fails ?m (serveRequest E c) errAccessDenied"
    using assms(6,7) unfolding serveRequest_def by simp
  then have "fails ?m (hbind (newRequestID E) (\<lambda>rid. hthen (hset ''x-amz-request-id'' rid) (serveRequest E c))) errAccessDenied"
    unfolding newRequestID_def by (intro fails_bind(2) fails_then(2) proceeds_bind proceeds_rules)
  moreover have "srv_store (s\<lparr>srv_header := []\<rparr>) = ?m" by simp
  ultimately obtain s' where
    "hbind (newRequestID E) (\<lambda>rid. hthen (hset ''x-amz-request-id'' rid) (serveRequest E c)) (s\<lparr>srv_header := []\<rparr>) = (Inl errAccessDenied, s')"
    "srv_store s' = ?m" unfolding fails_def by blast
  then show ?thesis by (simp add: ServeHTTP_def respond_def)
qed

theorem foreign_access_denied_witness:
  "\<exists>s'. ServeHTTP demoEnv (demoCall demoSigned) (demoSrv demoBob) = (writeError (demoCall demoSigned) errAccessDenied s', s') \<and>
     srv_store s' = demoBob"
proof -
  obtain i where i: "Verify demoCrypto (\<lambda>_. None) demoVerifier demoNow demoSigned = Inr i" "id_Tenant i = ''alice''"
    using Verify_signed [OF demo_key(1,2) _ _ _ _ _ _ _ demo_headers(1) demo_key(3,4) _ _ demo_headers(2) _ demo_headers(3),
      of "\<lambda>_. None"] by (auto simp: go_space_def)
  have "env_crypto demoEnv = demoCrypto" "env_ParseTime demoEnv = (\<lambda>_. None)" "env_verifier demoEnv = demoVerifier"
    "env_clock demoEnv k = demoNow" for k
    by (simp_all add: demoEnv_def)
  then have auth: "authenticates demoEnv (demoCall demoSigned) ''alice''"
    unfolding authenticates_def demoCall_def Call.simps by (metis i)
  have "ca_req (demoCall demoSigned) = demoSigned" "req_Path demoSigned = ''/b/k''" "cfg_Domain (env_cfg demoEnv) = []"
    by (simp_all add: demoCall_def demoEnv_def demoConfig_def demoSigned_def demoRequest_def)
  moreover have "strings_Cut (strings_TrimPrefix ''/b/k'' ''/'') ''/'' = (''b'', ''k'', True)" by code_simp
  ultimately have t: "resolveTarget demoEnv (ca_req (demoCall demoSigned)) = (''b'', ''k'')"
    by (simp only: resolveTarget_def Let_def simp_thms if_False prod.case)
  have f: "foreign demoBob ''alice'' ''b''" by code_simp
  have "req_Path (ca_req (demoCall demoSigned)) \<notin> {''/_s3warm/health'', ''/_s3warm/ready'', ''/_s3warm/metrics''}"
    "req_Method (ca_req (demoCall demoSigned)) \<noteq> ''OPTIONS''"
    by (simp_all add: demoCall_def demoSigned_def demoRequest_def)
  moreover have "srv_store (demoSrv demoBob) = demoBob" by (simp add: demoSrv_def)
  ultimately show ?thesis using foreign_access_denied [OF auth _ t, of "demoSrv demoBob"] f by simp
qed

end
