(* ===== verification/Handler_Props.thy ===== *)
theory Handler_Props
  imports Server_Props
begin

text \<open>
  Properties of single handlers and of requests in sequence: the rules of cross-origin requests, the credentials of a
  server, that every request is answered (the loops of the listings end), what a put leaves in the index and what a
  get then serves. The lemmas of the collection \<open>run_simps\<close> run a handler step by step, \<open>run_Inr\<close> takes a run
  that ended well apart, and \<open>yields\<close> and \<open>returns\<close> say what a handler returns when it does.
\<close>

section \<open>Cross-origin rules\<close>

text \<open>
  The reference reading of a pattern: its first star stands for any text; a pattern without a star is the origin itself.
\<close>

definition covers :: "string \<Rightarrow> string \<Rightarrow> bool" where
  "covers pattern orig \<longleftrightarrow> (if CHR ''*'' \<in> set pattern
     then \<exists>any. orig = takeWhile (\<lambda>c. c \<noteq> CHR ''*'') pattern @ any @ tl (dropWhile (\<lambda>c. c \<noteq> CHR ''*'') pattern)
     else orig = pattern)"

definition admits :: "corsRule \<Rightarrow> string \<Rightarrow> string \<Rightarrow> bool" where
  "admits rule orig mth \<longleftrightarrow>
     (\<exists>m \<in> set (cors_AllowedMethods rule). strings_EqualFold m mth) \<and> (\<exists>p \<in> set (cors_AllowedOrigins rule). covers p orig)"

lemma prefix_suffix_iff:
  "length pre + length suf \<le> length s \<and> HasPrefix s pre \<and> HasSuffix s suf \<longleftrightarrow> (\<exists>any. s = pre @ any @ suf)"
proof
  assume h: "length pre + length suf \<le> length s \<and> HasPrefix s pre \<and> HasSuffix s suf"
  then obtain t where t: "s = pre @ t" by (metis HasPrefix_def append_take_drop_id)
  with h have "HasSuffix t suf" "length suf \<le> length t" by (auto simp: HasSuffix_def)
  then have "t = take (length t - length suf) t @ suf" by (metis HasSuffix_def append_take_drop_id)
  with t show "\<exists>any. s = pre @ any @ suf" by metis
qed (auto simp: HasPrefix_def HasSuffix_def)

lemma strings_Index_star:
  "strings_Index p [c] = (if c \<in> set p then Some (length (takeWhile (\<lambda>x. x \<noteq> c) p)) else None)"
  by (induction p) (auto simp: HasPrefix_def)

lemma originMatches_covers: "originMatches pattern orig \<longleftrightarrow> covers pattern orig"
proof -
  let ?pre = "takeWhile (\<lambda>c. c \<noteq> CHR ''*'') pattern" and ?rest = "dropWhile (\<lambda>c. c \<noteq> CHR ''*'') pattern"
  have "take (length ?pre) pattern = ?pre" by (simp flip: takeWhile_eq_take)
  moreover have "drop (length ?pre + 1) pattern = tl ?rest" by (simp add: dropWhile_eq_drop tl_drop drop_Suc)
  ultimately show ?thesis
    by (auto simp: originMatches_def covers_def strings_Index_star prefix_suffix_iff Let_def)
qed

text \<open>C32.
  Cross-origin rules are matched as documented. The rule found for an origin and a method is the first
  of the bucket's rules that lists the method (in any case) and an origin pattern covering the origin, where a star stands
  for any text, the empty one included, and the pattern returned is one of that rule that covers the origin; no
  rule is found only when none admits the request.
\<close>

theorem cors_match_first:
  "case corsMatch rules orig mth of
     None \<Rightarrow> \<forall>r \<in> set rules. \<not> admits r orig mth
   | Some (rule, p) \<Rightarrow>
       (\<exists>before after. rules = before @ rule # after \<and> (\<forall>r \<in> set before. \<not> admits r orig mth) \<and> admits rule orig mth) \<and>
       p \<in> set (cors_AllowedOrigins rule) \<and> covers p orig"
proof (induction rules)
  case (Cons r rules)
  show ?case
  proof (cases "admits r orig mth")
    case True
    then obtain p where p: "List.find (\<lambda>p. covers p orig) (cors_AllowedOrigins r) = Some p"
      by (cases "List.find (\<lambda>p. covers p orig) (cors_AllowedOrigins r)") (auto simp: admits_def find_None_iff)
    with True have "corsMatch (r # rules) orig mth = Some (r, p)" by (simp add: admits_def originMatches_covers)
    moreover have "p \<in> set (cors_AllowedOrigins r)" "covers p orig" using p by (auto simp: find_Some_iff)
    moreover have "r # rules = [] @ r # rules" by simp
    ultimately show ?thesis using True by (simp only: option.case prod.case) fastforce
  next
    case False
    then have skip: "corsMatch (r # rules) orig mth = corsMatch rules orig mth"
      by (auto simp: admits_def originMatches_covers find_None_iff find_Some_iff split: option.split)
    show ?thesis
    proof (cases "corsMatch rules orig mth")
      case (Some x)
      with Cons.IH obtain rule p before after where x: "x = (rule, p)" "rules = before @ rule # after"
        "\<forall>r \<in> set before. \<not> admits r orig mth" "admits rule orig mth" "p \<in> set (cors_AllowedOrigins rule)" "covers p orig"
        by (cases x) auto
      then have "r # rules = (r # before) @ rule # after" "\<forall>r' \<in> set (r # before). \<not> admits r' orig mth" using False by auto
      with x Some skip show ?thesis by (simp only: option.case prod.case) blast
    qed (use Cons.IH False skip in simp)
  qed
qed simp

definition demoRule :: "string list \<Rightarrow> string list \<Rightarrow> corsRule" where
  "demoRule origins methods = \<lparr>cors_AllowedOrigins = origins, cors_AllowedMethods = methods, cors_AllowedHeaders = [], cors_ExposeHeaders = [],
     cors_MaxAgeSeconds = 0\<rparr>"

definition demoRules :: "corsRule list" where
  "demoRules = [demoRule [''*''] [''GET''], demoRule [''https://x.org'', ''https://*.org''] [''PUT'']]"

theorem cors_match_first_witness:
  "\<not> admits (demoRule [''*''] [''GET'']) ''https://a.org'' ''put'' \<and> covers ''https://*.org'' ''https://a.org''"
proof -
  have "corsMatch demoRules ''https://a.org'' ''put'' = Some (demoRule [''https://x.org'', ''https://*.org''] [''PUT''], ''https://*.org'')"
    by code_simp
  moreover have "demoRule [''*''] [''GET''] \<noteq> demoRule [''https://x.org'', ''https://*.org''] [''PUT'']" by (simp add: demoRule_def)
  ultimately show ?thesis
    using cors_match_first [of demoRules "''https://a.org''" "''put''"] by (auto simp: demoRules_def Cons_eq_append_conv)
qed

section \<open>Credentials\<close>

text \<open>A credentials file that adds no entry: absent, unreadable, empty, or bad from its first entry on.\<close>

definition addsNone :: "credentialsFileEntry list option \<Rightarrow> bool" where
  "addsNone file = (case file of Some (e # _) \<Rightarrow> ce_AccessKey e = [] \<or> ce_SecretKey e = [] | _ \<Rightarrow> True)"

lemma loadEntries_grows: "gm_get into k = Some v \<Longrightarrow> gm_get (fst (loadEntries es into)) k = Some v"
proof (induction es arbitrary: into)
  case (Cons e es)
  then have "gm_get into (ce_AccessKey e) = None \<Longrightarrow> k \<noteq> ce_AccessKey e" by auto
  with Cons show ?case by (cases "gm_get into (ce_AccessKey e)") simp_all
qed simp

lemma loadEntries_Nil_iff: "fst (loadEntries es into) = [] \<longleftrightarrow> into = [] \<and> addsNone (Some es)"
proof (cases into)
  case (Cons kv into')
  then have "gm_get (fst (loadEntries es into)) (fst kv) \<noteq> None" using loadEntries_grows [of into "fst kv" "snd kv" es] by auto
  with Cons show ?thesis by auto
next
  case Nil
  show ?thesis
  proof (cases "addsNone (Some es)")
    case False
    then obtain e es' where es: "es = e # es'" "ce_AccessKey e \<noteq> []" "ce_SecretKey e \<noteq> []" by (auto simp: addsNone_def split: list.splits)
    let ?v = "\<lparr>cred_Secret = ce_SecretKey e, cred_Tenant = (if strings_EqualFold (ce_Tenant e) ''root'' then [] else ce_Tenant e)\<rparr>"
    have "gm_get (fst (loadEntries es [])) (ce_AccessKey e) = Some ?v"
      using loadEntries_grows [of "[(ce_AccessKey e, ?v)]" "ce_AccessKey e" ?v es'] es by simp
    with Nil False show ?thesis by auto
  qed (use Nil in \<open>auto simp: addsNone_def split: list.splits\<close>)
qed

text \<open>C33.
  Who may use the server without a signature. A request with neither an Authorization header nor a
  presigned query is accepted, and then as root, exactly when no access key is configured and the credentials
  file adds no entry. That includes a credentials file that is configured but cannot be read or parsed, or whose first
  entry is incomplete: the error is only logged, and the server is open to everyone. With an access key
  configured, the key keeps its secret and its root identity whatever the file says.
\<close>

theorem anonymous_root_iff:
  assumes "Header_Get (req_Header r) ''Authorization'' = []" "Values_Get (req_Query r) ''X-Amz-Algorithm'' = []"
  shows "((\<exists>i. Verify cr ParseTime (newVerifier cfg readFile) now r = Inr i \<and> Identity_Root (Some i)) \<longleftrightarrow>
      cfg_AccessKey cfg = [] \<and> (cfg_CredentialsFile cfg = [] \<or> addsNone (readFile (cfg_CredentialsFile cfg)))) \<and>
    (cfg_AccessKey cfg \<noteq> [] \<longrightarrow> Credentials_Lookup (ver_Creds (newVerifier cfg readFile)) (cfg_AccessKey cfg) =
      Some \<lparr>cred_Secret = cfg_SecretKey cfg, cred_Tenant = []\<rparr>)"
proof -
  let ?v = "newVerifier cfg readFile"
  have "ver_AllowAnonymous ?v \<longleftrightarrow> cfg_AccessKey cfg = [] \<and> (cfg_CredentialsFile cfg = [] \<or> addsNone (readFile (cfg_CredentialsFile cfg)))"
    by (auto simp: newVerifier_def LoadCredentialsFile_def Let_def loadEntries_Nil_iff addsNone_def split: option.splits)
  moreover have "(\<exists>i. Verify cr ParseTime ?v now r = Inr i \<and> Identity_Root (Some i)) \<longleftrightarrow> ver_AllowAnonymous ?v"
    using assms by (auto simp: Verify_def Let_def Identity_Root_def)
  moreover have "Credentials_Lookup (ver_Creds ?v) (cfg_AccessKey cfg) = Some \<lparr>cred_Secret = cfg_SecretKey cfg, cred_Tenant = []\<rparr>"
    if "cfg_AccessKey cfg \<noteq> []"
    using that by (auto simp: newVerifier_def LoadCredentialsFile_def Credentials_Lookup_def Let_def loadEntries_grows split: option.split)
  ultimately show ?thesis by blast
qed

text \<open>A server whose credentials file is missing.\<close>

theorem anonymous_root_iff_witness:
  "\<exists>i. Verify demoCrypto (\<lambda>_. None) (newVerifier (demoConfig\<lparr>cfg_CredentialsFile := ''/etc/creds.json''\<rparr>) (\<lambda>_. None)) demoNow
     (demoRequest ''/b/k'' []) = Inr i \<and> Identity_Root (Some i)"
proof -
  have "Header_Get (req_Header (demoRequest ''/b/k'' [])) ''Authorization'' = []"
    "Values_Get (req_Query (demoRequest ''/b/k'' [])) ''X-Amz-Algorithm'' = []" by code_simp+
  from anonymous_root_iff [OF this, of demoCrypto "\<lambda>_. None" "demoConfig\<lparr>cfg_CredentialsFile := ''/etc/creds.json''\<rparr>" "\<lambda>_. None" demoNow]
  show ?thesis by (simp add: demoConfig_def addsNone_def)
qed

section \<open>Listings end\<close>

text \<open>The rows of a bucket a version listing has before it at given markers.\<close>

definition pendingRows :: "memBucket \<Rightarrow> string \<Rightarrow> string \<Rightarrow> string \<Rightarrow> Object list" where
  "pendingRows b p km vm = filter (\<lambda>v. (HasPrefix (obj_Key v) p \<and> km \<le> obj_Key v) \<and>
     \<not> (obj_Key v = km \<and> (vm = [] \<or> markerVSeq b km vm < 0 \<or> markerVSeq b km vm \<le> obj_VSeq v))) (versionRows b)"

text \<open>Continuing behind a row leaves fewer of them, whatever the markers were.\<close>

lemma pendingRows_shrink:
  assumes "bucket_wf n b" "v \<in> set (pendingRows b p km vm)"
  shows "set (pendingRows b p (obj_Key v) (obj_VersionID v)) \<subset> set (pendingRows b p km vm)"
proof -
  have v: "v \<in> set (versionRows b)" using assms(2) by (simp add: pendingRows_def)
  let ?m = "markerVSeq b (obj_Key v) (obj_VersionID v)"
  have m: "?m < 0 \<or> ?m = obj_VSeq v"
    using markerVSeq_row [OF assms(1) v] by (cases "obj_Key v = [] \<or> obj_VersionID v = []") (auto simp: markerVSeq_def)
  have "v \<notin> set (pendingRows b p (obj_Key v) (obj_VersionID v))" using m by (auto simp: pendingRows_def)
  moreover have "w \<in> set (pendingRows b p km vm)" if "w \<in> set (pendingRows b p (obj_Key v) (obj_VersionID v))" for w
    using that assms(2) m by (auto simp: pendingRows_def)
  ultimately show ?thesis using assms(2) by blast
qed

lemma versionsLoop_ends:
  assumes "memory_wf m" "getBucket m n = Inr b"
  shows "\<exists>st'. versionsLoop (ListVersions m n) p d enc km mk st = Some (Inr st')"
proof (induction "card (set (pendingRows b p (vs_curKey st) (vs_curVersion st)))" arbitrary: st rule: less_induct)
  case less
  have wf: "bucket_wf n b" using assms by (rule memory_wf_getBucket)
  let ?rows = "pendingRows b p (vs_curKey st) (vs_curVersion st)"
  define pg where "pg = take 1000 ?rows"
  have page: "ListVersions m n p (vs_curKey st) (vs_curVersion st) 1000 = Inr pg"
    unfolding ListVersions_eq [OF wf assms(2)] by (simp add: pg_def pendingRows_def emitUpTo_Nil)
  obtain stop st' where b: "versionsBatch p d enc km mk st pg = (stop, st')" by (metis prod.exhaust)
  show ?case
  proof (cases "stop \<or> length pg < 1000")
    case True
    then have "versionsLoop (ListVersions m n) p d enc km mk st = Some (Inr st')"
      by (subst versionsLoop.simps) (cases stop; simp add: page b scanPage_def)
    then show ?thesis by simp
  next
    case False
    then have ne: "pg \<noteq> []" by auto
    let ?v = "last pg"
    have v: "?v \<in> set ?rows" using last_in_set [OF ne] by (auto simp: pg_def dest: in_set_takeD)
    have "vs_curKey st' = obj_Key ?v" "vs_curVersion st' = obj_VersionID ?v"
      using versionsBatch_cursor [OF ne, of p d enc km mk st st'] b False by simp_all
    then have "card (set (pendingRows b p (vs_curKey st') (vs_curVersion st'))) < card (set ?rows)"
      using pendingRows_shrink [OF wf v] by (simp add: psubset_card_mono)
    then have "\<exists>st''. versionsLoop (ListVersions m n) p d enc km mk st' = Some (Inr st'')" by (rule less)
    moreover have "versionsLoop (ListVersions m n) p d enc km mk st = versionsLoop (ListVersions m n) p d enc km mk st'"
      using False by (subst versionsLoop.simps) (simp add: page b scanPage_def)
    ultimately show ?thesis by simp
  qed
qed

lemma handleListObjectVersions_ends: "memory_wf m \<Longrightarrow> handleListObjectVersions m r n \<noteq> None"
proof (cases "getBucket m n")
  case (Inr b)
  assume "memory_wf m"
  with Inr have "\<exists>st'. versionsLoop (ListVersions m n) p d enc km mk st = Some (Inr st')" for p d enc km mk st
    by (intro versionsLoop_ends)
  then show ?thesis
    by (auto simp: handleListObjectVersions_def Let_def split: sum.splits option.splits) (metis option.distinct(1))+
qed (simp add: handleListObjectVersions_def GetBucket_def Let_def)

lemma handleListObjects_ends: "memory_wf m \<Longrightarrow> handleListObjects m r n version \<noteq> None"
proof -
  assume wf: "memory_wf m"
  have "scanObjects (ListObjects m) n p d a mk \<noteq> None" if "parseMaxKeys q = Inr mk" "getBucket m n = Inr b" for p d a mk q b
  proof -
    have "0 \<le> mk" using that(1) by (auto simp: parseMaxKeys_def Let_def split: if_splits option.splits)
    moreover have "mem_live m n = Some (liveObjects b)" using that(2) by (simp add: mem_live_Some)
    ultimately show ?thesis
      using mem_listing.scanObjects_eq [OF wf, of n "liveObjects b" mk p d a] by (cases "mk = 0") (auto simp: scanObjects_def)
  qed
  then show ?thesis
    by (cases "getBucket m n") (auto simp: handleListObjects_def GetBucket_def Let_def split: sum.splits option.splits, metis option.distinct(1))
qed

section \<open>Every request is answered\<close>

named_theorems yields_intros \<open>what a handler returns\<close>

abbreviation answers :: "reply handler \<Rightarrow> bool" where
  "answers \<equiv> yields (\<lambda>r. snd r \<noteq> Unanswered)"

lemmas [yields_intros] = yields_rules yields_more

lemma yields_cases [yields_intros]:
  "(\<And>a. yields Q (f a)) \<Longrightarrow> (\<And>b. yields Q (g b)) \<Longrightarrow> yields Q (case x of Inl a \<Rightarrow> f a | Inr b \<Rightarrow> g b)"
  "yields Q h \<Longrightarrow> (\<And>a b. yields Q (k a b)) \<Longrightarrow> yields Q (case y of [] \<Rightarrow> h | a # b \<Rightarrow> k a b)"
  by (auto split: sum.split list.split)

lemma yields_Let [yields_intros]: "(\<And>x. yields Q (f x)) \<Longrightarrow> yields Q (Let a f)"
  by simp

lemma answers_docs [yields_intros]: "d \<noteq> Unanswered \<Longrightarrow> answers (writeXML st d)" "d \<noteq> Unanswered \<Longrightarrow> answers (writeJSON st d)"
  unfolding writeXML_def writeJSON_def by (intro yields_intros; simp)+

lemma answers_bucket_handlers [yields_intros]:
  "answers (handleListBuckets c)" "answers (handleHeadBucket E bucket)" "answers (handleGetBucketLocation E bucket)"
  "answers (handleGetBucketEncryption bucket)" "answers (handleGetBucketVersioning bucket)" "answers (handleGetBucketCors E bucket)"
  "answers (handlePreflight E c)" "answers (handleGetBucketTagging E bucket)" "answers (handleListSnapshots bucket)"
  "answers (handlePutBucketTagging E c bucket)" "answers (handleDeleteBucketTagging bucket)"
  "answers (handlePutBucketVersioning E c bucket)" "answers (handleDeleteBucket bucket)" "answers (handlePutBucketEncryption E c bucket)"
  "answers (handleDeleteBucketEncryption bucket)" "answers (handlePutBucketRecoveryRecipient E c bucket)"
  "answers (handlePutBucketCors E c bucket)" "answers (handleDeleteBucketCors bucket)" "answers (handleCreateBucket E c bucket)"
  "answers (handleGetGrants E bucket)" "answers (handlePutGrants E c bucket)" "answers (handleCreateSnapshot E c bucket)"
  "answers (handleRestoreBucket E c bucket)" "answers (notImplemented what)"
  unfolding handleListBuckets_def handleHeadBucket_def handleGetBucketLocation_def handleGetBucketEncryption_def
    handleGetBucketVersioning_def handleGetBucketCors_def handlePreflight_def handleGetBucketTagging_def
    handleListSnapshots_def handlePutBucketTagging_def handleDeleteBucketTagging_def
    handlePutBucketVersioning_def handleDeleteBucket_def handlePutBucketEncryption_def handleDeleteBucketEncryption_def
    handlePutBucketRecoveryRecipient_def handlePutBucketCors_def handleDeleteBucketCors_def handleCreateBucket_def handleGetGrants_def
    handlePutGrants_def handleCreateSnapshot_def handleRestoreBucket_def notImplemented_def
  by (intro yields_intros; simp)+

lemma answers_object_handlers [yields_intros]:
  "answers (handleGetObjectTagging E c bucket key)" "answers (handlePutObjectTagging E c bucket key)"
  "answers (handleDeleteObjectTagging E c bucket key)" "answers (serveObject E b ob rh withBody)" "answers (handlePutObject E c bucket key)"
  "answers (handleDeleteObject E c bucket key)" "answers (handleDeleteObjects E c bucket)" "answers (handleCopyObject E c bucket key)"
  "answers (handleListParts c bucket key)" "answers (handleListMultipartUploads c bucket)"
  "answers (handleCreateMultipartUpload E c bucket key)" "answers (handleUploadPart E c bucket key)"
  "answers (handleUploadPartCopy E c bucket key)" "answers (handleAbortMultipartUpload c bucket key)"
  "answers (writeCompleteResult c bucket key etag)"
  unfolding handleGetObjectTagging_def handlePutObjectTagging_def handleDeleteObjectTagging_def serveObject_def handlePutObject_def storePut_def
    handleDeleteObject_def handleDeleteObjects_def handleCopyObject_def handleListParts_def handleListMultipartUploads_def
    handleCreateMultipartUpload_def handleUploadPart_def handleUploadPartCopy_def handleAbortMultipartUpload_def writeCompleteResult_def
  by (intro yields_intros; simp)+

lemma answers_composed [yields_intros]:
  "answers (handleGetObject E c bucket key withBody)" "answers (handleCompleteMultipartUpload E c bucket key)"
  unfolding handleGetObject_def handleCompleteMultipartUpload_def completeUpload_def by (intro yields_intros; simp)+

lemma attrParts_some: "0 < maxParts \<Longrightarrow> attrParts marker maxParts out ps \<noteq> None"
  by (induction marker maxParts out ps rule: attrParts.induct) auto

lemma headerNumber_zero:
  "strconv_Atoi (Header_Get h name) \<noteq> Some 0 \<Longrightarrow> 0 < d \<Longrightarrow> yields (\<lambda>i. 0 < i) (headerNumber h name d)"
  by (auto simp: yields_def headerNumber_def Let_def hthen_def hbind_def hcheck_def herr_def hret_def split: option.splits if_splits)

lemma yields_bind_yields: "yields R h \<Longrightarrow> (\<And>x. R x \<Longrightarrow> yields Q (f x)) \<Longrightarrow> yields Q (hbind h f)"
  by (auto simp: yields_def hbind_def split: prod.splits sum.splits) (metis fst_conv)

lemma answers_attributes:
  assumes "strconv_Atoi (Header_Get (ca_header c) ''x-amz-max-parts'') \<noteq> Some 0"
  shows "answers (handleGetObjectAttributes E c bucket key)"
proof -
  have n: "answers (hbind (headerNumber (ca_header c) ''x-amz-max-parts'' 1000) f)" if "\<And>i. 0 < i \<Longrightarrow> answers (f i)" for f
    by (rule yields_bind_yields [OF headerNumber_zero [OF assms] that]) simp
  have "answers (case attrParts marker (min i 1000) [] ps of None \<Rightarrow> h | Some (parts, truncated, nxt) \<Rightarrow> k parts truncated nxt)"
    if "0 < i" "\<And>parts truncated nxt. answers (k parts truncated nxt)" for marker i ps h k
    using attrParts_some [of "min i 1000" marker "[]" ps] that by (auto split: option.split prod.split)
  note cases = this
  show ?thesis
    unfolding handleGetObjectAttributes_def Let_def by (intro n cases yields_intros) simp_all
qed

text \<open>What a handler returns from an index with a property.\<close>

definition returns :: "(Memory \<Rightarrow> bool) \<Rightarrow> ('a \<Rightarrow> bool) \<Rightarrow> 'a handler \<Rightarrow> bool" where
  "returns P Q h \<longleftrightarrow> (\<forall>(s::Srv) x. P (srv_store s) \<longrightarrow> fst (h s) = Inr x \<longrightarrow> Q x)"

lemma returns_bind_yields:
  assumes "keeps P h" "yields R h" "\<And>x. R x \<Longrightarrow> returns P Q (f x)"
  shows "returns P Q (hbind h f)"
  unfolding returns_def
proof (intro allI impI)
  fix s :: Srv and x assume s: "P (srv_store s)" "fst (hbind h f s) = Inr x"
  then obtain y where y: "fst (h s) = Inr y" "fst (f y (snd (h s))) = Inr x"
    by (auto simp: hbind_def split: prod.splits sum.splits)
  moreover have "P (srv_store (snd (h s)))" using assms(1) s(1) by (simp add: keeps_def)
  ultimately show "Q x" using assms(2) assms(3) [of y] by (simp add: returns_def yields_def)
qed

lemma returns_bind: "keeps P h \<Longrightarrow> (\<And>x. returns P Q (f x)) \<Longrightarrow> returns P Q (hbind h f)"
  by (rule returns_bind_yields [where R = "\<lambda>_. True"]) (simp_all add: yields_def)

lemma returns_then: "keeps P h \<Longrightarrow> returns P Q g \<Longrightarrow> returns P Q (hthen h g)"
  unfolding hthen_def by (rule returns_bind)

lemma yields_returns: "yields Q h \<Longrightarrow> returns P Q h"
  by (simp add: yields_def returns_def)

lemma returns_if: "returns P Q h \<Longrightarrow> returns P Q g \<Longrightarrow> returns P Q (if b then h else g)"
  by simp

lemma returns_listing:
  assumes "\<And>m. memory_wf m \<Longrightarrow> f m \<noteq> None" "\<And>x. doc x \<noteq> Unanswered"
  shows "returns memory_wf (\<lambda>r. snd r \<noteq> Unanswered) (hlisting f doc)"
  unfolding returns_def
proof (intro allI impI)
  fix s :: Srv and x assume "memory_wf (srv_store s)" and x: "fst (hlisting f doc s) = Inr x"
  then obtain r where "f (srv_store s) = Some r" using assms(1) by blast
  with x assms(2) show "snd x \<noteq> Unanswered"
    by (auto simp: hlisting_def writeXML_def hthen_def hbind_def hset_def hret_def split: sum.splits)
qed

lemma dispatchBucket_answers: "returns memory_wf (\<lambda>r. snd r \<noteq> Unanswered) (dispatchBucket E c bucket)"
proof -
  have get: "returns memory_wf (\<lambda>r. snd r \<noteq> Unanswered) (dispatchBucketGet E c bucket)"
    unfolding dispatchBucketGet_def Let_def
    by (intro returns_if returns_listing handleListObjects_ends handleListObjectVersions_ends yields_returns yields_intros) simp_all
  have other: "answers (dispatchBucketPut E c bucket)" "answers (dispatchBucketDelete c bucket)"
    unfolding dispatchBucketPut_def dispatchBucketDelete_def by (intro yields_intros)+
  show ?thesis
    unfolding dispatchBucket_def Let_def
    by (intro returns_then keeps_intros returns_if get) (intro yields_returns yields_intros other)+
qed

lemma dispatchObject_answers:
  assumes "req_Method (ca_req c) = ''GET'' \<and> Values_Has (ca_query c) ''attributes'' \<Longrightarrow>
    strconv_Atoi (Header_Get (ca_header c) ''x-amz-max-parts'') \<noteq> Some 0"
  shows "answers (dispatchObject E c bucket key)"
proof -
  have put: "answers (dispatchObjectPut E c bucket key)"
    unfolding dispatchObjectPut_def by (intro yields_intros)
  have "answers (if Values_Has (ca_query c) ''attributes'' then handleGetObjectAttributes E c bucket key else h)"
    if "answers h" "req_Method (ca_req c) = ''GET''" for h
    using assms that by (simp add: answers_attributes)
  then have "answers (if req_Method (ca_req c) = ''GET'' then
       (if Values_Has (ca_query c) ''uploadId'' then k
        else if Values_Has (ca_query c) ''attributes'' then handleGetObjectAttributes E c bucket key else h) else g)"
    if "answers k" "answers h" "answers g" for k h g
    using that by simp
  note get = this
  show ?thesis
    unfolding dispatchObject_def Let_def by (intro yields_rules(3) get) (intro yields_intros put)+
qed

lemma respond_answers: "(\<And>x. fst (h s) = Inr x \<Longrightarrow> snd x \<noteq> Unanswered) \<Longrightarrow> rs_Body (fst (respond c h s)) \<noteq> Unanswered"
  by (auto simp: respond_def writeError_def split: prod.splits sum.splits)



section \<open>Running a handler\<close>

named_theorems run_simps \<open>one step of a handler\<close>

lemma run_pure [run_simps]:
  "hbind (hret x) f = f x" "hthen (hret x) h = h" "hthen (hcheck False e) h = h" "hthen (hwhen False k) h = h" "hthen (hwhen True k) h = hthen k h"
  "hbind (herr e) f = herr e" "hthen (herr e) h = herr e" "hthen (hcheck True e) h = herr e"
  by (rule ext, simp add: hbind_def hthen_def hret_def herr_def hcheck_def hwhen_def)+

lemma run_store [run_simps]:
  "g (srv_store s) = Inr x \<Longrightarrow> hbind (hstore g) f s = f x s" "g (srv_store s) = Inr x \<Longrightarrow> hthen (hstore g) h s = h s"
  "g (srv_store s) = Inl e \<Longrightarrow> hbind (hstore g) f s = (Inl (storeError e), s)" "hbind (hindex g) k s = k (g (srv_store s)) s"
  by (simp_all add: hstore_def hbind_def hthen_def hindex_def hret_def herr_def)

lemma run_state [run_simps]:
  "hthen (hset k v) h s = h (s\<lparr>srv_header := Header_Set k v (srv_header s)\<rparr>)"
  "hbind (hnow E) f s = f (env_clock E (srv_tick s)) (s\<lparr>srv_tick := Suc (srv_tick s)\<rparr>)"
  "hbind (hrandom E n) g s = g (map (env_random E (srv_tick s)) [0..<n]) (s\<lparr>srv_tick := Suc (srv_tick s)\<rparr>)"
  "u (srv_store s) = Inr m \<Longrightarrow> hthen (hwrite u) h s = h (s\<lparr>srv_store := m\<rparr>)"
  "hret x s = (Inr x, s)" "herr e s = (Inl e, s)"
  by (simp_all add: hthen_def hbind_def hset_def hnow_def hrandom_def hwrite_def hupdate_def hret_def herr_def)

lemma run_version [run_simps]:
  "hthen (hwhen b (setVersionHeader v)) h s =
     h (if b \<and> v \<noteq> [] then s\<lparr>srv_header := Header_Set ''x-amz-version-id'' v (srv_header s)\<rparr> else s)"
  by (simp add: setVersionHeader_def hwhen_def run_pure run_state)

text \<open>C37.
  GetObjectAttributes with a limit of zero parts panics. A request for the parts of a composite
  object that carries x-amz-max-parts: 0 passes the check for a negative number, and its loop then reads the last element
  of an empty slice: the client gets no response.
\<close>

theorem attributes_zero_parts_panics:
  assumes "GetBucket (srv_store s) n = Inr b" "GetObject (srv_store s) n key = Inr ob" "\<not> obj_DeleteMarker ob"
    and "obj_Parts ob \<noteq> []" "\<forall>p \<in> set (obj_Parts ob). 0 < part_PartNumber p"
    and "Values_Get (ca_query c) ''versionId'' = []" "Header_Values (ca_header c) ''x-amz-object-attributes'' = [''ObjectParts'']"
    and "Header_Get (ca_header c) ''x-amz-part-number-marker'' = []" "Header_Get (ca_header c) ''x-amz-max-parts'' = ''0''"
  shows "\<exists>s'. handleGetObjectAttributes E c n key s = (Inr (0, Unanswered), s')"
proof -
  have attr: "strings_TrimSpace ''ObjectParts'' = ''ObjectParts''" "strings_Split ''ObjectParts'' CHR '','' = [''ObjectParts'']"
    by code_simp+
  have "attrParts 0 0 [] (obj_Parts ob) = None" using assms(4,5) by (cases "obj_Parts ob") auto
  moreover have "headerNumber (ca_header c) ''x-amz-part-number-marker'' 0 = hret 0"
    using assms(8) by (simp add: headerNumber_def)
  moreover have "strconv_Atoi ''0'' = Some 0" by code_simp
  then have "headerNumber (ca_header c) ''x-amz-max-parts'' 1000 = hret 0"
    using assms(9) by (simp add: headerNumber_def run_simps)
  ultimately show ?thesis
    using assms(1-4,6,7) by (simp add: handleGetObjectAttributes_def Let_def attr lookupVersion_def run_simps)
qed

definition demoPart :: Part where
  "demoPart = zeroPart\<lparr>part_PartNumber := 1, part_Size := 5\<rparr>"

definition demo7 :: Memory where
  "demo7 = okOr NewMemory (PutObject demo1 ((demoObject ''c'' ''v1'' 10)\<lparr>obj_Parts := [demoPart]\<rparr>) None)"

theorem attributes_zero_parts_panics_witness:
  "\<exists>s'. handleGetObjectAttributes demoEnv
     (demoCall (demoRequest ''/bkt/c'' [(''x-amz-object-attributes'', [''ObjectParts'']), (''x-amz-max-parts'', [''0''])])) ''bkt'' ''c'' (demoSrv demo7) =
     (Inr (0, Unanswered), s')"
proof (rule attributes_zero_parts_panics)
  show "GetBucket (srv_store (demoSrv demo7)) ''bkt'' = Inr (demoBucket\<lparr>bkt_CreatedAt := 5\<rparr>)"
    "GetObject (srv_store (demoSrv demo7)) ''bkt'' ''c'' = Inr ((demoObject ''c'' ''v1'' 10)\<lparr>obj_Parts := [demoPart], obj_IsLatest := True\<rparr>)"
    by (simp_all add: demoSrv_def) code_simp+
qed (simp_all add: demoObject_def zeroObject_def demoPart_def demoCall_def, code_simp+)

section \<open>Put and get\<close>

lemma hbind_Inr: "hbind h f s = (Inr x, s') \<longleftrightarrow> (\<exists>y s1. h s = (Inr y, s1) \<and> f y s1 = (Inr x, s'))"
  by (auto simp: hbind_def split: prod.splits sum.splits)

lemma hthen_Inr: "hthen h g s = (Inr x, s') \<longleftrightarrow> (\<exists>y s1. h s = (Inr y, s1) \<and> g s1 = (Inr x, s'))"
  by (simp add: hthen_def hbind_Inr)

lemma hlift_Inr: "hlift r s = (Inr x, s') \<longleftrightarrow> r = Inr x \<and> s' = s"
  by (auto simp: hlift_def)

lemma hnow_Inr: "hnow E s = (Inr x, s') \<longleftrightarrow> x = env_clock E (srv_tick s) \<and> s' = s\<lparr>srv_tick := Suc (srv_tick s)\<rparr>"
  by (auto simp: hnow_def)

lemma hstore_Inr: "hstore g s = (Inr x, s') \<longleftrightarrow> g (srv_store s) = Inr x \<and> s' = s"
  by (auto simp: hstore_def hbind_def hindex_def hret_def herr_def split: sum.splits)

lemma hwrite_Inr: "hwrite u s = (Inr x, s') \<longleftrightarrow> (\<exists>m. u (srv_store s) = Inr m \<and> s' = s\<lparr>srv_store := m\<rparr>)"
  by (auto simp: hwrite_def hupdate_def hbind_def hret_def herr_def split: sum.splits)

lemmas run_Inr = hbind_Inr hthen_Inr hlift_Inr hnow_Inr hstore_Inr hwrite_Inr

text \<open>A reading step leaves the index.\<close>

lemma keeps_same:
  assumes "keeps (\<lambda>m. m = srv_store s) h" "h s = (r, s')"
  shows "srv_store s' = srv_store s"
  using assms(1) [unfolded keeps_def, rule_format, of s] assms(2) by simp

lemma stampVersion_Inr:
  assumes "stampVersion E ob mode s = (Inr (ob', v), s')"
  shows "\<exists>i vid. ob' = ob\<lparr>obj_VSeq := env_clock E i, obj_IsLatest := True, obj_VersionID := vid\<rparr> \<and> srv_store s' = srv_store s"
  using assms by (auto simp: stampVersion_def newVersionID_def hbind_def hnow_def hrandom_def hret_def Let_def split: if_splits)

text \<open>The bytes an upload is taken to have: nothing, when a body of no length was announced outside the chunked encoding.\<close>

definition bodyData :: "Call \<Rightarrow> body_read \<Rightarrow> string" where
  "bodyData c rd = (if rd_length rd = 0 \<and> \<not> isAwsChunked c then [] else rd_data rd)"

lemma sendBody_Inr:
  assumes "\<not> bkt_ACT b" "sendBody E b batch sc enc rd s = (Inr (ref, hist), s')"
  shows "s' = s \<and> (\<exists>h. UploadBytes (env_bee E) (rd_data rd) (rd_failed rd) (uploadOptions E batch sc enc (rd_length rd)) = Inr (ref, h))"
  using assms by (auto simp: sendBody_def Let_def herr_def hret_def split: sum.splits option.splits)

lemma uploadBody_Inr:
  assumes "\<not> bkt_ACT b" "readBody E c = Inr rd" "uploadBody E c b batch sc enc s = (Inr res, s')"
  shows "s' = s \<and> ur_Size res = int (length (bodyData c rd)) \<and> ur_ETag res = hex_EncodeToString (env_md5 E (bodyData c rd)) \<and>
    (if rd_length rd = 0 then ur_Ref res = []
     else \<exists>h. UploadBytes (env_bee E) (rd_data rd) (rd_failed rd) (uploadOptions E batch sc enc (rd_length rd)) = Inr (ur_Ref res, h))"
proof -
  obtain ref hist s1 alg digest where up: "(if rd_length rd \<noteq> 0 then sendBody E b batch sc enc rd
        else case rd_err rd of Some ce \<Rightarrow> herr (chunkedErr E ce) | None \<Rightarrow> hret ([], if bkt_ACT b then bkt_ActHistory b else [])) s =
      (Inr (ref, hist), s1)" and "s' = s1"
    and res: "res = \<lparr>ur_Ref = ref, ur_Size = int (length (bodyData c rd)), ur_ETag = hex_EncodeToString (env_md5 E (bodyData c rd)),
           ur_ChecksumAlgorithm = alg, ur_Checksum = digest, ur_ActHistory = (if bkt_ACT b \<and> ref \<noteq> [] then hist else [])\<rparr>"
    using assms(3) unfolding uploadBody_def Let_def bodyData_def [symmetric]
    by (auto simp: run_Inr assms(2) hret_def split: prod.splits)
  then show ?thesis
    using sendBody_Inr [OF assms(1)] by (cases "rd_length rd = 0") (auto simp: res herr_def hret_def split: option.splits)
qed

definition plainUpload :: "Env \<Rightarrow> Call \<Rightarrow> Bucket \<Rightarrow> bool" where
  "plainUpload E c b \<longleftrightarrow> \<not> bkt_ACT b \<and> Header_Get (ca_header c) ''x-amz-server-side-encryption'' = [] \<and>
     \<not> cfg_Encrypt (env_cfg E) \<and> bkt_Encryption b \<noteq> ''AES256''"

lemma PutObject_newest:
  assumes "memory_wf m" "PutObject m ob cond = Inr m'" "newest ob (mem_versions m (obj_Bucket ob) (obj_Key ob))"
  shows "GetObject m' (obj_Bucket ob) (obj_Key ob) = Inr (ob\<lparr>obj_IsLatest := True\<rparr>)"
    and "GetBucket m' n = GetBucket m n"
proof -
  let ?vs = "mem_versions m (obj_Bucket ob) (obj_Key ob)"
  have wf: "?vs = [] \<or> versions_wf (obj_Bucket ob) (obj_Key ob) ?vs" using mem_versions_wf assms(1) by blast
  obtain b b' where "getBucket m (obj_Bucket ob) = Inr b" "getBucket m' (obj_Bucket ob) = Inr b'"
    using assms(2) by (auto simp: PutObject_Inr_iff)
  moreover have "mem_versions m' (obj_Bucket ob) (obj_Key ob) = putVersions ob ?vs" using PutObject_versions [OF assms(2)] by simp
  ultimately show "GetObject m' (obj_Bucket ob) (obj_Key ob) = Inr (ob\<lparr>obj_IsLatest := True\<rparr>)"
    by (simp add: GetObject_eq putVersions_newest [OF wf assms(3)])
  show "GetBucket m' n = GetBucket m n"
    using assms(2) by (auto simp: PutObject_eq rbind_Inr_iff GetBucket_def rbind_def split: if_splits sum.splits)
qed

lemma storePut_Inr:
  assumes "memory_wf (srv_store s)" "storePut E n b cond batch enc res ob s = (Inr r, s')"
    and "obj_Bucket ob = n" "\<forall>v \<in> set (mem_versions (srv_store s) n (obj_Key ob)). \<forall>i. obj_VSeq v \<le> env_clock E i"
  shows "fst r = 200" and "GetBucket (srv_store s') n' = GetBucket (srv_store s) n'"
    and "\<exists>vseq vid. GetObject (srv_store s') n (obj_Key ob) = Inr (ob\<lparr>obj_VSeq := vseq, obj_VersionID := vid, obj_IsLatest := True\<rparr>)"
proof -
  obtain ob' v s1 m where st: "stampVersion E ob (bkt_Versioning b) s = (Inr (ob', v), s1)"
    and m: "PutObject (srv_store s1) ob' cond = Inr m"
    and rest: "hthen (setVersionHeader v) (hthen (hwhen (ur_Ref res \<noteq> [] \<and> \<not> enc) (hset ''x-swarm-reference'' (ur_Ref res)))
     (hthen (hwhen enc (hset ''x-amz-server-side-encryption'' ''AES256''))
     (hthen (setBatchHeaders E batch)
     (hthen (hwhen (ur_Checksum res \<noteq> [])
       (hset (''x-amz-checksum-'' @ strings_ToLower (ur_ChecksumAlgorithm res)) (ur_Checksum res)))
     (hthen (hset ''ETag'' (quoted (ur_ETag res))) (hthen (hnotify E n) (hret (200, NoBody)))))))) (s1\<lparr>srv_store := m\<rparr>) = (Inr r, s')"
    using assms(2) unfolding storePut_def by (auto simp: hbind_Inr hthen_Inr [of "hwrite _"] hwrite_Inr)
  from rest have "srv_store s' = srv_store (s1\<lparr>srv_store := m\<rparr>)" by (rule keeps_same [rotated]) (intro keeps_intros)
  then have "srv_store s' = m" by simp
  show "fst r = 200" using rest by (auto simp: hthen_Inr hret_def)
  obtain i vid where ob': "ob' = ob\<lparr>obj_VSeq := env_clock E i, obj_IsLatest := True, obj_VersionID := vid\<rparr>"
    and s1: "srv_store s1 = srv_store s" using stampVersion_Inr [OF st] by blast
  have "newest ob' (mem_versions (srv_store s) (obj_Bucket ob') (obj_Key ob'))"
    using assms(3,4) by (simp add: newest_def ob')
  note new = PutObject_newest [OF assms(1) m [unfolded s1] this]
  show "GetBucket (srv_store s') n' = GetBucket (srv_store s) n'" using new(2) \<open>srv_store s' = m\<close> by simp
  show "\<exists>vseq vid. GetObject (srv_store s') n (obj_Key ob) = Inr (ob\<lparr>obj_VSeq := vseq, obj_VersionID := vid, obj_IsLatest := True\<rparr>)"
    using new(1) assms(3) \<open>srv_store s' = m\<close> by (intro exI [of _ "env_clock E i"] exI [of _ vid]) (simp add: ob')
qed

text \<open>What a successful put leaves in the index.\<close>

definition storedAs :: "Env \<Rightarrow> Call \<Rightarrow> body_read \<Rightarrow> Object \<Rightarrow> bool" where
  "storedAs E c rd ob \<longleftrightarrow> \<not> obj_DeleteMarker ob \<and> obj_Parts ob = [] \<and> \<not> obj_Encrypted ob \<and>
    obj_Size ob = int (length (bodyData c rd)) \<and> obj_ETag ob = hex_EncodeToString (env_md5 E (bodyData c rd)) \<and>
    (if rd_length rd = 0 then obj_SwarmRef ob = []
     else \<exists>opts h. \<not> uo_Encrypt opts \<and> \<not> uo_Act opts \<and> UploadBytes (env_bee E) (rd_data rd) (rd_failed rd) opts = Inr (obj_SwarmRef ob, h))"

lemma handlePutObject_row:
  assumes wf: "memory_wf (srv_store s)" and b: "GetBucket (srv_store s) n = Inr b" "plainUpload E c b" and rd: "readBody E c = Inr rd"
    and clock: "\<forall>v \<in> set (mem_versions (srv_store s) n k). \<forall>i. obj_VSeq v \<le> env_clock E i"
    and put: "handlePutObject E c n k s = (Inr r, s')"
  shows "\<exists>ob. GetObject (srv_store s') n k = Inr ob \<and> storedAs E c rd ob"
    and "GetBucket (srv_store s') n = Inr b" and "fst r = 200"
proof -
  let ?batch = "resolveBatch E c b" and ?sc = "Header_Get (ca_header c) ''x-amz-storage-class''"
  obtain u1 s1 u2 s2 enc s3 res s4 tags where
    early: "earlyCondition n k (requestCondition c) s = (Inr u1, s1)"
    and batch: "hwhen (?batch \<noteq> [] \<and> req_ContentLength (ca_req c) \<noteq> 0) (hcheckBatch E ?batch) s1 = (Inr u2, s2)"
    and sse: "resolveSSE E c b s2 = (Inr enc, s3)"
    and up: "uploadBody E c b ?batch ?sc enc s3 = (Inr res, s4)"
    and rest: "hbind (hnow E) (\<lambda>now. storePut E n b (requestCondition c) ?batch enc res
      (putRow c n k b ?batch enc res tags now)) s4 = (Inr r, s')"
    using put b(1) unfolding handlePutObject_def by (auto simp: hbind_Inr hthen_Inr hlift_Inr hstore_Inr Let_def)
  have enc: "\<not> enc" and s3: "s3 = s2" using sse b(2) by (auto simp: resolveSSE_def plainUpload_def Let_def herr_def hret_def split: if_splits)
  from early have "srv_store s1 = srv_store s" by (rule keeps_same [rotated]) (intro keeps_intros)
  moreover from batch have "srv_store s2 = srv_store s1" by (rule keeps_same [rotated]) (intro keeps_intros)
  ultimately have s2: "srv_store s2 = srv_store s" by simp
  have act: "\<not> bkt_ACT b" using b(2) by (simp add: plainUpload_def)
  note upl = uploadBody_Inr [OF act rd up]
  define now where "now = env_clock E (srv_tick s4)"
  define ob where "ob = putRow c n k b ?batch enc res tags now"
  define s5 where "s5 = s4\<lparr>srv_tick := Suc (srv_tick s4)\<rparr>"
  have run: "storePut E n b (requestCondition c) ?batch enc res ob s5 = (Inr r, s')"
    using rest by (simp add: run_simps ob_def s5_def now_def)
  have s5: "srv_store s5 = srv_store s" using upl s3 s2 by (simp add: s5_def)
  have row: "obj_Bucket ob = n" "obj_Key ob = k" "obj_SwarmRef ob = ur_Ref res" "obj_Size ob = ur_Size res" "obj_ETag ob = ur_ETag res"
    "\<not> obj_Encrypted ob" "\<not> obj_DeleteMarker ob" "obj_Parts ob = []"
    using enc by (simp_all add: ob_def putRow_def zeroObject_def Let_def)
  note stored = storePut_Inr [OF _ run row(1), unfolded s5 row(2), OF wf clock]
  show "fst r = 200" by (rule stored(1))
  show "GetBucket (srv_store s') n = Inr b" using stored(2) b(1) by simp
  obtain vseq vid where "GetObject (srv_store s') n k = Inr (ob\<lparr>obj_VSeq := vseq, obj_VersionID := vid, obj_IsLatest := True\<rparr>)"
    using stored(3) by blast
  moreover have "\<not> uo_Encrypt (uploadOptions E ?batch ?sc enc (rd_length rd)) \<and> \<not> uo_Act (uploadOptions E ?batch ?sc enc (rd_length rd))"
    using enc by (simp add: uploadOptions_def)
  then have "storedAs E c rd (ob\<lparr>obj_VSeq := vseq, obj_VersionID := vid, obj_IsLatest := True\<rparr>)"
    using upl row by (auto simp: storedAs_def split: if_splits)
  ultimately show "\<exists>ob. GetObject (srv_store s') n k = Inr ob \<and> storedAs E c rd ob"
    by blast
qed

lemma Values_Get_Nil [simp]: "Values_Get [] k = []"
  by (simp_all add: Header_Get_def Header_Values_def Values_Get_def)

lemma hsetAll_proceeds: "proceeds (hsetAll kvs)" "proceeds (hmetadata kvs)"
  by (induction kvs) (auto intro!: proceeds_rules proceeds_then proceeds_when simp: hsetRaw_def proceeds_def [of "hsetRaw _ _"])

lemma proceeds_steps:
  "proceeds (publisherKey E)" "proceeds (hnotify E bucket)" "proceeds (setVersionHeader v)" "proceeds (setBatchHeaders E batch)"
proof -
  show "proceeds (publisherKey E)" "proceeds (hnotify E bucket)"
    by (auto simp: proceeds_def publisherKey_def hnotify_def split: sum.splits)
  show "proceeds (setVersionHeader v)" unfolding setVersionHeader_def by (intro proceeds_when proceeds_rules)
  have "proceeds (hstampInfo E batch)" "proceeds (hnow E)"
    by (simp_all add: proceeds_def hstampInfo_def hnow_def split_beta)
  then show "proceeds (setBatchHeaders E batch)"
    unfolding setBatchHeaders_def
    by (intro proceeds_when proceeds_then proceeds_bind proceeds_rules) (auto intro: proceeds_bind proceeds_rules split: sum.split)
qed

lemma objectHeaders_proceeds: "proceeds (objectHeaders E c b ob)"
  unfolding objectHeaders_def Let_def
  by (intro proceeds_then proceeds_when proceeds_rules proceeds_bind hsetAll_proceeds proceeds_steps)
    (auto intro: proceeds_rules split: sum.split)

lemma run_proceeds:
  assumes "proceeds h"
  shows "\<exists>s'. hthen h k s = k s' \<and> srv_store s' = srv_store s"
proof -
  obtain x s' where "h s = (Inr x, s')" "srv_store s' = srv_store s" using assms unfolding proceeds_def by metis
  then show ?thesis by (intro exI [of _ s']) (simp add: hthen_def hbind_def)
qed

lemma handleGetObject_run:
  assumes "GetBucket (srv_store s) n = Inr b" "GetObject (srv_store s) n k = Inr ob" "\<not> obj_DeleteMarker ob"
    and "ca_header g = []" "ca_query g = []"
  shows "\<exists>s'. handleGetObject E g n k withBody s = serveObject E b ob [] withBody s' \<and> srv_store s' = srv_store s"
proof -
  have "readTarget g n k s = (Inr ob, s)"
    using assms(2,3,5) by (simp add: readTarget_def run_simps)
  then have read: "hbind (readTarget g n k) f s = f ob s" for f :: "Object \<Rightarrow> reply handler" by (simp add: hbind_def)
  have part: "hbind (hpart g ob) f s = f [] s" for f :: "http_header \<Rightarrow> reply handler" and s
    using assms(4,5) by (simp add: hpart_def hbind_def)
  have "checkConditionals (env_ParseTime E) (ca_header g) ob = None" using assms(4) by (simp add: checkConditionals_def)
  moreover obtain s1 where s1: "handleGetObject E g n k withBody s =
      (case checkConditionals (env_ParseTime E) (ca_header g) ob of
         Some code \<Rightarrow> if code = 304 then hret (304, NoBody) else herr errPreconditionFailed
       | None \<Rightarrow> hthen (objectHeaders E g b ob) (hbind (hpart g ob) (\<lambda>rh. serveObject E b ob rh withBody))) s1"
    "srv_store s1 = srv_store s"
    unfolding handleGetObject_def using assms(1) by (simp add: run_simps read)
  moreover obtain s2 where "hthen (objectHeaders E g b ob) (hbind (hpart g ob) (\<lambda>rh. serveObject E b ob rh withBody)) s1 =
      hbind (hpart g ob) (\<lambda>rh. serveObject E b ob rh withBody) s2" "srv_store s2 = srv_store s1"
    using run_proceeds [OF objectHeaders_proceeds] by blast
  ultimately show ?thesis by (intro exI [of _ s2]) (simp add: part)
qed

lemma UploadBytes_ref: "UploadBytes cl data err opts = Inr (ref, h) \<Longrightarrow> ref \<noteq> []"
  by (auto simp: UploadBytes_def rbind_Inr_iff split: if_splits)

lemma serveObject_whole:
  assumes "\<not> bkt_ACT b" "obj_Parts ob = []" "obj_SwarmRef ob \<noteq> []"
    and down: "\<And>dopts. do_Range dopts = [] \<Longrightarrow> \<exists>resp. DownloadBytes (env_bee E) (obj_SwarmRef ob) dopts = Inr resp \<and> hp_Body resp = data"
  shows "\<exists>st s'. serveObject E b ob [] True s = (Inr (st, Bytes data), s') \<and> srv_store s' = srv_store s"
proof -
  let ?opts = "downloadOptions (cfg_FetchStrategy (env_cfg E)) [] [] [] (Some b) (obj_ActHistory ob) (actWriteTime (obj_ActAt ob) (obj_LastModified ob))"
  have "do_Range ?opts = []" using assms(1) by (simp add: downloadOptions_def Let_def)
  then obtain resp where resp: "DownloadBytes (env_bee E) (obj_SwarmRef ob) ?opts = Inr resp" "hp_Body resp = data" using down by blast
  let ?set = "hsetAll [(''Content-Length'', Header_Get (hp_Header resp) ''Content-Length''),
    (''Content-Range'', Header_Get (hp_Header resp) ''Content-Range'')]"
  have "serveObject E b ob [] True s = hthen ?set (hret (hp_Status resp, Bytes (hp_Body resp))) s"
    using assms(1-3) resp(1) by (simp add: serveObject_def publisherOr_def run_simps hbee_def del: hsetAll.simps)
  then show ?thesis
    using run_proceeds [OF hsetAll_proceeds(1), of _ "hret (hp_Status resp, Bytes (hp_Body resp))" s] resp(2)
    by (metis hret_def)
qed


text \<open>C36.
  An upload in the chunked encoding that announces a decoded length of zero loses its bytes. Its body is read and
  its digests are checked, but nothing is sent to the node: the put is answered with 200, the row has the size and
  the ETag of the body, and a get of the key answers 200 with no bytes, whatever the body was.
\<close>

theorem zero_decoded_length_loses_body:
  assumes "memory_wf (srv_store s)" "GetBucket (srv_store s) n = Inr b" "plainUpload E c b"
    and "\<forall>v \<in> set (mem_versions (srv_store s) n k). \<forall>i. obj_VSeq v \<le> env_clock E i"
    and "isAwsChunked c" "readBody E c = Inr rd" "rd_length rd = 0" "handlePutObject E c n k s = (Inr r, s1)"
    and "srv_store s2 = srv_store s1" "ca_header g = []" "ca_query g = []"
  shows "fst r = 200 \<and> (\<exists>ob. GetObject (srv_store s1) n k = Inr ob \<and> obj_Size ob = int (length (rd_data rd)) \<and>
      obj_ETag ob = hex_EncodeToString (env_md5 E (rd_data rd))) \<and>
    (\<exists>s3. handleGetObject E g n k True s2 = (Inr (200, NoBody), s3))"
proof -
  note put = handlePutObject_row [OF assms(1,2,3,6,4,8)]
  obtain ob where ob: "GetObject (srv_store s1) n k = Inr ob" "storedAs E c rd ob" using put(1) by blast
  have row: "\<not> obj_DeleteMarker ob" "obj_Parts ob = []" "obj_SwarmRef ob = []" "obj_Size ob = int (length (rd_data rd))"
    "obj_ETag ob = hex_EncodeToString (env_md5 E (rd_data rd))"
    using ob(2) assms(5,7) by (simp_all add: storedAs_def bodyData_def)
  obtain s' where "handleGetObject E g n k True s2 = serveObject E b ob [] True s'"
    using handleGetObject_run [of s2 n b k ob g E True] put(2) ob(1) row(1) assms(9-11) by auto
  then show ?thesis using put(3) ob(1) row by (simp add: serveObject_def run_simps)
qed

section \<open>Examples\<close>

definition demoOpen :: Env where
  "demoOpen = demoEnv\<lparr>env_cfg := demoConfig\<lparr>cfg_BatchID := []\<rparr>\<rparr>"

definition demoPut :: "http_header \<Rightarrow> string \<Rightarrow> Call" where
  "demoPut h body = (demoCall (demoRequest ''/bkt/k'' h\<lparr>req_Method := ''PUT'', req_Query := [], req_ContentLength := int (length body)\<rparr>))\<lparr>ca_body := body\<rparr>"

lemma demo1_get: "GetBucket demo1 ''bkt'' = Inr (demoBucket\<lparr>bkt_CreatedAt := 5\<rparr>)"
  by code_simp

lemma demoOpen_upload:
  "data \<noteq> [] \<Longrightarrow> UploadBytes (env_bee demoOpen) data False opts = Inr (hex_EncodeToString data, [])"
proof -
  assume "data \<noteq> []"
  moreover from this have "hex_EncodeToString data \<noteq> []" by (cases data) (simp_all add: Let_def)
  ultimately show ?thesis
    by (simp add: UploadBytes_def call_def demoOpen_def demoEnv_def demoNode_def demoTransport_def demoJSON_def decoded_def rbind_def)
qed

lemma demoPut_fields [simp]: "ca_header (demoPut h body) = h" "ca_query (demoPut h body) = []" "ca_body (demoPut h body) = body"
  "ca_bodyErr (demoPut h body) = []" "ca_id (demoPut h body) = None" "req_ContentLength (ca_req (demoPut h body)) = int (length body)"
  by (simp_all add: demoPut_def demoCall_def demoRequest_def)

lemma storePut_ok:
  assumes "\<And>i vid. \<exists>m. PutObject (srv_store s) (ob\<lparr>obj_VSeq := i, obj_IsLatest := True, obj_VersionID := vid\<rparr>) cond = Inr m"
  shows "\<exists>r s'. storePut E n b cond batch enc res ob s = (Inr r, s')"
proof -
  obtain ob' v s1 where st: "stampVersion E ob (bkt_Versioning b) s = (Inr (ob', v), s1)"
    by (cases "bkt_Versioning b = ''Enabled''") (simp_all add: stampVersion_def newVersionID_def hbind_def hnow_def hrandom_def hret_def Let_def)
  from stampVersion_Inr [OF st] assms obtain m where m: "PutObject (srv_store s1) ob' cond = Inr m" by metis
  have tail: "proceeds (hthen (setVersionHeader v) (hthen (hwhen (ur_Ref res \<noteq> [] \<and> \<not> enc) (hset ''x-swarm-reference'' (ur_Ref res)))
     (hthen (hwhen enc (hset ''x-amz-server-side-encryption'' ''AES256''))
     (hthen (setBatchHeaders E batch)
     (hthen (hwhen (ur_Checksum res \<noteq> []) (hset (''x-amz-checksum-'' @ strings_ToLower (ur_ChecksumAlgorithm res)) (ur_Checksum res)))
     (hthen (hset ''ETag'' (quoted (ur_ETag res))) (hthen (hnotify E n) (hret (200, NoBody)))))))))"
    by (intro proceeds_then proceeds_when proceeds_rules proceeds_steps)
  show ?thesis
    unfolding storePut_def hbind_def [of "stampVersion _ _ _"] st prod.case sum.case
    using tail m by (simp add: run_state proceeds_def) blast
qed

lemma demoPut_ok:
  assumes h: "\<And>k. k \<in> {''If-Match'', ''If-None-Match'', ''x-swarm-postage-batch-id'', ''x-amz-server-side-encryption'',
      ''x-amz-server-side-encryption-customer-algorithm'', ''x-amz-server-side-encryption-customer-key'', ''x-amz-trailer'',
      ''x-amz-sdk-checksum-algorithm'', ''Content-MD5'', ''x-amz-tagging''} \<Longrightarrow> Header_Get h k = []"
    and sha: "length (Header_Get h ''X-Amz-Content-Sha256'') \<noteq> 64"
    and rd: "readBody demoOpen (demoPut h body) = Inr rd" "rd_err rd = None" "\<not> rd_failed rd" "rd_data rd \<noteq> []"
  shows "\<exists>r s'. handlePutObject demoOpen (demoPut h body) ''bkt'' ''k'' (demoSrv demo1) = (Inr r, s')"
proof -
  let ?b = "demoBucket\<lparr>bkt_CreatedAt := 5\<rparr>" and ?c = "demoPut h body"
  have b: "\<not> bkt_ACT ?b" "bkt_BatchID ?b = []" "bkt_Encryption ?b = []" by code_simp+
  have batch: "resolveBatch demoOpen ?c ?b = []" using b(2) h by (simp add: resolveBatch_def demoOpen_def)
  have sse: "resolveSSE demoOpen ?c ?b = hret False"
    using h b(3) by (simp add: resolveSSE_def demoOpen_def demoConfig_def)
  have ck: "parseChecksumRequest demoOpen h = Inr None" using h by (simp add: parseChecksumRequest_def demoOpen_def demoEnv_def strings_ToLower_def)
  have "length (strings_ToLower (Header_Get h ''X-Amz-Content-Sha256'')) \<noteq> 64" using sha by (simp add: strings_ToLower_def)
  then have dg: "checkDigests demoOpen ?c data = Inr ()" for data using h by (simp add: checkDigests_def Let_def)
  have send: "sendBody demoOpen ?b batch sc enc rd = hret (hex_EncodeToString (rd_data rd), [])" for batch sc enc
    using b(1) rd(3,4) by (simp add: sendBody_def demoOpen_upload Let_def)
  have up: "\<exists>res. uploadBody demoOpen ?c ?b [] sc enc s = (Inr res, s)" for sc enc s
    using rd b(1) by (simp add: uploadBody_def ck dg send hlift_def flexibleChecksum_def hbind_def hthen_def hret_def Let_def)
  have tags: "headerTags demoOpen ?c = Inr []" using h by (simp add: headerTags_def parseTaggingHeader_def tagsToJSON_def)
  have cond: "requestCondition ?c = None" using h by (simp add: requestCondition_def)
  have "\<not> isl (getBucket demo1 ''bkt'')" by code_simp
  then have put: "\<exists>m. PutObject demo1 ob None = Inr m" if "obj_Bucket ob = ''bkt''" for ob
    using that by (cases "getBucket demo1 ''bkt''") (auto simp: PutObject_def PutCondition_Ok_def Let_def)
  obtain res where res: "uploadBody demoOpen ?c ?b [] (Header_Get h ''x-amz-storage-class'') False (demoSrv demo1) =
      (Inr res, demoSrv demo1)" using up by blast
  have "handlePutObject demoOpen ?c ''bkt'' ''k'' (demoSrv demo1) =
      hbind (hnow demoOpen) (\<lambda>now. storePut demoOpen ''bkt'' ?b None [] False res
        (putRow ?c ''bkt'' ''k'' ?b [] False res [] now)) (demoSrv demo1)"
    unfolding handlePutObject_def run_store(1) [of "\<lambda>m. GetBucket m ''bkt''" "demoSrv demo1", unfolded demoSrv_def, simplified, OF demo1_get, folded demoSrv_def]
    by (simp add: Let_def cond batch earlyCondition_def run_pure sse hbind_def [of "uploadBody _ _ _ _ _ _"] res hbind_def [of "hlift _"] hlift_def tags)
  also have "\<exists>r s'. \<dots> = (Inr r, s')"
    unfolding run_state(2) by (rule storePut_ok) (simp add: demoSrv_def, rule put, simp add: putRow_def Let_def)
  finally show ?thesis .
qed

definition demoGet :: Call where
  "demoGet = demoCall (demoRequest ''/bkt/k'' []\<lparr>req_Query := []\<rparr>)"

lemma demoGet_fields [simp]: "ca_header demoGet = []" "ca_query demoGet = []"
  by (simp_all add: demoGet_def demoCall_def demoRequest_def)

lemma demo1_put:
  "memory_wf (srv_store (demoSrv demo1))" "GetBucket (srv_store (demoSrv demo1)) ''bkt'' = Inr (demoBucket\<lparr>bkt_CreatedAt := 5\<rparr>)"
  "\<forall>v \<in> set (mem_versions (srv_store (demoSrv demo1)) ''bkt'' ''k''). \<forall>i. obj_VSeq v \<le> env_clock demoOpen i"
proof -
  show "memory_wf (srv_store (demoSrv demo1))" using mem_reachable_wf [OF demo_reachable(1)] by (simp add: demoSrv_def)
  show "GetBucket (srv_store (demoSrv demo1)) ''bkt'' = Inr (demoBucket\<lparr>bkt_CreatedAt := 5\<rparr>)" using demo1_get by (simp add: demoSrv_def)
  have "mem_versions demo1 ''bkt'' ''k'' = []" by code_simp
  then show "\<forall>v \<in> set (mem_versions (srv_store (demoSrv demo1)) ''bkt'' ''k''). \<forall>i. obj_VSeq v \<le> env_clock demoOpen i"
    by (simp add: demoSrv_def)
qed

lemma demo_plain:
  assumes "Header_Get h ''x-amz-server-side-encryption'' = []"
  shows "plainUpload demoOpen (demoPut h body) (demoBucket\<lparr>bkt_CreatedAt := 5\<rparr>)"
proof -
  have "\<not> bkt_ACT (demoBucket\<lparr>bkt_CreatedAt := 5\<rparr>)" "bkt_Encryption (demoBucket\<lparr>bkt_CreatedAt := 5\<rparr>) = []" by code_simp+
  with assms show ?thesis by (simp add: plainUpload_def demoOpen_def demoConfig_def)
qed


definition demoChunked :: http_header where
  "demoChunked = [(''x-amz-content-sha256'', [''STREAMING-UNSIGNED-PAYLOAD-TRAILER'']), (''x-amz-decoded-content-length'', [''0''])]"

definition demoChunks :: string where
  "demoChunks = encodeBody demoCrypto None [''hello''] []"

lemma demoChunked_header: "Header_Get demoChunked k = (if strings_ToLower k = ''x-amz-content-sha256'' then ''STREAMING-UNSIGNED-PAYLOAD-TRAILER''
    else if strings_ToLower k = ''x-amz-decoded-content-length'' then ''0'' else [])"
  by (simp add: Header_Get_def Header_Values_def demoChunked_def)

lemma demoChunked_body:
  "readBody demoOpen (demoPut demoChunked demoChunks) =
     Inr \<lparr>rd_data = ''hello'', rd_failed = False, rd_err = None, rd_trailer = [], rd_length = 0\<rparr>"
proof -
  let ?c = "NewChunkedReader demoChunks [] None"
  have "readAll demoCrypto (\<lambda>_. 512) 0 ?c = decodeChunks demoCrypto ?c" by (rule readAll_decode) (simp_all add: NewChunkedReader_def)
  also have "\<dots> = (concat [''hello''], None, setTrailers [] [])"
    unfolding demoChunks_def by (rule decodeChunks_encoded [OF demo_mac]) (simp_all add: NewChunkedReader_def)
  finally have all: "readAll demoCrypto (\<lambda>_. 512) 0 ?c = (''hello'', None, [])" by (simp add: setTrailers_def)
  have low: "strings_ToLower ''X-Amz-Content-Sha256'' = ''x-amz-content-sha256''"
    "strings_ToLower ''x-amz-decoded-content-length'' = ''x-amz-decoded-content-length''" "strconv_ParseInt 10 ''0'' = Some 0"
    "HasPrefix ''STREAMING-UNSIGNED-PAYLOAD-TRAILER'' ''STREAMING-''" "\<not> HasPrefix ''STREAMING-UNSIGNED-PAYLOAD-TRAILER'' ''STREAMING-AWS4-HMAC-SHA256''"
    by code_simp+
  have "env_crypto demoOpen = demoCrypto" "env_reads demoOpen = (\<lambda>_. 512)" by (simp_all add: demoOpen_def demoEnv_def)
  then show ?thesis by (simp add: readBody_def isAwsChunked_def demoChunked_header low all Let_def)
qed

theorem zero_decoded_length_loses_body_witness:
  "\<exists>s3. handleGetObject demoOpen demoGet ''bkt'' ''k'' True
     (snd (handlePutObject demoOpen (demoPut demoChunked demoChunks) ''bkt'' ''k'' (demoSrv demo1))) = (Inr (200, NoBody), s3)"
proof -
  have low: "strings_ToLower ''X-Amz-Content-Sha256'' = ''x-amz-content-sha256''" by code_simp
  have ck: "isAwsChunked (demoPut demoChunked demoChunks)" by (simp add: isAwsChunked_def demoChunked_header low HasPrefix_def)
  have h: "Header_Get demoChunked k = []" if "k \<in> {''If-Match'', ''If-None-Match'', ''x-swarm-postage-batch-id'', ''x-amz-server-side-encryption'',
      ''x-amz-server-side-encryption-customer-algorithm'', ''x-amz-server-side-encryption-customer-key'', ''x-amz-trailer'',
      ''x-amz-sdk-checksum-algorithm'', ''Content-MD5'', ''x-amz-tagging''}" for k
    using that unfolding demoChunked_header by (elim insertE emptyE) (simp, code_simp)+
  have "length (Header_Get demoChunked ''X-Amz-Content-Sha256'') \<noteq> 64" by (simp add: demoChunked_header low)
  from demoPut_ok [OF h this demoChunked_body] obtain r s1 where
    put: "handlePutObject demoOpen (demoPut demoChunked demoChunks) ''bkt'' ''k'' (demoSrv demo1) = (Inr r, s1)" by auto
  have "plainUpload demoOpen (demoPut demoChunked demoChunks) (demoBucket\<lparr>bkt_CreatedAt := 5\<rparr>)" by (rule demo_plain) (rule h, simp)
  from zero_decoded_length_loses_body [OF demo1_put(1,2) this demo1_put(3) ck demoChunked_body _ put refl demoGet_fields] show ?thesis
    by (simp add: put)
qed

end
