(* ===== verification/Fake_Bee.thy ===== *)
theory Fake_Bee
  imports Stamps Objects
begin

text \<open>
  The stand-in for a Bee node of the integration tests, cmd/fakebee: its state, one definition for each handler, the mux in
  front of them, and a client of internal/bee that talks to it. It is a node one can read, so the assumptions about a node
  that other theories make are checked here on a real one: what is uploaded is served again, whole and in ranges.
\<close>

section \<open>State\<close>

text \<open>A bought batch, and what the handlers of the process share. The balances are in PLUR.\<close>

record batchState =
  bs_Depth :: int
  bs_TTL :: int

record FakeBee =
  fb_blobs :: "(string, string) gomap"
  fb_actRefs :: "(string, string) gomap"
  fb_histories :: "(string, bool) gomap"
  fb_grantees :: "(string, string list) gomap"
  fb_bought :: "(string, batchState) gomap"
  fb_chequebook :: int
  fb_wallet :: int

definition newFakeBee :: FakeBee where
  "newFakeBee = \<lparr>fb_blobs = [], fb_actRefs = [], fb_histories = [], fb_grantees = [], fb_bought = [],
     fb_chequebook = 5 * 10 ^ 15, fb_wallet = 100 * 10 ^ 16\<rparr>"

definition fakePublisherKey :: string where
  "fakePublisherKey = ''02fa4ebeefa4ebeefa4ebeefa4ebeefa4ebeefa4ebeefa4ebeefa4ebeefa4eb''"

definition chainPrice :: int where "chainPrice = 24000"

text \<open>
  The libraries: the hash, the JSON that the node writes (from the values it puts into the maps) and reads, and the
  body of an answer with several ranges.
\<close>

record node_lib =
  nl_sha256 :: "string \<Rightarrow> string"
  nl_reference :: "string \<Rightarrow> string"
  nl_grantee :: "string \<Rightarrow> string \<Rightarrow> string"
  nl_keys :: "string list \<Rightarrow> string"
  nl_addresses :: "string \<Rightarrow> string"
  nl_stamp :: "Stamp \<Rightarrow> string"
  nl_stamps :: "Stamp list \<Rightarrow> string"
  nl_batchID :: "string \<Rightarrow> string"
  nl_decGrantees :: "string \<Rightarrow> string list option"
  nl_decPatch :: "string \<Rightarrow> (string list \<times> string list) option"
  nl_multipart :: "(int \<times> int) list \<Rightarrow> string \<Rightarrow> string"

text \<open>A request as a handler sees it; \<open>nr_Path\<close> are the segments of the path, unescaped.\<close>

record node_req =
  nr_Method :: string
  nr_Path :: "string list"
  nr_Query :: "(string \<times> string) list"
  nr_Header :: http_header
  nr_Body :: string
  nr_BodyErr :: bool

text \<open>An answer. \<open>http.StatusText\<close> gives the text of its status.\<close>

definition http_StatusText :: "int \<Rightarrow> string" where
  "http_StatusText code =
     (case map_of [(200, ''OK''), (201, ''Created''), (202, ''Accepted''), (206, ''Partial Content''), (400, ''Bad Request''),
        (402, ''Payment Required''), (404, ''Not Found''), (405, ''Method Not Allowed''),
        (416, ''Requested Range Not Satisfiable''), (500, ''Internal Server Error'')] code of None \<Rightarrow> [] | Some t \<Rightarrow> t)"

definition answer :: "int \<Rightarrow> http_header \<Rightarrow> string \<Rightarrow> http_resp" where
  "answer code h body = \<lparr>hp_Status = code, hp_StatusText = http_StatusText code, hp_Header = h, hp_Body = body, hp_Broken = False\<rparr>"

text \<open>Random bytes, in hex: \<open>rnd i\<close> are the bytes of the i-th reading of a request.\<close>

definition newHex :: "(nat \<Rightarrow> string) \<Rightarrow> nat \<Rightarrow> nat \<Rightarrow> string" where
  "newHex rnd i n = hex_EncodeToString (take n (rnd i))"

section \<open>Byte ranges\<close>

text \<open>
  \<open>http.ServeContent\<close> of bytes without a modification time or an ETag: the Range header alone decides. The
  conditional headers, which the client of the gateway never sends, and the sniffed Content-Type are left out.
\<close>

datatype parsed_range = BadRange | NoOverlap | ByteRange int int

definition parseOneRange :: "int \<Rightarrow> string \<Rightarrow> parsed_range" where
  "parseOneRange sz ra =
     (case strings_Cut ra ''-'' of (first, lst, ok) \<Rightarrow>
      let first = strings_TrimSpace first; lst = strings_TrimSpace lst in
      if \<not> ok then BadRange
      else if first = [] then
        (if lst = [] \<or> HasPrefix lst ''-'' then BadRange
         else case strconv_ParseInt 10 lst of
           None \<Rightarrow> BadRange
         | Some i \<Rightarrow> if i < 0 then BadRange else let i = min i sz in ByteRange (sz - i) i)
      else
        (case strconv_ParseInt 10 first of
           None \<Rightarrow> BadRange
         | Some st \<Rightarrow>
             if st < 0 then BadRange
             else if sz \<le> st then NoOverlap
             else if lst = [] then ByteRange st (sz - st)
             else (case strconv_ParseInt 10 lst of
                     None \<Rightarrow> BadRange
                   | Some en \<Rightarrow> if en < st then BadRange else let en = (if sz \<le> en then sz - 1 else en) in ByteRange st (en - st + 1))))"

text \<open>The ranges of the header and whether one lies behind the end; \<open>None\<close> when it is malformed.\<close>

fun parseRangeList :: "int \<Rightarrow> string list \<Rightarrow> ((int \<times> int) list \<times> bool) option" where
  "parseRangeList sz [] = Some ([], False)"
| "parseRangeList sz (ra # ras) =
     (let ra = strings_TrimSpace ra in
      if ra = [] then parseRangeList sz ras
      else case parseOneRange sz ra of
        BadRange \<Rightarrow> None
      | NoOverlap \<Rightarrow> map_option (\<lambda>(rs, _). (rs, True)) (parseRangeList sz ras)
      | ByteRange st n \<Rightarrow> map_option (\<lambda>(rs, no). ((st, n) # rs, no)) (parseRangeList sz ras))"

definition slice :: "int \<times> int \<Rightarrow> string \<Rightarrow> string" where
  "slice r data = take (nat (snd r)) (drop (nat (fst r)) data)"

definition serveContent :: "node_lib \<Rightarrow> http_header \<Rightarrow> string \<Rightarrow> http_resp" where
  "serveContent L h data =
     (let rng = Header_Get h ''Range''; sz = int (length data); full = answer 200 [] data;
          unsatisfiable = (\<lambda>rh msg. answer 416 rh (msg @ [CHR 10])) in
      if rng = [] then full
      else if \<not> HasPrefix rng ''bytes='' then unsatisfiable [] ''invalid range''
      else
        (case parseRangeList sz (strings_Split (drop 6 rng) CHR '','') of
           None \<Rightarrow> unsatisfiable [] ''invalid range''
         | Some (rs, no) \<Rightarrow>
             if no \<and> rs = [] then
               (if sz = 0 then full else unsatisfiable [(''content-range'', [''bytes */'' @ strconv_Itoa sz])]
                     ''invalid range: failed to overlap'')
             else if rs = [] \<or> sz < sum_list (map snd rs) then full
             else if length rs = 1 then
               (let (st, n) = rs ! 0 in
                answer 206 [(''content-range'', [''bytes '' @ strconv_Itoa st @ ''-'' @ strconv_Itoa (st + n - 1) @ ''/'' @ strconv_Itoa sz])]
                  (slice (st, n) data))
             else answer 206 [] (nl_multipart L rs data)))"

section \<open>The handlers\<close>

text \<open>
  One definition for each handler of the mux: the answer and the state after it. A handler takes its lock around
  what it does with the state, so a request is one step.
\<close>

definition dq :: "string \<Rightarrow> string" where
  "dq s = [CHR 0x22] @ s @ [CHR 0x22]"

definition nodeError :: "int \<Rightarrow> string \<Rightarrow> http_resp" where
  "nodeError code msg =
     answer code [] (''{'' @ dq ''code'' @ '':'' @ strconv_Itoa code @ '','' @ dq ''message'' @ '':'' @ dq msg @ ''}'')"

definition plainRef :: "node_lib \<Rightarrow> node_req \<Rightarrow> string" where
  "plainRef L r =
     (let sum = hex_EncodeToString (nl_sha256 L (nr_Body r)) in
      if Header_Get (nr_Header r) ''swarm-encrypt'' = ''true'' then sum @ sum else sum)"

definition postBytes :: "node_lib \<Rightarrow> (nat \<Rightarrow> string) \<Rightarrow> node_req \<Rightarrow> FakeBee \<Rightarrow> http_resp \<times> FakeBee" where
  "postBytes L rnd r s =
     (if Header_Get (nr_Header r) ''swarm-postage-batch-id'' = [] then (nodeError 402 ''batch not found'', s)
      else if nr_BodyErr r then (answer 500 [] [], s)
      else if Header_Get (nr_Header r) ''swarm-act'' = ''true'' then
        (let given = Header_Get (nr_Header r) ''swarm-act-history-address'';
             history = (if given = [] then newHex rnd 0 32 else given);
             ref = newHex rnd 1 64 in
         if given \<noteq> [] \<and> gm_get (fb_histories s) given \<noteq> Some True then (nodeError 400 ''unknown act history'', s)
         else (answer 201 [(''swarm-act-history-address'', [history])] (nl_reference L ref),
               s\<lparr>fb_histories := gm_put history True (fb_histories s), fb_actRefs := gm_put ref history (fb_actRefs s),
                 fb_blobs := gm_put ref (nr_Body r) (fb_blobs s)\<rparr>))
      else (answer 201 [] (nl_reference L (plainRef L r)), s\<lparr>fb_blobs := gm_put (plainRef L r) (nr_Body r) (fb_blobs s)\<rparr>))"

definition getBytes :: "node_lib \<Rightarrow> string \<Rightarrow> node_req \<Rightarrow> FakeBee \<Rightarrow> http_resp" where
  "getBytes L ref r s =
     (case gm_get (fb_blobs s) ref of
        None \<Rightarrow> nodeError 404 ''not found''
      | Some data \<Rightarrow>
          if (case gm_get (fb_actRefs s) ref of
                None \<Rightarrow> False
              | Some history \<Rightarrow> Header_Get (nr_Header r) ''swarm-act-history-address'' \<noteq> history \<or>
                  Header_Get (nr_Header r) ''swarm-act-publisher'' \<noteq> fakePublisherKey)
          then nodeError 404 ''act credentials required''
          else serveContent L (nr_Header r) data)"

definition getAddresses :: "node_lib \<Rightarrow> http_resp" where
  "getAddresses L = answer 200 [] (nl_addresses L fakePublisherKey)"

definition postGrantee :: "node_lib \<Rightarrow> (nat \<Rightarrow> string) \<Rightarrow> node_req \<Rightarrow> FakeBee \<Rightarrow> http_resp \<times> FakeBee" where
  "postGrantee L rnd r s =
     (if Header_Get (nr_Header r) ''swarm-postage-batch-id'' = [] then (nodeError 402 ''batch not found'', s)
      else (case nl_decGrantees L (nr_Body r) of
              None \<Rightarrow> (answer 400 [] [], s)
            | Some ks \<Rightarrow>
                if ks = [] then (answer 400 [] [], s)
                else (let ref = newHex rnd 0 64; history = newHex rnd 1 32 in
                  (answer 201 [] (nl_grantee L ref history),
                   s\<lparr>fb_grantees := gm_put ref ks (fb_grantees s), fb_histories := gm_put history True (fb_histories s)\<rparr>))))"

definition getGrantee :: "node_lib \<Rightarrow> string \<Rightarrow> FakeBee \<Rightarrow> http_resp" where
  "getGrantee L ref s = (case gm_get (fb_grantees s) ref of None \<Rightarrow> answer 404 [] [] | Some ks \<Rightarrow> answer 200 [] (nl_keys L ks))"

text \<open>The list after a change: the old keys that are not revoked, then the added ones that are not.\<close>

definition patchedKeys :: "string list \<Rightarrow> string list \<Rightarrow> string list \<Rightarrow> string list" where
  "patchedKeys old add revoke = filter (\<lambda>k. k \<notin> set revoke) old @ filter (\<lambda>k. k \<notin> set revoke) add"

definition patchGrantee :: "node_lib \<Rightarrow> (nat \<Rightarrow> string) \<Rightarrow> string \<Rightarrow> node_req \<Rightarrow> FakeBee \<Rightarrow> http_resp \<times> FakeBee" where
  "patchGrantee L rnd ref r s =
     (if Header_Get (nr_Header r) ''swarm-act-history-address'' = [] then (answer 400 [] [], s)
      else (case nl_decPatch L (nr_Body r) of
              None \<Rightarrow> (answer 400 [] [], s)
            | Some (add, revoke) \<Rightarrow>
                (case gm_get (fb_grantees s) ref of
                   None \<Rightarrow> (answer 404 [] [], s)
                 | Some old \<Rightarrow>
                     (let ref' = newHex rnd 0 64; history = newHex rnd 1 32 in
                      (answer 200 [] (nl_grantee L ref' history),
                       s\<lparr>fb_grantees := gm_put ref' (patchedKeys old add revoke) (fb_grantees s),
                         fb_histories := gm_put history True (fb_histories s)\<rparr>)))))"

definition getHealth :: http_resp where
  "getHealth = answer 200 [(''content-type'', [''application/json''])]
     (''{'' @ dq ''status'' @ '':'' @ dq ''ok'' @ '','' @ dq ''version'' @ '':'' @ dq ''fakebee'' @ ''}'')"

definition stampJSON :: "string \<Rightarrow> batchState option \<Rightarrow> Stamp" where
  "stampJSON batch b =
     \<lparr>st_BatchID = batch, st_Exists = True, st_Usable = True, st_Utilization = 0, st_UtilizationRatio = 0,
      st_Depth = (case b of None \<Rightarrow> 24 | Some b \<Rightarrow> bs_Depth b), st_BucketDepth = 16, st_Amount = ''100000000000'',
      st_BatchTTL = (case b of None \<Rightarrow> 86400 * 365 | Some b \<Rightarrow> bs_TTL b), st_ImmutableFlag = False, st_Label = []\<rparr>"

definition getStamps :: "node_lib \<Rightarrow> FakeBee \<Rightarrow> http_resp" where
  "getStamps L s = answer 200 [] (nl_stamps L (map (\<lambda>(batch, b). stampJSON batch (Some b)) (fb_bought s)))"

definition getStamp :: "node_lib \<Rightarrow> string \<Rightarrow> FakeBee \<Rightarrow> http_resp" where
  "getStamp L batch s = answer 200 [] (nl_stamp L (stampJSON batch (gm_get (fb_bought s) batch)))"

definition getChainstate :: http_resp where
  "getChainstate = answer 200 [] (''{'' @ dq ''chainTip'' @ '':1,'' @ dq ''block'' @ '':1,'' @ dq ''totalAmount'' @ '':'' @ dq ''0'' @
     '','' @ dq ''currentPrice'' @ '':'' @ dq (strconv_Itoa chainPrice) @ ''}'')"

text \<open>\<open>big.Int.SetString\<close> in base 10, and the number that \<open>Sscanf\<close> with the verb \<open>%d\<close> finds at the start of a text.\<close>

definition big_SetString :: "string \<Rightarrow> int option" where
  "big_SetString s =
     (let neg = HasPrefix s ''-''; ds = (if neg \<or> HasPrefix s ''+'' then tl s else s) in
      if ds = [] then None else map_option (\<lambda>n. if neg then - n else n) (parse_digits 10 0 ds))"

definition scanDecimal :: "string \<Rightarrow> int" where
  "scanDecimal s =
     (let s = dropWhile (\<lambda>c. c = CHR '' '') s;
          sgn = (if HasPrefix s ''-'' \<or> HasPrefix s ''+'' then 1 else 0);
          ds = takeWhile (\<lambda>c. 48 \<le> (of_char c :: nat) \<and> (of_char c :: nat) \<le> 57) (drop sgn s) in
      case strconv_ParseInt 10 (take sgn s @ ds) of None \<Rightarrow> 0 | Some n \<Rightarrow> n)"

text \<open>How long an amount per chunk lasts: seconds, in 64 bits.\<close>

definition amountTTL :: "int \<Rightarrow> int" where
  "amountTTL amt = wrap64 (wrap64 (amt div chainPrice) * 5)"

definition patchTopup :: "node_lib \<Rightarrow> string \<Rightarrow> string \<Rightarrow> FakeBee \<Rightarrow> http_resp \<times> FakeBee" where
  "patchTopup L batch amount s =
     (case (big_SetString amount, gm_get (fb_bought s) batch) of
        (Some amt, Some b) \<Rightarrow>
          (answer 202 [] (nl_batchID L batch),
           s\<lparr>fb_bought := gm_put batch (b\<lparr>bs_TTL := wrap64 (bs_TTL b + amountTTL amt)\<rparr>) (fb_bought s)\<rparr>)
      | _ \<Rightarrow> (nodeError 404 ''issuer does not exist'', s))"

definition patchDilute :: "node_lib \<Rightarrow> string \<Rightarrow> string \<Rightarrow> FakeBee \<Rightarrow> http_resp \<times> FakeBee" where
  "patchDilute L batch newDepth s =
     (let depth = scanDecimal newDepth in
      case gm_get (fb_bought s) batch of
        None \<Rightarrow> (answer 400 [] [], s)
      | Some b \<Rightarrow>
          if depth \<le> bs_Depth b then (answer 400 [] [], s)
          else (answer 202 [] (nl_batchID L batch),
                s\<lparr>fb_bought := gm_put batch \<lparr>bs_Depth = depth, bs_TTL = bs_TTL b div 2 ^ nat (depth - bs_Depth b)\<rparr> (fb_bought s)\<rparr>))"

definition getChequebook :: "FakeBee \<Rightarrow> http_resp" where
  "getChequebook s = answer 200 [] (''{'' @ dq ''totalBalance'' @ '':'' @ dq (strconv_Itoa (fb_chequebook s)) @ '','' @
     dq ''availableBalance'' @ '':'' @ dq (strconv_Itoa (fb_chequebook s)) @ ''}'')"

definition getWallet :: "FakeBee \<Rightarrow> http_resp" where
  "getWallet s = answer 200 [] (''{'' @ dq ''bzzBalance'' @ '':'' @ dq (strconv_Itoa (fb_wallet s)) @ '','' @
     dq ''nativeTokenBalance'' @ '':'' @ dq ''1000000000000000000'' @ ''}'')"

definition postDeposit :: "string \<Rightarrow> FakeBee \<Rightarrow> http_resp \<times> FakeBee" where
  "postDeposit amount s =
     (case big_SetString amount of
        None \<Rightarrow> (answer 400 [] [], s)
      | Some amt \<Rightarrow>
          if amt \<le> 0 then (answer 400 [] [], s)
          else (answer 200 [] (''{'' @ dq ''transactionHash'' @ '':'' @ dq ''0xfa4ebee'' @ ''}''),
                s\<lparr>fb_wallet := fb_wallet s - amt, fb_chequebook := fb_chequebook s + amt\<rparr>))"

definition postStamps :: "node_lib \<Rightarrow> (nat \<Rightarrow> string) \<Rightarrow> string \<Rightarrow> string \<Rightarrow> FakeBee \<Rightarrow> http_resp \<times> FakeBee" where
  "postStamps L rnd amount depth s =
     (let batch = newHex rnd 0 32;
          ttl = (case big_SetString amount of None \<Rightarrow> 86400 * 365 | Some amt \<Rightarrow> amountTTL amt) in
      (answer 201 [] (nl_batchID L batch),
       s\<lparr>fb_bought := gm_put batch \<lparr>bs_Depth = scanDecimal depth, bs_TTL = ttl\<rparr> (fb_bought s)\<rparr>))"

section \<open>The mux\<close>

datatype endpoint =
    PostBytes | GetBytes string | GetAddresses | PostGrantee | GetGrantee string | PatchGrantee string | GetHealth
  | GetStamps | GetStamp string | GetChainstate | PatchTopup string string | PatchDilute string string
  | GetChequebook | GetWallet | PostDeposit | PostStamps string string

text \<open>
  The patterns. A GET pattern takes HEAD as well; a wildcard takes one segment that is not empty. The pattern with the
  literal segments is the one that wins, and no two of the others meet.
\<close>

definition findEndpoint :: "string \<Rightarrow> string list \<Rightarrow> endpoint option" where
  "findEndpoint m p =
     (if \<exists>x \<in> set p. x = [] then None
      else if m = ''POST'' then
        (if p = [''bytes''] then Some PostBytes
         else if p = [''grantee''] then Some PostGrantee
         else if p = [''chequebook'', ''deposit''] then Some PostDeposit
         else if length p = 3 \<and> p ! 0 = ''stamps'' then Some (PostStamps (p ! 1) (p ! 2))
         else None)
      else if m = ''GET'' \<or> m = ''HEAD'' then
        (if p = [''addresses''] then Some GetAddresses
         else if p = [''health''] then Some GetHealth
         else if p = [''stamps''] then Some GetStamps
         else if p = [''chainstate''] then Some GetChainstate
         else if p = [''chequebook'', ''balance''] then Some GetChequebook
         else if p = [''wallet''] then Some GetWallet
         else if length p = 2 \<and> p ! 0 = ''bytes'' then Some (GetBytes (p ! 1))
         else if length p = 2 \<and> p ! 0 = ''grantee'' then Some (GetGrantee (p ! 1))
         else if length p = 2 \<and> p ! 0 = ''stamps'' then Some (GetStamp (p ! 1))
         else None)
      else if m = ''PATCH'' then
        (if length p = 2 \<and> p ! 0 = ''grantee'' then Some (PatchGrantee (p ! 1))
         else if length p = 4 \<and> p ! 0 = ''stamps'' \<and> p ! 1 = ''topup'' then Some (PatchTopup (p ! 2) (p ! 3))
         else if length p = 4 \<and> p ! 0 = ''stamps'' \<and> p ! 1 = ''dilute'' then Some (PatchDilute (p ! 2) (p ! 3))
         else None)
      else None)"

definition serveEndpoint ::
  "node_lib \<Rightarrow> (nat \<Rightarrow> string) \<Rightarrow> node_req \<Rightarrow> FakeBee \<Rightarrow> endpoint \<Rightarrow> http_resp \<times> FakeBee" where
  "serveEndpoint L rnd r s e =
     (case e of
        PostBytes \<Rightarrow> postBytes L rnd r s
      | GetBytes ref \<Rightarrow> (getBytes L ref r s, s)
      | GetAddresses \<Rightarrow> (getAddresses L, s)
      | PostGrantee \<Rightarrow> postGrantee L rnd r s
      | GetGrantee ref \<Rightarrow> (getGrantee L ref s, s)
      | PatchGrantee ref \<Rightarrow> patchGrantee L rnd ref r s
      | GetHealth \<Rightarrow> (getHealth, s)
      | GetStamps \<Rightarrow> (getStamps L s, s)
      | GetStamp batch \<Rightarrow> (getStamp L batch s, s)
      | GetChainstate \<Rightarrow> (getChainstate, s)
      | PatchTopup batch amount \<Rightarrow> patchTopup L batch amount s
      | PatchDilute batch depth \<Rightarrow> patchDilute L batch depth s
      | GetChequebook \<Rightarrow> (getChequebook s, s)
      | GetWallet \<Rightarrow> (getWallet s, s)
      | PostDeposit \<Rightarrow> postDeposit (case map_of (nr_Query r) ''amount'' of None \<Rightarrow> [] | Some a \<Rightarrow> a) s
      | PostStamps amount depth \<Rightarrow> postStamps L rnd amount depth s)"

definition serveNode :: "node_lib \<Rightarrow> (nat \<Rightarrow> string) \<Rightarrow> node_req \<Rightarrow> FakeBee \<Rightarrow> http_resp \<times> FakeBee" where
  "serveNode L rnd r s =
     (case findEndpoint (nr_Method r) (nr_Path r) of
        Some e \<Rightarrow> (case serveEndpoint L rnd r s e of (resp, s) \<Rightarrow>
                    (if nr_Method r = ''HEAD'' then resp\<lparr>hp_Body := []\<rparr> else resp, s))
      | None \<Rightarrow>
          (if \<exists>m \<in> {''GET'', ''POST'', ''PATCH''}. findEndpoint m (nr_Path r) \<noteq> None
           then (answer 405 [] (''Method Not Allowed'' @ [CHR 10]), s)
           else (answer 404 [] (''404 page not found'' @ [CHR 10]), s)))"

section \<open>The client's side\<close>

text \<open>
  The request of the client as the node receives it: the path behind the base address, cut into segments and
  unescaped, and the pairs of the query.
\<close>

definition unescapeSegment :: "string \<Rightarrow> string" where
  "unescapeSegment seg = (case url_PathUnescape seg of None \<Rightarrow> seg | Some t \<Rightarrow> t)"

definition queryPair :: "string \<Rightarrow> (string \<times> string) list" where
  "queryPair kv =
     (case strings_Cut kv ''='' of (k, v, _) \<Rightarrow>
        (case (url_QueryUnescape k, url_QueryUnescape v) of (Some k, Some v) \<Rightarrow> [(k, v)] | _ \<Rightarrow> []))"

definition deliver :: "string \<Rightarrow> http_req \<Rightarrow> node_req" where
  "deliver base req =
     (case strings_Cut (strings_TrimPrefix (hr_URL req) base) ''?'' of (path, query, _) \<Rightarrow>
        \<lparr>nr_Method = hr_Method req, nr_Path = map unescapeSegment (tl (strings_Split path CHR ''/'')),
         nr_Query = concat (map queryPair (strings_Split query CHR ''&'')),
         nr_Header = hr_Header req, nr_Body = hr_Body req, nr_BodyErr = hr_BodyErr req\<rparr>)"

text \<open>A client of the node in a state.\<close>

definition fakeClient :: "node_lib \<Rightarrow> (nat \<Rightarrow> string) \<Rightarrow> bee_json \<Rightarrow> string \<Rightarrow> FakeBee \<Rightarrow> Client" where
  "fakeClient L rnd js base s = \<lparr>cl_base = base, cl_do = (\<lambda>req. Inr (fst (serveNode L rnd (deliver base req) s))), cl_json = js\<rparr>"

text \<open>The state after a request of the client, and after a sequence of requests of any origin.\<close>

definition afterCall :: "node_lib \<Rightarrow> (nat \<Rightarrow> string) \<Rightarrow> string \<Rightarrow> http_req \<Rightarrow> FakeBee \<Rightarrow> FakeBee" where
  "afterCall L rnd base req s = snd (serveNode L rnd (deliver base req) s)"

fun runNode :: "node_lib \<Rightarrow> ((nat \<Rightarrow> string) \<times> node_req) list \<Rightarrow> FakeBee \<Rightarrow> FakeBee" where
  "runNode L [] s = s"
| "runNode L ((rnd, r) # rs) s = runNode L rs (snd (serveNode L rnd r s))"

section \<open>What the client's requests reach\<close>

definition plainSegment :: "string \<Rightarrow> bool" where
  "plainSegment s \<longleftrightarrow> s \<noteq> [] \<and> (\<forall>c \<in> set s. c \<noteq> CHR ''/'' \<and> c \<noteq> CHR ''?'' \<and> c \<noteq> CHR ''%'')"

lemma unescape_plain: "CHR ''%'' \<notin> set s \<Longrightarrow> url_unescape False s = Some s"
  by (induction s) auto

lemma unescapeSegment_plain: "\<forall>c \<in> set s. c \<noteq> CHR ''%'' \<Longrightarrow> unescapeSegment s = s"
proof -
  assume "\<forall>c \<in> set s. c \<noteq> CHR ''%''"
  then have "CHR ''%'' \<notin> set s" by blast
  then have "url_PathUnescape s = Some s" unfolding url_PathUnescape_def by (rule unescape_plain)
  then show ?thesis by (simp add: unescapeSegment_def)
qed

lemma strings_Index_single: "strings_Index s [c] = (if c \<in> set s then Some (length (takeWhile (\<lambda>x. x \<noteq> c) s)) else None)"
  by (induction s) (auto simp: HasPrefix_def)

lemma strings_Cut_none: "c \<notin> set s \<Longrightarrow> strings_Cut s [c] = (s, [], False)"
  by (simp add: strings_Cut_def strings_Index_single)

text \<open>A path of plain segments arrives as those segments.\<close>

fun pathOf :: "string list \<Rightarrow> string" where
  "pathOf [] = []"
| "pathOf (s # ss) = CHR ''/'' # s @ pathOf ss"

lemma Split_pathOf: "\<forall>s \<in> set p. plainSegment s \<Longrightarrow> strings_Split (pathOf p) CHR ''/'' = [] # p"
proof (induction p)
  case (Cons s p)
  then have s: "CHR ''/'' \<notin> set s" and ih: "strings_Split (pathOf p) CHR ''/'' = [] # p" by (auto simp: plainSegment_def)
  show ?case
  proof (cases p)
    case Nil
    then show ?thesis using s by (simp add: strings_Split_single)
  next
    case (Cons t q)
    then have "pathOf p = CHR ''/'' # tl (pathOf p)" by simp
    moreover from this ih have "strings_Split (tl (pathOf p)) CHR ''/'' = p"
      by (metis (full_types) list.inject strings_Split.simps(2))
    ultimately show ?thesis using s strings_Split_append [of "CHR ''/''" s "tl (pathOf p)"] by (metis pathOf.simps(2) strings_Split.simps(2))
  qed
qed simp

lemma pathOf_chars: "\<forall>s \<in> set p. plainSegment s \<Longrightarrow> c \<in> set (pathOf p) \<Longrightarrow> c \<noteq> CHR ''?'' \<and> c \<noteq> CHR ''%''"
  by (induction p) (auto simp: plainSegment_def)

lemma deliver_path:
  assumes "hr_URL req = base @ pathOf p" "\<forall>s \<in> set p. plainSegment s"
  shows "nr_Path (deliver base req) = p"
proof -
  have "CHR ''?'' \<notin> set (pathOf p)" using pathOf_chars [OF assms(2)] by blast
  then have "strings_Cut (pathOf p) ''?'' = (pathOf p, [], False)" by (rule strings_Cut_none)
  moreover have "map unescapeSegment p = p"
    using assms(2) by (intro map_idI unescapeSegment_plain) (auto simp: plainSegment_def)
  ultimately show ?thesis using Split_pathOf [OF assms(2)] assms(1) by (simp add: deliver_def)
qed

lemma deliver_sel:
  "nr_Method (deliver base req) = hr_Method req" "nr_Header (deliver base req) = hr_Header req"
  "nr_Body (deliver base req) = hr_Body req" "nr_BodyErr (deliver base req) = hr_BodyErr req"
  by (simp_all add: deliver_def split: prod.splits)

text \<open>A request of the client runs the handler its path names.\<close>

lemma serveNode_route:
  assumes "hr_URL req = base @ pathOf p" "\<forall>s \<in> set p. plainSegment s" "findEndpoint (hr_Method req) p = Some e" "hr_Method req \<noteq> ''HEAD''"
  shows "serveNode L rnd (deliver base req) s = serveEndpoint L rnd (deliver base req) s e"
  unfolding serveNode_def deliver_path [OF assms(1,2)] deliver_sel assms(3) using assms(4) by (simp split: prod.split)

lemma call_fakeClient:
  "call (fakeClient L rnd js base s) oks req =
     (let resp = fst (serveNode L rnd (deliver base req) s) in
      if hp_Status resp \<in> set oks then Inr resp else Inl (newStatusError (fakeClient L rnd js base s) resp))"
  by (simp add: call_def fakeClient_def Let_def)

lemma cl_fakeClient [simp]: "cl_base (fakeClient L rnd js base s) = base" "cl_json (fakeClient L rnd js base s) = js"
  by (simp_all add: fakeClient_def)

text \<open>Hexadecimal text is a plain segment.\<close>

definition hexText :: "string \<Rightarrow> bool" where
  "hexText s \<longleftrightarrow> (\<forall>c \<in> set s. \<exists>n < 16. c = hex_digit n)"

lemma hexText_append [simp]: "hexText (s @ t) \<longleftrightarrow> hexText s \<and> hexText t"
  by (auto simp: hexText_def)

lemma hexText_Encode [simp]: "hexText (hex_EncodeToString s)"
proof (induction s)
  case (Cons c s)
  have "(of_char c :: nat) < 256" by simp
  then have "(of_char c :: nat) div 16 < 16" "(of_char c :: nat) mod 16 < 16" by linarith simp
  then have "\<exists>n < 16. hex_digit (of_char c div 16) = hex_digit n" "\<exists>n < 16. hex_digit (of_char c mod 16) = hex_digit n" by blast+
  with Cons show ?case unfolding hexText_def by (simp add: Let_def)
qed (simp add: hexText_def)

lemma hexText_newHex [simp]: "hexText (newHex rnd i n)"
  by (simp add: newHex_def)

lemma hexText_plainRef [simp]: "hexText (plainRef L r)"
  by (simp add: plainRef_def Let_def)

lemma hex_digit_plain: "n < 16 \<Longrightarrow> hex_digit n \<noteq> CHR ''/'' \<and> hex_digit n \<noteq> CHR ''?'' \<and> hex_digit n \<noteq> CHR ''%''"
proof -
  assume "n < 16"
  then have "n \<in> set [0..<16]" by simp
  moreover have "\<forall>n \<in> set [0..<16]. hex_digit n \<noteq> CHR ''/'' \<and> hex_digit n \<noteq> CHR ''?'' \<and> hex_digit n \<noteq> CHR ''%''" by code_simp
  ultimately show ?thesis by blast
qed

lemma hexText_plainSegment: "hexText s \<Longrightarrow> s \<noteq> [] \<Longrightarrow> plainSegment s"
proof -
  assume h: "hexText s" and ne: "s \<noteq> []"
  have "c \<noteq> CHR ''/'' \<and> c \<noteq> CHR ''?'' \<and> c \<noteq> CHR ''%''" if c: "c \<in> set s" for c
  proof -
    obtain n where "n < 16" "c = hex_digit n" using h c unfolding hexText_def by blast
    then show ?thesis using hex_digit_plain [of n] by simp
  qed
  with ne show ?thesis by (simp add: plainSegment_def)
qed

section \<open>Uploads stay readable\<close>

text \<open>A reference with its bytes and, under access control, its history.\<close>

definition keepsBlob :: "FakeBee \<Rightarrow> string \<Rightarrow> string \<Rightarrow> string \<Rightarrow> bool" where
  "keepsBlob s ref history body \<longleftrightarrow>
     gm_get (fb_blobs s) ref = Some body \<and> gm_get (fb_actRefs s) ref = (if history = [] then None else Some history)"

text \<open>
  A request does not take a reference over: it is a plain upload of the same bytes, or neither the hash of its body nor the
  random reference is that one.
\<close>

definition leavesRef :: "node_lib \<Rightarrow> string \<Rightarrow> string \<Rightarrow> (nat \<Rightarrow> string) \<times> node_req \<Rightarrow> bool" where
  "leavesRef L ref body x \<longleftrightarrow>
     (case x of (rnd, r) \<Rightarrow>
       (plainRef L r = ref \<longrightarrow> nr_Body r = body) \<and> newHex rnd 1 64 \<noteq> ref)"

lemma serveEndpoint_other:
  "e \<noteq> PostBytes \<Longrightarrow> fb_blobs (snd (serveEndpoint L rnd r s e)) = fb_blobs s \<and> fb_actRefs (snd (serveEndpoint L rnd r s e)) = fb_actRefs s"
  by (cases e) (simp_all add: serveEndpoint_def postGrantee_def patchGrantee_def patchTopup_def patchDilute_def postDeposit_def
      postStamps_def Let_def split: option.split)

lemma serveNode_endpoint:
  "findEndpoint (nr_Method r) (nr_Path r) = Some e \<Longrightarrow> snd (serveNode L rnd r s) = snd (serveEndpoint L rnd r s e)"
  "findEndpoint (nr_Method r) (nr_Path r) = None \<Longrightarrow> snd (serveNode L rnd r s) = s"
  by (simp_all add: serveNode_def split: prod.split)

lemma postBytes_keepsBlob:
  assumes "keepsBlob s ref history body" "plainRef L r = ref \<Longrightarrow> nr_Body r = body" "newHex rnd 1 64 \<noteq> ref"
  shows "keepsBlob (snd (postBytes L rnd r s)) ref history body"
proof -
  have "keepsBlob (s\<lparr>fb_blobs := gm_put (plainRef L r) (nr_Body r) (fb_blobs s)\<rparr>) ref history body"
    using assms(1,2) by (cases "plainRef L r = ref") (simp_all add: keepsBlob_def)
  moreover have "keepsBlob (s\<lparr>fb_histories := hs, fb_actRefs := gm_put (newHex rnd 1 64) h (fb_actRefs s),
      fb_blobs := gm_put (newHex rnd 1 64) (nr_Body r) (fb_blobs s)\<rparr>) ref history body" for hs h
    using assms(1,3) by (simp add: keepsBlob_def)
  ultimately show ?thesis using assms(1) by (simp add: postBytes_def Let_def)
qed

lemma serveNode_keepsBlob:
  assumes "keepsBlob s ref history body" "leavesRef L ref body (rnd, r)"
  shows "keepsBlob (snd (serveNode L rnd r s)) ref history body"
proof (cases "findEndpoint (nr_Method r) (nr_Path r)")
  case None
  then show ?thesis using assms(1) by (simp add: serveNode_endpoint)
next
  case (Some e)
  then have eq: "snd (serveNode L rnd r s) = snd (serveEndpoint L rnd r s e)" by (rule serveNode_endpoint)
  show ?thesis
  proof (cases "e = PostBytes")
    case True
    then show ?thesis using eq postBytes_keepsBlob [of s ref history body L r rnd] assms by (simp add: serveEndpoint_def leavesRef_def)
  next
    case False
    then show ?thesis using eq serveEndpoint_other [of e L rnd r s] assms(1) by (simp add: keepsBlob_def)
  qed
qed

lemma runNode_keepsBlob:
  "keepsBlob s ref history body \<Longrightarrow> \<forall>x \<in> set rs. leavesRef L ref body x \<Longrightarrow> keepsBlob (runNode L rs s) ref history body"
proof (induction L rs s rule: runNode.induct)
  case (2 L rnd r rs s)
  then show ?case using serveNode_keepsBlob [of s ref history body L rnd r] by simp
qed simp

lemma findEndpoint_bytes: "findEndpoint ''POST'' [''bytes''] = Some PostBytes"
  by (simp add: findEndpoint_def)

lemma findEndpoint_get: "ref \<noteq> [] \<Longrightarrow> findEndpoint ''GET'' [''bytes'', ref] = Some (GetBytes ref)"
  by (auto simp: findEndpoint_def)

lemma deliver_upload: "nr_Path (deliver base (uploadRequest cl body e opts)) = [''bytes'']" if "cl_base cl = base"
  by (rule deliver_path) (simp_all add: that plainSegment_def)

lemma deliver_download: "nr_Path (deliver base (downloadRequest cl ref opts)) = [''bytes'', ref]"
  if "cl_base cl = base" "plainSegment ref"
  by (rule deliver_path) (use that in \<open>simp_all add: plainSegment_def\<close>)

lemma getBytes_served:
  assumes "keepsBlob s ref history body"
    and "history \<noteq> [] \<Longrightarrow> Header_Get (nr_Header r) ''swarm-act-history-address'' = history \<and>
           Header_Get (nr_Header r) ''swarm-act-publisher'' = fakePublisherKey"
  shows "getBytes L ref r s = serveContent L (nr_Header r) body"
  using assms by (auto simp: getBytes_def keepsBlob_def)

lemma upload_names:
  "strings_ToLower ''swarm-postage-batch-id'' = ''swarm-postage-batch-id''" "strings_ToLower ''Content-Type'' = ''content-type''"
  "strings_ToLower ''swarm-deferred-upload'' = ''swarm-deferred-upload''" "strings_ToLower ''swarm-encrypt'' = ''swarm-encrypt''"
  "strings_ToLower ''swarm-redundancy-level'' = ''swarm-redundancy-level''" "strings_ToLower ''swarm-act'' = ''swarm-act''"
  by code_simp+

lemma uploadRequest_header:
  "Header_Get (hr_Header (uploadRequest cl body e opts)) ''swarm-postage-batch-id'' = uo_BatchID opts"
  "Header_Get (hr_Header (uploadRequest cl body e opts)) ''swarm-act'' = (if uo_Act opts then ''true'' else [])"
  unfolding uploadRequest_def newRequest_def by (simp_all add: addHeaders_Get Header_names upload_names)

lemma downloadRequest_header:
  "Header_Get (hr_Header (downloadRequest cl ref opts)) ''swarm-act-history-address'' = do_ActHistory opts"
  "Header_Get (hr_Header (downloadRequest cl ref opts)) ''swarm-act-publisher'' = (if do_ActHistory opts \<noteq> [] then do_ActPublisher opts else [])"
  unfolding downloadRequest_def newRequest_def by (simp_all add: addHeaders_Get Header_names)

lemma Itoa_plain: "0 \<le> i \<Longrightarrow> c \<in> set (strconv_Itoa i) \<Longrightarrow> c \<noteq> CHR '','' \<and> \<not> go_space c \<and> c \<noteq> CHR ''-''"
proof -
  assume "0 \<le> i" "c \<in> set (strconv_Itoa i)"
  then have "48 \<le> (of_char c :: nat)" "(of_char c :: nat) \<le> 57" using Itoa_digits by auto
  then show ?thesis by (auto simp: go_space_def)
qed

lemma Itoa_trim: "0 \<le> i \<Longrightarrow> strings_TrimSpace (strconv_Itoa i) = strconv_Itoa i"
  using Itoa_plain [of i "hd (strconv_Itoa i)"] Itoa_plain [of i "last (strconv_Itoa i)"]
  by (intro TrimSpace_id) simp_all

lemma parseOneRange_pair:
  assumes "0 \<le> lo" "lo \<le> hi" "hi < sz" "in_int64 sz"
  shows "parseOneRange sz (strconv_Itoa lo @ ''-'' @ strconv_Itoa hi) = ByteRange lo (hi - lo + 1)"
proof -
  have "in_int64 lo" "in_int64 hi" using assms by (auto simp: in_int64_def)
  then have p: "strconv_ParseInt 10 (strconv_Itoa lo) = Some lo" "strconv_ParseInt 10 (strconv_Itoa hi) = Some hi"
    by (simp_all add: ParseInt_Itoa)
  have t: "strings_TrimSpace (strconv_Itoa lo) = strconv_Itoa lo" "strings_TrimSpace (strconv_Itoa hi) = strconv_Itoa hi"
    using assms by (simp_all add: Itoa_trim)
  show ?thesis unfolding parseOneRange_def Cut_dash [OF assms(1)] prod.case Let_def t p
    using assms by simp
qed

lemma serveContent_whole: "Header_Get h ''Range'' = [] \<Longrightarrow> serveContent L h data = answer 200 [] data"
  by (simp add: serveContent_def Let_def)

lemma serveContent_range:
  assumes "Header_Get h ''Range'' = rangeSpec lo hi" "0 \<le> lo" "lo \<le> hi" "hi < int (length data)" "in_int64 (int (length data))"
  shows "hp_Status (serveContent L h data) = 206" "hp_Body (serveContent L h data) = take (nat (hi - lo + 1)) (drop (nat lo) data)"
    "\<not> hp_Broken (serveContent L h data)"
proof -
  let ?p = "strconv_Itoa lo @ ''-'' @ strconv_Itoa hi"
  have c: "CHR '','' \<notin> set ?p" using Itoa_plain [of lo "CHR '',''"] Itoa_plain [of hi "CHR '',''"] assms(2,3) by auto
  have sp: "\<not> go_space (hd ?p)" "\<not> go_space (last ?p)"
    using Itoa_plain [of lo "hd (strconv_Itoa lo)"] Itoa_plain [of hi "last (strconv_Itoa hi)"] assms(2,3) by simp_all
  have tr: "strings_TrimSpace ?p = ?p" using sp by (intro TrimSpace_id) simp_all
  have list: "parseRangeList (int (length data)) [?p] = Some ([(lo, hi - lo + 1)], False)"
    unfolding parseRangeList.simps Let_def tr parseOneRange_pair [OF assms(2-5)] by simp
  have d: "drop 6 (rangeSpec lo hi) = ?p" and h: "HasPrefix (rangeSpec lo hi) ''bytes=''" and n: "rangeSpec lo hi \<noteq> []"
    by (simp_all add: rangeSpec_def HasPrefix_def)
  have sum: "\<not> int (length data) < hi - lo + 1" using assms by simp
  have "serveContent L h data =
      answer 206 [(''content-range'', [''bytes '' @ strconv_Itoa lo @ ''-'' @ strconv_Itoa (lo + (hi - lo + 1) - 1) @ ''/'' @ strconv_Itoa (int (length data))])]
        (slice (lo, hi - lo + 1) data)"
    unfolding serveContent_def assms(1) d strings_Split_single [OF c] Let_def list using h n sum by simp
  then show "hp_Status (serveContent L h data) = 206"
    and "hp_Body (serveContent L h data) = take (nat (hi - lo + 1)) (drop (nat lo) data)"
    and "\<not> hp_Broken (serveContent L h data)"
    by (simp_all add: answer_def slice_def)
qed

text \<open>What the client gets for a reference the node keeps: the whole, or the range it asks for.\<close>

definition askedPart :: "string \<Rightarrow> string \<Rightarrow> string \<Rightarrow> bool" where
  "askedPart spec body part \<longleftrightarrow>
     (spec = [] \<and> part = body) \<or>
     (\<exists>lo hi. 0 \<le> lo \<and> lo \<le> hi \<and> hi < int (length body) \<and> spec = rangeSpec lo hi \<and> part = take (nat (hi - lo + 1)) (drop (nat lo) body))"

lemma download_kept:
  assumes "keepsBlob s ref history body" "plainSegment ref" "in_int64 (int (length body))" "askedPart (do_Range dopts) body part"
    and "history \<noteq> [] \<Longrightarrow> do_ActHistory dopts = history \<and> do_ActPublisher dopts = fakePublisherKey"
  shows "\<exists>resp. DownloadBytes (fakeClient L rnd js base s) ref dopts = Inr resp \<and> hp_Body resp = part \<and> \<not> hp_Broken resp"
proof -
  let ?cl = "fakeClient L rnd js base s"
  let ?r = "deliver base (downloadRequest ?cl ref dopts)"
  have ref: "ref \<noteq> []" using assms(2) by (simp add: plainSegment_def)
  have path: "nr_Path ?r = [''bytes'', ref]" using assms(2) by (intro deliver_download) simp_all
  have served: "fst (serveNode L rnd ?r s) = serveContent L (nr_Header ?r) body"
    using getBytes_served [OF assms(1), of ?r L] assms(5) ref
    by (simp add: serveNode_def deliver_sel path findEndpoint_get serveEndpoint_def downloadRequest_header)
  have rng: "Header_Get (nr_Header ?r) ''Range'' = do_Range dopts" by (simp add: deliver_sel)
  have "hp_Status (serveContent L (nr_Header ?r) body) \<in> {200, 206} \<and> hp_Body (serveContent L (nr_Header ?r) body) = part \<and>
      \<not> hp_Broken (serveContent L (nr_Header ?r) body)"
  proof (cases "do_Range dopts = []")
    case True
    then have "part = body" using assms(4) by (auto simp: askedPart_def rangeSpec_def)
    then show ?thesis using True rng by (simp add: serveContent_whole answer_def)
  next
    case False
    then obtain lo hi where r: "0 \<le> lo" "lo \<le> hi" "hi < int (length body)" "do_Range dopts = rangeSpec lo hi"
      "part = take (nat (hi - lo + 1)) (drop (nat lo) body)" using assms(4) unfolding askedPart_def by blast
    show ?thesis using serveContent_range [OF _ r(1-3) assms(3), of "nr_Header ?r" L] rng r(4,5) by simp
  qed
  then show ?thesis by (simp add: DownloadBytes_def call_fakeClient served Let_def)
qed

lemma upload_kept:
  assumes json: "\<And>ref. js_reference js (nl_reference L ref) = Inr ref"
    and up: "UploadBytes (fakeClient L rnd js base s) body False opts = Inr (ref, history)"
    and act: "\<not> uo_Act opts \<Longrightarrow> gm_get (fb_actRefs s) ref = None" and rnd: "rnd 0 \<noteq> []"
  shows "keepsBlob (afterCall L rnd base (uploadRequest (fakeClient L rnd js base s) body False opts) s) ref history body \<and> plainSegment ref"
proof -
  let ?cl = "fakeClient L rnd js base s"
  let ?r = "deliver base (uploadRequest ?cl body False opts)"
  have path: "nr_Path ?r = [''bytes'']" by (rule deliver_upload) simp
  have serve: "serveNode L rnd ?r s = postBytes L rnd ?r s"
    by (simp add: serveNode_def deliver_sel path findEndpoint_bytes serveEndpoint_def split: prod.splits)
  obtain resp where resp: "resp = fst (postBytes L rnd ?r s)" "hp_Status resp \<in> {201, 200}"
    "js_reference js (hp_Body resp) = Inr ref" "ref \<noteq> []" "history = Header_Get (hp_Header resp) ''swarm-act-history-address''"
    using up by (auto simp: UploadBytes_def call_fakeClient serve decoded_def Let_def split: if_splits sum.splits)
  have hdr: "Header_Get (nr_Header ?r) ''swarm-postage-batch-id'' = uo_BatchID opts"
    "Header_Get (nr_Header ?r) ''swarm-act'' = (if uo_Act opts then ''true'' else [])" "nr_Body ?r = body"
    by (simp_all add: deliver_sel uploadRequest_header)
  have hist: "Header_Get [(''swarm-act-history-address'', [h])] ''swarm-act-history-address'' = h" for h
    by (simp add: Header_Get_def Header_Values_def Header_names)
  have hex: "newHex rnd 0 32 \<noteq> []" using rnd by (cases "rnd 0") (simp_all add: newHex_def Let_def)
  show ?thesis
  proof (cases "uo_Act opts")
    case True
    then show ?thesis using resp hdr json hist hex hexText_plainSegment [of ref]
      by (auto simp: afterCall_def serve postBytes_def Let_def nodeError_def answer_def keepsBlob_def split: if_splits)
  next
    case False
    then show ?thesis using resp hdr json act hexText_plainSegment [of ref]
      by (auto simp: afterCall_def serve postBytes_def Let_def nodeError_def answer_def keepsBlob_def split: if_splits)
  qed
qed

text \<open>C24. The node of the integration tests keeps what the client of the gateway uploads. When an upload is answered with a
  reference (and, under access control, a history), a download of the reference returns the bytes, or the range of them
  that was asked for, at once and after any requests of anyone that do not mint the same reference for other bytes; under
  access control the download has to name the history and the key of the publisher.\<close>

theorem node_keeps_uploads:
  assumes "\<And>ref. js_reference js (nl_reference L ref) = Inr ref"
    and "UploadBytes (fakeClient L rnd js base s) body False opts = Inr (ref, history)"
    and "\<not> uo_Act opts \<Longrightarrow> gm_get (fb_actRefs s) ref = None" and "rnd 0 \<noteq> []" and "in_int64 (int (length body))"
    and "\<forall>x \<in> set rs. leavesRef L ref body x"
    and "s' = runNode L rs (afterCall L rnd base (uploadRequest (fakeClient L rnd js base s) body False opts) s)"
    and "askedPart (do_Range dopts) body part"
    and "history \<noteq> [] \<Longrightarrow> do_ActHistory dopts = history \<and> do_ActPublisher dopts = fakePublisherKey"
  shows "\<exists>resp. DownloadBytes (fakeClient L rnd' js base s') ref dopts = Inr resp \<and> hp_Body resp = part \<and> \<not> hp_Broken resp"
  using upload_kept [OF assms(1-4)] runNode_keepsBlob [OF _ assms(6)] download_kept [OF _ _ assms(5,8,9)] assms(7) by blast

section \<open>The node serves ranges, and no money is lost\<close>

text \<open>
  What the reading of composite objects assumes of a node holds of this one, for the references without access control
  that an upload can have made.
\<close>

definition openContent :: "FakeBee \<Rightarrow> string \<Rightarrow> string" where
  "openContent s ref =
     (if hexText ref \<and> ref \<noteq> [] \<and> gm_get (fb_actRefs s) ref = None
      then (case gm_get (fb_blobs s) ref of Some body \<Rightarrow> body | None \<Rightarrow> []) else [])"

lemma fake_download_ranges:
  assumes "\<And>ref body. gm_get (fb_blobs s) ref = Some body \<Longrightarrow> in_int64 (int (length body))"
  shows "download_ranges (beeDownload (fakeClient L rnd js base s)) (openContent s)"
  unfolding download_ranges_def
proof (intro allI impI)
  fix ref :: string and opts :: DownloadOptions and lo hi :: int
  assume r: "0 \<le> lo \<and> lo \<le> hi \<and> hi < int (length (openContent s ref)) \<and> do_Range opts = rangeSpec lo hi"
  then have ne: "openContent s ref \<noteq> []" by auto
  then obtain body where body: "gm_get (fb_blobs s) ref = Some body" "openContent s ref = body" "hexText ref" "ref \<noteq> []"
    "gm_get (fb_actRefs s) ref = None"
    by (auto simp: openContent_def split: if_splits option.splits)
  have kept: "keepsBlob s ref [] body" using body by (simp add: keepsBlob_def)
  have asked: "askedPart (do_Range opts) body (take (nat (hi - lo + 1)) (drop (nat lo) body))"
    unfolding askedPart_def using r body(2) by (intro disjI2 exI [of _ lo] exI [of _ hi]) simp
  obtain resp where "DownloadBytes (fakeClient L rnd js base s) ref opts = Inr resp"
    "hp_Body resp = take (nat (hi - lo + 1)) (drop (nat lo) body)" "\<not> hp_Broken resp"
    using download_kept [OF kept hexText_plainSegment [OF body(3,4)] assms [OF body(1)] asked, of L rnd js base] by auto
  then show "beeDownload (fakeClient L rnd js base s) ref opts =
      Inr (take (nat (hi - lo + 1)) (drop (nat lo) (openContent s ref)), False)"
    by (simp add: beeDownload_def body(2))
qed

text \<open>Deposits move money from the wallet to the chequebook.\<close>

lemma serveNode_money:
  "fb_wallet (snd (serveNode L rnd r s)) + fb_chequebook (snd (serveNode L rnd r s)) = fb_wallet s + fb_chequebook s"
proof -
  have "fb_wallet (snd (serveEndpoint L rnd r s e)) + fb_chequebook (snd (serveEndpoint L rnd r s e)) = fb_wallet s + fb_chequebook s" for e
    by (cases e) (simp_all add: serveEndpoint_def postBytes_def postGrantee_def patchGrantee_def patchTopup_def patchDilute_def
        postDeposit_def postStamps_def Let_def split: option.split)
  then show ?thesis
    by (cases "findEndpoint (nr_Method r) (nr_Path r)") (simp_all add: serveNode_endpoint)
qed

lemma runNode_money: "fb_wallet (runNode L rs s) + fb_chequebook (runNode L rs s) = fb_wallet s + fb_chequebook s"
  by (induction L rs s rule: runNode.induct) (simp_all add: serveNode_money)

end
