(* ===== verification/Configuration.thy ===== *)
theory Configuration
  imports Stamps Handlers
begin

text \<open>
  The configuration of the gateway, package internal/config, and what internal/stamp and cmd/s3warm build from it: the
  keepers with their thresholds, the choice of the index and the start of the program. A flag wins over the environment
  and the environment over a default; the checks run on the result.
\<close>

section \<open>The configuration\<close>

text \<open>The fields that the server reads are those of \<open>Config\<close>; the rest is read at the start of the program.\<close>

record GatewayConfig = Config +
  cfg_ListenAddr :: string
  cfg_BeeAPI :: string
  cfg_BatchIDFile :: string
  cfg_DB :: string
  cfg_Commit :: string
  cfg_FeedKey :: string
  cfg_ChequebookMin :: float64
  cfg_ChequebookTarget :: float64
  cfg_ChequebookReserve :: float64
  cfg_StampAutopilot :: bool
  cfg_StampTTLMin :: float64
  cfg_StampTTLTarget :: float64
  cfg_StampDiluteAt :: float64

text \<open>
  The process around the gateway: environment, files, and the number parsers of strconv that the configuration needs
  (a float, and an integer with the prefixes of Go's literals).
\<close>

record os_env =
  os_LookupEnv :: "string \<Rightarrow> string option"
  os_ReadFile :: "string \<Rightarrow> (string, string) result"
  os_Stat :: "string \<Rightarrow> string option"
  os_ParseFloat :: "string \<Rightarrow> float64 option"
  os_ParseLiteral :: "string \<Rightarrow> int option"

definition strconv_ParseBool :: "string \<Rightarrow> bool option" where
  "strconv_ParseBool s =
     (if s \<in> {''1'', ''t'', ''T'', ''true'', ''TRUE'', ''True''} then Some True
      else if s \<in> {''0'', ''f'', ''F'', ''false'', ''FALSE'', ''False''} then Some False else None)"

definition envStr :: "os_env \<Rightarrow> string \<Rightarrow> string \<Rightarrow> string" where
  "envStr P key def = (case os_LookupEnv P key of Some v \<Rightarrow> v | None \<Rightarrow> def)"

definition envInt :: "os_env \<Rightarrow> string \<Rightarrow> int \<Rightarrow> int" where
  "envInt P key def =
     (case os_LookupEnv P key of Some v \<Rightarrow> (case strconv_Atoi v of Some n \<Rightarrow> n | None \<Rightarrow> def) | None \<Rightarrow> def)"

definition envFloat :: "os_env \<Rightarrow> string \<Rightarrow> float64 \<Rightarrow> float64" where
  "envFloat P key def =
     (case os_LookupEnv P key of Some v \<Rightarrow> (case os_ParseFloat P v of Some f \<Rightarrow> f | None \<Rightarrow> def) | None \<Rightarrow> def)"

definition envBool :: "os_env \<Rightarrow> string \<Rightarrow> bool \<Rightarrow> bool" where
  "envBool P key def =
     (case os_LookupEnv P key of Some v \<Rightarrow> (case strconv_ParseBool v of Some b \<Rightarrow> b | None \<Rightarrow> def) | None \<Rightarrow> def)"

text \<open>The defaults, from the environment. A decimal default is the nearest float, here the decimal itself.\<close>

definition envConfig :: "os_env \<Rightarrow> GatewayConfig" where
  "envConfig P =
     \<lparr>cfg_BatchID = envStr P ''S3WARM_BATCH_ID'' [], cfg_Region = envStr P ''S3WARM_REGION'' ''us-east-1'',
      cfg_AccessKey = envStr P ''S3WARM_ACCESS_KEY'' [], cfg_SecretKey = envStr P ''S3WARM_SECRET_KEY'' [],
      cfg_CredentialsFile = envStr P ''S3WARM_CREDENTIALS'' [], cfg_RedundancyLevel = envInt P ''S3WARM_REDUNDANCY'' 0,
      cfg_Encrypt = envBool P ''S3WARM_ENCRYPT'' False, cfg_Ack = envStr P ''S3WARM_ACK'' ''node'',
      cfg_Domain = envStr P ''S3WARM_DOMAIN'' [], cfg_FetchStrategy = envStr P ''S3WARM_FETCH_STRATEGY'' [],
      cfg_ListenAddr = envStr P ''S3WARM_LISTEN'' '':8333'', cfg_BeeAPI = envStr P ''S3WARM_BEE_API'' ''http://127.0.0.1:1633'',
      cfg_BatchIDFile = envStr P ''S3WARM_BATCH_ID_FILE'' [], cfg_DB = envStr P ''S3WARM_DB'' ''s3warm.db'',
      cfg_Commit = envStr P ''S3WARM_COMMIT'' ''async'', cfg_FeedKey = envStr P ''S3WARM_FEED_KEY'' [],
      cfg_ChequebookMin = envFloat P ''S3WARM_CHEQUEBOOK_MIN'' (Finite (2 / 10)),
      cfg_ChequebookTarget = envFloat P ''S3WARM_CHEQUEBOOK_TARGET'' (Finite 1),
      cfg_ChequebookReserve = envFloat P ''S3WARM_CHEQUEBOOK_RESERVE'' (Finite 1),
      cfg_StampAutopilot = envBool P ''S3WARM_STAMP_AUTOPILOT'' False,
      cfg_StampTTLMin = envFloat P ''S3WARM_STAMP_TTL_MIN'' (Finite 30),
      cfg_StampTTLTarget = envFloat P ''S3WARM_STAMP_TTL_TARGET'' (Finite 90),
      cfg_StampDiluteAt = envFloat P ''S3WARM_STAMP_DILUTE_AT'' (Finite (85 / 100))\<rparr>"

section \<open>Flags\<close>

text \<open>
  A flag: whether it is boolean, and the parser that sets its field, \<open>None\<close> for a value it refuses.
\<close>

type_synonym flag_setter = "os_env \<Rightarrow> string \<Rightarrow> GatewayConfig \<Rightarrow> GatewayConfig option"

definition strFlag :: "(string \<Rightarrow> GatewayConfig \<Rightarrow> GatewayConfig) \<Rightarrow> bool \<times> flag_setter" where
  "strFlag f = (False, \<lambda>P v cfg. Some (f v cfg))"

definition intFlag :: "(int \<Rightarrow> GatewayConfig \<Rightarrow> GatewayConfig) \<Rightarrow> bool \<times> flag_setter" where
  "intFlag f = (False, \<lambda>P v cfg. map_option (\<lambda>n. f n cfg) (os_ParseLiteral P v))"

definition floatFlag :: "(float64 \<Rightarrow> GatewayConfig \<Rightarrow> GatewayConfig) \<Rightarrow> bool \<times> flag_setter" where
  "floatFlag f = (False, \<lambda>P v cfg. map_option (\<lambda>n. f n cfg) (os_ParseFloat P v))"

definition boolFlag :: "(bool \<Rightarrow> GatewayConfig \<Rightarrow> GatewayConfig) \<Rightarrow> bool \<times> flag_setter" where
  "boolFlag f = (True, \<lambda>P v cfg. map_option (\<lambda>b. f b cfg) (strconv_ParseBool v))"

definition flagSet :: "(string \<times> bool \<times> flag_setter) list" where
  "flagSet =
     [(''listen'', strFlag (\<lambda>v cfg. cfg\<lparr>cfg_ListenAddr := v\<rparr>)),
      (''bee-api'', strFlag (\<lambda>v cfg. cfg\<lparr>cfg_BeeAPI := v\<rparr>)),
      (''batch-id'', strFlag (\<lambda>v cfg. cfg\<lparr>cfg_BatchID := v\<rparr>)),
      (''batch-id-file'', strFlag (\<lambda>v cfg. cfg\<lparr>cfg_BatchIDFile := v\<rparr>)),
      (''region'', strFlag (\<lambda>v cfg. cfg\<lparr>cfg_Region := v\<rparr>)),
      (''access-key'', strFlag (\<lambda>v cfg. cfg\<lparr>cfg_AccessKey := v\<rparr>)),
      (''secret-key'', strFlag (\<lambda>v cfg. cfg\<lparr>cfg_SecretKey := v\<rparr>)),
      (''credentials'', strFlag (\<lambda>v cfg. cfg\<lparr>cfg_CredentialsFile := v\<rparr>)),
      (''redundancy'', intFlag (\<lambda>v cfg. cfg\<lparr>cfg_RedundancyLevel := v\<rparr>)),
      (''encrypt'', boolFlag (\<lambda>v cfg. cfg\<lparr>cfg_Encrypt := v\<rparr>)),
      (''ack'', strFlag (\<lambda>v cfg. cfg\<lparr>cfg_Ack := v\<rparr>)),
      (''domain'', strFlag (\<lambda>v cfg. cfg\<lparr>cfg_Domain := v\<rparr>)),
      (''db'', strFlag (\<lambda>v cfg. cfg\<lparr>cfg_DB := v\<rparr>)),
      (''commit'', strFlag (\<lambda>v cfg. cfg\<lparr>cfg_Commit := v\<rparr>)),
      (''feed-key'', strFlag (\<lambda>v cfg. cfg\<lparr>cfg_FeedKey := v\<rparr>)),
      (''fetch-strategy'', strFlag (\<lambda>v cfg. cfg\<lparr>cfg_FetchStrategy := v\<rparr>)),
      (''chequebook-min'', floatFlag (\<lambda>v cfg. cfg\<lparr>cfg_ChequebookMin := v\<rparr>)),
      (''chequebook-target'', floatFlag (\<lambda>v cfg. cfg\<lparr>cfg_ChequebookTarget := v\<rparr>)),
      (''chequebook-reserve'', floatFlag (\<lambda>v cfg. cfg\<lparr>cfg_ChequebookReserve := v\<rparr>)),
      (''stamp-autopilot'', boolFlag (\<lambda>v cfg. cfg\<lparr>cfg_StampAutopilot := v\<rparr>)),
      (''stamp-ttl-min'', floatFlag (\<lambda>v cfg. cfg\<lparr>cfg_StampTTLMin := v\<rparr>)),
      (''stamp-ttl-target'', floatFlag (\<lambda>v cfg. cfg\<lparr>cfg_StampTTLTarget := v\<rparr>)),
      (''stamp-dilute-at'', floatFlag (\<lambda>v cfg. cfg\<lparr>cfg_StampDiluteAt := v\<rparr>))]"

datatype config_error =
    FlagSyntax string | FlagUndefined string | FlagNeedsArgument string | FlagInvalid string string | HelpRequested
  | BatchIDFileError string | ChequebookOrder float64 float64 | NegativeReserve float64 | BadCommitMode string
  | BadAckPolicy string | BadRedundancy int | StampTTLOrder float64 float64 | BadDiluteAt float64 | UnpairedKeys
  | CredentialsFileError string

text \<open>
  \<open>FlagSet.Parse\<close>: flags with one or two dashes and the value behind an equals sign or in the next argument; the
  first argument that is no flag, or two dashes alone, ends them.
\<close>

definition setFlag :: "os_env \<Rightarrow> string \<Rightarrow> flag_setter \<Rightarrow> string \<Rightarrow> GatewayConfig \<Rightarrow> (config_error, GatewayConfig) result" where
  "setFlag P nm f v cfg = (case f P v cfg of None \<Rightarrow> Inl (FlagInvalid nm v) | Some cfg \<Rightarrow> Inr cfg)"

fun parseFlags :: "os_env \<Rightarrow> string list \<Rightarrow> GatewayConfig \<Rightarrow> (config_error, GatewayConfig) result" where
  "parseFlags P [] cfg = Inr cfg"
| "parseFlags P (s # args) cfg =
     (if length s < 2 \<or> s ! 0 \<noteq> CHR ''-'' \<or> s = ''--'' then Inr cfg
      else (case strings_Cut (drop (if s ! 1 = CHR ''-'' then 2 else 1) s) ''='' of (nm, v, hasValue) \<Rightarrow>
        if nm = [] \<or> nm ! 0 = CHR ''-'' then Inl (FlagSyntax s)
        else (case map_of flagSet nm of
            None \<Rightarrow> Inl (if nm = ''help'' \<or> nm = ''h'' then HelpRequested else FlagUndefined nm)
          | Some (isBool, f) \<Rightarrow>
              if isBool then rbind (setFlag P nm f (if hasValue then v else ''true'') cfg) (parseFlags P args)
              else if hasValue then rbind (setFlag P nm f v cfg) (parseFlags P args)
              else (case args of
                      [] \<Rightarrow> Inl (FlagNeedsArgument nm)
                    | v # args \<Rightarrow> rbind (setFlag P nm f v cfg) (parseFlags P args)))))"

section \<open>Loading\<close>

definition readBatchID :: "os_env \<Rightarrow> GatewayConfig \<Rightarrow> (config_error, GatewayConfig) result" where
  "readBatchID P cfg =
     (if cfg_BatchID cfg = [] \<and> cfg_BatchIDFile cfg \<noteq> [] then
        (case os_ReadFile P (cfg_BatchIDFile cfg) of
           Inl e \<Rightarrow> Inl (BatchIDFileError e)
         | Inr b \<Rightarrow> Inr (cfg\<lparr>cfg_BatchID := strings_TrimSpace b\<rparr>))
      else Inr cfg)"

definition checkConfig :: "os_env \<Rightarrow> GatewayConfig \<Rightarrow> config_error option" where
  "checkConfig P cfg =
     (if fl_lt (Finite 0) (cfg_ChequebookMin cfg) \<and> fl_lt (cfg_ChequebookTarget cfg) (cfg_ChequebookMin cfg)
      then Some (ChequebookOrder (cfg_ChequebookTarget cfg) (cfg_ChequebookMin cfg))
      else if fl_lt (cfg_ChequebookReserve cfg) (Finite 0) then Some (NegativeReserve (cfg_ChequebookReserve cfg))
      else if cfg_Commit cfg \<noteq> ''async'' \<and> cfg_Commit cfg \<noteq> ''off'' then Some (BadCommitMode (cfg_Commit cfg))
      else if cfg_Ack cfg \<noteq> ''node'' \<and> cfg_Ack cfg \<noteq> ''network'' then Some (BadAckPolicy (cfg_Ack cfg))
      else if cfg_RedundancyLevel cfg < 0 \<or> 4 < cfg_RedundancyLevel cfg then Some (BadRedundancy (cfg_RedundancyLevel cfg))
      else if cfg_StampAutopilot cfg \<and>
        (fl_le (cfg_StampTTLMin cfg) (Finite 0) \<or> fl_lt (cfg_StampTTLTarget cfg) (cfg_StampTTLMin cfg))
      then Some (StampTTLOrder (cfg_StampTTLTarget cfg) (cfg_StampTTLMin cfg))
      else if cfg_StampAutopilot cfg \<and> (fl_le (cfg_StampDiluteAt cfg) (Finite 0) \<or> fl_lt (Finite 1) (cfg_StampDiluteAt cfg))
      then Some (BadDiluteAt (cfg_StampDiluteAt cfg))
      else if (cfg_AccessKey cfg = []) \<noteq> (cfg_SecretKey cfg = []) then Some UnpairedKeys
      else if cfg_CredentialsFile cfg \<noteq> [] then map_option CredentialsFileError (os_Stat P (cfg_CredentialsFile cfg))
      else None)"

definition Load :: "os_env \<Rightarrow> string list \<Rightarrow> (config_error, GatewayConfig) result" where
  "Load P args =
     rbind (parseFlags P args (envConfig P)) (\<lambda>cfg.
     rbind (readBatchID P cfg) (\<lambda>cfg.
     case checkConfig P cfg of Some e \<Rightarrow> Inl e | None \<Rightarrow> Inr cfg))"

section \<open>The start of the program\<close>

text \<open>\<open>NewAutopilot\<close> and \<open>NewChequebook\<close> turn the thresholds into durations and amounts.\<close>

definition hours :: float64 where "hours = Finite (3600 * 10 ^ 9)"

definition durationOfDays :: "float_ops \<Rightarrow> float64 \<Rightarrow> int" where
  "durationOfDays F days = fo_int64 F (fo_mul F (fo_mul F days (Finite 24)) hours)"

definition NewAutopilot :: "float_ops \<Rightarrow> bool \<Rightarrow> float64 \<Rightarrow> float64 \<Rightarrow> float64 \<Rightarrow> Autopilot option" where
  "NewAutopilot F enabled minTTLDays targetTTLDays diluteAt =
     (if \<not> enabled then None
      else Some \<lparr>ap_minTTL = durationOfDays F minTTLDays, ap_targetTTL = durationOfDays F targetTTLDays, ap_diluteAt = diluteAt\<rparr>)"

text \<open>
  The thresholds in PLUR, through \<open>big.Float\<close>, which rounds as the floats do. It panics on NaN; an infinity has no integer, and
  the nil that is kept for it panics when it is first compared. Both are \<open>None\<close>.
\<close>

definition bzzToPlur :: "float_ops \<Rightarrow> float64 \<Rightarrow> int option" where
  "bzzToPlur F v =
     (case v of Finite _ \<Rightarrow> (case fo_mul F v (Finite (10 ^ 16)) of Finite x \<Rightarrow> Some (truncRat x) | _ \<Rightarrow> None) | _ \<Rightarrow> None)"

text \<open>The keeper, \<open>None\<close> when it is disabled; the error is a panic.\<close>

definition NewChequebook :: "float_ops \<Rightarrow> float64 \<Rightarrow> float64 \<Rightarrow> float64 \<Rightarrow> (unit, Chequebook option) result" where
  "NewChequebook F minBZZ targetBZZ reserveBZZ =
     (if fl_le minBZZ (Finite 0) then Inr None
      else (case (bzzToPlur F minBZZ, bzzToPlur F targetBZZ, bzzToPlur F reserveBZZ) of
              (Some lo, Some hi, Some res) \<Rightarrow> Inr (Some \<lparr>cb_min = lo, cb_target = hi, cb_reserve = res\<rparr>)
            | _ \<Rightarrow> Inl ()))"

datatype storeKind = MemoryStore | PostgresStore string | SQLiteStore string

definition chooseStore :: "string \<Rightarrow> storeKind" where
  "chooseStore db =
     (if db = [] then MemoryStore
      else if HasPrefix db ''postgres://'' \<or> HasPrefix db ''postgresql://'' then PostgresStore db
      else SQLiteStore db)"

text \<open>\<open>bee.New\<close>: a client of the node at an address, whose trailing slashes are cut off.\<close>

definition bee_New :: "transport \<Rightarrow> bee_json \<Rightarrow> string \<Rightarrow> Client" where
  "bee_New send js baseURL = \<lparr>cl_base = rev (dropWhile (\<lambda>c. c = CHR ''/'') (rev baseURL)), cl_do = send, cl_json = js\<rparr>"

text \<open>
  What \<open>main\<close> builds: the index, the cache of batches after the check of the default batch, the committer (its batch, whether it
  uploads deferred, its feed) and the keepers. The outcome of opening the index and of reading the feed key are parameters, as
  is the transport; the error is the exit code, 2 for a panic. The log is left out.
\<close>

record Gateway =
  gw_cfg :: Config
  gw_store :: storeKind
  gw_stamps :: stamp_cache
  gw_commits :: "(string \<times> bool \<times> string option) option"
  gw_chequebook :: "Chequebook option"
  gw_autopilot :: "Autopilot option"

definition mainGateway ::
  "os_env \<Rightarrow> float_ops \<Rightarrow> (storeKind \<Rightarrow> bool) \<Rightarrow> (string \<Rightarrow> bool) \<Rightarrow> (string \<Rightarrow> Client) \<Rightarrow> (nat \<Rightarrow> gotime) \<Rightarrow> string list \<Rightarrow>
    (int, Gateway) result" where
  "mainGateway P F opens validKey client clock args =
     (if args \<noteq> [] \<and> args ! 0 = ''-version'' then Inl 0
      else (case Load P args of
        Inl e \<Rightarrow> Inl (if e = HelpRequested then 0 else 2)
      | Inr cfg \<Rightarrow>
          if \<not> opens (chooseStore (cfg_DB cfg)) then Inl 1
          else if cfg_Commit cfg = ''async'' \<and> cfg_FeedKey cfg \<noteq> [] \<and> \<not> validKey (cfg_FeedKey cfg) then Inl 2
          else (case NewChequebook F (cfg_ChequebookMin cfg) (cfg_ChequebookTarget cfg) (cfg_ChequebookReserve cfg) of
            Inl _ \<Rightarrow> Inl 2
          | Inr keeper \<Rightarrow>
              Inr \<lparr>gw_cfg = Config.truncate cfg, gw_store = chooseStore (cfg_DB cfg),
                gw_stamps = (if cfg_BatchID cfg = [] then [] else snd (Check (client (cfg_BeeAPI cfg)) clock [] (cfg_BatchID cfg))),
                gw_commits = (if cfg_Commit cfg = ''async''
                  then Some (cfg_BatchID cfg, cfg_Ack cfg \<noteq> ''network'', if cfg_FeedKey cfg = [] then None else Some (cfg_FeedKey cfg))
                  else None),
                gw_chequebook = keeper,
                gw_autopilot = NewAutopilot F (cfg_StampAutopilot cfg) (cfg_StampTTLMin cfg) (cfg_StampTTLTarget cfg) (cfg_StampDiluteAt cfg)\<rparr>)))"

end
