(* ===== verification/Node_Props.thy ===== *)
theory Node_Props
  imports Fake_Bee Configuration
begin

text \<open>
  Gateway and node together: a loaded configuration, the autopilot built from it, the client and the node of the
  integration tests.
\<close>

section \<open>What a loaded configuration guarantees\<close>

lemma Load_checked: "Load P args = Inr cfg \<Longrightarrow> checkConfig P cfg = None"
  by (auto simp: Load_def rbind_Inr_iff split: option.splits)

lemma checkConfig_pilot:
  assumes "checkConfig P cfg = None" "cfg_StampAutopilot cfg" "cfg_StampTTLMin cfg = Finite lo" "cfg_StampTTLTarget cfg = Finite hi"
  shows "0 < lo \<and> lo \<le> hi"
  using assms unfolding checkConfig_def by (auto split: if_splits)

lemma checkConfig_dilute:
  assumes "checkConfig P cfg = None" "cfg_StampAutopilot cfg"
  shows "\<not> fl_le (cfg_StampDiluteAt cfg) (Finite 0)"
  using assms unfolding checkConfig_def by (auto split: if_splits)

lemma truncRat_mono: "0 \<le> x \<Longrightarrow> x \<le> y \<Longrightarrow> truncRat x \<le> truncRat y"
  by (simp add: truncRat_def floor_mono)

lemma durationOfDays:
  assumes F: "float_ops_ok F rnd" and d: "0 < d" "d \<le> 50000"
  shows "durationOfDays F (Finite d) = truncRat (rnd (rnd (d * 24) * (3600 * 10 ^ 9))) \<and>
    0 \<le> rnd (d * 24) \<and> 0 \<le> rnd (rnd (d * 24) * (3600 * 10 ^ 9)) \<and> rnd (rnd (d * 24) * (3600 * 10 ^ 9)) \<le> 2 ^ 62"
proof -
  have mono: "mono rnd" and ints: "\<And>n. \<bar>n\<bar> \<le> 2 ^ 53 \<Longrightarrow> rnd (of_int n) = of_int n" and top: "rnd (2 ^ 62) = 2 ^ 62"
    and mul: "\<And>x y. \<bar>x * y\<bar> \<le> 2 ^ 63 \<Longrightarrow> fo_mul F (Finite x) (Finite y) = Finite (rnd (x * y))"
    and conv: "\<And>x. - (2 ^ 63) \<le> x \<Longrightarrow> x < 2 ^ 63 \<Longrightarrow> fo_int64 F (Finite x) = truncRat x"
    using F by (auto simp: float_ops_ok_def)
  have z: "rnd 0 = 0" using ints [of 0] by simp
  have b: "rnd 1200000 = 1200000" using ints [of 1200000] by simp
  let ?u = "rnd (d * 24)"
  have u: "0 \<le> ?u" "?u \<le> 1200000"
    using monoD [OF mono, of 0 "d * 24"] monoD [OF mono, of "d * 24" 1200000] z b d by simp_all
  let ?p = "?u * (3600 * 10 ^ 9)"
  have p: "0 \<le> ?p" "?p \<le> 2 ^ 62" using u by simp_all
  have r: "0 \<le> rnd ?p" "rnd ?p \<le> 2 ^ 62"
    using monoD [OF mono p(1)] monoD [OF mono p(2)] z top by simp_all
  have "fo_mul F (Finite d) (Finite 24) = Finite ?u" using d by (intro mul) simp
  moreover have "fo_mul F (Finite ?u) hours = Finite (rnd ?p)" unfolding hours_def using p by (intro mul) simp
  moreover have "fo_int64 F (Finite (rnd ?p)) = truncRat (rnd ?p)" using r by (intro conv) simp_all
  ultimately show ?thesis using u r by (simp add: durationOfDays_def)
qed

lemma durationOfDays_mono:
  assumes "float_ops_ok F rnd" "0 < lo" "lo \<le> hi" "hi \<le> 50000"
  shows "durationOfDays F (Finite lo) \<le> durationOfDays F (Finite hi)" "durationOfDays F (Finite hi) \<le> 2 ^ 62"
    "0 \<le> durationOfDays F (Finite lo)"
proof -
  have mono: "mono rnd" using assms(1) by (simp add: float_ops_ok_def)
  note l = durationOfDays [OF assms(1,2)] and h = durationOfDays [OF assms(1), of hi]
  have "rnd (lo * 24) * (3600 * 10 ^ 9) \<le> rnd (hi * 24) * (3600 * 10 ^ 9)"
    using assms by (intro mult_right_mono monoD [OF mono]) simp_all
  from monoD [OF mono this] show "durationOfDays F (Finite lo) \<le> durationOfDays F (Finite hi)"
    using l h assms truncRat_mono by simp
  have "truncRat (2 ^ 62) = 2 ^ 62" by (simp add: truncRat_def)
  then show "durationOfDays F (Finite hi) \<le> 2 ^ 62"
    using truncRat_mono [of "rnd (rnd (hi * 24) * (3600 * 10 ^ 9))" "2 ^ 62"] h assms by simp
  show "0 \<le> durationOfDays F (Finite lo)" using l assms by (simp add: truncRat_def)
qed

section \<open>A top-up at the node\<close>

lemma big_SetString_Itoa: "big_SetString (strconv_Itoa i) = Some i"
  by (auto simp: big_SetString_def strconv_Itoa_def Let_def show_nat_no_sign parse_digits_show_nat)

lemma plainSegment_Itoa: "0 \<le> i \<Longrightarrow> plainSegment (strconv_Itoa i)"
proof -
  assume i: "0 \<le> i"
  have "c \<noteq> CHR ''/'' \<and> c \<noteq> CHR ''?'' \<and> c \<noteq> CHR ''%''" if c: "c \<in> set (strconv_Itoa i)" for c
    using Itoa_digits [OF i c] by auto
  then show ?thesis by (simp add: plainSegment_def)
qed

lemma newRequest_sel [simp]: "hr_Method (newRequest m u b) = m" "hr_URL (newRequest m u b) = u"
  by (simp_all add: newRequest_def)

lemma serveNode_topup:
  assumes "plainSegment batch" "0 \<le> amount" "gm_get (fb_bought s) batch = Some b"
  shows "serveNode L rnd (deliver base (newRequest ''PATCH'' (base @ ''/stamps/topup/'' @ batch @ ''/'' @ strconv_Itoa amount) [])) s =
    (answer 202 [] (nl_batchID L batch),
     s\<lparr>fb_bought := gm_put batch (b\<lparr>bs_TTL := wrap64 (bs_TTL b + amountTTL amount)\<rparr>) (fb_bought s)\<rparr>)"
proof -
  let ?p = "[''stamps'', ''topup'', batch, strconv_Itoa amount]"
  have plain: "\<forall>x \<in> set ?p. plainSegment x"
    using assms(1) plainSegment_Itoa [OF assms(2)] by (simp add: plainSegment_def)
  have "batch \<noteq> []" "[] \<noteq> strconv_Itoa amount" using assms(1) by (simp_all add: plainSegment_def not_sym [OF strconv_Itoa_not_Nil])
  then have "findEndpoint ''PATCH'' ?p = Some (PatchTopup batch (strconv_Itoa amount))"
    by (simp add: findEndpoint_def)
  then show ?thesis
    by (subst serveNode_route [OF _ plain, where e = "PatchTopup batch (strconv_Itoa amount)"]) (simp_all add: serveEndpoint_def patchTopup_def big_SetString_Itoa assms(3))
qed

lemma fetch_fake:
  assumes "plainSegment batch"
    and "js_stamp js (nl_stamp L (stampJSON batch (gm_get (fb_bought s) batch))) = Inr (stampJSON batch (gm_get (fb_bought s) batch))"
  shows "fst (fetch (fakeClient L rnd js base s) t cache batch) =
    Inr \<lparr>in_Stamp = stampJSON batch (gm_get (fb_bought s) batch), in_FetchedAt = t\<rparr>"
proof -
  have plain: "\<forall>x \<in> set [''stamps'', batch]. plainSegment x" using assms(1) by (simp add: plainSegment_def)
  have "batch \<noteq> []" using assms(1) by (simp add: plainSegment_def)
  then have "findEndpoint ''GET'' [''stamps'', batch] = Some (GetStamp batch)" by (simp add: findEndpoint_def)
  then have "serveNode L rnd (deliver base (newRequest ''GET'' (base @ ''/stamps/'' @ batch) [])) s = (getStamp L batch s, s)"
    by (subst serveNode_route [OF _ plain, where e = "GetStamp batch"]) (simp_all add: serveEndpoint_def)
  then show ?thesis
    by (simp add: fetch_def Client_Stamp_def call_fakeClient getStamp_def answer_def decoded_def assms(2) Let_def)
qed

lemma ChainState_fake:
  assumes "js_currentPrice js (hp_Body getChainstate) = Inr chainPrice"
  shows "ChainState (fakeClient L rnd js base s) = Inr chainPrice"
proof -
  have plain: "\<forall>x \<in> set [''chainstate'']. plainSegment x" by (simp add: plainSegment_def)
  have "findEndpoint ''GET'' [''chainstate''] = Some GetChainstate" by (simp add: findEndpoint_def)
  then have "serveNode L rnd (deliver base (newRequest ''GET'' (base @ ''/chainstate'') [])) s = (getChainstate, s)"
    by (subst serveNode_route [OF _ plain, where e = GetChainstate]) (simp_all add: serveEndpoint_def)
  moreover have "hp_Status getChainstate = 200" by (simp add: getChainstate_def answer_def)
  ultimately show ?thesis using assms by (simp add: ChainState_def call_fakeClient decoded_def)
qed

lemma evaluate_enough:
  assumes "ap_minTTL a \<le> TTLRemaining info now" "\<not> fl_le (ap_diluteAt a) (Finite (Ratio info))"
  shows "evaluate cl now a batch info = None"
  using assms by (simp add: evaluate_def Let_def)

lemma Ratio_fake [simp]: "Ratio \<lparr>in_Stamp = stampJSON batch b, in_FetchedAt = t\<rparr> = 0"
  by (simp add: Ratio_def stampJSON_def Let_def)

text \<open>The arithmetic of a top-up: the batch lives for the target, and not much longer.\<close>

lemma topup_TTL:
  fixes ttl age target :: int
  assumes "0 \<le> ttl" "ttl \<le> 9223372036" "0 \<le> age" "age \<le> 2 ^ 61" "0 \<le> target" "target \<le> 2 ^ 62"
    and low: "ttl * second - age < target" and a: "ap_targetTTL a = target"
  defines "amount \<equiv> topupAmount a (ttl * second - age) chainPrice"
  defines "new \<equiv> wrap64 (ttl + amountTTL amount)"
  shows "0 \<le> amount \<and> target < new * second \<and> new * second \<le> target + age + gnosisBlockTime"
proof -
  let ?m = "target - (ttl * second - age)"
  let ?blocks = "?m div gnosisBlockTime + 1"
  have g: "gnosisBlockTime = 5 * second" by (simp add: gnosisBlockTime_def)
  have m: "0 < ?m" "?m \<le> 2 ^ 62 + 2 ^ 61" using assms(1-6) low g by simp_all
  have wm: "wrap64 ?m = ?m" using m by (intro wrap64_id) (simp add: in_int64_def)
  have e: "?blocks * gnosisBlockTime = ?m div gnosisBlockTime * gnosisBlockTime + gnosisBlockTime"
    by (simp only: distrib_right mult_1)
  have "0 < gnosisBlockTime" by (simp add: g)
  then have div: "?m div gnosisBlockTime * gnosisBlockTime \<le> ?m" "?m < ?blocks * gnosisBlockTime"
    using div_mult_mod_eq [of ?m gnosisBlockTime] pos_mod_bound [of gnosisBlockTime ?m] pos_mod_sign [of gnosisBlockTime ?m] e
    by linarith+
  have "?m div gnosisBlockTime \<le> (2 ^ 62 + 2 ^ 61) div gnosisBlockTime" using m(2) by (rule zdiv_mono1) (simp add: g)
  moreover have "(2 ^ 62 + 2 ^ 61) div gnosisBlockTime \<le> 2 ^ 32 - 1" by (simp add: g)
  moreover have "0 \<le> ?m div gnosisBlockTime" using m(1) by (simp add: g pos_imp_zdiv_nonneg_iff)
  ultimately have blocks: "1 \<le> ?blocks" "?blocks \<le> 2 ^ 32" by linarith+
  have amount: "amount = ?blocks * chainPrice"
    using m blocks a by (simp add: amount_def topupAmount_def wm truncDiv_def wrap64_id in_int64_def)
  have "amount div chainPrice = ?blocks" by (simp add: amount chainPrice_def)
  then have "amountTTL amount = ?blocks * 5" using blocks by (simp add: amountTTL_def wrap64_id in_int64_def)
  then have "new = ttl + ?blocks * 5"
    using assms(1,2) blocks by (simp add: new_def wrap64_id in_int64_def)
  then have "new * second = ttl * second + ?blocks * gnosisBlockTime" by (simp add: g algebra_simps)
  moreover have "0 \<le> amount" using blocks by (simp add: amount chainPrice_def)
  moreover have "?blocks * gnosisBlockTime \<le> ?m + gnosisBlockTime" using div(1) e by linarith
  ultimately show ?thesis using div(2) assms(3) by linarith
qed


section \<open>Examples\<close>

text \<open>Libraries for the examples: a hash and encodings that are good enough for them, exact arithmetic, and an empty environment.\<close>

definition demoFake :: node_lib where
  "demoFake = \<lparr>nl_sha256 = id, nl_reference = id, nl_grantee = (\<lambda>ref h. ref), nl_keys = concat, nl_addresses = id,
     nl_stamp = (\<lambda>st. strconv_Itoa (st_BatchTTL st)), nl_stamps = (\<lambda>_. []), nl_batchID = id, nl_decGrantees = (\<lambda>_. None),
     nl_decPatch = (\<lambda>_. None), nl_multipart = (\<lambda>_ _. [])\<rparr>"

definition demoFakeJSON :: bee_json where
  "demoFakeJSON = (demoJSON 0)\<lparr>js_currentPrice := (\<lambda>_. Inr chainPrice), js_wallet := (\<lambda>_. Inr (10 ^ 18, 1)),
     js_stamp := (\<lambda>x. case strconv_Atoi x of Some n \<Rightarrow> Inr (stampJSON ''ab'' (Some \<lparr>bs_Depth = 17, bs_TTL = n\<rparr>)) | None \<Rightarrow> Inl [])\<rparr>"

definition demoUpload :: UploadOptions where
  "demoUpload = \<lparr>uo_BatchID = ''b1'', uo_Encrypt = False, uo_RedundancyLevel = 0, uo_Deferred = True, uo_ContentLength = 5,
     uo_Act = False, uo_ActHistory = []\<rparr>"

lemma demoUpload_ok:
  "UploadBytes (fakeClient demoFake (\<lambda>_. ''z'') demoFakeJSON ''http://bee'' newFakeBee) ''hello'' False demoUpload =
     Inr (hex_EncodeToString ''hello'', [])"
  by code_simp

text \<open>Bytes 1 to 3 of an upload, after someone else has uploaded other bytes.\<close>

theorem node_keeps_uploads_witness:
  "\<exists>resp. DownloadBytes (fakeClient demoFake (\<lambda>_. ''z'') demoFakeJSON ''http://bee''
       (runNode demoFake [((\<lambda>_. ''y''), \<lparr>nr_Method = ''POST'', nr_Path = [''bytes''], nr_Query = [],
            nr_Header = [(''swarm-postage-batch-id'', [''b2''])], nr_Body = ''other'', nr_BodyErr = False\<rparr>)]
         (afterCall demoFake (\<lambda>_. ''z'') ''http://bee'' (uploadRequest (fakeClient demoFake (\<lambda>_. ''z'') demoFakeJSON ''http://bee'' newFakeBee)
            ''hello'' False demoUpload) newFakeBee)))
     (hex_EncodeToString ''hello'')
     \<lparr>do_Range = rangeSpec 1 3, do_Strategy = [], do_FallbackMode = [], do_ActHistory = [], do_ActPublisher = [], do_ActTimestamp = 0\<rparr> = Inr resp \<and>
     hp_Body resp = ''ell'' \<and> \<not> hp_Broken resp"
proof (rule node_keeps_uploads [OF _ demoUpload_ok _ _ _ _ refl])
  show "js_reference demoFakeJSON (nl_reference demoFake ref) = Inr ref" for ref
    by (simp add: demoFakeJSON_def demoJSON_def demoFake_def)
  show "gm_get (fb_actRefs newFakeBee) (hex_EncodeToString ''hello'') = None" by (simp add: newFakeBee_def)
  show "\<forall>x \<in> set [((\<lambda>_ :: nat. ''y''), \<lparr>nr_Method = ''POST'', nr_Path = [''bytes''], nr_Query = [],
            nr_Header = [(''swarm-postage-batch-id'', [''b2''])], nr_Body = ''other'', nr_BodyErr = False\<rparr>)].
      leavesRef demoFake (hex_EncodeToString ''hello'') ''hello'' x" by code_simp
  show "askedPart (do_Range \<lparr>do_Range = rangeSpec 1 3, do_Strategy = [], do_FallbackMode = [], do_ActHistory = [], do_ActPublisher = [],
      do_ActTimestamp = 0\<rparr>) ''hello'' ''ell''"
    unfolding askedPart_def by (intro disjI2 exI [of _ 1] exI [of _ 3]) simp
qed (simp_all add: in_int64_def)

definition demoOS :: os_env where
  "demoOS = \<lparr>os_LookupEnv = (\<lambda>_. None), os_ReadFile = (\<lambda>_. Inl []), os_Stat = (\<lambda>_. None), os_ParseFloat = (\<lambda>_. Some NaN),
     os_ParseLiteral = (\<lambda>_. None)\<rparr>"

definition demoFloats :: float_ops where
  "demoFloats = \<lparr>fo_mul = (\<lambda>x y. case (x, y) of (Finite x, Finite y) \<Rightarrow> Finite (x * y) | _ \<Rightarrow> NaN),
     fo_int64 = (\<lambda>x. case x of Finite x \<Rightarrow> truncRat x | _ \<Rightarrow> 0)\<rparr>"

lemma demoFloats_ok: "float_ops_ok demoFloats (\<lambda>x. x)"
  by (simp add: float_ops_ok_def demoFloats_def monoI)

definition demoBought :: FakeBee where
  "demoBought = newFakeBee\<lparr>fb_bought := [(''ab'', \<lparr>bs_Depth = 17, bs_TTL = 600\<rparr>)]\<rparr>"

definition demoLoaded :: GatewayConfig where
  "demoLoaded = (envConfig demoOS)\<lparr>cfg_StampAutopilot := True\<rparr>"

lemma demoLoad: "Load demoOS [''-stamp-autopilot''] = Inr demoLoaded"
  by code_simp

text \<open>The comparisons of the thresholds let NaN through.\<close>

lemma load_accepts_nan:
  "\<exists>cfg. Load demoOS [''-stamp-autopilot'', ''-stamp-ttl-target=NaN''] = Inr cfg \<and> cfg_StampTTLTarget cfg = NaN"
  by (rule exI [of _ "demoLoaded\<lparr>cfg_StampTTLTarget := NaN\<rparr>"]) code_simp

definition demoLoadedPilot :: Autopilot where
  "demoLoadedPilot = \<lparr>ap_minTTL = 2592000 * second, ap_targetTTL = 7776000 * second, ap_diluteAt = Finite (85 / 100)\<rparr>"

lemma demoLoaded_sel:
  "cfg_StampAutopilot demoLoaded" "cfg_StampTTLMin demoLoaded = Finite 30" "cfg_StampTTLTarget demoLoaded = Finite 90"
  "cfg_StampDiluteAt demoLoaded = Finite (85 / 100)"
  by (simp_all add: demoLoaded_def envConfig_def envFloat_def demoOS_def)

lemma demoLoaded_pilot:
  "NewAutopilot demoFloats (cfg_StampAutopilot demoLoaded) (cfg_StampTTLMin demoLoaded) (cfg_StampTTLTarget demoLoaded)
     (cfg_StampDiluteAt demoLoaded) = Some demoLoadedPilot"
  by (simp add: demoLoaded_sel NewAutopilot_def durationOfDays_def demoFloats_def hours_def truncRat_def demoLoadedPilot_def)

abbreviation "demoBee \<equiv> fakeClient demoFake (\<lambda>_. ''z'') demoFakeJSON ''http://bee''"

lemma demoBee_wallet: "WalletBalance (demoBee s) = Inr (10 ^ 18, 1)"
proof -
  have plain: "\<forall>x \<in> set [''wallet'']. plainSegment x" by (simp add: plainSegment_def)
  have "findEndpoint ''GET'' [''wallet''] = Some GetWallet" by (simp add: findEndpoint_def)
  then have "serveNode demoFake (\<lambda>_. ''z'') (deliver ''http://bee'' (newRequest ''GET'' (''http://bee'' @ ''/wallet'') [])) s = (getWallet s, s)"
    by (subst serveNode_route [OF _ plain, where e = GetWallet]) (simp_all add: serveEndpoint_def)
  moreover have "hp_Status (getWallet s) = 200" by (simp add: getWallet_def answer_def)
  ultimately show ?thesis by (simp add: WalletBalance_def call_fakeClient decoded_def demoFakeJSON_def)
qed

lemma demoBee_topup:
  "evaluate (demoBee demoBought) 0 demoLoadedPilot ''ab''
     \<lparr>in_Stamp = stampJSON ''ab'' (Some \<lparr>bs_Depth = 17, bs_TTL = 600\<rparr>), in_FetchedAt = 0\<rparr> = Some (Topup ''ab'' 37321944000)"
proof -
  have "ChainState (demoBee demoBought) = Inr chainPrice" by (rule ChainState_fake) (simp add: demoFakeJSON_def)
  then show ?thesis
    by (simp add: evaluate_def demoLoadedPilot_def demoBee_wallet Ratio_def TTLRemaining_def stampJSON_def time_Sub_def wrap64_def
        topupAmount_def truncDiv_def gnosisBlockTime_def chainPrice_def Let_def)
qed


end
