(* ===== verification/Multipart_Props.thy ===== *)
theory Multipart_Props
  imports Handler_Props Node_Props
begin

text \<open>
  Multipart uploads end to end: what a completion leaves in the index and what a get of the key then serves.
\<close>

section \<open>Completion\<close>

lemma pickParts_Inr:
  "pickParts stored req = Inr parts \<Longrightarrow>
     map part_PartNumber parts = map cp_PartNumber req \<and> map part_ETag parts = map (trimETag \<circ> cp_ETag) req \<and>
     set parts \<subseteq> set stored \<and> (\<forall>p \<in> set (butlast parts). minPartSize \<le> part_Size p)"
proof (induction stored req arbitrary: parts rule: pickParts.induct)
  case (2 stored w ws)
  obtain p ps where p: "List.find (\<lambda>p. part_PartNumber p = cp_PartNumber w) stored = Some p" "part_ETag p = trimETag (cp_ETag w)"
    "\<not> (ws \<noteq> [] \<and> part_Size p < minPartSize)" "pickParts stored ws = Inr ps" "parts = p # ps"
    using "2.prems" by (auto simp: rbind_Inr_iff split: option.splits if_splits)
  have "p \<in> set stored" "part_PartNumber p = cp_PartNumber w" using p(1) by (auto simp: find_Some_iff)
  moreover have "ps = [] \<longleftrightarrow> ws = []" using "2.IH" [OF p(1) _ _ p(4)] p(2,3) by (metis length_0_conv length_map)
  ultimately show ?case using "2.IH" [OF p(1) _ _ p(4)] p(2,3,5) by auto
qed simp

lemma foldl_wrap64:
  "0 \<le> n \<Longrightarrow> \<forall>p \<in> set ps. 0 \<le> part_Size p \<Longrightarrow> n + sum_list (map part_Size ps) < 2 ^ 63 \<Longrightarrow>
   foldl (\<lambda>n p. wrap64 (n + part_Size p)) n ps = n + sum_list (map part_Size ps)"
proof (induction ps arbitrary: n)
  case (Cons p ps)
  have "0 \<le> sum_list (map part_Size ps)" using Cons.prems(2) by (intro sum_list_nonneg) auto
  then have "wrap64 (n + part_Size p) = n + part_Size p" using Cons.prems by (intro wrap64_id) (simp add: in_int64_def)
  with Cons show ?case by simp
qed simp

lemma serveComposite_whole:
  assumes "download_ranges dl content" "composite_ok content ob"
  shows "serveComposite dl fs pub [] ob b =
    Inr \<lparr>cr_Status = 200, cr_ContentRange = [], cr_ContentLength = obj_Size ob, cr_Body = compositeBytes content ob\<rparr>"
proof -
  have "nat (obj_Size ob) = length (compositeBytes content ob)" using assms(2) by (simp add: composite_ok_def)
  then show ?thesis by (simp add: serveComposite_def Let_def composite_body [OF assms])
qed

lemma hupdate_Inr: "hupdate u s = (Inr x, s') \<longleftrightarrow>
    (case u (srv_store s) of Inl e \<Rightarrow> x = Inl e \<and> s' = s | Inr m \<Rightarrow> x = Inr () \<and> s' = s\<lparr>srv_store := m\<rparr>)"
  by (auto simp: hupdate_def split: sum.split)

text \<open>A completed upload in the index: the object of the parts that were named, and the upload is gone.\<close>

lemma completeUpload_Inr:
  assumes wf: "memory_wf (srv_store s)" and b: "GetBucket (srv_store s) n = Inr b"
    and clock: "\<forall>v \<in> set (mem_versions (srv_store s) n k). \<forall>i. obj_VSeq v \<le> env_clock E i"
    and run: "completeUpload E c n k b req upload s = (Inr r, s')"
  obtains stored parts vseq vid now where "ListParts (srv_store s) (up_UploadID upload) 0 (- 1) = Inr stored" "ascending 0 req"
    "pickParts stored req = Inr parts" "fst r = 200" "GetBucket (srv_store s') n = Inr b"
    "GetObject (srv_store s') n k =
       Inr ((completedObject E n k now upload parts)\<lparr>obj_VSeq := vseq, obj_VersionID := vid, obj_IsLatest := True\<rparr>)"
    "gm_get (mem_uploads (srv_store s')) (up_UploadID upload) = None"
proof -
  obtain stored parts ob v s1 m where st: "ListParts (srv_store s) (up_UploadID upload) 0 (- 1) = Inr stored" "ascending 0 req"
    "pickParts stored req = Inr parts"
    "stampVersion E (completedObject E n k (env_clock E (srv_tick s)) upload parts) (bkt_Versioning b) (s\<lparr>srv_tick := Suc (srv_tick s)\<rparr>) = (Inr (ob, v), s1)"
    "PutObject (srv_store s1) ob (requestCondition c) = Inr m"
    and rest: "hthen (setVersionHeader v)
      (hthen (hupdate (\<lambda>m. DeleteMultipartUpload m (up_UploadID upload)))
      (hthen (hwhen (up_Encrypted upload) (hset ''x-amz-server-side-encryption'' ''AES256''))
      (hthen (hnotify E n)
      (writeCompleteResult c n k (obj_ETag ob))))) (s1\<lparr>srv_store := m\<rparr>) = (Inr r, s')"
    using run unfolding completeUpload_def
    by (auto simp: run_Inr hcheck_def hret_def herr_def split: if_splits prod.splits)
  obtain x s2 s3 where ver: "setVersionHeader v (s1\<lparr>srv_store := m\<rparr>) = (Inr (), s2)"
    and del: "hupdate (\<lambda>m. DeleteMultipartUpload m (up_UploadID upload)) s2 = (Inr x, s3)"
    and last: "hthen (hwhen (up_Encrypted upload) (hset ''x-amz-server-side-encryption'' ''AES256''))
      (hthen (hnotify E n) (writeCompleteResult c n k (obj_ETag ob))) s3 = (Inr r, s')"
    using rest by (auto simp: hthen_Inr)
  from ver have "srv_store s2 = srv_store (s1\<lparr>srv_store := m\<rparr>)" by (rule keeps_same [rotated]) (intro keeps_intros)
  then have s2: "srv_store s2 = m" by simp
  from last have s': "srv_store s' = srv_store s3" by (rule keeps_same [rotated]) (intro keeps_intros)
  have ok: "fst r = 200" using last by (auto simp: hthen_Inr writeCompleteResult_def writeXML_def hret_def)
  have s3: "gm_get (mem_uploads (srv_store s3)) (up_UploadID upload) = None \<and> mem_buckets (srv_store s3) = mem_buckets m"
    using del s2 by (auto simp: hupdate_Inr DeleteMultipartUpload_def split: option.splits)
  obtain i vid where ob: "ob = (completedObject E n k (env_clock E (srv_tick s)) upload parts)
      \<lparr>obj_VSeq := env_clock E i, obj_IsLatest := True, obj_VersionID := vid\<rparr>" and s1: "srv_store s1 = srv_store s"
    using stampVersion_Inr [OF st(4)] by auto
  have at: "obj_Bucket ob = n" "obj_Key ob = k" "obj_VSeq ob = env_clock E i" by (simp_all add: ob completedObject_def)
  then have "newest ob (mem_versions (srv_store s) (obj_Bucket ob) (obj_Key ob))" using clock by (simp add: newest_def)
  note new = PutObject_newest [OF wf st(5) [unfolded s1] this]
  have same: "GetObject (srv_store s') n k = GetObject m n k" "GetBucket (srv_store s') n = GetBucket m n"
    using s3 s' by (simp_all add: GetObject_def GetBucket_def getBucket_def)
  show ?thesis
  proof (rule that [OF st(1-3) ok])
    show "GetBucket (srv_store s') n = Inr b" using same(2) new(2) b by simp
    show "gm_get (mem_uploads (srv_store s')) (up_UploadID upload) = None" using s3 s' by simp
    show "GetObject (srv_store s') n k = Inr ((completedObject E n k (env_clock E (srv_tick s)) upload parts)
        \<lparr>obj_VSeq := env_clock E i, obj_VersionID := vid, obj_IsLatest := True\<rparr>)"
      using new(1) same(1) at by (simp add: ob)
  qed
qed

text \<open>A part of an upload, and an upload whose parts are with the node and fit into 63 bits together.\<close>

definition hasPart :: "Memory \<Rightarrow> string \<Rightarrow> Part \<Rightarrow> bool" where
  "hasPart m uid p \<longleftrightarrow> (case gm_get (mem_uploads m) uid of None \<Rightarrow> False | Some u \<Rightarrow> gm_get (mu_parts u) (part_PartNumber p) = Some p)"

definition partsUploaded :: "(string \<Rightarrow> string) \<Rightarrow> Memory \<Rightarrow> string \<Rightarrow> bool" where
  "partsUploaded content m uid \<longleftrightarrow>
     (case gm_get (mem_uploads m) uid of
        None \<Rightarrow> True
      | Some u \<Rightarrow> (\<forall>p \<in> set (map snd (mu_parts u)). part_Size p = int (length (content (part_SwarmRef p)))) \<and>
          sum_list (map part_Size (map snd (mu_parts u))) < 2 ^ 63)"

lemma ListParts_hasPart:
  assumes "memory_wf m" "ListParts m uid 0 (- 1) = Inr stored" "p \<in> set stored"
  shows "hasPart m uid p"
proof -
  obtain u where u: "gm_get (mem_uploads m) uid = Some u"
    "stored = map (\<lambda>n. the (gm_get (mu_parts u) n)) (takeLimit (- 1) (sort (filter (\<lambda>n. 0 < n) (map fst (mu_parts u)))))"
    using assms(2) by (auto simp: ListParts_def Let_def split: option.splits)
  then obtain k where k: "k \<in> fst ` set (mu_parts u)" "p = the (gm_get (mu_parts u) k)"
    using assms(3) by (auto simp: takeLimit_def)
  then obtain q where q: "gm_get (mu_parts u) k = Some q" by (metis gm_get_None_iff not_None_eq)
  have "part_PartNumber q = k"
    using memory_wf_upload [OF assms(1) u(1)] q by (auto simp: upload_wf_def dest: gm_allD)
  with u(1) k(2) q show ?thesis by (simp add: hasPart_def)
qed

lemma ascending_sorted: "ascending n req \<Longrightarrow> (\<forall>w \<in> set req. n < cp_PartNumber w) \<and> distinct (map cp_PartNumber req)"
proof (induction n req rule: ascending.induct)
  case (2 n w ws)
  then have "\<forall>v \<in> set ws. cp_PartNumber w < cp_PartNumber v" "distinct (map cp_PartNumber ws)" "n < cp_PartNumber w" by auto
  then show ?case by force
qed simp

lemma sum_set_le_sum_list:
  fixes f :: "'a \<Rightarrow> int"
  shows "\<forall>x \<in> set xs. 0 \<le> f x \<Longrightarrow> sum f (set xs) \<le> sum_list (map f xs)"
proof (induction xs)
  case (Cons x xs)
  then have "sum f (set xs) \<le> sum_list (map f xs)" "0 \<le> f x" by simp_all
  then show ?case by (cases "x \<in> set xs") (simp_all add: insert_absorb)
qed simp

lemma parts_total:
  assumes "partsUploaded content m uid" "\<forall>p \<in> set ps. hasPart m uid p" "distinct (map part_PartNumber ps)"
  shows "(\<forall>p \<in> set ps. part_Size p = int (length (content (part_SwarmRef p)))) \<and> sum_list (map part_Size ps) < 2 ^ 63"
proof (cases "gm_get (mem_uploads m) uid")
  case None
  then have "ps = []" using assms(2) by (cases ps) (auto simp: hasPart_def)
  then show ?thesis by simp
next
  case (Some u)
  let ?all = "map snd (mu_parts u)"
  have sizes: "\<forall>p \<in> set ?all. part_Size p = int (length (content (part_SwarmRef p)))" and total: "sum_list (map part_Size ?all) < 2 ^ 63"
    using assms(1) Some by (simp_all add: partsUploaded_def)
  have sub: "set ps \<subseteq> set ?all"
  proof
    fix p assume "p \<in> set ps"
    then have "gm_get (mu_parts u) (part_PartNumber p) = Some p" using assms(2) Some by (auto simp: hasPart_def)
    then show "p \<in> set ?all" by (force dest: map_of_SomeD)
  qed
  have "sum_list (map part_Size ps) = sum part_Size (set ps)"
    using assms(3) by (intro sum_list_distinct_conv_sum_set) (simp add: distinct_map)
  also have "\<dots> \<le> sum part_Size (set ?all)" using sub sizes by (intro sum_mono2) auto
  also have "\<dots> \<le> sum_list (map part_Size ?all)"
    using sizes by (intro sum_set_le_sum_list) auto
  finally show ?thesis using total sizes sub by auto
qed

text \<open>C6. A completed multipart upload is the concatenation of the parts that were named. When the completion of an upload is
  answered with success, it is answered with 200, the parts were named in ascending order by their numbers and entity tags, each but
  the last of at least 5 MiB, the upload is gone, and a plain get of the key serves the bytes of those parts one after the other. It
  relies on a node that serves byte ranges of what it has, on an unprotected bucket, and on a clock that is not behind.\<close>

theorem complete_then_get:
  assumes "memory_wf (srv_store s)" "GetBucket (srv_store s) n = Inr b" "\<not> bkt_ACT b"
    and "\<forall>v \<in> set (mem_versions (srv_store s) n k). \<forall>i. obj_VSeq v \<le> env_clock E i"
    and "env_xmlComplete E (take (4 * 1024 * 1024) (ca_body c)) = Some req"
    and "GetMultipartUpload (srv_store s) n k (Values_Get (ca_query c) ''uploadId'') = Inr upload"
    and "download_ranges (beeDownload (env_bee E)) content" "partsUploaded content (srv_store s) (up_UploadID upload)"
    and "handleCompleteMultipartUpload E c n k s = (Inr r, s1)"
    and "srv_store s2 = srv_store s1" "ca_header g = []" "ca_query g = []"
  shows "fst r = 200 \<and> ascending 0 req \<and> GetMultipartUpload (srv_store s1) n k (up_UploadID upload) = Inl ErrUploadNotFound \<and>
    (\<exists>parts s3. map part_PartNumber parts = map cp_PartNumber req \<and> map part_ETag parts = map (trimETag \<circ> cp_ETag) req \<and>
      (\<forall>p \<in> set parts. hasPart (srv_store s) (up_UploadID upload) p) \<and> (\<forall>p \<in> set (butlast parts). minPartSize \<le> part_Size p) \<and>
      handleGetObject E g n k True s2 = (Inr (200, Bytes (concat (map (content \<circ> part_SwarmRef) parts))), s3))"
proof -
  have req: "req \<noteq> []" and run: "completeUpload E c n k b req upload s = (Inr r, s1)"
    using assms(2,5,6,9) unfolding handleCompleteMultipartUpload_def readLimited_def
    by (auto simp: run_Inr run_simps hcheck_def hret_def herr_def split: if_splits)
  obtain stored parts vseq vid now where st: "ListParts (srv_store s) (up_UploadID upload) 0 (- 1) = Inr stored" "ascending 0 req"
    "pickParts stored req = Inr parts" "fst r = 200" "GetBucket (srv_store s1) n = Inr b"
    "GetObject (srv_store s1) n k =
       Inr ((completedObject E n k now upload parts)\<lparr>obj_VSeq := vseq, obj_VersionID := vid, obj_IsLatest := True\<rparr>)"
    "gm_get (mem_uploads (srv_store s1)) (up_UploadID upload) = None"
    using completeUpload_Inr [OF assms(1,2,4) run] by metis
  let ?ob = "(completedObject E n k now upload parts)\<lparr>obj_VSeq := vseq, obj_VersionID := vid, obj_IsLatest := True\<rparr>"
  note picked = pickParts_Inr [OF st(3)]
  have has: "\<forall>p \<in> set parts. hasPart (srv_store s) (up_UploadID upload) p"
    using picked ListParts_hasPart [OF assms(1) st(1)] by blast
  have "distinct (map part_PartNumber parts)" using picked ascending_sorted [OF st(2)] by simp
  note total = parts_total [OF assms(8) has this]
  have row: "obj_Parts ?ob = parts" "\<not> obj_DeleteMarker ?ob" by (simp_all add: completedObject_def zeroObject_def)
  have "sum_list (map part_Size parts) = int (length (concat (map (content \<circ> part_SwarmRef) parts)))"
    using total by (simp add: length_concat comp_def sum_list_of_nat [symmetric] cong: map_cong)
  moreover have "foldl (\<lambda>n p. wrap64 (n + part_Size p)) 0 parts = sum_list (map part_Size parts)"
    using foldl_wrap64 [of 0 parts] total by simp
  ultimately have ok: "composite_ok content ?ob"
    using total by (simp add: composite_ok_def compositeBytes_def completedObject_def in_int64_def)
  obtain s' where get: "handleGetObject E g n k True s2 = serveObject E b ?ob [] True s'"
    using handleGetObject_run [of s2 n b k ?ob g E True] st(5,6) row(2) assms(10-12) by auto
  have ne: "parts \<noteq> []" using picked req by auto
  have "\<exists>s3. serveObject E b ?ob [] True s' = (Inr (200, Bytes (compositeBytes content ?ob)), s3)"
    using ne assms(3) row(1)
    by (simp add: serveObject_def publisherOr_def run_simps hbind_def [of "hlift _"] hlift_def serveComposite_whole [OF assms(7) ok])
  then show ?thesis
    using st(2,4,7) picked has get row(1) by (auto simp: GetMultipartUpload_def compositeBytes_def)
qed

section \<open>An upload of two parts\<close>

lemma completeUpload_ok:
  assumes "ListParts (srv_store s) (up_UploadID upload) 0 (- 1) = Inr stored" "ascending 0 req" "pickParts stored req = Inr parts"
    and put: "\<And>ob. obj_Bucket ob = n \<Longrightarrow> \<exists>m. PutObject (srv_store s) ob (requestCondition c) = Inr m"
  shows "\<exists>r s'. completeUpload E c n k b req upload s = (Inr r, s')"
proof -
  define s1 where "s1 = s\<lparr>srv_tick := Suc (srv_tick s)\<rparr>"
  define ob where "ob = completedObject E n k (env_clock E (srv_tick s)) upload parts"
  obtain ob' v s2 where st: "stampVersion E ob (bkt_Versioning b) s1 = (Inr (ob', v), s2)"
    by (cases "bkt_Versioning b = ''Enabled''") (simp_all add: stampVersion_def newVersionID_def hbind_def hnow_def hrandom_def hret_def Let_def)
  have "obj_Bucket ob' = n" "srv_store s2 = srv_store s"
    using stampVersion_Inr [OF st] by (auto simp: ob_def completedObject_def s1_def)
  then obtain m where m: "PutObject (srv_store s2) ob' (requestCondition c) = Inr m" using put by metis
  let ?tail = "hthen (hwhen (up_Encrypted upload) (hset ''x-amz-server-side-encryption'' ''AES256''))
    (hthen (hnotify E n) (writeCompleteResult c n k (obj_ETag ob')))"
  have tail: "proceeds ?tail"
    unfolding writeCompleteResult_def writeXML_def by (intro proceeds_then proceeds_when proceeds_rules proceeds_steps)
  obtain s3 where ver: "hthen (setVersionHeader v) h (s2\<lparr>srv_store := m\<rparr>) = h s3" for h :: "reply handler"
    by (cases "v = []") (simp_all add: setVersionHeader_def hwhen_def run_simps)
  obtain s4 where del: "hthen (hupdate (\<lambda>m. DeleteMultipartUpload m (up_UploadID upload))) h s3 = h s4" for h :: "reply handler"
    by (cases "DeleteMultipartUpload (srv_store s3) (up_UploadID upload)") (simp_all add: hthen_def hbind_def hupdate_def)
  have "completeUpload E c n k b req upload s = ?tail s4"
    unfolding completeUpload_def run_store(1) [of "\<lambda>m. ListParts m (up_UploadID upload) 0 (- 1)", OF assms(1)]
    by (simp add: assms(2,3) run_simps hbind_def [of "hlift _"] hlift_def hbind_def [of "stampVersion _ _ _"] st m ver del
        flip: s1_def ob_def)
  then show ?thesis using tail unfolding proceeds_def by metis
qed

text \<open>Five mebibytes and a tail, in parts 1 and 3; the node of the integration tests holds both.\<close>

abbreviation demoBytes :: string where "demoBytes \<equiv> replicate (5 * 1024 * 1024) CHR ''x''"

definition demoParts :: "Part list" where
  "demoParts =
     [zeroPart\<lparr>part_PartNumber := 1, part_SwarmRef := ''aa'', part_Size := minPartSize, part_ETag := ''e1''\<rparr>,
      zeroPart\<lparr>part_PartNumber := 3, part_SwarmRef := ''bb'', part_Size := 4, part_ETag := ''e3''\<rparr>]"

definition demoMultipart :: MultipartUpload where
  "demoMultipart = \<lparr>up_UploadID = ''u1'', up_Bucket = ''bkt'', up_Key = ''k'', up_Initiated = 5, up_ContentType = [],
     up_StorageClass = [], up_UserMetadata = [], up_BatchID = [], up_Encrypted = False, up_Tags = []\<rparr>"

definition demo8 :: Memory where
  "demo8 = demo1\<lparr>mem_uploads := [(''u1'', \<lparr>mu_meta = demoMultipart, mu_parts = [(1, demoParts ! 0), (3, demoParts ! 1)]\<rparr>)]\<rparr>"

definition demoStored :: FakeBee where
  "demoStored = newFakeBee\<lparr>fb_blobs := [(''aa'', demoBytes), (''bb'', ''tail'')]\<rparr>"

definition demoNamed :: completeMultipartUploadRequest where
  "demoNamed = [\<lparr>cp_PartNumber = 1, cp_ETag = ''e1''\<rparr>, \<lparr>cp_PartNumber = 3, cp_ETag = ''e3''\<rparr>]"

definition demoComplete :: Env where
  "demoComplete = demoOpen\<lparr>env_bee := demoBee demoStored, env_xmlComplete := (\<lambda>_. Some demoNamed)\<rparr>"

definition demoCompleteCall :: Call where
  "demoCompleteCall = demoCall (demoRequest ''/bkt/k'' []\<lparr>req_Query := [(''uploadId'', [''u1''])]\<rparr>)"

lemma demoNamed_pick: "pickParts demoParts demoNamed = Inr demoParts" "ascending 0 demoNamed" "demoNamed \<noteq> []"
proof -
  have "trimETag ''e1'' = ''e1''" "trimETag ''e3'' = ''e3''" by code_simp+
  then show "pickParts demoParts demoNamed = Inr demoParts"
    by (simp add: demoParts_def demoNamed_def zeroPart_def)
  show "ascending 0 demoNamed" "demoNamed \<noteq> []" by (simp_all add: demoNamed_def)
qed

lemma demo8_list: "ListParts demo8 ''u1'' 0 (- 1) = Inr demoParts"
  by (simp add: ListParts_def demo8_def takeLimit_def demoParts_def)

lemma demo8_wf: "memory_wf demo8"
  using mem_reachable_wf [OF demo_reachable(1)]
  by (simp add: memory_wf_def demo8_def gm_all_def gm_wf_def upload_wf_def demoMultipart_def demoParts_def zeroPart_def)

lemma demoStored_open: "openContent demoStored ''aa'' = demoBytes" "openContent demoStored ''bb'' = ''tail''"
proof -
  have "hexText ''aa''" "hexText ''bb''" by code_simp+
  then show "openContent demoStored ''aa'' = demoBytes" "openContent demoStored ''bb'' = ''tail''"
    by (simp_all add: openContent_def demoStored_def newFakeBee_def)
qed

theorem complete_then_get_witness:
  "\<exists>s3. handleGetObject demoComplete demoGet ''bkt'' ''k'' True
     (snd (handleCompleteMultipartUpload demoComplete demoCompleteCall ''bkt'' ''k'' (demoSrv demo8))) =
     (Inr (200, Bytes (demoBytes @ ''tail'')), s3)"
proof -
  let ?s = "demoSrv demo8" and ?b = "demoBucket\<lparr>bkt_CreatedAt := 5\<rparr>"
  have s: "srv_store ?s = demo8" by (simp add: demoSrv_def)
  have same: "GetBucket demo8 m = GetBucket demo1 m" "mem_versions demo8 m j = mem_versions demo1 m j"
    "getBucket demo8 m = getBucket demo1 m" for m j
    by (simp_all add: GetBucket_def getBucket_def demo8_def mem_versions_def)
  have upl: "GetMultipartUpload demo8 ''bkt'' ''k'' (Values_Get (ca_query demoCompleteCall) ''uploadId'') = Inr demoMultipart"
    by (simp add: GetMultipartUpload_def demo8_def demoMultipart_def demoCompleteCall_def demoCall_def Values_Get_def)
  have id: "up_UploadID demoMultipart = ''u1''" by (simp add: demoMultipart_def)
  have cond: "requestCondition demoCompleteCall = None"
    by (simp add: requestCondition_def demoCompleteCall_def demoCall_def demoRequest_def Header_Get_def Header_Values_def)
  have "\<not> isl (getBucket demo1 ''bkt'')" by code_simp
  then have "\<exists>m. PutObject (srv_store ?s) ob (requestCondition demoCompleteCall) = Inr m" if "obj_Bucket ob = ''bkt''" for ob
    using that by (cases "getBucket demo1 ''bkt''") (auto simp: PutObject_def PutCondition_Ok_def Let_def s same cond)
  with demo8_list demoNamed_pick obtain r s1 where
    "completeUpload demoComplete demoCompleteCall ''bkt'' ''k'' ?b demoNamed demoMultipart ?s = (Inr r, s1)"
    using completeUpload_ok [of ?s demoMultipart demoParts demoNamed demoParts "''bkt''" demoCompleteCall demoComplete "''k''" ?b] s id by auto
  moreover have "ca_bodyErr demoCompleteCall = []" by (simp add: demoCompleteCall_def demoCall_def)
  ultimately have run: "handleCompleteMultipartUpload demoComplete demoCompleteCall ''bkt'' ''k'' ?s = (Inr r, s1)"
    unfolding handleCompleteMultipartUpload_def
    using demo1_get upl demoNamed_pick(3) by (simp add: run_simps s same readLimited_def) (simp add: demoComplete_def run_simps s upl)
  have ranges: "download_ranges (beeDownload (env_bee demoComplete)) (openContent demoStored)"
  proof -
    have "in_int64 (int (length body))" if "gm_get (fb_blobs demoStored) ref = Some body" for ref body
      using that by (auto simp: demoStored_def in_int64_def split: if_splits)
    then show ?thesis using fake_download_ranges [of demoStored] by (simp add: demoComplete_def)
  qed
  have up: "partsUploaded (openContent demoStored) demo8 ''u1''"
    by (simp add: partsUploaded_def demo8_def demoParts_def zeroPart_def demoStored_open minPartSize_def)
  have act: "\<not> bkt_ACT ?b" by code_simp
  have xml: "env_xmlComplete demoComplete (take (4 * 1024 * 1024) (ca_body demoCompleteCall)) = Some demoNamed"
    by (simp add: demoComplete_def)
  have clock: "\<forall>v \<in> set (mem_versions (srv_store ?s) ''bkt'' ''k''). \<forall>i. obj_VSeq v \<le> env_clock demoComplete i"
  proof -
    have "mem_versions demo1 ''bkt'' ''k'' = []" by code_simp
    then show ?thesis by (simp add: s same)
  qed
  obtain parts s3 where parts: "map part_PartNumber parts = map cp_PartNumber demoNamed"
    "\<forall>p \<in> set parts. hasPart demo8 ''u1'' p"
    "handleGetObject demoComplete demoGet ''bkt'' ''k'' True s1 = (Inr (200, Bytes (concat (map (openContent demoStored \<circ> part_SwarmRef) parts))), s3)"
    using complete_then_get [of ?s "''bkt''" ?b "''k''" demoComplete demoCompleteCall demoNamed demoMultipart "openContent demoStored" r s1 s1 demoGet]
      demo8_wf demo1_get act clock xml upl ranges up run by (auto simp: s same id)
  obtain p q where pq: "parts = [p, q]" "part_PartNumber p = 1" "part_PartNumber q = 3"
    using parts(1) by (auto simp: demoNamed_def)
  then have "p = demoParts ! 0" "q = demoParts ! 1" using parts(2) by (auto simp: hasPart_def demo8_def)
  then have "concat (map (openContent demoStored \<circ> part_SwarmRef) parts) = demoBytes @ ''tail''"
    by (simp add: pq demoParts_def zeroPart_def demoStored_open)
  with parts(3) run show ?thesis by simp
qed

end
