(* ===== verification/Spec2Isabelle.thy ===== *)
theory Spec2Isabelle
  imports Index_Props Multipart_Props
begin

text \<open>
  A model of s3warm, an S3 gateway that keeps objects on Swarm.

  \<^bold>\<open>The program.\<close> A request is authenticated (internal/auth), dispatched to a handler (internal/api), which reads and changes a
  metadata index (internal/store) and moves bytes to and from a Bee node (internal/bee). Uploads pay with a postage batch that
  is checked first, and two keepers look after the batches and the chequebook of the node (internal/stamp). A committer writes
  every changed bucket to Swarm as a chain of commits (internal/manifest), in which references that hold keys are sealed for a
  recovery recipient (internal/recovery). The program is configured and put together in internal/config and cmd/s3warm;
  cmd/fakebee is a node for the integration tests.

  \<^bold>\<open>How code is modelled.\<close> A struct is a record whose selectors carry a prefix (\<open>obj_Key\<close> is the field Key of store.Object), a Go map
  an association list with distinct keys, a string a list of bytes, a call with an error a sum with the error on the left. Go's
  int and int64 are \<open>int\<close> with \<open>wrap64\<close> where an operation can leave the range; a float64 is a rational, an infinity or NaN. A handler
  is a function from the server's state to an answer or an S3 error and the state after it; a definition has the name of the
  function it translates. A panic that closes the connection is the reply \<open>Unanswered\<close>. What the code reads from outside, the clock,
  random bytes, hashes, ciphers, XML and JSON, the transport, is an argument (records \<open>Env\<close>, \<open>Client\<close>, \<open>crypto\<close>, \<open>manifest_lib\<close>,
  \<open>Codec\<close>, \<open>node_lib\<close>, \<open>os_env\<close>); what a property relies on of them is a hypothesis of it.

  \<^bold>\<open>The theories.\<close>

  \<^item> Prelude, Go_Strings, Go_Encoding, Go_Http, Go_Floats: the parts of Go and its packages that the program uses.
  \<^item> Store_Types, Memory: the rows, errors and write conditions of store.go and the in-memory index of memory.go, with its
    invariant \<open>memory_wf\<close>. Memory_Props: its invariant over all sequences of calls, reads, writes, conditions, listings, restores.
  \<^item> Index_Table: the abstract index, one table per kind of row, and what the interface Store promises of each call, as the
    locale \<open>index_contract\<close>; the locale \<open>index_pair\<close> proves once that two implementations of the contract answer alike. Memory_Table
    interprets it for the in-memory index.
  \<^item> Sql_Rows, Sqlite, Postgres: the rows and statements of sqlite.go and postgres.go, a definition for each method, and the
    migration to versioned objects. Sql_Table, Sqlite_Table, Index_Props: their invariant, the interpretations of the
    contract for both, the agreement of the three indexes, and two calls outside the contract on which they differ.
  \<^item> Api_Errors, Handlers: the S3 errors and their origin (errors.go), documents, the server's state and the steps of handlers.
  \<^item> Sigv4, Chunked: the verifier of Signature Version 4 and the decoder of signed chunks.
  \<^item> Bee_Client, Stamps: the calls of the client of the node, the manager of batches, the autopilot and the chequebook keeper.
  \<^item> Manifest, Committer: commit documents with sealing, the manifest and the way back, and the committer with its feed.
  \<^item> Ranges, Listing, Buckets, Snapshots, Objects, Multipart: the handlers, by the files of internal/api. The scan of a listing is proved
    in the locales \<open>object_listing\<close> and \<open>version_listing\<close>, which are interpreted on the in-memory index.
  \<^item> Server: dispatch, authentication and the response (server.go), and the credentials (credentials.go).
  \<^item> Server_Props, Handler_Props, Multipart_Props: properties of the server. A property of the index that each operation keeps is kept by
    every handler (locale \<open>bucket_property\<close>); a put is then read back, a completed upload is the concatenation of its parts.
  \<^item> Configuration: flags, environment and checks (config.go), the keepers' thresholds and the wiring of main.go.
  \<^item> Fake_Bee, Node_Props: the node of cmd/fakebee, every handler, behind the client; it satisfies what other theories assume of a node,
    and one top-up of the autopilot settles a batch on it.

  \<^bold>\<open>What the lemmas show.\<close> Invariants: the index stays well-formed under every request (C1) and its fields keep to their types. Refinement
  and equivalence: the in-memory index and both SQL indexes implement the same table and cannot be told apart by calls the
  contract covers; a listing is the list of its entries, cut into pages. Safety: tenants are separated, a signature is
  accepted only for a request that its key signed, commits publish no keys, a keeper never spends what it may not. Round trips: put and get,
  multipart completion and get, chunked encoding, commit and restore, upload to and download from the node. Bounds and errors: where the
  code wraps, panics or loses bytes, a theorem exhibits the input.

  \<^bold>\<open>Loops.\<close> Recursion is structural or has a measure. Three loops have fuel: the pages that \<open>CommitNow\<close> and
  \<open>bucketHasKeyBearingRefs\<close> read (\<open>listAll\<close>, \<open>anyKeyBearing\<close>), for which one page more than there are objects is enough, and \<open>clientList\<close>, a client that
  follows continuation tokens, for which one request more than there are entries is. The theorems prove that this fuel gives a result;
  the loops of the listing handlers are total functions.

  \<^bold>\<open>The contract of the indexes\<close> (\<open>sql_admits\<close>) leaves out what the code does not do alike: deleting a bucket that has snapshots, a version
  that is older than one of its key or has no id, restoring delete markers or two versions of a key, an upload id that is taken, and times or
  metadata that the text of a column does not keep. The handlers stay inside it but for the first, a clock that is set back, and a
  restore from a document that the gateway did not write.

  \<^bold>\<open>Not modelled.\<close> Logs and the counters of internal/metrics. The HTTP server, its timeouts and shutdown, the tickers of the keepers
  and of the committer (a tick is a function of the time), HEAD beyond the omitted body. Opening a database with its schema and its added columns, driver errors
  other than a broken key, and several gateways on one database at a time: each method and each handler is one step, as the locks of the
  in-memory index and the transactions of SQLite make the methods. The encodings XML and JSON, hashes, the age library, the mantaray
  manifest and the signing of feed updates are not part of the sources and are parameters. The response writers that
  only pass calls on are left out.
\<close>

end
